(* ===== verification/Prelude.thy ===== *)
theory Prelude
  imports Complex_Main "HOL-Library.AList"
begin

text \<open>
  Shared vocabulary of the development: Python exceptions as values, the error monad
  in which fallible code is written, timestamps, insertion-ordered dictionaries as
  association lists, and the generic facts on lists the component theories use.
\<close>

section \<open>Hints shared by the component theories\<close>

named_theorems step_simps \<open>unfolding rules of the error monad\<close>

section \<open>Exceptions\<close>

text \<open>
  One constructor per exception class the modelled code raises. The argument is the
  message; a message the source builds with an f-string keeps its fixed text. The
  classes \<open>GovernanceError\<close> and \<open>UnknownContractError\<close> derive from \<open>ValueError\<close>
  in the source, which \<open>is_value_error\<close> records for the handlers that catch
  \<open>ValueError\<close>.
\<close>

datatype exn =
    ValueError string
  | TypeError string
  | LookupError string
  | RuntimeError string
  | DecimalError string
  | ZeroDivision
  | GovernanceError string
  | UnknownContractError string
  | SequenceGapError string
  | DataQualityError string
  | DomainError string
  | ConcurrentModification string
  | IdempotencyConflict string
  | ContextRejected string
  | IntegrityError string

fun is_value_error :: "exn \<Rightarrow> bool" where
  "is_value_error (ValueError m) = True"
| "is_value_error (GovernanceError m) = True"
| "is_value_error (UnknownContractError m) = True"
| "is_value_error (IdempotencyConflict m) = True"
| "is_value_error _ = False"

fun is_decimal_error :: "exn \<Rightarrow> bool" where
  "is_decimal_error (DecimalError m) = True"
| "is_decimal_error _ = False"

fun exn_message :: "exn \<Rightarrow> string" where
  "exn_message (ValueError m) = m"
| "exn_message (TypeError m) = m"
| "exn_message (LookupError m) = m"
| "exn_message (RuntimeError m) = m"
| "exn_message (DecimalError m) = m"
| "exn_message ZeroDivision = ''division by zero''"
| "exn_message (GovernanceError m) = m"
| "exn_message (UnknownContractError m) = m"
| "exn_message (SequenceGapError m) = m"
| "exn_message (DataQualityError m) = m"
| "exn_message (DomainError m) = m"
| "exn_message (ConcurrentModification m) = m"
| "exn_message (IdempotencyConflict m) = m"
| "exn_message (ContextRejected m) = m"
| "exn_message (IntegrityError m) = m"

fun is_unknown_contract :: "exn \<Rightarrow> bool" where
  "is_unknown_contract (UnknownContractError m) = True"
| "is_unknown_contract _ = False"

type_synonym 'a result = "exn + 'a"

definition rbind :: "'a result \<Rightarrow> ('a \<Rightarrow> 'b result) \<Rightarrow> 'b result" where
  "rbind m f = (case m of Inl e \<Rightarrow> Inl e | Inr x \<Rightarrow> f x)"

text \<open>\<open>require ok e\<close> is the source's \<open>if not ok: raise e\<close>.\<close>

definition require :: "bool \<Rightarrow> exn \<Rightarrow> unit result" where
  "require ok e = (if ok then Inr () else Inl e)"

lemma rbind_Inl [simp, step_simps]: "rbind (Inl e) f = Inl e"
  by (simp add: rbind_def)

lemma rbind_Inr [simp, step_simps]: "rbind (Inr x) f = f x"
  by (simp add: rbind_def)

lemma rbind_eq_Inr [step_simps]: "rbind m f = Inr y \<longleftrightarrow> (\<exists>x. m = Inr x \<and> f x = Inr y)"
  by (cases m) auto

lemma rbind_eq_Inl: "rbind m f = Inl e \<longleftrightarrow> m = Inl e \<or> (\<exists>x. m = Inr x \<and> f x = Inl e)"
  by (cases m) auto

lemma require_eq_Inr [simp, step_simps]: "require ok e = Inr u \<longleftrightarrow> ok"
  by (simp add: require_def)

lemma require_eq_Inl [simp, step_simps]: "require ok e = Inl e' \<longleftrightarrow> \<not> ok \<and> e' = e"
  by (auto simp: require_def)

lemma require_True [simp]: "require True e = Inr ()"
  by (simp add: require_def)

lemma require_False [simp]: "require False e = Inl e"
  by (simp add: require_def)

text \<open>A list traversed by a fallible step: the first error stops it.\<close>

fun rfold :: "('s \<Rightarrow> 'a \<Rightarrow> 's result) \<Rightarrow> 's \<Rightarrow> 'a list \<Rightarrow> 's result" where
  "rfold f s [] = Inr s"
| "rfold f s (x # xs) = rbind (f s x) (\<lambda>s'. rfold f s' xs)"

lemma rfold_invariant:
  assumes "rfold f s xs = Inr t" and "I s"
    and "\<And>s x s'. x \<in> set xs \<Longrightarrow> I s \<Longrightarrow> f s x = Inr s' \<Longrightarrow> I s'"
  shows "I t"
  using assms
proof (induction xs arbitrary: s)
  case Nil
  then show ?case by simp
next
  case (Cons x xs)
  then obtain s' where s': "f s x = Inr s'" and t: "rfold f s' xs = Inr t"
    by (auto simp: rbind_eq_Inr)
  have "I s'" by (rule Cons.prems(3) [of x s]) (use Cons.prems(2) s' in simp_all)
  with t show ?case by (rule Cons.IH) (use Cons.prems(3) in auto)
qed

lemma rfold_append:
  "rfold f s (xs @ ys) = rbind (rfold f s xs) (\<lambda>s'. rfold f s' ys)"
proof (induction xs arbitrary: s)
  case Nil
  then show ?case by simp
next
  case (Cons x xs)
  then show ?case by (cases "f s x") simp_all
qed

section \<open>Timestamps\<close>

text \<open>
  A Python \<open>datetime\<close> counted in microseconds: naive (wall clock only) or aware (the
  instant it denotes and its UTC offset). A \<open>timedelta\<close> is an \<open>int\<close> of
  microseconds. Aware values are compared by their instants.
\<close>

datatype datetime = Naive int | Aware int int

fun instant :: "datetime \<Rightarrow> int" where
  "instant (Naive w) = w"
| "instant (Aware i off) = i"

fun is_aware :: "datetime \<Rightarrow> bool" where
  "is_aware (Naive w) = False"
| "is_aware (Aware i off) = True"

fun is_utc :: "datetime \<Rightarrow> bool" where
  "is_utc (Naive w) = False"
| "is_utc (Aware i off) = (off = 0)"

definition dt_plus :: "datetime \<Rightarrow> int \<Rightarrow> datetime" where
  "dt_plus d delta = (case d of Naive w \<Rightarrow> Naive (w + delta) | Aware i off \<Rightarrow> Aware (i + delta) off)"

text \<open>Ordering a naive against an aware datetime raises \<open>TypeError\<close>.\<close>

definition comparable :: "datetime \<Rightarrow> datetime \<Rightarrow> bool" where
  "comparable d e = (is_aware d = is_aware e)"

abbreviation mixed_datetimes :: exn where
  "mixed_datetimes \<equiv> TypeError ''can't compare offset-naive and offset-aware datetimes''"

lemma instant_dt_plus [simp]: "instant (dt_plus d delta) = instant d + delta"
  by (cases d) (simp_all add: dt_plus_def)

lemma is_utc_is_aware: "is_utc d \<Longrightarrow> is_aware d"
  by (cases d) simp_all

abbreviation seconds :: "int \<Rightarrow> int" where
  "seconds n \<equiv> n * 1000000"

abbreviation hours :: "int \<Rightarrow> int" where
  "hours n \<equiv> n * 3600000000"

section \<open>Strings\<close>

text \<open>
  \<open>str.strip()\<close> on the ASCII whitespace characters, and the field type
  \<open>NonEmpty\<close> of the governance records: stripped, then at least one character.
\<close>

definition is_space :: "char \<Rightarrow> bool" where
  "is_space c = (c \<in> {CHR '' '', CHR 0x09, CHR 0x0A, CHR 0x0B, CHR 0x0C, CHR 0x0D})"

definition strip :: "string \<Rightarrow> string" where
  "strip s = rev (dropWhile is_space (rev (dropWhile is_space s)))"

definition non_empty :: "string \<Rightarrow> string result" where
  "non_empty s = (if strip s = [] then Inl (ValueError ''string too short'') else Inr (strip s))"

text \<open>The truth value of a \<open>str | None\<close>: \<open>None\<close> and the empty string are falsy.\<close>

definition truthy :: "string option \<Rightarrow> bool" where
  "truthy s = (s \<noteq> None \<and> s \<noteq> Some [])"

fun prefix_of :: "string \<Rightarrow> string \<Rightarrow> bool" where
  "prefix_of [] s = True"
| "prefix_of (c # cs) [] = False"
| "prefix_of (c # cs) (d # ds) = (c = d \<and> prefix_of cs ds)"

lemma prefix_of_iff: "prefix_of p s \<longleftrightarrow> (\<exists>t. s = p @ t)"
  by (induction p s rule: prefix_of.induct) auto

text \<open>
  Enum and string orders: \<open>str_less\<close> is Python's lexicographic comparison of
  strings by code point.
\<close>

fun str_less :: "string \<Rightarrow> string \<Rightarrow> bool" where
  "str_less s [] = False"
| "str_less [] (d # ds) = True"
| "str_less (c # cs) (d # ds) =
     (of_char c < (of_char d :: nat) \<or> (c = d \<and> str_less cs ds))"

lemma str_less_irrefl [simp]: "\<not> str_less s s"
  by (induction s) auto

lemma str_less_linear: "s = t \<or> str_less s t \<or> str_less t s"
proof (induction s t rule: str_less.induct)
  case (1 s)
  then show ?case by (cases s) auto
next
  case (3 c cs d ds)
  then show ?case
    by (cases "of_char c = (of_char d :: nat)") (auto simp: not_less_iff_gr_or_eq)
qed simp

lemma str_less_trans: "str_less s t \<Longrightarrow> str_less t u \<Longrightarrow> str_less s u"
proof (induction s t arbitrary: u rule: str_less.induct)
  case (1 s)
  then show ?case by simp
next
  case (2 d ds)
  then show ?case by (cases u) auto
next
  case (3 c cs d ds)
  then show ?case by (cases u) auto
qed

section \<open>Lists\<close>

text \<open>\<open>unique xs\<close> is the source's \<open>len(xs) == len(set(xs))\<close>.\<close>

definition unique :: "'a list \<Rightarrow> bool" where
  "unique xs = (length xs = length (remdups xs))"

lemma unique_iff_distinct [simp]: "unique xs \<longleftrightarrow> distinct xs"
proof -
  have "length (remdups xs) = length xs \<longleftrightarrow> remdups xs = xs"
    using length_remdups_eq by blast
  then show ?thesis
    unfolding unique_def by (metis distinct_remdups distinct_remdups_id)
qed

lemma sorted_sort_key_hd:
  assumes "xs \<noteq> []" and "x \<in> set xs"
  shows "f (hd (sort_key f xs)) \<le> f x"
proof -
  have "x \<in> set (sort_key f xs)" using assms(2) by simp
  then obtain y ys where ys: "sort_key f xs = y # ys" by (cases "sort_key f xs") auto
  have "sorted (map f (y # ys))" by (metis sorted_sort_key ys)
  with ys \<open>x \<in> set (sort_key f xs)\<close> show ?thesis by auto
qed

text \<open>\<open>str(n)\<close> of a nonnegative integer.\<close>

fun show_nat :: "nat \<Rightarrow> string" where
  "show_nat n = (if n < 10 then [char_of (48 + n)] else show_nat (n div 10) @ [char_of (48 + n mod 10)])"

declare show_nat.simps [simp del]

section \<open>Dictionaries\<close>

text \<open>
  A Python dict is an association list in insertion order: \<open>map_of\<close> looks a key up,
  \<open>AList.update\<close> overwrites in place or appends, \<open>AList.delete\<close> removes.
\<close>

abbreviation dict_get :: "('k \<times> 'v) list \<Rightarrow> 'k \<Rightarrow> 'v option" where
  "dict_get d k \<equiv> map_of d k"

abbreviation dict_set :: "'k \<Rightarrow> 'v \<Rightarrow> ('k \<times> 'v) list \<Rightarrow> ('k \<times> 'v) list" where
  "dict_set k v d \<equiv> AList.update k v d"

abbreviation dict_del :: "'k \<Rightarrow> ('k \<times> 'v) list \<Rightarrow> ('k \<times> 'v) list" where
  "dict_del k d \<equiv> AList.delete k d"

abbreviation dict_keys :: "('k \<times> 'v) list \<Rightarrow> 'k list" where
  "dict_keys d \<equiv> map fst d"

lemma dict_get_set: "dict_get (dict_set k v d) j = (if j = k then Some v else dict_get d j)"
  by (simp add: update_conv')

lemma dict_get_del: "dict_get (dict_del k d) j = (if j = k then None else dict_get d j)"
  by (simp add: delete_conv')

lemma distinct_dict_set: "distinct (dict_keys d) \<Longrightarrow> distinct (dict_keys (dict_set k v d))"
  by (rule distinct_update)

lemma distinct_dict_del: "distinct (dict_keys d) \<Longrightarrow> distinct (dict_keys (dict_del k d))"
  by (rule distinct_delete)

lemma set_dict_set:
  "distinct (dict_keys d) \<Longrightarrow> set (dict_set k v d) = insert (k, v) {p \<in> set d. fst p \<noteq> k}"
  by (induction d) force+

lemma set_dict_del: "set (dict_del k d) = {p \<in> set d. fst p \<noteq> k}"
  by (auto simp: AList.delete_eq)

lemma dict_keys_set: "set (dict_keys (dict_set k v d)) = insert k (set (dict_keys d))"
  by (induction d) auto

lemma dict_keys_overwrite: "dict_get d k = Some v \<Longrightarrow> dict_keys (dict_set k w d) = dict_keys d"
  by (induction d) (auto split: if_splits)

lemma in_keys: "(i, x) \<in> set d \<Longrightarrow> i \<in> set (dict_keys d)"
  by force

lemma dict_get_map: "dict_get (map (\<lambda>(j, t). (j, f j t)) d) k = map_option (f k) (dict_get d k)"
  by (induction d) auto

lemma dict_get_snoc: "dict_get d k = None \<Longrightarrow> dict_get (d @ [(k, v)]) j = (if j = k then Some v else dict_get d j)"
  by (simp add: map_add_def split: option.split)

lemma map_overwrite:
  "dict_get d k = Some v \<Longrightarrow> h w = h v \<Longrightarrow> map (\<lambda>(_, x). h x) (dict_set k w d) = map (\<lambda>(_, x). h x) d"
  by (induction d) (auto split: if_splits)

section \<open>Comprehensions that may raise, and grouping\<close>

fun map_result :: "('a \<Rightarrow> 'b result) \<Rightarrow> 'a list \<Rightarrow> 'b list result" where
  "map_result f [] = Inr []"
| "map_result f (x # xs) = rbind (f x) (\<lambda>y. rbind (map_result f xs) (\<lambda>ys. Inr (y # ys)))"

fun filter_result :: "('a \<Rightarrow> bool result) \<Rightarrow> 'a list \<Rightarrow> 'a list result" where
  "filter_result p [] = Inr []"
| "filter_result p (x # xs) =
     rbind (p x) (\<lambda>keep. rbind (filter_result p xs) (\<lambda>ys. Inr (if keep then x # ys else ys)))"

lemma map_result_Inr:
  "map_result f xs = Inr ys \<longleftrightarrow> list_all2 (\<lambda>x y. f x = Inr y) xs ys"
  by (induction xs arbitrary: ys) (auto simp: rbind_eq_Inr list_all2_Cons1)

lemma map_result_map [simp]: "map_result f (map g xs) = map_result (\<lambda>x. f (g x)) xs"
  by (induction xs) simp_all

lemma map_result_pure: "(\<And>x. x \<in> set xs \<Longrightarrow> f x = Inr (g x)) \<Longrightarrow> map_result f xs = Inr (map g xs)"
  by (induction xs) simp_all

lemma map_result_ok: "(\<exists>ys. map_result f xs = Inr ys) \<longleftrightarrow> (\<forall>x \<in> set xs. \<exists>y. f x = Inr y)"
  by (induction xs) (auto simp: rbind_eq_Inr)

lemma filter_result_Inr:
  "(\<And>x. x \<in> set xs \<Longrightarrow> p x = Inr (q x)) \<Longrightarrow> filter_result p xs = Inr (List.filter q xs)"
  by (induction xs) simp_all

text \<open>
  \<open>d.setdefault(key(x), []).append(x)\<close>: the elements of a list under their key, in order.
\<close>

definition group_append :: "('a \<Rightarrow> 'k) \<Rightarrow> ('k \<times> 'a list) list \<Rightarrow> 'a \<Rightarrow> ('k \<times> 'a list) list" where
  "group_append key d x =
     (let old = (case dict_get d (key x) of None \<Rightarrow> [] | Some xs \<Rightarrow> xs)
      in dict_set (key x) (old @ [x]) d)"

lemma group_append_get:
  "dict_get (foldl (group_append key) d xs) k =
     (let old = (case dict_get d k of None \<Rightarrow> [] | Some ys \<Rightarrow> ys);
          new = List.filter (\<lambda>x. key x = k) xs
      in if dict_get d k = None \<and> new = [] then None else Some (old @ new))"
  by (induction xs arbitrary: d)
    (auto simp: group_append_def dict_get_set Let_def split: option.splits)

lemma group_keys_distinct:
  "distinct (dict_keys d) \<Longrightarrow> distinct (dict_keys (foldl (group_append key) d xs))"
  by (induction xs arbitrary: d) (simp_all add: group_append_def Let_def distinct_dict_set)

lemma grouped:
  "set (foldl (group_append key) [] xs) = {(k, List.filter (\<lambda>x. key x = k) xs) | k. k \<in> key ` set xs}"
proof -
  have d: "distinct (dict_keys (foldl (group_append key) [] xs))" by (rule group_keys_distinct) simp
  have "(k, vs) \<in> set (foldl (group_append key) [] xs)
      \<longleftrightarrow> List.filter (\<lambda>x. key x = k) xs \<noteq> [] \<and> vs = List.filter (\<lambda>x. key x = k) xs" for k vs
    using map_of_eq_Some_iff [OF d, of k vs] group_append_get [of key "[]" xs k]
    by (auto simp: Let_def split: if_splits)
  moreover have "List.filter (\<lambda>x. key x = k) xs \<noteq> [] \<longleftrightarrow> k \<in> key ` set xs" for k
    by (auto simp: filter_empty_conv)
  ultimately show ?thesis by auto
qed

lemma filter_sort_length: "length (List.filter P (sort_key f xs)) = length (List.filter P xs)"
  by (metis filter_sort length_sort)

end
