(* ===== verification/Decimals.thy ===== *)
theory Decimals
  imports Prelude
begin

text \<open>
  Python's \<open>decimal.Decimal\<close> at the context the code runs in: 28 significant digits,
  \<open>ROUND_HALF_EVEN\<close> (the module's default context, and the one \<open>DeterministicBacktest\<close>
  installs explicitly). A finite Decimal is its numerical value, a rational, on which
  \<open>==\<close>, \<open><\<close> and hashing agree with Python; an arithmetic operation rounds the exact
  result once with \<open>dround\<close>. Trailing zeros, signed zeros and the exponent limits
  of \<open>10 ^ 999999\<close> are not represented.
\<close>

section \<open>Powers of ten\<close>

definition p10 :: "int \<Rightarrow> rat" where
  "p10 e = 10 powi e"

lemma p10_pos [simp]: "0 < p10 e"
  by (simp add: p10_def)

lemma p10_nonneg [simp]: "0 \<le> p10 e"
  by (simp add: less_imp_le)

lemma p10_nz [simp]: "p10 e \<noteq> 0"
  using p10_pos [of e] by linarith

lemma p10_add: "p10 (a + b) = p10 a * p10 b"
  by (simp add: p10_def power_int_add)

lemma p10_diff: "p10 (a - b) = p10 a / p10 b"
  by (simp add: p10_def power_int_diff)

lemma p10_0 [simp]: "p10 0 = 1"
  by (simp add: p10_def)

lemma p10_nat: "p10 (int n) = 10 ^ n"
  by (simp add: p10_def)

lemma p10_nonneg_nat: "0 \<le> e \<Longrightarrow> p10 e = 10 ^ nat e"
  by (simp add: p10_def power_int_def)

lemma p10_nonneg_int: "0 \<le> e \<Longrightarrow> p10 e = of_int (10 ^ nat e)"
  by (simp add: p10_nonneg_nat)

lemma p10_ge_1: "0 \<le> e \<Longrightarrow> 1 \<le> p10 e"
  by (simp add: p10_nonneg_nat)

lemma p10_mono: "a \<le> b \<Longrightarrow> p10 a \<le> p10 b"
proof -
  assume "a \<le> b"
  then have "1 \<le> p10 (b - a)" by (simp add: p10_ge_1)
  then show ?thesis by (simp add: p10_diff)
qed

lemma p10_strict_mono: "a < b \<Longrightarrow> p10 a < p10 b"
proof -
  assume "a < b"
  then have "p10 (a + 1) \<le> p10 b" by (intro p10_mono) simp
  moreover have "p10 (a + 1) = 10 * p10 a" by (simp add: p10_add) (simp add: p10_def)
  moreover have "0 < p10 a" by simp
  ultimately show ?thesis by linarith
qed

lemma p10_less_cancel: "p10 a < p10 b \<longleftrightarrow> a < b"
  by (metis linorder_not_less p10_mono p10_strict_mono)

section \<open>The adjusted exponent\<close>

fun ndigits :: "nat \<Rightarrow> nat" where
  "ndigits n = (if n < 10 then 1 else Suc (ndigits (n div 10)))"

declare ndigits.simps [simp del]

lemma ndigits_bounds: "0 < n \<Longrightarrow> 10 ^ (ndigits n - 1) \<le> n \<and> n < 10 ^ ndigits n"
proof (induction n rule: ndigits.induct)
  case (1 n)
  show ?case
  proof (cases "n < 10")
    case True
    with "1.prems" show ?thesis by (simp add: ndigits.simps [of n])
  next
    case False
    let ?m = "n div 10"
    have m: "0 < ?m" using False by (simp add: div_greater_zero_iff)
    with False "1.IH" have IH: "10 ^ (ndigits ?m - 1) \<le> ?m" "?m < 10 ^ ndigits ?m" by auto
    have pos: "0 < ndigits ?m" by (simp add: ndigits.simps [of ?m])
    have e: "ndigits n = Suc (ndigits ?m)" using False by (simp add: ndigits.simps [of n])
    have "10 ^ ndigits ?m = (10::nat) * 10 ^ (ndigits ?m - 1)"
      using pos by (simp flip: power_Suc)
    moreover have "10 * ?m \<le> n" "n < 10 * ?m + 10" by simp_all
    moreover have "10 ^ (ndigits n - 1) = (10::nat) ^ ndigits ?m" "10 ^ ndigits n = (10::nat) * 10 ^ ndigits ?m"
      by (simp_all add: e)
    ultimately show ?thesis using IH by linarith
  qed
qed

definition adjusted :: "rat \<Rightarrow> int" where
  "adjusted x =
     (let (n, d) = quotient_of x;
          e = int (ndigits (nat n)) - int (ndigits (nat d))
      in if p10 e \<le> x then e else e - 1)"

lemma adjusted_bounds:
  assumes "0 < x"
  shows "p10 (adjusted x) \<le> x" and "x < p10 (adjusted x + 1)"
proof -
  obtain n d where q: "quotient_of x = (n, d)" by (cases "quotient_of x")
  have d: "0 < d" using q by (rule quotient_of_denom_pos)
  have x: "x = of_int n / of_int d" using q by (rule quotient_of_div)
  have n: "0 < n" using assms d x by (simp add: zero_less_divide_iff)
  let ?N = "ndigits (nat n)" and ?D = "ndigits (nat d)"
  have bn: "10 ^ (?N - 1) \<le> nat n" "nat n < 10 ^ ?N"
    using ndigits_bounds [of "nat n"] n by auto
  have bd: "10 ^ (?D - 1) \<le> nat d" "nat d < 10 ^ ?D"
    using ndigits_bounds [of "nat d"] d by auto
  have posN: "0 < ?N" and posD: "0 < ?D" by (simp_all add: ndigits.simps)
  have n1: "p10 (int ?N - 1) \<le> of_int n"
  proof -
    have "(10::int) ^ (?N - 1) \<le> n" using bn(1) n by (simp add: le_nat_iff)
    then have "of_int (10 ^ (?N - 1)) \<le> (of_int n :: rat)" by (simp only: of_int_le_iff)
    moreover have "int ?N - 1 = int (?N - 1)" using posN by simp
    ultimately show ?thesis by (simp only: p10_nat) simp
  qed
  have n2: "of_int n < p10 (int ?N)"
  proof -
    have "n < (10::int) ^ ?N" using bn(2) n by (simp add: nat_less_iff)
    then have "(of_int n :: rat) < of_int (10 ^ ?N)" by (simp only: of_int_less_iff)
    then show ?thesis by (simp add: p10_nat)
  qed
  have d1: "p10 (int ?D - 1) \<le> of_int d"
  proof -
    have "(10::int) ^ (?D - 1) \<le> d" using bd(1) d by (simp add: le_nat_iff)
    then have "of_int (10 ^ (?D - 1)) \<le> (of_int d :: rat)" by (simp only: of_int_le_iff)
    moreover have "int ?D - 1 = int (?D - 1)" using posD by simp
    ultimately show ?thesis by (simp only: p10_nat) simp
  qed
  have d2: "of_int d < p10 (int ?D)"
  proof -
    have "d < (10::int) ^ ?D" using bd(2) d by (simp add: nat_less_iff)
    then have "(of_int d :: rat) < of_int (10 ^ ?D)" by (simp only: of_int_less_iff)
    then show ?thesis by (simp add: p10_nat)
  qed
  let ?e = "int ?N - int ?D"
  have up: "x < p10 (?e + 1)"
  proof -
    have "x < p10 (int ?N) / of_int d" using n2 d by (simp add: x divide_strict_right_mono)
    also have "\<dots> \<le> p10 (int ?N) / p10 (int ?D - 1)" using d1 by (intro divide_left_mono) (use d in auto)
    also have "\<dots> = p10 (?e + 1)" by (simp add: algebra_simps flip: p10_diff)
    finally show ?thesis .
  qed
  have lo: "p10 (?e - 1) \<le> x"
  proof -
    have "p10 (?e - 1) = p10 (int ?N - 1) / p10 (int ?D)" by (simp add: algebra_simps flip: p10_diff)
    also have "\<dots> \<le> p10 (int ?N - 1) / of_int d" using d2 d by (intro divide_left_mono) auto
    also have "\<dots> \<le> x" using n1 d by (simp add: x divide_right_mono)
    finally show ?thesis .
  qed
  have a: "adjusted x = (if p10 ?e \<le> x then ?e else ?e - 1)"
    by (simp add: adjusted_def q Let_def)
  show "p10 (adjusted x) \<le> x" using lo by (simp add: a)
  show "x < p10 (adjusted x + 1)" using up by (simp add: a)
qed

lemma adjusted_unique:
  assumes "p10 e \<le> x" and "x < p10 (e + 1)"
  shows "adjusted x = e"
proof -
  have "0 < x" using assms(1) p10_pos [of e] by linarith
  then have "p10 (adjusted x) \<le> x" "x < p10 (adjusted x + 1)" by (rule adjusted_bounds)+
  with assms have "p10 e < p10 (adjusted x + 1)" "p10 (adjusted x) < p10 (e + 1)" by linarith+
  then show ?thesis by (simp add: p10_less_cancel)
qed

lemma adjusted_mono: "0 < x \<Longrightarrow> x \<le> y \<Longrightarrow> adjusted x \<le> adjusted y"
proof -
  assume "0 < x" "x \<le> y"
  then have "p10 (adjusted x) < p10 (adjusted y + 1)"
    using adjusted_bounds [of x] adjusted_bounds [of y] by linarith
  then show ?thesis by (simp add: p10_less_cancel)
qed

section \<open>Rounding half to even\<close>

definition half_even :: "rat \<Rightarrow> int" where
  "half_even y =
     (let f = \<lfloor>y\<rfloor>; r = y - of_int f
      in if r < 1 / 2 then f else if 1 / 2 < r then f + 1 else if even f then f else f + 1)"

lemma half_even_of_int [simp]: "half_even (of_int n) = n"
  by (simp add: half_even_def)

lemma half_even_error: "\<bar>of_int (half_even y) - y\<bar> \<le> 1 / 2"
proof -
  have b: "of_int \<lfloor>y\<rfloor> \<le> y" "y < of_int \<lfloor>y\<rfloor> + 1" by linarith+
  show ?thesis using b unfolding half_even_def Let_def abs_le_iff by (simp, linarith)
qed

lemma half_even_ge: "of_int n \<le> y \<Longrightarrow> n \<le> half_even y"
  by (simp add: half_even_def Let_def le_floor_iff) linarith

lemma half_even_le: "y \<le> of_int n \<Longrightarrow> half_even y \<le> n"
proof -
  assume y: "y \<le> of_int n"
  have f: "of_int \<lfloor>y\<rfloor> \<le> y" by linarith
  have "half_even y \<le> \<lfloor>y\<rfloor> \<or> (half_even y = \<lfloor>y\<rfloor> + 1 \<and> of_int \<lfloor>y\<rfloor> < y)"
    by (auto simp: half_even_def Let_def)
  moreover have "\<lfloor>y\<rfloor> \<le> n" using y by linarith
  moreover have "of_int \<lfloor>y\<rfloor> < y \<Longrightarrow> \<lfloor>y\<rfloor> + 1 \<le> n"
    using y f by linarith
  ultimately show ?thesis by auto
qed

lemma half_even_mono: "x \<le> y \<Longrightarrow> half_even x \<le> half_even y"
proof -
  assume xy: "x \<le> y"
  then have "\<lfloor>x\<rfloor> \<le> \<lfloor>y\<rfloor>" by (rule floor_mono)
  show ?thesis
  proof (cases "\<lfloor>x\<rfloor> = \<lfloor>y\<rfloor>")
    case True
    with xy show ?thesis by (auto simp: half_even_def Let_def)
  next
    case False
    with \<open>\<lfloor>x\<rfloor> \<le> \<lfloor>y\<rfloor>\<close> have "\<lfloor>x\<rfloor> + 1 \<le> \<lfloor>y\<rfloor>" by simp
    moreover have "half_even x \<le> \<lfloor>x\<rfloor> + 1" by (simp add: half_even_def Let_def)
    moreover have "\<lfloor>y\<rfloor> \<le> half_even y" by (simp add: half_even_def Let_def)
    ultimately show ?thesis by linarith
  qed
qed

lemma half_even_minus: "half_even (- y) = - half_even y"
proof (cases "y = of_int \<lfloor>y\<rfloor>")
  case True
  then show ?thesis by (metis half_even_of_int of_int_minus)
next
  case False
  have "of_int \<lfloor>y\<rfloor> < y" "y < of_int \<lfloor>y\<rfloor> + 1" using False by linarith+
  then have f: "\<lfloor>- y\<rfloor> = - \<lfloor>y\<rfloor> - 1" by (intro floor_unique) simp_all
  show ?thesis by (auto simp: half_even_def Let_def f)
qed

section \<open>Rounding to the context precision\<close>

definition prec :: int where
  "prec = 28"

definition ulp :: "rat \<Rightarrow> rat" where
  "ulp x = p10 (adjusted \<bar>x\<bar> - (prec - 1))"

definition dround :: "rat \<Rightarrow> rat" where
  "dround x = (if x = 0 then 0 else of_int (half_even (x / ulp x)) * ulp x)"

text \<open>A value with at most 28 significant digits.\<close>

definition fits :: "rat \<Rightarrow> bool" where
  "fits x = (\<exists>m e. x = of_int m * p10 e \<and> \<bar>m\<bar> \<le> 10 ^ 28)"

lemma ulp_pos [simp]: "0 < ulp x"
  by (simp add: ulp_def)

lemma ulp_nz [simp]: "ulp x \<noteq> 0"
  by (simp add: ulp_def)

lemma ulp_minus [simp]: "ulp (- x) = ulp x"
  by (simp add: ulp_def)

lemma dround_0 [simp]: "dround 0 = 0"
  by (simp add: dround_def)

lemma dround_minus: "dround (- x) = - dround x"
  by (simp add: dround_def half_even_minus)

lemma dround_error: "\<bar>dround x - x\<bar> \<le> ulp x / 2"
proof (cases "x = 0")
  case True
  then show ?thesis by (simp add: less_imp_le)
next
  case False
  have "dround x - x = (of_int (half_even (x / ulp x)) - x / ulp x) * ulp x"
    using False by (simp add: dround_def algebra_simps)
  then have "\<bar>dround x - x\<bar> = \<bar>of_int (half_even (x / ulp x)) - x / ulp x\<bar> * ulp x"
    by (simp only: abs_mult abs_of_pos [OF ulp_pos])
  also have "\<dots> \<le> 1 / 2 * ulp x"
    by (intro mult_right_mono half_even_error) (simp add: less_imp_le)
  finally show ?thesis by simp
qed

lemma scaled_bounds:
  assumes "0 < x"
  shows "10 ^ 27 \<le> x / ulp x" and "x / ulp x < 10 ^ 28"
proof -
  have b: "p10 (adjusted x) \<le> x" "x < p10 (adjusted x + 1)"
    using assms by (rule adjusted_bounds)+
  have u: "ulp x = p10 (adjusted x) / 10 ^ 27"
    using assms by (simp add: ulp_def prec_def p10_diff p10_nonneg_nat)
  show "10 ^ 27 \<le> x / ulp x" using b(1) by (simp add: u field_simps)
  have "x < 10 * p10 (adjusted x)" using b(2) by (simp add: p10_add) (simp add: p10_def)
  then show "x / ulp x < 10 ^ 28" by (simp add: u field_simps)
qed

lemma dround_lower:
  assumes "0 < x"
  shows "p10 (adjusted x) \<le> dround x"
proof -
  have "(of_int (10 ^ 27) :: rat) \<le> x / ulp x" using scaled_bounds(1) [OF assms] by simp
  then have "10 ^ 27 \<le> half_even (x / ulp x)" by (rule half_even_ge)
  then have "of_int (10 ^ 27) \<le> (of_int (half_even (x / ulp x)) :: rat)" by (simp only: of_int_le_iff)
  then have "of_int (10 ^ 27) * ulp x \<le> of_int (half_even (x / ulp x)) * ulp x"
    by (rule mult_right_mono) (simp add: less_imp_le)
  also have "\<dots> = dround x" using assms by (simp add: dround_def)
  finally have "of_int (10 ^ 27) * ulp x \<le> dround x" .
  moreover have "of_int (10 ^ 27) * ulp x = p10 (adjusted x)"
    using assms by (simp add: ulp_def prec_def p10_diff p10_nonneg_nat)
  ultimately show ?thesis by (simp only:)
qed

lemma dround_upper:
  assumes "0 < x"
  shows "dround x \<le> p10 (adjusted x + 1)"
proof -
  have "x / ulp x \<le> (of_int (10 ^ 28) :: rat)" using scaled_bounds(2) [OF assms] by simp
  then have "half_even (x / ulp x) \<le> 10 ^ 28" by (rule half_even_le)
  then have "(of_int (half_even (x / ulp x)) :: rat) \<le> of_int (10 ^ 28)" by (simp only: of_int_le_iff)
  then have "of_int (half_even (x / ulp x)) * ulp x \<le> of_int (10 ^ 28) * ulp x"
    by (rule mult_right_mono) (simp add: less_imp_le)
  moreover have "of_int (half_even (x / ulp x)) * ulp x = dround x"
    using assms by (simp add: dround_def)
  moreover have "of_int (10 ^ 28) * ulp x = p10 (adjusted x + 1)"
    using assms by (simp add: ulp_def prec_def p10_diff p10_add p10_nonneg_nat)
  ultimately show ?thesis by (simp only:)
qed

lemma dround_pos: "0 < x \<Longrightarrow> 0 < dround x"
  using dround_lower p10_pos by (metis less_le_trans)

lemma dround_mono_pos:
  assumes "0 < x" and "x \<le> y"
  shows "dround x \<le> dround y"
proof (cases "adjusted x = adjusted y")
  case True
  with assms have "ulp x = ulp y" by (simp add: ulp_def)
  moreover have "x / ulp y \<le> y / ulp y" using assms by (simp add: divide_right_mono less_imp_le)
  then have "half_even (x / ulp y) \<le> half_even (y / ulp y)" by (rule half_even_mono)
  ultimately show ?thesis using assms by (simp add: dround_def)
next
  case False
  with adjusted_mono [OF assms] have "adjusted x + 1 \<le> adjusted y" by simp
  then have "p10 (adjusted x + 1) \<le> p10 (adjusted y)" by (rule p10_mono)
  moreover have "0 < y" using assms by linarith
  ultimately show ?thesis using dround_upper [OF assms(1)] dround_lower [of y] by linarith
qed

lemma dround_nonneg: "0 \<le> x \<Longrightarrow> 0 \<le> dround x"
  by (cases "x = 0") (simp_all add: dround_pos less_imp_le)

lemma dround_mono: "x \<le> y \<Longrightarrow> dround x \<le> dround y"
proof -
  assume xy: "x \<le> y"
  consider "0 < x" | "y < 0" | "x \<le> 0" "0 \<le> y" by linarith
  then show ?thesis
  proof cases
    case 1
    with xy show ?thesis by (simp add: dround_mono_pos)
  next
    case 2
    with xy dround_mono_pos [of "- y" "- x"] show ?thesis by (simp add: dround_minus)
  next
    case 3
    then have "dround x \<le> 0" using dround_nonneg [of "- x"] by (simp add: dround_minus)
    with 3 dround_nonneg [of y] show ?thesis by linarith
  qed
qed

lemma dround_eq_0_iff [simp]: "dround x = 0 \<longleftrightarrow> x = 0"
  using dround_pos [of x] dround_pos [of "- x"] by (cases "x = 0") (auto simp: dround_minus neq_iff)

lemma dround_fits:
  assumes "fits x"
  shows "dround x = x"
proof (cases "x = 0")
  case True
  then show ?thesis by simp
next
  case False
  from assms obtain m e where x: "x = of_int m * p10 e" and m: "\<bar>m\<bar> \<le> 10 ^ 28"
    by (auto simp: fits_def)
  show ?thesis
  proof (cases "\<bar>m\<bar> = 10 ^ 28")
    case True
    then have ax: "\<bar>x\<bar> = p10 (e + 28)"
      by (simp add: x abs_mult p10_add p10_nonneg_nat flip: of_int_abs)
    then have "adjusted \<bar>x\<bar> = e + 28" by (intro adjusted_unique) (simp_all add: p10_strict_mono)
    then have "ulp x = p10 (e + 1)" by (simp add: ulp_def prec_def add.commute)
    moreover have "p10 (e + 28) = 10 ^ 27 * p10 (e + 1)" by (simp add: p10_add p10_nonneg_nat)
    ultimately have "\<bar>x\<bar> = of_int (10 ^ 27) * ulp x" by (simp add: ax)
    then have "x / ulp x = of_int (10 ^ 27) \<or> x / ulp x = of_int (- (10 ^ 27))"
      by (simp add: abs_if field_simps split: if_splits)
    then show ?thesis using False
      by (metis dround_def half_even_of_int nonzero_eq_divide_eq ulp_nz)
  next
    case small: False
    have "0 < \<bar>x\<bar>" using False by simp
    have "\<bar>of_int m :: rat\<bar> < 10 ^ 28"
      using m small by (metis abs_of_nonneg of_int_abs of_int_less_iff of_int_numeral of_int_power order_le_less)
    then have "\<bar>x\<bar> < p10 (e + 28)" by (simp add: x abs_mult p10_add p10_nonneg_nat)
    with adjusted_bounds(1) [OF \<open>0 < \<bar>x\<bar>\<close>] have "p10 (adjusted \<bar>x\<bar>) < p10 (e + 28)" by linarith
    then have le: "adjusted \<bar>x\<bar> - 27 \<le> e" by (simp add: p10_less_cancel)
    define k where "k = e - (adjusted \<bar>x\<bar> - 27)"
    have "x = of_int m * (p10 k * ulp x)"
      by (simp add: x ulp_def prec_def k_def flip: p10_add)
    moreover have "p10 k = of_int (10 ^ nat k)" using le by (simp add: p10_nonneg_int k_def)
    ultimately have "x / ulp x = of_int (m * 10 ^ nat k)"
      by (metis mult.assoc nonzero_mult_div_cancel_right of_int_mult ulp_nz)
    then show ?thesis using False
      by (metis dround_def half_even_of_int nonzero_eq_divide_eq ulp_nz)
  qed
qed

lemma fits_dround: "fits (dround x)"
proof -
  have pos: "fits (dround y)" if "0 < y" for y
  proof -
    have "10 ^ 27 \<le> y / ulp y" "y / ulp y < 10 ^ 28" using that by (rule scaled_bounds)+
    then have le: "y / ulp y \<le> of_int (10 ^ 28)" and ge: "of_int 0 \<le> y / ulp y" by simp_all
    have "half_even (y / ulp y) \<le> 10 ^ 28" "0 \<le> half_even (y / ulp y)"
      using half_even_le [OF le] half_even_ge [OF ge] by simp_all
    moreover have "dround y = of_int (half_even (y / ulp y)) * p10 (adjusted y - 27)"
      using that by (simp add: dround_def ulp_def prec_def)
    ultimately show ?thesis
      unfolding fits_def by (intro exI [of _ "half_even (y / ulp y)"] exI [of _ "adjusted y - 27"]) simp
  qed
  have neg: "fits (- z)" if "fits z" for z
    using that unfolding fits_def by (metis abs_minus_cancel mult_minus_left of_int_minus)
  consider "x = 0" | "0 < x" | "0 < - x" by linarith
  then show ?thesis
  proof cases
    case 1
    then show ?thesis by (auto simp: fits_def intro: exI [of _ 0])
  next
    case 2
    then show ?thesis by (rule pos)
  next
    case 3
    then have "fits (- dround x)" using pos [of "- x"] by (simp add: dround_minus)
    then show ?thesis using neg by fastforce
  qed
qed

lemma dround_idem [simp]: "dround (dround x) = dround x"
  by (rule dround_fits [OF fits_dround])

lemma fits_of_int: "\<bar>n\<bar> \<le> 10 ^ 28 \<Longrightarrow> fits (of_int n)"
  unfolding fits_def by (intro exI [of _ n] exI [of _ 0]) simp

lemma fits_scaled: "\<bar>m\<bar> \<le> 10 ^ 28 \<Longrightarrow> fits (of_int m / 10 ^ k)"
  unfolding fits_def
  by (intro exI [of _ m] exI [of _ "- int k"]) (simp add: p10_def power_int_minus_divide)

section \<open>The contract of a rounding mode\<close>

text \<open>
  What the financial components rely on: rounding is monotone, symmetric, idempotent and
  never flushes a nonzero value to zero. Signs, orderings and bounds by representable
  limits then survive every operation.
\<close>

locale rounding =
  fixes rnd :: "rat \<Rightarrow> rat"
  assumes rnd_mono: "x \<le> y \<Longrightarrow> rnd x \<le> rnd y"
    and rnd_minus: "rnd (- x) = - rnd x"
    and rnd_idem: "rnd (rnd x) = rnd x"
    and rnd_definite: "rnd x = 0 \<Longrightarrow> x = 0"
begin

lemma rnd_0: "rnd 0 = 0"
  using rnd_minus [of 0] by simp

lemma rnd_nonneg: "0 \<le> x \<Longrightarrow> 0 \<le> rnd x"
  using rnd_mono [of 0 x] by (simp add: rnd_0)

lemma rnd_nonpos: "x \<le> 0 \<Longrightarrow> rnd x \<le> 0"
  using rnd_mono [of x 0] by (simp add: rnd_0)

lemma rnd_pos_iff: "0 < rnd x \<longleftrightarrow> 0 < x"
  by (metis rnd_0 rnd_definite rnd_nonneg rnd_nonpos linorder_not_less order_le_less)

lemma rnd_neg_iff: "rnd x < 0 \<longleftrightarrow> x < 0"
  using rnd_pos_iff [of "- x"] by (simp add: rnd_minus)

lemma rnd_nonneg_iff: "0 \<le> rnd x \<longleftrightarrow> 0 \<le> x"
  by (metis rnd_neg_iff linorder_not_less)

lemma rnd_le_fixed: "x \<le> y \<Longrightarrow> rnd y = y \<Longrightarrow> rnd x \<le> y"
  using rnd_mono [of x y] by simp

lemma rnd_ge_fixed: "y \<le> x \<Longrightarrow> rnd y = y \<Longrightarrow> y \<le> rnd x"
  using rnd_mono [of y x] by simp

text \<open>A sum of nonnegative terms, each partial sum rounded, is nonnegative and monotone.\<close>

lemma foldl_rnd_ge:
  "\<forall>x \<in> set xs. 0 \<le> x \<Longrightarrow> rnd a = a \<Longrightarrow> a \<le> foldl (\<lambda>s x. rnd (s + x)) a xs"
proof (induction xs arbitrary: a)
  case Nil
  then show ?case by simp
next
  case (Cons x xs)
  then have "a \<le> rnd (a + x)" by (intro rnd_ge_fixed) simp_all
  also have "\<dots> \<le> foldl (\<lambda>s x. rnd (s + x)) (rnd (a + x)) xs"
    using Cons by (simp add: rnd_idem)
  finally show ?case by simp
qed

end

interpretation d28: rounding dround
  by unfold_locales (simp_all add: dround_mono dround_minus)

section \<open>Decimal operations\<close>

definition dadd :: "rat \<Rightarrow> rat \<Rightarrow> rat" where
  "dadd a b = dround (a + b)"

definition dsub :: "rat \<Rightarrow> rat \<Rightarrow> rat" where
  "dsub a b = dround (a - b)"

definition dmul :: "rat \<Rightarrow> rat \<Rightarrow> rat" where
  "dmul a b = dround (a * b)"

definition ddiv :: "rat \<Rightarrow> rat \<Rightarrow> rat result" where
  "ddiv a b = (if b = 0 then Inl ZeroDivision else Inr (dround (a / b)))"

definition dneg :: "rat \<Rightarrow> rat" where
  "dneg a = dround (- a)"

definition dabs :: "rat \<Rightarrow> rat" where
  "dabs a = dround \<bar>a\<bar>"

text \<open>\<open>sum(xs, Decimal("0"))\<close>: left to right, every partial sum rounded.\<close>

definition dsum :: "rat list \<Rightarrow> rat" where
  "dsum xs = foldl dadd 0 xs"

text \<open>\<open>to_integral_value\<close> with \<open>ROUND_DOWN\<close> and \<open>ROUND_UP\<close>: no precision limit.\<close>

definition to_integral_down :: "rat \<Rightarrow> int" where
  "to_integral_down x = (if 0 \<le> x then \<lfloor>x\<rfloor> else \<lceil>x\<rceil>)"

definition to_integral_up :: "rat \<Rightarrow> int" where
  "to_integral_up x = (if 0 \<le> x then \<lceil>x\<rceil> else \<lfloor>x\<rfloor>)"

text \<open>
  \<open>quantize(Decimal("0.000001"), rounding=ROUND_UP)\<close> raises \<open>InvalidOperation\<close>
  when the coefficient of the result needs more than 28 digits.
\<close>

definition quantize_micro_up :: "rat \<Rightarrow> rat result" where
  "quantize_micro_up x =
     (let m = to_integral_up (x * 1000000)
      in if \<bar>m\<bar> < 10 ^ 28 then Inr (of_int m / 1000000)
         else Inl (DecimalError ''quantize result has too many digits''))"

lemma dadd_0 [simp]: "dadd 0 b = dround b" "dadd a 0 = dround a"
  by (simp_all add: dadd_def)

lemma dmul_0 [simp]: "dmul 0 b = 0" "dmul a 0 = 0"
  by (simp_all add: dmul_def)

lemma dmul_nonneg: "0 \<le> a \<Longrightarrow> 0 \<le> b \<Longrightarrow> 0 \<le> dmul a b"
  by (simp add: dmul_def d28.rnd_nonneg)

lemma dadd_nonneg: "0 \<le> a \<Longrightarrow> 0 \<le> b \<Longrightarrow> 0 \<le> dadd a b"
  by (simp add: dadd_def d28.rnd_nonneg)

lemma dmul_pos: "0 < a \<Longrightarrow> 0 < b \<Longrightarrow> 0 < dmul a b"
  by (simp add: dmul_def d28.rnd_pos_iff)

lemma dadd_pos: "0 \<le> a \<Longrightarrow> 0 < b \<Longrightarrow> 0 < dadd a b"
  by (simp add: dadd_def d28.rnd_pos_iff)

lemma dabs_nonneg [simp]: "0 \<le> dabs a"
  by (simp add: dabs_def d28.rnd_nonneg)

lemma dround_dops [simp]:
  "dround (dadd a b) = dadd a b" "dround (dsub a b) = dsub a b"
  "dround (dmul a b) = dmul a b" "dround (dabs a) = dabs a"
  by (simp_all add: dadd_def dsub_def dmul_def dabs_def)

lemma dsum_nonneg: "(\<And>x. x \<in> set xs \<Longrightarrow> 0 \<le> x) \<Longrightarrow> 0 \<le> dsum xs"
  using d28.foldl_rnd_ge [of xs 0] by (simp add: dsum_def dadd_def [abs_def])

text \<open>A product or sum whose exact value needs at most 28 digits is exact.\<close>

lemma dadd_exact: "fits (a + b) \<Longrightarrow> dadd a b = a + b"
  by (simp add: dadd_def dround_fits)

lemma dsub_exact: "fits (a - b) \<Longrightarrow> dsub a b = a - b"
  by (simp add: dsub_def dround_fits)

lemma dmul_exact: "fits (a * b) \<Longrightarrow> dmul a b = a * b"
  by (simp add: dmul_def dround_fits)

text \<open>Evaluation of closed terms: a value with at most twelve decimal places is exact.\<close>

lemma dround_exact12:
  assumes "of_int \<lfloor>x * 10 ^ 12\<rfloor> = x * 10 ^ 12" and "\<bar>x\<bar> \<le> 10 ^ 16"
  shows "dround x = x"
proof -
  define m where "m = \<lfloor>x * 10 ^ 12\<rfloor>"
  have e: "of_int m = x * 10 ^ 12" unfolding m_def by (rule assms(1))
  then have x: "x = of_int m / 10 ^ 12" by simp
  have "\<bar>x\<bar> * 10 ^ 12 \<le> 10 ^ 16 * 10 ^ 12" using assms(2) by (intro mult_right_mono) simp_all
  then have "\<bar>of_int m :: rat\<bar> \<le> 10 ^ 28" by (simp add: e abs_mult)
  then have "of_int \<bar>m\<bar> \<le> (of_int (10 ^ 28) :: rat)" by simp
  then have "\<bar>m\<bar> \<le> 10 ^ 28" by (simp only: of_int_le_iff)
  then have "fits (of_int m / 10 ^ 12)" by (rule fits_scaled)
  then show ?thesis unfolding x by (rule dround_fits)
qed

lemma floor_fraction [simp]:
  "\<lfloor>numeral a / numeral b :: rat\<rfloor> = numeral a div numeral b"
  "\<lfloor>- (numeral a / numeral b) :: rat\<rfloor> = - numeral a div numeral b"
  "\<lfloor>1 / numeral b :: rat\<rfloor> = 1 div numeral b"
  "\<lfloor>- (1 / numeral b) :: rat\<rfloor> = - 1 div numeral b"
  using floor_divide_of_int_eq [of "numeral a" "numeral b", where 'a = rat]
    floor_divide_of_int_eq [of "- numeral a" "numeral b", where 'a = rat]
    floor_divide_of_int_eq [of 1 "numeral b", where 'a = rat]
    floor_divide_of_int_eq [of "- 1" "numeral b", where 'a = rat]
  by simp_all

lemma ceiling_fraction [simp]:
  "\<lceil>numeral a / numeral b :: rat\<rceil> = - (- numeral a div numeral b)"
  "\<lceil>1 / numeral b :: rat\<rceil> = - (- 1 div numeral b)"
  by (simp_all add: ceiling_def)

lemmas decimal_eval = dadd_def dsub_def dmul_def ddiv_def dneg_def dabs_def dsum_def dround_exact12

lemma to_integral_down_le: "0 \<le> x \<Longrightarrow> of_int (to_integral_down x) \<le> x"
  by (simp add: to_integral_down_def)

lemma to_integral_up_ge: "0 \<le> x \<Longrightarrow> x \<le> of_int (to_integral_up x)"
  by (simp add: to_integral_up_def)

lemma quantize_micro_up_bounds:
  assumes "quantize_micro_up x = Inr y" and "0 \<le> x"
  shows "x \<le> y" and "y < x + 1 / 1000000"
proof -
  have y: "y = of_int \<lceil>x * 1000000\<rceil> / 1000000"
    using assms by (simp add: quantize_micro_up_def to_integral_up_def Let_def split: if_splits)
  have "x * 1000000 \<le> of_int \<lceil>x * 1000000\<rceil>" "of_int \<lceil>x * 1000000\<rceil> < x * 1000000 + 1"
    by linarith+
  then show "x \<le> y" "y < x + 1 / 1000000" by (simp_all add: y field_simps)
qed

end
