(* ===== verification/FinTypes.thy ===== *)
theory FinTypes
  imports Decimals
begin

text \<open>
  The financial contracts of \<open>liki/finance/types.py\<close>: the money boundary \<open>decimal\<close>,
  the enumerations, the validated records and the rounding to venue increments. A record
  value holds parsed fields; \<open>valid_*\<close> is the check its class runs when an instance is
  built, and every instance the other components receive has passed it.
\<close>

section \<open>The money boundary\<close>

text \<open>What a caller may hand to \<open>decimal()\<close>.\<close>

datatype decimal_like = DecFinite rat | DecNonFinite | DecMalformed | BinaryFloat

fun decimal :: "decimal_like \<Rightarrow> rat result" where
  "decimal BinaryFloat = Inl (TypeError ''binary float is forbidden at an authoritative money boundary'')"
| "decimal DecMalformed = Inl (DecimalError ''invalid literal'')"
| "decimal DecNonFinite = Inl (ValueError ''financial value must be finite'')"
| "decimal (DecFinite x) = Inr x"

section \<open>Enumerations\<close>

datatype evidence_kind = OBSERVED_FACT | DERIVED_VALUE | MODEL_ESTIMATE | UNKNOWN_EVIDENCE

datatype metric_state = VALUE | UNDEFINED | INSUFFICIENT_DATA | NUMERIC_ERROR | NOT_APPLICABLE

datatype fidelity_tier = F0_BAR | F1_TRADE_BBO | F2_AGG_L2 | F3_SEQ_L2 | F4_ORDER_LEVEL | F5_ACCOUNT_OBSERVED

datatype reproducibility_tier = BITWISE | NUMERIC_TOLERANCE | STATISTICAL

datatype side = BUY | SELL

definition side_sign :: "side \<Rightarrow> rat" where
  "side_sign s = (if s = BUY then 1 else - 1)"

datatype liquidity_role = MAKER | TAKER

datatype contract_kind = SPOT | LINEAR_PERPETUAL | INVERSE_PERPETUAL

datatype trading_status = TRADING | HALTED | MAINTENANCE

text \<open>
  Tiers are compared with \<open><\<close> on their string values \<open>F0_BAR\<close>, \<open>F1_TRADE_BBO\<close>, \<dots>,
  which order by the digit.
\<close>

fun tier_name :: "fidelity_tier \<Rightarrow> string" where
  "tier_name F0_BAR = ''F0_BAR''"
| "tier_name F1_TRADE_BBO = ''F1_TRADE_BBO''"
| "tier_name F2_AGG_L2 = ''F2_AGG_L2''"
| "tier_name F3_SEQ_L2 = ''F3_SEQ_L2''"
| "tier_name F4_ORDER_LEVEL = ''F4_ORDER_LEVEL''"
| "tier_name F5_ACCOUNT_OBSERVED = ''F5_ACCOUNT_OBSERVED''"

fun tier_rank :: "fidelity_tier \<Rightarrow> nat" where
  "tier_rank F0_BAR = 0"
| "tier_rank F1_TRADE_BBO = 1"
| "tier_rank F2_AGG_L2 = 2"
| "tier_rank F3_SEQ_L2 = 3"
| "tier_rank F4_ORDER_LEVEL = 4"
| "tier_rank F5_ACCOUNT_OBSERVED = 5"

lemma tier_rank_inject: "tier_rank a = tier_rank b \<Longrightarrow> a = b"
  by (cases a; cases b) simp_all

instantiation fidelity_tier :: linorder
begin

definition less_eq_fidelity_tier :: "fidelity_tier \<Rightarrow> fidelity_tier \<Rightarrow> bool" where
  "less_eq_fidelity_tier a b = (tier_rank a \<le> tier_rank b)"

definition less_fidelity_tier :: "fidelity_tier \<Rightarrow> fidelity_tier \<Rightarrow> bool" where
  "less_fidelity_tier a b = (tier_rank a < tier_rank b)"

instance
  by standard (auto simp: less_eq_fidelity_tier_def less_fidelity_tier_def intro: tier_rank_inject)

end

lemma tier_less_is_str_less: "a < b \<longleftrightarrow> str_less (tier_name a) (tier_name b)"
  by (cases a; cases b) (simp_all add: less_fidelity_tier_def)

section \<open>Records\<close>

record money =
  money_amount :: rat
  money_currency :: string

definition valid_money :: "money \<Rightarrow> bool" where
  "valid_money m = (1 \<le> length (money_currency m) \<and> length (money_currency m) \<le> 16)"

record bounded_value =
  bv_lower :: rat
  bv_central :: rat
  bv_upper :: rat
  bv_evidence_kind :: evidence_kind
  bv_uncertainty_reason :: string

definition valid_bounded_value :: "bounded_value \<Rightarrow> bool" where
  "valid_bounded_value b =
     (bv_uncertainty_reason b \<noteq> [] \<and> bv_lower b \<le> bv_central b \<and> bv_central b \<le> bv_upper b)"

record instrument_spec =
  spec_version :: string
  spec_venue :: string
  spec_instrument_id :: string
  spec_contract_kind :: contract_kind
  spec_base_currency :: string
  spec_quote_currency :: string
  spec_settlement_currency :: string
  spec_tick_size :: rat
  spec_lot_size :: rat
  spec_min_quantity :: rat
  spec_min_notional :: rat
  spec_max_quantity :: "rat option"
  spec_price_lower :: "rat option"
  spec_price_upper :: "rat option"
  spec_multiplier :: rat
  spec_initial_margin_rate :: "rat option"
  spec_maintenance_margin_rate :: "rat option"
  spec_effective_from :: datetime
  spec_effective_to :: "datetime option"
  spec_trading_status :: trading_status

definition valid_instrument_spec :: "instrument_spec \<Rightarrow> bool" where
  "valid_instrument_spec s =
     (spec_version s \<noteq> [] \<and> spec_venue s \<noteq> [] \<and> spec_instrument_id s \<noteq> [] \<and>
      is_aware (spec_effective_from s) \<and> pred_option is_aware (spec_effective_to s) \<and>
      0 < min (spec_tick_size s) (min (spec_lot_size s)
            (min (spec_min_quantity s) (min (spec_min_notional s) (spec_multiplier s)))) \<and>
      (case spec_effective_to s of None \<Rightarrow> True
       | Some t \<Rightarrow> instant (spec_effective_from s) < instant t))"

record fee_schedule =
  fs_version :: string
  fs_venue :: string
  fs_instrument_id :: string
  fs_account_tier :: string
  fs_liquidity_role :: liquidity_role
  fs_rate :: rat
  fs_effective_from :: datetime
  fs_effective_to :: "datetime option"
  fs_source :: string

definition valid_fee_schedule :: "fee_schedule \<Rightarrow> bool" where
  "valid_fee_schedule f =
     (fs_source f \<noteq> [] \<and> is_aware (fs_effective_from f) \<and> pred_option is_aware (fs_effective_to f))"

datatype fx_convention = CONV_BID | CONV_ASK | CONV_MID | CONV_MARK

record fx_quote =
  fx_instrument_id :: string
  fx_source :: string
  fx_base_currency :: string
  fx_quote_currency :: string
  fx_bid :: rat
  fx_ask :: rat
  fx_observed_at :: datetime
  fx_available_at :: datetime
  fx_convention :: fx_convention

definition valid_fx_quote :: "fx_quote \<Rightarrow> bool" where
  "valid_fx_quote q =
     (0 < fx_bid q \<and> fx_bid q \<le> fx_ask q \<and> instant (fx_observed_at q) \<le> instant (fx_available_at q))"

lemma valid_instrument_spec_pos:
  assumes "valid_instrument_spec s"
  shows "0 < spec_tick_size s" "0 < spec_lot_size s" "0 < spec_min_quantity s"
    "0 < spec_min_notional s" "0 < spec_multiplier s"
  using assms by (simp_all add: valid_instrument_spec_def)

section \<open>Venue increments\<close>

definition floor_to_increment :: "rat \<Rightarrow> rat \<Rightarrow> rat result" where
  "floor_to_increment x inc =
     rbind (ddiv x inc) (\<lambda>q. Inr (dmul (of_int (to_integral_down q)) inc))"

definition ceil_to_increment :: "rat \<Rightarrow> rat \<Rightarrow> rat result" where
  "ceil_to_increment x inc =
     rbind (ddiv x inc) (\<lambda>q. Inr (dmul (of_int (to_integral_up q)) inc))"

definition as_utc :: "datetime \<Rightarrow> datetime result" where
  "as_utc d = (case d of Naive w \<Rightarrow> Inl (ValueError ''timestamp must be timezone-aware'')
               | Aware i off \<Rightarrow> Inr (Aware i 0))"

text \<open>
  The quotient is rounded to 28 digits before it is truncated, so it may reach the next
  integer. It does not when the value has at most 27 digits at the scale of the increment.
\<close>

lemma quotient_error:
  assumes "0 < a" and "0 < (b::int)"
  shows "\<bar>dround (of_int a / of_int b) - of_int a / of_int b\<bar> \<le> of_int a / of_int b / (2 * 10 ^ 27)"
proof -
  let ?x = "of_int a / of_int b :: rat"
  have x: "0 < ?x" using assms by simp
  have "10 ^ 27 * ulp ?x \<le> ?x" using scaled_bounds(1) [OF x] by (simp only: pos_le_divide_eq [OF ulp_pos])
  then have "ulp ?x / 2 \<le> ?x / (2 * 10 ^ 27)" by simp
  then show ?thesis using dround_error [of ?x] by linarith
qed

lemma dround_div_less:
  assumes "0 < a" "a \<le> 10 ^ 27" "0 < b" and "a < n * b"
  shows "dround (of_int a / of_int b) < of_int n"
proof -
  let ?x = "of_int a / of_int b :: rat"
  have b: "0 < (of_int b :: rat)" using assms by simp
  have "of_int (a + 1) \<le> (of_int (n * b) :: rat)" using assms(4) by (simp only: of_int_le_iff)
  then have gap: "?x + 1 / of_int b \<le> of_int n" using b by (simp add: field_simps)
  have "of_int a \<le> (10 ^ 27 :: rat)" using assms(2) by (metis of_int_le_iff of_int_numeral of_int_power)
  then have "?x / (2 * 10 ^ 27) < 1 / of_int b" using b by (simp add: field_simps)
  with quotient_error [OF assms(1,3)] gap show ?thesis by linarith
qed

lemma dround_div_greater:
  assumes "0 < a" "a \<le> 10 ^ 27" "0 < b" and "n * b < a"
  shows "of_int n < dround (of_int a / of_int b)"
proof -
  let ?x = "of_int a / of_int b :: rat"
  have b: "0 < (of_int b :: rat)" using assms by simp
  have "of_int (n * b + 1) \<le> (of_int a :: rat)" using assms(4) by (simp only: of_int_le_iff)
  then have "of_int (n * b + 1) / of_int b \<le> ?x" using b by (intro divide_right_mono) simp_all
  then have gap: "of_int n + 1 / of_int b \<le> ?x" using b by (simp add: add_divide_distrib)
  have "of_int a \<le> (10 ^ 27 :: rat)" using assms(2) by (metis of_int_le_iff of_int_numeral of_int_power)
  then have "?x / (2 * 10 ^ 27) < 1 / of_int b" using b by (simp add: field_simps)
  with quotient_error [OF assms(1,3)] gap show ?thesis by linarith
qed

lemma div_mult_le_int:
  fixes a b :: int
  assumes "0 < b"
  shows "a div b * b \<le> a" and "a < (a div b + 1) * b"
proof -
  have "a div b * b + a mod b = a" "0 \<le> a mod b" "a mod b < b" using assms by simp_all
  then show "a div b * b \<le> a" "a < (a div b + 1) * b" unfolding distrib_right mult_1 by linarith+
qed

lemma floor_dround_div:
  assumes "0 \<le> a" "a \<le> 10 ^ 27" "0 < b"
  shows "\<lfloor>dround (of_int a / of_int b)\<rfloor> = a div b"
proof (cases "a = 0")
  case True
  then show ?thesis by simp
next
  case False
  let ?x = "of_int a / of_int b :: rat"
  have q0: "0 \<le> a div b" using assms by (simp add: pos_imp_zdiv_nonneg_iff)
  then have "a div b * 1 \<le> a div b * b" using assms(3) by (intro mult_left_mono) auto
  with div_mult_le_int(1) [OF assms(3), of a] have q: "0 \<le> a div b" "a div b \<le> a" using q0 by simp_all
  then have "fits (of_int (a div b))" using assms(2) by (intro fits_of_int) simp
  moreover have "of_int (a div b) \<le> ?x"
    by (metis floor_divide_of_int_eq of_int_floor_le)
  ultimately have "of_int (a div b) \<le> dround ?x" by (intro d28.rnd_ge_fixed dround_fits)
  moreover have "a < (a div b + 1) * b" using assms(3) by (rule div_mult_le_int)
  then have "dround ?x < of_int (a div b + 1)" using False assms by (intro dround_div_less) auto
  ultimately show ?thesis by (intro floor_unique) simp_all
qed

lemma ceiling_dround_div:
  assumes "0 \<le> a" "a \<le> 10 ^ 27" "0 < b"
  shows "\<lceil>dround (of_int a / of_int b)\<rceil> = - (- a div b)"
proof (cases "b dvd a")
  case True
  then obtain k where k: "a = b * k" by blast
  have "0 \<le> k" using assms k by (simp add: zero_le_mult_iff)
  then have "1 * k \<le> b * k" using assms(3) by (intro mult_right_mono) auto
  then have "\<bar>k\<bar> \<le> 10 ^ 28" using assms(2) k \<open>0 \<le> k\<close> by simp
  moreover have "of_int a / of_int b = (of_int k :: rat)" using assms(3) k by simp
  moreover have "- a div b = - k"
    using assms(3) k by (metis less_irrefl mult_minus_right nonzero_mult_div_cancel_left)
  ultimately show ?thesis by (simp add: dround_fits fits_of_int)
next
  case False
  have a: "0 < a" using False assms(1) by (cases "a = 0") auto
  let ?k = "a div b"
  have neg: "- a div b = - ?k - 1" using False assms(3) by (simp add: zdiv_zminus1_eq_if dvd_eq_mod_eq_0)
  have m: "0 < a mod b" using False assms(3) by (simp add: dvd_eq_mod_eq_0 order_less_le)
  have "?k * b < a" using m div_mult_mod_eq [of a b] by linarith
  then have lo: "of_int ?k < dround (of_int a / of_int b)" using a assms by (intro dround_div_greater)
  have "a < (?k + 1) * b" using assms(3) by (rule div_mult_le_int)
  then have hi: "dround (of_int a / of_int b) < of_int (?k + 1)" using a assms by (intro dround_div_less)
  have "\<lceil>dround (of_int a / of_int b)\<rceil> = ?k + 1" using lo hi by (intro ceiling_unique) simp_all
  then show ?thesis by (simp add: neg)
qed

lemma floor_to_increment_exact:
  assumes "0 \<le> a" "a \<le> 10 ^ 27" "0 < b"
  shows "floor_to_increment (of_int a / 10 ^ s) (of_int b / 10 ^ s)
           = Inr (of_int (a div b * b) / 10 ^ s)"
proof -
  have q: "(of_int a / 10 ^ s) / (of_int b / 10 ^ s) = (of_int a / of_int b :: rat)" by simp
  have "0 \<le> dround (of_int a / of_int b)" using assms by (simp add: d28.rnd_nonneg)
  then have t: "to_integral_down (dround (of_int a / of_int b)) = a div b"
    using assms by (simp add: to_integral_down_def floor_dround_div)
  have le: "a div b * b \<le> a" using assms(3) by (rule div_mult_le_int)
  moreover have "0 \<le> a div b * b" using assms by (simp add: pos_imp_zdiv_nonneg_iff)
  ultimately have "fits (of_int (a div b * b) / 10 ^ s)" using assms(2) by (intro fits_scaled) simp
  then have "dmul (of_int (a div b)) (of_int b / 10 ^ s) = of_int (a div b * b) / 10 ^ s"
    by (subst dmul_exact) simp_all
  then show ?thesis using assms(3) by (simp add: floor_to_increment_def ddiv_def q t)
qed

lemma ceil_to_increment_exact:
  assumes "0 \<le> a" "a \<le> 10 ^ 27" "0 < b" "b \<le> 10 ^ 27"
  shows "ceil_to_increment (of_int a / 10 ^ s) (of_int b / 10 ^ s)
           = Inr (of_int (- (- a div b) * b) / 10 ^ s)"
proof -
  let ?k = "- (- a div b)"
  have q: "(of_int a / 10 ^ s) / (of_int b / 10 ^ s) = (of_int a / of_int b :: rat)" by simp
  have "0 \<le> dround (of_int a / of_int b)" using assms by (simp add: d28.rnd_nonneg)
  then have t: "to_integral_up (dround (of_int a / of_int b)) = ?k"
    using assms by (simp add: to_integral_up_def ceiling_dround_div)
  have "- a div b * b \<le> - a" "- a < (- a div b + 1) * b"
    using assms(3) by (rule div_mult_le_int)+
  then have "?k * b < a + b" "a \<le> ?k * b" by (simp_all add: algebra_simps)
  then have "\<bar>?k * b\<bar> \<le> 10 ^ 27 + 10 ^ 27" using assms by linarith
  then have "\<bar>?k * b\<bar> \<le> 10 ^ 28" by simp
  then have "fits (of_int (?k * b) / 10 ^ s)" by (rule fits_scaled)
  then have "dmul (of_int ?k) (of_int b / 10 ^ s) = of_int (?k * b) / 10 ^ s"
    by (subst dmul_exact) simp_all
  then show ?thesis using assms(3) by (simp add: ceil_to_increment_def ddiv_def q t)
qed

end
