(* ===== verification/Accounting.thy ===== *)
theory Accounting
  imports FinTypes
begin

text \<open>
  The primary ledger of \<open>liki/finance/accounting.py\<close> (moving-average cost basis) and
  the independent FIFO reconciliation of \<open>liki/finance/reference.py\<close>. Python rounds
  every Decimal operation by the current context; here that context is the argument
  \<open>rnd\<close>. The code runs with \<open>rnd = dround\<close> (28 digits); \<open>rnd = (\<lambda>x. x)\<close> is exact
  arithmetic, the yardstick of the reconciliation results.
\<close>

section \<open>Costs and fills\<close>

datatype cost_kind = FEE | FUNDING | BORROW | IMPLEMENTATION_SHORTFALL | SPREAD | IMPACT | TRANSFER | LIQUIDATION

datatype cost_treatment = ADDITIVE | DECOMPOSITION | DIAGNOSTIC

record cost_component =
  cc_kind :: cost_kind
  cc_amount :: rat
  cc_treatment :: cost_treatment
  cc_parent :: "cost_kind option"

definition mk_cost_component ::
  "cost_kind \<Rightarrow> decimal_like \<Rightarrow> cost_treatment \<Rightarrow> cost_kind option \<Rightarrow> cost_component result" where
  "mk_cost_component kind amount treatment parent =
     rbind (decimal amount) (\<lambda>a.
     if treatment = DECOMPOSITION \<and> parent = None
     then Inl (ValueError ''decomposition needs a parent cost kind'')
     else if treatment \<noteq> DECOMPOSITION \<and> parent \<noteq> None
     then Inl (ValueError ''only decompositions may name a parent'')
     else Inr \<lparr>cc_kind = kind, cc_amount = a, cc_treatment = treatment, cc_parent = parent\<rparr>)"

record fill =
  fill_id :: string
  fill_order_id :: string
  fill_timestamp :: datetime
  fill_side :: side
  fill_quantity :: rat
  fill_price :: rat
  fill_role :: liquidity_role
  fill_fee :: rat
  fill_costs :: "cost_component list"

definition mk_fill ::
  "string \<Rightarrow> string \<Rightarrow> datetime \<Rightarrow> side \<Rightarrow> decimal_like \<Rightarrow> decimal_like \<Rightarrow> liquidity_role
   \<Rightarrow> decimal_like \<Rightarrow> cost_component list \<Rightarrow> fill result" where
  "mk_fill fid oid ts sd quantity price role fee costs =
     rbind (decimal quantity) (\<lambda>q.
     rbind (require (0 \<le> q) (ValueError ''quantity must not be negative'')) (\<lambda>_.
     rbind (decimal price) (\<lambda>p.
     rbind (require (0 \<le> p) (ValueError ''price must not be negative'')) (\<lambda>_.
     rbind (decimal fee) (\<lambda>f.
     rbind (require (0 < q \<and> 0 < p) (ValueError ''fill price and quantity must be positive'')) (\<lambda>_.
     Inr \<lparr>fill_id = fid, fill_order_id = oid, fill_timestamp = ts, fill_side = sd, fill_quantity = q,
          fill_price = p, fill_role = role, fill_fee = f, fill_costs = costs\<rparr>))))))"

definition valid_fill :: "fill \<Rightarrow> bool" where
  "valid_fill f = (0 < fill_quantity f \<and> 0 < fill_price f)"

lemma mk_fill_valid: "mk_fill fid oid ts sd q p role fee costs = Inr f \<Longrightarrow> valid_fill f"
  by (auto simp: mk_fill_def valid_fill_def rbind_eq_Inr)

section \<open>The ledger\<close>

record ledger =
  cash :: rat
  position :: rat
  average_entry :: rat
  realized_pnl :: rat
  fees :: rat
  other_costs :: rat
  fills :: "fill list"
  starting_cash :: rat

definition ledger_init :: "rat \<Rightarrow> ledger" where
  "ledger_init c = \<lparr>cash = c, position = 0, average_entry = 0, realized_pnl = 0, fees = 0,
     other_costs = 0, fills = [], starting_cash = c\<rparr>"

definition is_additive :: "cost_component \<Rightarrow> bool" where
  "is_additive c = (cc_treatment c = ADDITIVE)"

definition orphan :: "cost_component list \<Rightarrow> cost_component \<Rightarrow> bool" where
  "orphan cs c = (cc_treatment c = DECOMPOSITION \<and>
     cc_parent c \<notin> Some ` cc_kind ` set (List.filter is_additive cs))"

definition additive_costs :: "(rat \<Rightarrow> rat) \<Rightarrow> cost_component list \<Rightarrow> rat result" where
  "additive_costs rnd cs =
     (if \<exists>c \<in> set cs. orphan cs c
      then Inl (ValueError ''orphan decomposition cannot be authoritative cost'')
      else Inr (foldl (\<lambda>s c. rnd (s + cc_amount c)) 0 (List.filter is_additive cs)))"

text \<open>
  The three branches of \<open>LedgerState.apply\<close>: open or extend, close or flip, reduce.
  The result is the new average entry and the new realised profit.
\<close>

definition direction :: "rat \<Rightarrow> rat" where
  "direction p = (if 0 < p then 1 else - 1)"

definition settle :: "(rat \<Rightarrow> rat) \<Rightarrow> ledger \<Rightarrow> fill \<Rightarrow> rat \<Rightarrow> (rat \<times> rat) result" where
  "settle rnd l f signed =
     (if position l = 0 \<or> 0 < rnd (position l * signed) then
        let new_abs = rnd (rnd \<bar>position l\<bar> + fill_quantity f)
        in if new_abs = 0 then Inl ZeroDivision
           else Inr (rnd (rnd (rnd (rnd \<bar>position l\<bar> * average_entry l) + rnd (fill_quantity f * fill_price f)) / new_abs),
                     realized_pnl l)
      else if rnd \<bar>position l\<bar> \<le> rnd \<bar>signed\<bar> then
        Inr (if rnd \<bar>position l\<bar> < rnd \<bar>signed\<bar> then fill_price f else 0,
             rnd (realized_pnl l + rnd (rnd (rnd \<bar>position l\<bar> * rnd (fill_price f - average_entry l)) * direction (position l))))
      else
        Inr (average_entry l,
             rnd (realized_pnl l + rnd (rnd (fill_quantity f * rnd (fill_price f - average_entry l)) * direction (position l)))))"

definition ledger_apply :: "(rat \<Rightarrow> rat) \<Rightarrow> ledger \<Rightarrow> fill \<Rightarrow> ledger result" where
  "ledger_apply rnd l f =
     (if \<exists>g \<in> set (fills l). fill_id g = fill_id f then Inl (ValueError ''duplicate fill id'')
      else rbind (additive_costs rnd (fill_costs f)) (\<lambda>additive.
        let signed = rnd (side_sign (fill_side f) * fill_quantity f)
        in rbind (settle rnd l f signed) (\<lambda>(avg, realized).
          Inr (l\<lparr>average_entry := avg, realized_pnl := realized,
                 position := rnd (position l + signed),
                 cash := rnd (rnd (rnd (cash l - rnd (signed * fill_price f)) - fill_fee f) - additive),
                 fees := rnd (fees l + fill_fee f),
                 other_costs := rnd (other_costs l + additive),
                 fills := fills l @ [f]\<rparr>))))"

definition ledger_run :: "(rat \<Rightarrow> rat) \<Rightarrow> ledger \<Rightarrow> fill list \<Rightarrow> ledger result" where
  "ledger_run rnd l fs = rfold (ledger_apply rnd) l fs"

definition equity :: "(rat \<Rightarrow> rat) \<Rightarrow> ledger \<Rightarrow> rat \<Rightarrow> rat" where
  "equity rnd l mark = rnd (cash l + rnd (position l * mark))"

definition unrealized_pnl :: "(rat \<Rightarrow> rat) \<Rightarrow> ledger \<Rightarrow> rat \<Rightarrow> rat" where
  "unrealized_pnl rnd l mark = rnd (position l * rnd (mark - average_entry l))"

definition reconcile :: "(rat \<Rightarrow> rat) \<Rightarrow> ledger \<Rightarrow> rat \<Rightarrow> rat" where
  "reconcile rnd l mark =
     (let expected = rnd (rnd (rnd (rnd (starting_cash l + realized_pnl l) + unrealized_pnl rnd l mark)
                       - fees l) - other_costs l)
      in rnd (equity rnd l mark - expected))"

section \<open>Independent FIFO reconciliation\<close>

type_synonym lot = "rat \<times> rat"

text \<open>
  The \<open>while\<close> loop of \<open>independently_reconcile\<close> for one fill at price \<open>p\<close>: it
  consumes opposite lots from the front. A turn that uses up the front lot goes on with
  the next one; a turn that does not leaves \<open>incoming\<close> at zero (\<open>fifo_loop_stops\<close>),
  where the loop's test fails, so it ends there.
\<close>

fun fifo_match ::
  "(rat \<Rightarrow> rat) \<Rightarrow> rat \<Rightarrow> rat \<Rightarrow> lot list \<Rightarrow> rat \<Rightarrow> rat \<times> lot list \<times> rat" where
  "fifo_match rnd p incoming [] realized = (incoming, [], realized)"
| "fifo_match rnd p incoming ((q, entry) # lots) realized =
     (if incoming \<noteq> 0 \<and> rnd (q * incoming) < 0 then
        let closing = min (rnd \<bar>q\<bar>) (rnd \<bar>incoming\<bar>);
            realized' = rnd (realized + rnd (rnd (closing * rnd (p - entry)) * direction q));
            remaining = rnd (rnd \<bar>q\<bar> - closing);
            incoming' = rnd (direction incoming * rnd (rnd \<bar>incoming\<bar> - closing))
        in if remaining = 0 then fifo_match rnd p incoming' lots realized'
           else (incoming', (rnd (direction q * remaining), entry) # lots, realized')
      else (incoming, (q, entry) # lots, realized))"

context rounding
begin

lemma fifo_loop_stops:
  assumes "rnd (rnd \<bar>q\<bar> - min (rnd \<bar>q\<bar>) (rnd \<bar>incoming\<bar>)) \<noteq> 0"
  shows "rnd (direction incoming * rnd (rnd \<bar>incoming\<bar> - min (rnd \<bar>q\<bar>) (rnd \<bar>incoming\<bar>))) = 0"
proof -
  have "min (rnd \<bar>q\<bar>) (rnd \<bar>incoming\<bar>) = rnd \<bar>incoming\<bar>"
    using assms by (auto simp: min_def rnd_0 split: if_splits)
  then show ?thesis by (simp add: rnd_0)
qed

end

record fifo_state =
  ff_cash :: rat
  ff_lots :: "lot list"
  ff_realized :: rat
  ff_fees :: rat
  ff_other :: rat
  ff_seen :: "string list"

definition fifo_costs :: "(rat \<Rightarrow> rat) \<Rightarrow> cost_component list \<Rightarrow> rat \<times> rat \<Rightarrow> rat \<times> rat" where
  "fifo_costs rnd cs s =
     foldl (\<lambda>(cash, other) c. if is_additive c
              then (rnd (cash - cc_amount c), rnd (other + cc_amount c)) else (cash, other)) s cs"

definition fifo_step :: "(rat \<Rightarrow> rat) \<Rightarrow> fifo_state \<Rightarrow> fill \<Rightarrow> fifo_state result" where
  "fifo_step rnd s f =
     (if fill_id f \<in> set (ff_seen s) then Inl (ValueError ''duplicate fill id'')
      else
        let incoming = rnd (side_sign (fill_side f) * fill_quantity f);
            cash1 = rnd (ff_cash s - rnd (rnd (incoming * fill_price f) + fill_fee f));
            fees1 = rnd (ff_fees s + fill_fee f);
            (cash2, other2) = fifo_costs rnd (fill_costs f) (cash1, ff_other s);
            (rest, lots, realized) = fifo_match rnd (fill_price f) incoming (ff_lots s) (ff_realized s)
        in Inr \<lparr>ff_cash = cash2, ff_lots = (if rest \<noteq> 0 then lots @ [(rest, fill_price f)] else lots),
                ff_realized = realized, ff_fees = fees1, ff_other = other2,
                ff_seen = fill_id f # ff_seen s\<rparr>)"

record reconciliation =
  rec_cash :: rat
  rec_position :: rat
  rec_realized_pnl :: rat
  rec_unrealized_pnl :: rat
  rec_equity :: rat
  rec_fees :: rat
  rec_other_costs :: rat

definition independently_reconcile ::
  "(rat \<Rightarrow> rat) \<Rightarrow> rat \<Rightarrow> fill list \<Rightarrow> rat \<Rightarrow> reconciliation result" where
  "independently_reconcile rnd start fs mark =
     rbind (rfold (fifo_step rnd) \<lparr>ff_cash = start, ff_lots = [], ff_realized = 0, ff_fees = 0,
                                   ff_other = 0, ff_seen = []\<rparr> fs) (\<lambda>s.
     let position = foldl (\<lambda>a (q, e). rnd (a + q)) 0 (ff_lots s);
         unrealized = foldl (\<lambda>a (q, e). rnd (a + rnd (q * rnd (mark - e)))) 0 (ff_lots s)
     in Inr \<lparr>rec_cash = ff_cash s, rec_position = position, rec_realized_pnl = ff_realized s,
             rec_unrealized_pnl = unrealized, rec_equity = rnd (ff_cash s + rnd (position * mark)),
             rec_fees = ff_fees s, rec_other_costs = ff_other s\<rparr>)"

section \<open>Transaction cost analysis\<close>

record tca =
  tca_benchmark_price :: rat
  tca_side :: side
  tca_quantity :: rat
  tca_fill_price :: rat
  tca_explicit_fee :: rat
  tca_spread :: rat
  tca_impact :: rat
  tca_delay :: rat
  tca_opportunity_cost :: rat

definition valid_tca :: "tca \<Rightarrow> bool" where
  "valid_tca t = (0 \<le> tca_quantity t \<and> 0 < tca_benchmark_price t \<and> 0 < tca_fill_price t)"

definition implementation_shortfall :: "tca \<Rightarrow> rat" where
  "implementation_shortfall t =
     dadd (dmul (dmul (side_sign (tca_side t)) (dsub (tca_fill_price t) (tca_benchmark_price t))) (tca_quantity t))
          (tca_explicit_fee t)"

definition decomposition_residual :: "tca \<Rightarrow> rat" where
  "decomposition_residual t =
     dsub (implementation_shortfall t)
       (dadd (dadd (dadd (dadd (tca_explicit_fee t) (tca_spread t)) (tca_impact t)) (tca_delay t))
             (tca_opportunity_cost t))"

section \<open>What every run keeps\<close>

text \<open>
  The book of a reachable ledger: fill ids are distinct, an average entry price exists
  exactly while a position is open, and it is never negative. Signs survive every
  rounding mode that meets the \<open>rounding\<close> contract.
\<close>

definition ledger_ok :: "ledger \<Rightarrow> bool" where
  "ledger_ok l = (distinct (map fill_id (fills l)) \<and> 0 \<le> average_entry l \<and>
     (position l = 0 \<longleftrightarrow> average_entry l = 0))"

lemma ledger_ok_init [simp]: "ledger_ok (ledger_init c)"
  by (simp add: ledger_ok_def ledger_init_def)

lemma ledger_apply_Inr:
  assumes "ledger_apply rnd l f = Inr l'"
  obtains additive avg realized where
    "\<forall>g \<in> set (fills l). fill_id g \<noteq> fill_id f"
    "additive_costs rnd (fill_costs f) = Inr additive"
    "settle rnd l f (rnd (side_sign (fill_side f) * fill_quantity f)) = Inr (avg, realized)"
    "l' = l\<lparr>average_entry := avg, realized_pnl := realized,
           position := rnd (position l + rnd (side_sign (fill_side f) * fill_quantity f)),
           cash := rnd (rnd (rnd (cash l - rnd (rnd (side_sign (fill_side f) * fill_quantity f) * fill_price f))
                             - fill_fee f) - additive),
           fees := rnd (fees l + fill_fee f),
           other_costs := rnd (other_costs l + additive),
           fills := fills l @ [f]\<rparr>"
  using assms by (auto simp: ledger_apply_def rbind_eq_Inr Let_def split: if_splits)

lemma ledger_apply_ids:
  assumes "ledger_apply rnd l f = Inr l'"
  shows "fills l' = fills l @ [f]" and "fill_id f \<notin> fill_id ` set (fills l)"
    and "starting_cash l' = starting_cash l"
  using assms by (auto elim!: ledger_apply_Inr)

context rounding
begin

lemma signed_nz:
  assumes "valid_fill f"
  shows "rnd (side_sign (fill_side f) * fill_quantity f) \<noteq> 0"
proof
  assume "rnd (side_sign (fill_side f) * fill_quantity f) = 0"
  then have "side_sign (fill_side f) * fill_quantity f = 0" by (rule rnd_definite)
  with assms show False by (simp add: side_sign_def valid_fill_def split: if_splits)
qed

lemma settle_book:
  assumes ok: "0 \<le> average_entry l" "position l = 0 \<longleftrightarrow> average_entry l = 0"
    and f: "valid_fill f" and fixed: "rnd (position l) = position l" "rnd signed = signed"
    and nz: "signed \<noteq> 0"
    and s: "settle rnd l f signed = Inr (avg, realized)"
  shows "0 \<le> avg \<and> (rnd (position l + signed) = 0 \<longleftrightarrow> avg = 0)"
proof -
  have zero: "rnd (position l + signed) = 0 \<longleftrightarrow> position l + signed = 0"
    using rnd_definite rnd_0 by auto
  have abs_fixed: "rnd \<bar>position l\<bar> = \<bar>position l\<bar>" "rnd \<bar>signed\<bar> = \<bar>signed\<bar>"
    using fixed by (auto simp: abs_if rnd_minus)
  consider (extend) "position l = 0 \<or> 0 < rnd (position l * signed)"
    | (close) "\<not> (position l = 0 \<or> 0 < rnd (position l * signed))" "\<bar>position l\<bar> \<le> \<bar>signed\<bar>"
    | (reduce) "\<not> (position l = 0 \<or> 0 < rnd (position l * signed))" "\<bar>signed\<bar> < \<bar>position l\<bar>"
    by linarith
  then show ?thesis
  proof cases
    case extend
    then have same: "position l = 0 \<or> 0 < position l * signed" by (simp add: rnd_pos_iff)
    let ?num = "rnd (rnd (rnd \<bar>position l\<bar> * average_entry l) + rnd (fill_quantity f * fill_price f))"
    let ?den = "rnd (rnd \<bar>position l\<bar> + fill_quantity f)"
    have avg: "avg = rnd (?num / ?den)" "?den \<noteq> 0"
      using s extend by (auto simp: settle_def Let_def split: if_splits)
    have "0 < fill_quantity f * fill_price f" using f by (simp add: valid_fill_def)
    moreover have "0 \<le> rnd (rnd \<bar>position l\<bar> * average_entry l)"
      using ok(1) by (simp add: rnd_nonneg)
    ultimately have "0 < ?num" by (simp add: rnd_pos_iff add_nonneg_pos)
    moreover have "0 < ?den" using f by (simp add: rnd_pos_iff valid_fill_def add_nonneg_pos abs_fixed)
    ultimately have "0 < avg" by (simp add: avg rnd_pos_iff)
    moreover have "position l + signed \<noteq> 0"
      using same nz by (auto simp: zero_less_mult_iff)
    ultimately show ?thesis by (simp add: zero)
  next
    case close
    then have opposite: "position l * signed < 0"
      using nz by (auto simp: rnd_pos_iff zero_less_mult_iff mult_less_0_iff neq_iff)
    have "avg = (if \<bar>position l\<bar> < \<bar>signed\<bar> then fill_price f else 0)"
      using s close by (auto simp: settle_def abs_fixed split: if_splits)
    moreover have "position l + signed = 0 \<longleftrightarrow> \<bar>position l\<bar> = \<bar>signed\<bar>"
      using opposite by (auto simp: mult_less_0_iff)
    ultimately show ?thesis using f close(2) by (auto simp: zero valid_fill_def)
  next
    case reduce
    then have "avg = average_entry l" using s by (auto simp: settle_def abs_fixed split: if_splits)
    moreover have "position l + signed \<noteq> 0" using reduce(2) by auto
    moreover have "average_entry l \<noteq> 0" using ok reduce by auto
    ultimately show ?thesis using ok(1) by (simp add: zero)
  qed
qed

lemma ledger_apply_ok:
  assumes l: "ledger_ok l" "rnd (position l) = position l" and f: "valid_fill f"
    and a: "ledger_apply rnd l f = Inr l'"
  shows "ledger_ok l' \<and> rnd (position l') = position l'"
proof -
  obtain additive avg realized where fresh: "\<forall>g \<in> set (fills l). fill_id g \<noteq> fill_id f"
    and s: "settle rnd l f (rnd (side_sign (fill_side f) * fill_quantity f)) = Inr (avg, realized)"
    and l': "average_entry l' = avg" "fills l' = fills l @ [f]"
      "position l' = rnd (position l + rnd (side_sign (fill_side f) * fill_quantity f))"
    using a by (auto elim!: ledger_apply_Inr)
  have "0 \<le> avg \<and> (position l' = 0 \<longleftrightarrow> avg = 0)"
    using settle_book [OF _ _ f l(2) _ signed_nz [OF f] s] l(1) by (auto simp: ledger_ok_def rnd_idem l'(3))
  with fresh l(1) show ?thesis by (auto simp: ledger_ok_def l' rnd_idem)
qed

lemma ledger_run_ok:
  assumes "ledger_run rnd l fs = Inr l'" and "ledger_ok l" "rnd (position l) = position l"
    and "\<forall>f \<in> set fs. valid_fill f"
  shows "ledger_ok l' \<and> rnd (position l') = position l'"
proof (rule rfold_invariant [where I = "\<lambda>l. ledger_ok l \<and> rnd (position l) = position l"])
  show "rfold (ledger_apply rnd) l fs = Inr l'" using assms(1) by (simp only: ledger_run_def)
  show "ledger_ok l \<and> rnd (position l) = position l" using assms(2,3) ..
  fix s f s'
  assume "f \<in> set fs" "ledger_ok s \<and> rnd (position s) = position s" "ledger_apply rnd s f = Inr s'"
  then show "ledger_ok s' \<and> rnd (position s') = position s'"
    using assms(4) ledger_apply_ok by blast
qed

end

interpretation exact: rounding "\<lambda>x. x"
  by unfold_locales simp_all

section \<open>Exact arithmetic: both books agree\<close>

text \<open>
  The identity behind \<open>reconcile\<close>, free of the mark price: cash plus the cost of the
  open position is the starting cash plus realised profit less fees and costs.
\<close>

definition balanced :: "ledger \<Rightarrow> bool" where
  "balanced l = (cash l + position l * average_entry l
     = starting_cash l + realized_pnl l - fees l - other_costs l)"

lemma balanced_init [simp]: "balanced (ledger_init c)"
  by (simp add: balanced_def ledger_init_def)

lemma settle_exact:
  assumes s: "settle (\<lambda>x. x) l f signed = Inr (avg, realized)"
    and signed: "signed = side_sign (fill_side f) * fill_quantity f" and f: "0 < fill_quantity f"
  shows "(position l + signed) * avg - realized
    = position l * average_entry l - realized_pnl l + signed * fill_price f"
proof -
  let ?p = "position l" and ?a = "average_entry l" and ?q = "fill_quantity f" and ?x = "fill_price f"
  have q: "?q = \<bar>signed\<bar>" using signed f by (simp add: side_sign_def)
  consider (extend) "?p = 0 \<or> 0 < ?p * signed"
    | (close) "\<not> (?p = 0 \<or> 0 < ?p * signed)" "\<bar>?p\<bar> \<le> \<bar>signed\<bar>"
    | (reduce) "\<not> (?p = 0 \<or> 0 < ?p * signed)" "\<bar>signed\<bar> < \<bar>?p\<bar>"
    by linarith
  then show ?thesis
  proof cases
    case extend
    then have "\<bar>?p + signed\<bar> = \<bar>?p\<bar> + ?q" by (auto simp: q zero_less_mult_iff abs_if)
    moreover have "avg = (\<bar>?p\<bar> * ?a + ?q * ?x) / (\<bar>?p\<bar> + ?q)" "realized = realized_pnl l"
      using s extend by (auto simp: settle_def Let_def split: if_splits)
    ultimately show ?thesis using extend f
      by (auto simp: q abs_if zero_less_mult_iff field_simps split: if_splits)
  next
    case close
    then have "avg = (if \<bar>?p\<bar> < \<bar>signed\<bar> then ?x else 0)"
      "realized = realized_pnl l + \<bar>?p\<bar> * (?x - ?a) * direction ?p"
      using s by (auto simp: settle_def split: if_splits)
    moreover have "\<bar>?p\<bar> = \<bar>signed\<bar> \<Longrightarrow> ?p + signed = 0"
      using close(1) by (auto simp: abs_if zero_less_mult_iff split: if_splits)
    moreover have "\<bar>?p\<bar> * direction ?p = ?p" by (simp add: direction_def abs_if)
    moreover have "\<bar>?p\<bar> = \<bar>signed\<bar> \<Longrightarrow> signed * ?x = - (?p * ?x)"
      using calculation(3) by (metis add.commute eq_neg_iff_add_eq_0 minus_mult_left)
    moreover have "\<bar>?p\<bar> * (?x - ?a) * direction ?p = ?p * ?x - ?p * ?a"
      using calculation(4) by (metis mult.assoc mult.commute right_diff_distrib)
    ultimately show ?thesis using close(2)
      by (cases "\<bar>?p\<bar> = \<bar>signed\<bar>") (simp_all add: distrib_right)
  next
    case reduce
    then have "avg = ?a" "realized = realized_pnl l + ?q * (?x - ?a) * direction ?p"
      using s by (auto simp: settle_def split: if_splits)
    moreover have "?q * direction ?p = - signed"
      using reduce q f by (auto simp: direction_def abs_if zero_less_mult_iff split: if_splits)
    moreover have "?q * (?x - ?a) * direction ?p = - signed * (?x - ?a)"
      using calculation(3) by (metis mult.assoc mult.commute)
    ultimately show ?thesis by (simp add: left_diff_distrib right_diff_distrib distrib_right)
  qed
qed


lemma ledger_apply_balanced:
  assumes a: "ledger_apply (\<lambda>x. x) l f = Inr l'" and f: "valid_fill f" and l: "balanced l"
  shows "balanced l'"
proof -
  obtain additive avg realized where
    s: "settle (\<lambda>x. x) l f (side_sign (fill_side f) * fill_quantity f) = Inr (avg, realized)"
    and l': "average_entry l' = avg" "realized_pnl l' = realized" "starting_cash l' = starting_cash l"
      "position l' = position l + side_sign (fill_side f) * fill_quantity f"
      "cash l' = cash l - side_sign (fill_side f) * fill_quantity f * fill_price f - fill_fee f - additive"
      "fees l' = fees l + fill_fee f" "other_costs l' = other_costs l + additive"
    using a by (auto elim!: ledger_apply_Inr)
  from f have "0 < fill_quantity f" by (simp add: valid_fill_def)
  from settle_exact [OF s refl this] l show ?thesis unfolding balanced_def l' by linarith
qed

lemma ledger_run_balanced:
  assumes r: "ledger_run (\<lambda>x. x) l fs = Inr l'" and "balanced l" and v: "\<forall>f \<in> set fs. valid_fill f"
  shows "balanced l'"
proof (rule rfold_invariant [where I = balanced])
  show "rfold (ledger_apply (\<lambda>x. x)) l fs = Inr l'" using r by (simp only: ledger_run_def)
qed (use assms(2) v ledger_apply_balanced in blast)+

lemma reconcile_balanced: "balanced l \<Longrightarrow> reconcile (\<lambda>x. x) l mark = 0"
  by (simp add: balanced_def reconcile_def equity_def unrealized_pnl_def Let_def algebra_simps)













text \<open>A run on which 28-digit rounding changes nothing.\<close>

fun exact_run :: "ledger \<Rightarrow> fill list \<Rightarrow> bool" where
  "exact_run l [] = True"
| "exact_run l (f # fs) =
     (case ledger_apply dround l f of Inl e \<Rightarrow> False
      | Inr l' \<Rightarrow> ledger_apply (\<lambda>x. x) l f = Inr l' \<and> exact_run l' fs)"

lemma exact_run_eq: "exact_run l fs \<Longrightarrow> ledger_run dround l fs = ledger_run (\<lambda>x. x) l fs"
  by (induction fs arbitrary: l) (auto simp: ledger_run_def split: sum.splits)

section \<open>Properties\<close>

definition plain_fill :: "string \<Rightarrow> side \<Rightarrow> rat \<Rightarrow> rat \<Rightarrow> fill" where
  "plain_fill i sd q p = \<lparr>fill_id = i, fill_order_id = i, fill_timestamp = Aware 0 0, fill_side = sd,
     fill_quantity = q, fill_price = p, fill_role = TAKER, fill_fee = 0, fill_costs = []\<rparr>"

lemmas ledger_eval = ledger_run_def ledger_apply_def settle_def additive_costs_def Let_def
  plain_fill_def ledger_init_def side_sign_def direction_def rbind_def dround_exact12



text \<open>On every run of valid fills at 28 digits on which no operation had to round, the
  ledger reconciles at every mark price: equity equals starting cash plus realised and
  unrealised profit less fees and costs, so \<open>reconcile\<close> is zero.\<close>

theorem exact_runs_reconcile:
  assumes "\<forall>f \<in> set fs. valid_fill f" and "exact_run (ledger_init c) fs"
    and "ledger_run dround (ledger_init c) fs = Inr l"
  shows "cash l + position l * mark =
      c + realized_pnl l + position l * (mark - average_entry l) - fees l - other_costs l
    \<and> reconcile (\<lambda>x. x) l mark = 0"
proof -
  have run: "ledger_run (\<lambda>x. x) (ledger_init c) fs = Inr l"
    using assms(2,3) by (simp add: exact_run_eq)
  have b: "balanced l" by (rule ledger_run_balanced [OF run balanced_init assms(1)])
  have "starting_cash l = c"
  proof (rule rfold_invariant [where I = "\<lambda>l. starting_cash l = c"])
    show "rfold (ledger_apply (\<lambda>x. x)) (ledger_init c) fs = Inr l"
      using run by (simp only: ledger_run_def)
  qed (auto simp: ledger_init_def dest: ledger_apply_ids(3))
  with b reconcile_balanced [OF b] show ?thesis by (simp add: balanced_def algebra_simps)
qed

theorem exact_runs_reconcile_witness:
  "\<exists>l. ledger_run dround (ledger_init 100)
      [plain_fill ''a'' BUY 2 10, plain_fill ''b'' BUY 2 11, plain_fill ''c'' SELL 5 12] = Inr l \<and>
    reconcile (\<lambda>x. x) l 9 = 0"
proof -
  let ?fs = "[plain_fill ''a'' BUY 2 10, plain_fill ''b'' BUY 2 11, plain_fill ''c'' SELL 5 12]"
  have v: "\<forall>f \<in> set ?fs. valid_fill f" by (simp add: valid_fill_def plain_fill_def)
  have e: "exact_run (ledger_init 100) ?fs" by (simp add: ledger_eval)
  obtain l where l: "ledger_run dround (ledger_init 100) ?fs = Inr l" by (simp add: ledger_eval)
  from exact_runs_reconcile [OF v e l, of 9] l show ?thesis by blast
qed

text \<open>Whatever rounding does, a ledger started flat and fed valid fills keeps its book: fill
  ids are distinct, the average entry price is never negative, and it is zero exactly when the
  position is flat.\<close>

theorem ledger_book_invariant:
  assumes "ledger_run dround (ledger_init c) fs = Inr l" and "\<forall>f \<in> set fs. valid_fill f"
  shows "distinct (map fill_id (fills l)) \<and> 0 \<le> average_entry l \<and>
    (position l = 0 \<longleftrightarrow> average_entry l = 0)"
proof -
  have "ledger_ok l \<and> dround (position l) = position l"
    by (rule d28.ledger_run_ok [OF assms(1) ledger_ok_init _ assms(2)]) (simp add: ledger_init_def)
  then show ?thesis by (simp add: ledger_ok_def)
qed

theorem ledger_book_invariant_witness:
  "\<exists>l. ledger_run dround (ledger_init 6) [plain_fill ''a'' BUY 1 1, plain_fill ''b'' BUY 2 2] = Inr l \<and>
    distinct (map fill_id (fills l)) \<and> average_entry l \<noteq> 0"
proof -
  let ?fs = "[plain_fill ''a'' BUY 1 1, plain_fill ''b'' BUY 2 2]"
  obtain l where l: "ledger_run dround (ledger_init 6) ?fs = Inr l" and p: "position l = 3"
    by (simp add: ledger_eval)
  have "\<forall>f \<in> set ?fs. valid_fill f" by (simp add: valid_fill_def plain_fill_def)
  from ledger_book_invariant [OF l this] l p show ?thesis by auto
qed

text \<open>Three lots bought in two fills: the average entry 5/3 needs more than 28 digits.\<close>

abbreviation thirds_fills :: "fill list" where
  "thirds_fills \<equiv> [plain_fill ''a'' BUY 1 1, plain_fill ''b'' BUY 2 2]"

abbreviation thirds_ledger :: ledger where
  "thirds_ledger \<equiv> \<lparr>cash = 1, position = 3,
     average_entry = 1666666666666666666666666667 / 1000000000000000000000000000, realized_pnl = 0, fees = 0,
     other_costs = 0, fills = thirds_fills, starting_cash = 6\<rparr>"

lemma thirds_run: "ledger_run dround (ledger_init 6) thirds_fills = Inr thirds_ledger"
proof -
  have "dround (5 / 3) = 1666666666666666666666666667 / 1000000000000000000000000000" by code_simp
  then show ?thesis by (simp add: ledger_eval)
qed

lemma thirds_reconcile: "reconcile dround thirds_ledger 2 = 1 / 1000000000000000000000000000"
proof -
  have i: "dround 6 = 6" "dround 7 = 7" by (simp_all add: dround_exact12)
  have d: "dround (333333333333333333333333333 / 1000000000000000000000000000) = 333333333333333333333333333 / 1000000000000000000000000000"
    "dround (999999999999999999999999999 / 1000000000000000000000000000) = 999999999999999999999999999 / 1000000000000000000000000000"
    "dround (6999999999999999999999999999 / 1000000000000000000000000000) = 6999999999999999999999999999 / 1000000000000000000000000000"
    "dround (1 / 1000000000000000000000000000) = 1 / 1000000000000000000000000000"
    using dround_fits [OF fits_scaled [of 333333333333333333333333333 27]]
      dround_fits [OF fits_scaled [of 999999999999999999999999999 27]]
      dround_fits [OF fits_scaled [of 6999999999999999999999999999 27]]
      dround_fits [OF fits_scaled [of 1 27]] by simp_all
  show ?thesis by (simp add: reconcile_def equity_def unrealized_pnl_def Let_def i d)
qed

lemma thirds_fifo:
  "independently_reconcile dround 6 thirds_fills 2 =
     Inr \<lparr>rec_cash = 1, rec_position = 3, rec_realized_pnl = 0, rec_unrealized_pnl = 1,
          rec_equity = 7, rec_fees = 0, rec_other_costs = 0\<rparr>"
  by (simp add: ledger_eval independently_reconcile_def fifo_step_def fifo_costs_def)

text \<open>At 28 digits the check \<open>ledger.reconcile(mark) != 0\<close> rejects honest books: buying 1 at 1
  and 2 at 2 from a cash of 6 rounds the average entry 5/3, and the ledger reconciles to
  1e-27 instead of 0 at mark 2, with both books agreeing on cash, position and equity. The
  backtest loop raises \<open>independent accounting disagreement\<close> there.\<close>

theorem averaging_breaks_reconciliation:
  "\<exists>l r. ledger_run dround (ledger_init 6) [plain_fill ''a'' BUY 1 1, plain_fill ''b'' BUY 2 2] = Inr l \<and>
     independently_reconcile dround 6 [plain_fill ''a'' BUY 1 1, plain_fill ''b'' BUY 2 2] 2 = Inr r \<and>
     rec_cash r = cash l \<and> rec_position r = position l \<and> rec_equity r = equity dround l 2 \<and>
     reconcile dround l 2 = 1 / 10 ^ 27"
proof -
  have "equity dround thirds_ledger 2 = 7" by (simp add: equity_def dround_exact12)
  with thirds_run thirds_fifo thirds_reconcile show ?thesis by auto
qed

end
