(* ===== verification/Effective.thy ===== *)
theory Effective
  imports Prelude
begin

text \<open>
  Half-open effective ranges, shared by the fee schedules and instrument specifications of
  \<open>liki/finance\<close> and by the symbol master of \<open>liki/data\<close>: a version is in force from its
  start up to, and excluding, its end. The locale states the contract of a version record
  (a closed range is not empty) and proves once what selection at an instant can return.
\<close>

definition covers :: "('c \<Rightarrow> int) \<Rightarrow> ('c \<Rightarrow> int option) \<Rightarrow> 'c \<Rightarrow> int \<Rightarrow> bool" where
  "covers start till c t = (start c \<le> t \<and> (case till c of None \<Rightarrow> True | Some u \<Rightarrow> t < u))"

text \<open>Adjacent versions, sorted by start, that do not overlap.\<close>

fun chained :: "('c \<Rightarrow> int) \<Rightarrow> ('c \<Rightarrow> int option) \<Rightarrow> 'c list \<Rightarrow> bool" where
  "chained start till (a # b # cs) =
     ((case till a of None \<Rightarrow> False | Some u \<Rightarrow> u \<le> start b) \<and> chained start till (b # cs))"
| "chained start till _ = True"

locale effective_dated =
  fixes start :: "'c \<Rightarrow> int"
    and till :: "'c \<Rightarrow> int option"
    and ok :: "'c \<Rightarrow> bool"
  assumes nonempty_range: "ok c \<Longrightarrow> till c = Some u \<Longrightarrow> start c < u"
begin

lemma chained_after:
  "chained start till (a # cs) \<Longrightarrow> \<forall>c \<in> set (a # cs). ok c \<Longrightarrow> c \<in> set cs \<Longrightarrow>
   \<exists>u. till a = Some u \<and> u \<le> start c"
proof (induction cs arbitrary: a)
  case Nil
  then show ?case by simp
next
  case (Cons b cs)
  then obtain u where u: "till a = Some u" "u \<le> start b"
    by (auto split: option.splits)
  show ?case
  proof (cases "c = b")
    case True
    with u show ?thesis by blast
  next
    case False
    with Cons obtain w where "till b = Some w" "w \<le> start c" by auto
    with u Cons.prems(2) nonempty_range [of b w] show ?thesis by auto
  qed
qed

lemma at_most_one:
  "chained start till cs \<Longrightarrow> \<forall>c \<in> set cs. ok c \<Longrightarrow>
   length (List.filter (\<lambda>c. covers start till c t) cs) \<le> 1"
proof (induction cs)
  case Nil
  then show ?case by simp
next
  case (Cons a cs)
  then have tail: "chained start till cs" by (cases cs) auto
  show ?case
  proof (cases "covers start till a t")
    case False
    with Cons tail show ?thesis by simp
  next
    case True
    have "\<not> covers start till c t" if "c \<in> set cs" for c
      using chained_after [OF Cons.prems that] True by (auto simp: covers_def)
    then have "List.filter (\<lambda>c. covers start till c t) cs = []" by (simp add: filter_empty_conv)
    with True show ?thesis by simp
  qed
qed

lemma disjoint_chained:
  assumes "sorted (map start cs)" and "\<forall>c \<in> set cs. ok c"
    and "\<And>t. length (List.filter (\<lambda>c. covers start till c t) cs) \<le> 1"
  shows "chained start till cs"
  using assms
proof (induction cs)
  case Nil
  then show ?case by simp
next
  case (Cons a cs)
  have tail: "length (List.filter (\<lambda>c. covers start till c t) cs) \<le> 1" for t
    using Cons.prems(3) [of t] by (simp split: if_splits)
  show ?case
  proof (cases cs)
    case Nil
    then show ?thesis by simp
  next
    case b: (Cons b ds)
    have "covers start till b (start b)"
      using nonempty_range [of b] Cons.prems(2) b by (auto simp: covers_def split: option.split)
    with Cons.prems(3) [of "start b"] have "\<not> covers start till a (start b)"
      by (auto simp: b split: if_splits)
    moreover have "start a \<le> start b" using Cons.prems(1) by (simp add: b)
    ultimately have "case till a of None \<Rightarrow> False | Some u \<Rightarrow> u \<le> start b"
      by (auto simp: covers_def split: option.splits)
    moreover have "chained start till cs"
      using Cons.IH Cons.prems(1,2) tail by simp
    ultimately show ?thesis by (simp add: b)
  qed
qed

lemma chained_iff_disjoint:
  "sorted (map start cs) \<Longrightarrow> \<forall>c \<in> set cs. ok c \<Longrightarrow>
   chained start till cs \<longleftrightarrow> (\<forall>t. length (List.filter (\<lambda>c. covers start till c t) cs) \<le> 1)"
  using at_most_one disjoint_chained by blast

lemma covers_start: "ok c \<Longrightarrow> covers start till c (start c)"
  using nonempty_range by (auto simp: covers_def split: option.split)

end

lemma length_one_iff: "length xs = 1 \<longleftrightarrow> (\<exists>x. xs = [x])"
  by (auto simp: length_Suc_conv)

end
