(* ===== verification/Contracts.thy ===== *)
theory Contracts
  imports FinTypes Effective
begin

text \<open>
  Effective-dated policy selection, fees, currency conversion and venue validation of
  orders: \<open>liki/finance/contracts.py\<close>.
\<close>

section \<open>Effective-dated selection\<close>

text \<open>
  \<open>effective_at\<close> is generic over the two versioned records; its first two arguments are
  their \<open>effective_from\<close> and \<open>effective_to\<close> attributes.
\<close>

definition effective_at ::
  "('c \<Rightarrow> datetime) \<Rightarrow> ('c \<Rightarrow> datetime option) \<Rightarrow> 'c list \<Rightarrow> datetime \<Rightarrow> 'c result" where
  "effective_at start till contracts when =
     (let matches = List.filter (\<lambda>c. covers (instant \<circ> start) (map_option instant \<circ> till) c (instant when)) contracts
      in if list_ex (\<lambda>c. \<not> comparable (start c) when) contracts then Inl mixed_datetimes
         else if length matches \<noteq> 1 then Inl (UnknownContractError ''expected one effective contract'')
         else Inr (hd matches))"

definition spec_effective_at :: "instrument_spec list \<Rightarrow> datetime \<Rightarrow> instrument_spec result" where
  "spec_effective_at = effective_at spec_effective_from spec_effective_to"

definition select_fee ::
  "fee_schedule list \<Rightarrow> string \<Rightarrow> string \<Rightarrow> string \<Rightarrow> liquidity_role \<Rightarrow> datetime \<Rightarrow> fee_schedule result" where
  "select_fee schedules venue instrument tier role when =
     effective_at fs_effective_from fs_effective_to
       (List.filter (\<lambda>s. (fs_venue s, fs_instrument_id s, fs_account_tier s, fs_liquidity_role s)
                           = (venue, instrument, tier, role)) schedules) when"

lemma effective_at_Inr:
  assumes "effective_at start till cs t = Inr c"
  shows "c \<in> set cs" and "covers (instant \<circ> start) (map_option instant \<circ> till) c (instant t)"
    and "\<And>d. d \<in> set cs \<Longrightarrow> covers (instant \<circ> start) (map_option instant \<circ> till) d (instant t) \<Longrightarrow> d = c"
proof -
  obtain x where x: "List.filter (\<lambda>c. covers (instant \<circ> start) (map_option instant \<circ> till) c (instant t)) cs = [x]"
    using assms by (auto simp: effective_at_def Let_def length_Suc_conv split: if_splits)
  then have "c = x" using assms by (simp add: effective_at_def Let_def split: if_splits)
  with x have "set [c] = {d \<in> set cs. covers (instant \<circ> start) (map_option instant \<circ> till) d (instant t)}"
    by (metis set_filter)
  then show "c \<in> set cs" "covers (instant \<circ> start) (map_option instant \<circ> till) c (instant t)"
    "\<And>d. d \<in> set cs \<Longrightarrow> covers (instant \<circ> start) (map_option instant \<circ> till) d (instant t) \<Longrightarrow> d = c"
    by auto
qed

interpretation spec_versions: effective_dated
  "instant \<circ> spec_effective_from" "map_option instant \<circ> spec_effective_to" valid_instrument_spec
  by unfold_locales (auto simp: valid_instrument_spec_def split: option.splits)

section \<open>Fees and currency conversion\<close>

definition fee_amount :: "fee_schedule \<Rightarrow> rat \<Rightarrow> money result" where
  "fee_amount schedule notional =
     (if notional < 0 then Inl (ValueError ''notional must not be negative'')
      else Inr \<lparr>money_amount = dmul notional (fs_rate schedule), money_currency = ''QUOTE''\<rparr>)"

definition convert_at :: "fx_quote \<Rightarrow> money \<Rightarrow> string \<Rightarrow> datetime \<Rightarrow> money result" where
  "convert_at q amount reporting valuation =
     (if \<not> comparable valuation (fx_available_at q) then Inl mixed_datetimes
      else if instant valuation < instant (fx_available_at q)
      then Inl (UnknownContractError ''FX quote was not available at valuation time'')
      else if money_currency amount = reporting then Inr amount
      else if money_currency amount = fx_base_currency q \<and> reporting = fx_quote_currency q then
        let rate = (if fx_convention q \<in> {CONV_BID, CONV_MID, CONV_MARK} then fx_bid q else fx_ask q)
        in Inr \<lparr>money_amount = dmul (money_amount amount) rate, money_currency = reporting\<rparr>
      else if money_currency amount = fx_quote_currency q \<and> reporting = fx_base_currency q then
        let rate = (if fx_convention q \<in> {CONV_ASK, CONV_MID, CONV_MARK} then fx_ask q else fx_bid q)
        in rbind (ddiv (money_amount amount) rate)
             (\<lambda>a. Inr \<lparr>money_amount = a, money_currency = reporting\<rparr>)
      else Inl (UnknownContractError ''FX quote currencies do not match conversion''))"

section \<open>Venue orders\<close>

datatype order_type = MARKET | LIMIT

datatype time_in_force = GTC | IOC | FOK

record venue_order =
  vo_side :: side
  vo_quantity :: rat
  vo_order_type :: order_type
  vo_limit_price :: "rat option"
  vo_reduce_only :: bool
  vo_post_only :: bool
  vo_time_in_force :: time_in_force

definition rounded_order :: "venue_order \<Rightarrow> instrument_spec \<Rightarrow> venue_order result" where
  "rounded_order order spec =
     rbind (floor_to_increment (vo_quantity order) (spec_lot_size spec)) (\<lambda>quantity.
     if quantity < spec_min_quantity spec then Inl (ValueError ''quantity rounds below venue minimum'')
     else if vo_order_type order = LIMIT then
       (case vo_limit_price order of
          None \<Rightarrow> Inl (ValueError ''limit order needs positive limit price'')
        | Some p \<Rightarrow>
            if p \<le> 0 then Inl (ValueError ''limit order needs positive limit price'')
            else rbind (if vo_side order = BUY then ceil_to_increment p (spec_tick_size spec)
                        else floor_to_increment p (spec_tick_size spec))
                   (\<lambda>price. Inr (order\<lparr>vo_quantity := quantity, vo_limit_price := Some price\<rparr>)))
     else Inr (order\<lparr>vo_quantity := quantity\<rparr>))"

text \<open>\<open>rounded.limit_price or reference_price\<close>: a limit price of zero is falsy.\<close>

definition price_or :: "rat option \<Rightarrow> rat \<Rightarrow> rat" where
  "price_or limit ref = (case limit of None \<Rightarrow> ref | Some p \<Rightarrow> if p = 0 then ref else p)"

definition validate_order :: "venue_order \<Rightarrow> instrument_spec \<Rightarrow> rat \<Rightarrow> rat \<Rightarrow> unit result" where
  "validate_order order spec reference_price current_position =
     rbind (require (spec_trading_status spec = TRADING) (ValueError ''instrument is not tradeable'')) (\<lambda>_.
     rbind (require (0 < reference_price) (ValueError ''reference price must be positive'')) (\<lambda>_.
     rbind (rounded_order order spec) (\<lambda>rounded.
     rbind (require (\<not> (case spec_max_quantity spec of None \<Rightarrow> False | Some m \<Rightarrow> m < vo_quantity rounded))
              (ValueError ''quantity exceeds venue maximum'')) (\<lambda>_.
     let price = price_or (vo_limit_price rounded) reference_price in
     rbind (require (\<not> ((case spec_price_lower spec of None \<Rightarrow> False | Some lo \<Rightarrow> price < lo)
                        \<or> (case spec_price_upper spec of None \<Rightarrow> False | Some hi \<Rightarrow> hi < price)))
              (ValueError ''price violates venue band'')) (\<lambda>_.
     rbind (require (\<not> dmul (dmul price (vo_quantity rounded)) (spec_multiplier spec) < spec_min_notional spec)
              (ValueError ''notional below venue minimum'')) (\<lambda>_.
     require (\<not> (vo_reduce_only rounded \<and>
                 dabs current_position
                   < dabs (dadd current_position (dmul (side_sign (vo_side rounded)) (vo_quantity rounded)))))
             (ValueError ''reduce-only order can increase exposure'')))))))"

section \<open>Properties\<close>

text \<open>
  Two values at a common decimal scale, the first with at most 27 digits: the range in
  which rounding to an increment is exact.
\<close>

definition at_scale :: "rat \<Rightarrow> rat \<Rightarrow> bool" where
  "at_scale x inc = (\<exists>a b s. x = of_int a / 10 ^ s \<and> inc = of_int b / 10 ^ s \<and>
     0 \<le> a \<and> a \<le> 10 ^ 27 \<and> 0 < b \<and> b \<le> 10 ^ 27)"

lemma at_scale_floor:
  assumes "at_scale x inc"
  shows "\<exists>y k. floor_to_increment x inc = Inr y \<and> y = of_int k * inc \<and> y \<le> x \<and> x < y + inc"
proof -
  obtain a b s where e: "x = of_int a / 10 ^ s" "inc = of_int b / 10 ^ s"
    and r: "0 \<le> a" "a \<le> 10 ^ 27" "0 < b" using assms by (auto simp: at_scale_def)
  let ?y = "of_int (a div b * b) / 10 ^ s :: rat"
  have d: "a div b * b \<le> a" "a < (a div b + 1) * b" using r(3) by (rule div_mult_le_int)+
  then have "of_int (a div b * b) \<le> (of_int a :: rat)" "(of_int a :: rat) < of_int (a div b * b + b)"
    by (simp_all only: of_int_le_iff of_int_less_iff distrib_right mult_1)
  then have "?y \<le> x" "x < ?y + inc"
    by (simp_all add: e divide_right_mono divide_strict_right_mono flip: add_divide_distrib)
  moreover have "?y = of_int (a div b) * inc" by (simp add: e)
  moreover have "floor_to_increment x inc = Inr ?y" unfolding e by (rule floor_to_increment_exact [OF r])
  ultimately show ?thesis by blast
qed

lemma at_scale_ceil:
  assumes "at_scale x inc"
  shows "\<exists>y k. ceil_to_increment x inc = Inr y \<and> y = of_int k * inc \<and> x \<le> y \<and> y < x + inc"
proof -
  obtain a b s where e: "x = of_int a / 10 ^ s" "inc = of_int b / 10 ^ s"
    and r: "0 \<le> a" "a \<le> 10 ^ 27" "0 < b" "b \<le> 10 ^ 27" using assms by (auto simp: at_scale_def)
  let ?k = "- (- a div b)"
  let ?y = "of_int (?k * b) / 10 ^ s :: rat"
  have d: "- a div b * b \<le> - a" "- a < (- a div b + 1) * b" using r(3) by (rule div_mult_le_int)+
  then have "a \<le> ?k * b" "?k * b < a + b" by (simp_all add: algebra_simps)
  then have "(of_int a :: rat) \<le> of_int (?k * b)" "of_int (?k * b) < (of_int (a + b) :: rat)"
    by (simp_all only: of_int_le_iff of_int_less_iff)
  then have "x \<le> ?y" "?y < x + inc" unfolding e add_divide_distrib [symmetric] of_int_add [symmetric]
    by (simp_all only: divide_right_mono divide_strict_right_mono zero_le_power zero_less_power
        zero_le_numeral zero_less_numeral)
  moreover have "?y = of_int ?k * inc" by (simp add: e)
  moreover have "ceil_to_increment x inc = Inr ?y" unfolding e by (rule ceil_to_increment_exact [OF r])
  ultimately show ?thesis by blast
qed

text \<open>Normalising an order never helps the trader: within 27 digits, the accepted quantity is
  a whole number of lots, never more than was asked and at least the venue minimum; a buy
  limit moves up and a sell limit moves down by less than one tick; nothing else changes.\<close>

theorem rounded_order_adverse:
  assumes r: "rounded_order order spec = Inr rounded"
    and lot: "at_scale (vo_quantity order) (spec_lot_size spec)"
    and tick: "\<And>p. vo_limit_price order = Some p \<Longrightarrow> at_scale p (spec_tick_size spec)"
  shows "(\<exists>k. vo_quantity rounded = of_int k * spec_lot_size spec)
    \<and> vo_quantity rounded \<le> vo_quantity order \<and> spec_min_quantity spec \<le> vo_quantity rounded
    \<and> (vo_order_type order = LIMIT \<longrightarrow> (\<exists>p p' k. vo_limit_price order = Some p \<and>
         vo_limit_price rounded = Some p' \<and> p' = of_int k * spec_tick_size spec \<and>
         (if vo_side order = BUY then p \<le> p' \<and> p' < p + spec_tick_size spec
          else p' \<le> p \<and> p < p' + spec_tick_size spec)))
    \<and> rounded\<lparr>vo_quantity := vo_quantity order, vo_limit_price := vo_limit_price order\<rparr> = order"
proof -
  obtain q k where q: "floor_to_increment (vo_quantity order) (spec_lot_size spec) = Inr q"
    "q = of_int k * spec_lot_size spec" "q \<le> vo_quantity order"
    using at_scale_floor [OF lot] by blast
  show ?thesis
  proof (cases "vo_order_type order = LIMIT")
    case False
    with r q show ?thesis by (auto simp: rounded_order_def split: if_splits)
  next
    case True
    with r q obtain p where p: "vo_limit_price order = Some p" and pos: "0 < p"
      by (auto simp: rounded_order_def split: if_splits option.splits)
    obtain lo i where lo: "floor_to_increment p (spec_tick_size spec) = Inr lo"
      "lo = of_int i * spec_tick_size spec" "lo \<le> p" "p < lo + spec_tick_size spec"
      using at_scale_floor [OF tick [OF p]] by blast
    obtain hi j where hi: "ceil_to_increment p (spec_tick_size spec) = Inr hi"
      "hi = of_int j * spec_tick_size spec" "p \<le> hi" "hi < p + spec_tick_size spec"
      using at_scale_ceil [OF tick [OF p]] by blast
    from r True p pos q(1) lo(1) hi(1)
    have "spec_min_quantity spec \<le> q"
      and e: "rounded = order\<lparr>vo_quantity := q,
                vo_limit_price := Some (if vo_side order = BUY then hi else lo)\<rparr>"
      by (auto simp: rounded_order_def split: if_splits)
    with True p q lo hi show ?thesis by (cases "vo_side order = BUY") auto
  qed
qed

definition sample_spec :: instrument_spec where
  "sample_spec = \<lparr>spec_version = ''v1'', spec_venue = ''V'', spec_instrument_id = ''BTC-USD'',
     spec_contract_kind = SPOT, spec_base_currency = ''BTC'', spec_quote_currency = ''USD'',
     spec_settlement_currency = ''USD'', spec_tick_size = 1 / 10, spec_lot_size = 1 / 100,
     spec_min_quantity = 1 / 100, spec_min_notional = 1, spec_max_quantity = Some 100,
     spec_price_lower = None, spec_price_upper = Some 1000, spec_multiplier = 1,
     spec_initial_margin_rate = None, spec_maintenance_margin_rate = None,
     spec_effective_from = Aware 0 0, spec_effective_to = None, spec_trading_status = TRADING\<rparr>"

definition sample_order :: venue_order where
  "sample_order = \<lparr>vo_side = BUY, vo_quantity = 1237 / 1000, vo_order_type = LIMIT,
     vo_limit_price = Some (1234 / 100), vo_reduce_only = False, vo_post_only = False,
     vo_time_in_force = GTC\<rparr>"

lemma sample_simps [simp]:
  "spec_lot_size sample_spec = 1 / 100" "spec_tick_size sample_spec = 1 / 10"
  "spec_min_quantity sample_spec = 1 / 100" "spec_min_notional sample_spec = 1"
  "spec_max_quantity sample_spec = Some 100" "spec_price_lower sample_spec = None"
  "spec_price_upper sample_spec = Some 1000" "spec_multiplier sample_spec = 1"
  "spec_trading_status sample_spec = TRADING" "valid_instrument_spec sample_spec"
  "vo_quantity sample_order = 1237 / 1000" "vo_order_type sample_order = LIMIT"
  "vo_limit_price sample_order = Some (1234 / 100)" "vo_side sample_order = BUY"
  "vo_reduce_only sample_order = False"
  by (simp_all add: sample_spec_def sample_order_def valid_instrument_spec_def)

lemma sample_increments:
  "floor_to_increment (1237 / 1000) (1 / 100) = Inr (123 / 100)"
  "ceil_to_increment (1234 / 100) (1 / 10) = Inr (124 / 10)"
  using floor_to_increment_exact [of 1237 10 3] ceil_to_increment_exact [of 1234 10 2] by simp_all

lemma sample_rounded:
  "rounded_order sample_order sample_spec
     = Inr (sample_order\<lparr>vo_quantity := 123 / 100, vo_limit_price := Some (124 / 10)\<rparr>)"
  unfolding rounded_order_def using sample_increments by simp

theorem rounded_order_adverse_witness:
  "\<exists>k. vo_quantity (sample_order\<lparr>vo_quantity := 123 / 100, vo_limit_price := Some (124 / 10)\<rparr>)
     = of_int k * spec_lot_size sample_spec"
proof -
  have lot: "at_scale (vo_quantity sample_order) (spec_lot_size sample_spec)"
    unfolding at_scale_def by (rule exI [of _ 1237], rule exI [of _ 10], rule exI [of _ 3]) simp
  have tick: "at_scale p (spec_tick_size sample_spec)" if p: "vo_limit_price sample_order = Some p" for p
  proof -
    have "p = 1234 / 100" using p by simp
    then show ?thesis unfolding at_scale_def
      by (simp only: sample_simps) (rule exI [of _ 1234], rule exI [of _ 10], rule exI [of _ 2], simp)
  qed
  from rounded_order_adverse [OF sample_rounded lot tick] show ?thesis by (rule conjunct1)
qed

text \<open>The docstring of \<open>rounded_order\<close> promises that the quantity never grows. Beyond 28
  digits it does: the quotient is rounded before it is truncated, so an order for
  0.99999999999999999999999999999999 with lot size 1 becomes an order for 1.\<close>

theorem rounded_order_can_grow:
  "\<exists>order spec rounded. valid_instrument_spec spec \<and> rounded_order order spec = Inr rounded \<and>
     vo_quantity order < vo_quantity rounded"
proof -
  let ?spec = "sample_spec\<lparr>spec_lot_size := 1\<rparr>"
  let ?q = "99999999999999999999999999999999 / 100000000000000000000000000000000 :: rat"
  let ?order = "sample_order\<lparr>vo_quantity := ?q, vo_order_type := MARKET, vo_limit_price := None\<rparr>"
  have "adjusted ?q = - 1" by (rule adjusted_unique) (simp_all add: p10_def power_int_def)
  then have u2: "ulp ?q = 1 / 10 ^ 28" by (simp add: ulp_def prec_def p10_def power_int_def power_one_over)
  have u: "?q / ulp ?q = 99999999999999999999999999999999 / 10000" unfolding u2 by simp
  have "half_even (99999999999999999999999999999999 / 10000) = 10 ^ 28"
    by (simp add: half_even_def Let_def)
  then have "dround ?q = 1" unfolding dround_def u u2 by simp
  moreover have "dround 1 = 1" by (simp add: dround_exact12)
  ultimately have "floor_to_increment ?q 1 = Inr 1"
    by (simp add: floor_to_increment_def ddiv_def to_integral_down_def dmul_def)
  then have "rounded_order ?order ?spec = Inr (?order\<lparr>vo_quantity := 1\<rparr>)"
    by (simp add: rounded_order_def)
  moreover have "valid_instrument_spec ?spec"
    by (simp add: valid_instrument_spec_def sample_spec_def)
  moreover have "vo_quantity ?order < vo_quantity (?order\<lparr>vo_quantity := 1\<rparr>)" by simp
  ultimately show ?thesis by (intro exI conjI)
qed

text \<open>What a validated order guarantees: the instrument trades, the normalised quantity is
  within the venue maximum, the effective price inside the venue band, the notional at least
  the venue minimum, and a reduce-only order leaves no larger position.\<close>

theorem validate_order_sound:
  assumes "validate_order order spec ref pos = Inr u"
  shows "\<exists>rounded. rounded_order order spec = Inr rounded \<and> spec_trading_status spec = TRADING \<and>
    (\<forall>m. spec_max_quantity spec = Some m \<longrightarrow> vo_quantity rounded \<le> m) \<and>
    (\<forall>lo. spec_price_lower spec = Some lo \<longrightarrow> lo \<le> price_or (vo_limit_price rounded) ref) \<and>
    (\<forall>hi. spec_price_upper spec = Some hi \<longrightarrow> price_or (vo_limit_price rounded) ref \<le> hi) \<and>
    spec_min_notional spec \<le> dmul (dmul (price_or (vo_limit_price rounded) ref) (vo_quantity rounded))
                                    (spec_multiplier spec) \<and>
    (vo_reduce_only rounded \<longrightarrow>
       dabs (dadd pos (dmul (side_sign (vo_side rounded)) (vo_quantity rounded))) \<le> dabs pos)"
proof -
  from assms obtain rounded where "rounded_order order spec = Inr rounded"
    unfolding validate_order_def by (auto simp: rbind_eq_Inr)
  with assms show ?thesis
    by (intro exI [of _ rounded])
      (auto simp: validate_order_def rbind_eq_Inr Let_def not_less split: option.splits)
qed

theorem validate_order_sound_witness:
  "spec_min_notional sample_spec \<le> dmul (dmul (price_or (Some (124 / 10)) 12) (123 / 100)) 1"
proof -
  have e: "dmul (62 / 5) (123 / 100) = 3813 / 250" "dmul (3813 / 250) 1 = 3813 / 250"
    by (simp_all add: decimal_eval)
  have again: "validate_order sample_order sample_spec 12 0 = Inr ()"
    unfolding validate_order_def by (simp add: sample_rounded price_or_def Let_def e)
  from validate_order_sound [OF again] show ?thesis
    by (simp add: sample_rounded del: dadd_0)
qed

text \<open>Fee selection is never a guess: a schedule is returned only if it is the single one for
  that venue, instrument, tier and liquidity role in force at the instant.\<close>

theorem select_fee_unique:
  assumes "select_fee schedules venue instrument tier role when = Inr s"
  shows "s \<in> set schedules \<and> fs_venue s = venue \<and> fs_instrument_id s = instrument \<and>
    fs_account_tier s = tier \<and> fs_liquidity_role s = role \<and>
    instant (fs_effective_from s) \<le> instant when \<and>
    (\<forall>u. fs_effective_to s = Some u \<longrightarrow> instant when < instant u) \<and>
    (\<forall>d \<in> set schedules. fs_venue d = venue \<and> fs_instrument_id d = instrument \<and>
       fs_account_tier d = tier \<and> fs_liquidity_role d = role \<and>
       covers (instant \<circ> fs_effective_from) (map_option instant \<circ> fs_effective_to) d (instant when)
       \<longrightarrow> d = s)"
proof -
  note e = effective_at_Inr [OF assms [unfolded select_fee_def]]
  show ?thesis
  proof (intro conjI ballI impI)
    fix d
    assume d: "d \<in> set schedules" "fs_venue d = venue \<and> fs_instrument_id d = instrument \<and>
       fs_account_tier d = tier \<and> fs_liquidity_role d = role \<and>
       covers (instant \<circ> fs_effective_from) (map_option instant \<circ> fs_effective_to) d (instant when)"
    show "d = s" by (rule e(3)) (use d in simp_all)
  qed (use e(1,2) in \<open>auto simp: covers_def\<close>)
qed

definition sample_fee :: fee_schedule where
  "sample_fee = \<lparr>fs_version = ''v1'', fs_venue = ''V'', fs_instrument_id = ''BTC-USD'', fs_account_tier = ''T'',
     fs_liquidity_role = TAKER, fs_rate = 1 / 1000, fs_effective_from = Aware 0 0,
     fs_effective_to = Some (Aware 100 0), fs_source = ''doc''\<rparr>"

lemma sample_fee_selected:
  assumes "0 \<le> instant t" and "instant t < 100" and "is_aware t"
  shows "select_fee [sample_fee] ''V'' ''BTC-USD'' ''T'' TAKER t = Inr sample_fee"
proof -
  have "fs_venue sample_fee = ''V''" "fs_instrument_id sample_fee = ''BTC-USD''"
    "fs_account_tier sample_fee = ''T''" "fs_liquidity_role sample_fee = TAKER"
    "fs_effective_from sample_fee = Aware 0 0" "fs_effective_to sample_fee = Some (Aware 100 0)"
    by (simp_all add: sample_fee_def)
  with assms show ?thesis
    by (cases t) (simp_all add: select_fee_def effective_at_def covers_def comparable_def Let_def)
qed

theorem select_fee_unique_witness:
  "select_fee [sample_fee] ''V'' ''BTC-USD'' ''T'' TAKER (Aware 50 0) = Inr sample_fee \<and>
   fs_account_tier sample_fee = ''T''"
proof -
  have s: "select_fee [sample_fee] ''V'' ''BTC-USD'' ''T'' TAKER (Aware 50 0) = Inr sample_fee"
    by (rule sample_fee_selected) simp_all
  moreover from select_fee_unique [OF s] have "fs_account_tier sample_fee = ''T''" by (elim conjE)
  ultimately show ?thesis ..
qed

end
