(* ===== verification/States.thy ===== *)
theory States
  imports Prelude
begin

text \<open>
  Transition tables. The order, proposal and incident life cycles of the program are all
  given by a dictionary from a state to the states that may follow it. The locale states
  what such a table promises, and what follows for any path through it.
\<close>

locale transition_table =
  fixes nexts :: "'s \<Rightarrow> 's list"
    and terminal :: "'s \<Rightarrow> bool"
    and rank :: "'s \<Rightarrow> nat"
  assumes terminal_stuck: "terminal s \<Longrightarrow> nexts s = []"
    and progress: "\<not> terminal s \<Longrightarrow> \<exists>t \<in> set (nexts s). rank t < rank s"
begin

definition leads_to :: "'s \<Rightarrow> 's \<Rightarrow> bool" where
  "leads_to = (\<lambda>s t. t \<in> set (nexts s))\<^sup>*\<^sup>*"

lemma terminal_iff_stuck: "terminal s \<longleftrightarrow> nexts s = []"
  using terminal_stuck progress by fastforce

lemma terminal_absorbing:
  assumes "leads_to s t" and "terminal s"
  shows "t = s"
  using assms unfolding leads_to_def
  by (induction rule: converse_rtranclp_induct) (auto simp: terminal_stuck)

lemma can_finish: "\<exists>t. leads_to s t \<and> terminal t"
proof (induction "rank s" arbitrary: s rule: less_induct)
  case less
  show ?case
  proof (cases "terminal s")
    case True
    then show ?thesis unfolding leads_to_def by blast
  next
    case False
    then obtain u where u: "u \<in> set (nexts s)" "rank u < rank s" using progress by blast
    from less [OF u(2)] obtain t where "leads_to u t" "terminal t" by blast
    with u(1) show ?thesis unfolding leads_to_def by (meson converse_rtranclp_into_rtranclp)
  qed
qed

end

end
