(* ===== verification/Execution.thy ===== *)
theory Execution
  imports Contracts States
begin

text \<open>
  Paper orders: emergency stops, the order life cycle, causal order intents, the fill
  model and the pretrade check of \<open>liki/finance/execution.py\<close>.
\<close>

section \<open>Order states\<close>

datatype order_state = INTENT | PRETRADE_VALIDATED | SUBMITTED | ACKNOWLEDGED
  | UNKNOWN_RECONCILING | PARTIALLY_FILLED | AMENDED | CANCEL_PENDING
  | FILLED | CANCELLED | REJECTED | EXPIRED

definition terminal_states :: "order_state list" where
  "terminal_states = [FILLED, CANCELLED, REJECTED, EXPIRED]"

fun transitions :: "order_state \<Rightarrow> order_state list" where
  "transitions INTENT = [PRETRADE_VALIDATED, REJECTED]"
| "transitions PRETRADE_VALIDATED = [SUBMITTED, REJECTED]"
| "transitions SUBMITTED = [ACKNOWLEDGED, UNKNOWN_RECONCILING, REJECTED]"
| "transitions UNKNOWN_RECONCILING =
     [ACKNOWLEDGED, PARTIALLY_FILLED, FILLED, CANCELLED, REJECTED, EXPIRED]"
| "transitions ACKNOWLEDGED =
     [PARTIALLY_FILLED, FILLED, CANCEL_PENDING, CANCELLED, EXPIRED, UNKNOWN_RECONCILING]"
| "transitions PARTIALLY_FILLED =
     [PARTIALLY_FILLED, FILLED, AMENDED, CANCEL_PENDING, CANCELLED, EXPIRED]"
| "transitions AMENDED = [ACKNOWLEDGED, PARTIALLY_FILLED, FILLED, CANCELLED, REJECTED]"
| "transitions CANCEL_PENDING = [PARTIALLY_FILLED, FILLED, CANCELLED, UNKNOWN_RECONCILING]"
| "transitions _ = []"

fun closing_state :: "order_state \<Rightarrow> order_state" where
  "closing_state ACKNOWLEDGED = CANCELLED"
| "closing_state PARTIALLY_FILLED = CANCELLED"
| "closing_state CANCEL_PENDING = CANCELLED"
| "closing_state _ = REJECTED"

lemma closing_state:
  "s \<notin> set terminal_states \<Longrightarrow> closing_state s \<in> set (transitions s)"
  "closing_state s \<in> set terminal_states"
  "closing_state s \<noteq> FILLED" "closing_state s \<noteq> PARTIALLY_FILLED"
  by (cases s; simp add: terminal_states_def)+

interpretation order_table: transition_table transitions "\<lambda>s. s \<in> set terminal_states"
  "\<lambda>s. if s \<in> set terminal_states then 0 else 1"
proof unfold_locales
  fix s
  show "s \<in> set terminal_states \<Longrightarrow> transitions s = []"
    by (cases s) (simp_all add: terminal_states_def)
  show "s \<notin> set terminal_states \<Longrightarrow> \<exists>t \<in> set (transitions s).
      (if t \<in> set terminal_states then 0 else 1) < (if s \<in> set terminal_states then 0 else (1 :: nat))"
    using closing_state by (intro bexI [of _ "closing_state s"]) simp_all
qed

section \<open>Order intents\<close>

record order_intent =
  oi_client_order_id :: string
  oi_strategy_id :: string
  oi_venue :: string
  oi_instrument_id :: string
  oi_side :: side
  oi_quantity :: rat
  oi_order_type :: order_type
  oi_limit_price :: "rat option"
  oi_information_cutoff_time :: datetime
  oi_signal_ready_time :: datetime
  oi_order_eligible_time :: datetime
  oi_submission_time :: datetime
  oi_reduce_only :: bool
  oi_post_only :: bool
  oi_time_in_force :: time_in_force

text \<open>The validators of \<open>OrderIntent\<close>: a record passes them or is refused.\<close>

definition mk_order_intent :: "order_intent \<Rightarrow> order_intent result" where
  "mk_order_intent i =
     rbind (require (oi_client_order_id i \<noteq> [] \<and> oi_strategy_id i \<noteq> [])
              (ValueError ''String should have at least 1 character'')) (\<lambda>_.
     rbind (require (is_aware (oi_information_cutoff_time i) \<and> is_aware (oi_signal_ready_time i) \<and>
                     is_aware (oi_order_eligible_time i) \<and> is_aware (oi_submission_time i))
              (ValueError ''order timestamps must be timezone-aware'')) (\<lambda>_.
     rbind (require (0 < oi_quantity i) (ValueError ''order quantity must be positive'')) (\<lambda>_.
     rbind (require (instant (oi_information_cutoff_time i) \<le> instant (oi_signal_ready_time i) \<and>
                     instant (oi_signal_ready_time i) \<le> instant (oi_order_eligible_time i) \<and>
                     instant (oi_order_eligible_time i) \<le> instant (oi_submission_time i))
              (ValueError ''causality timestamps are out of order'')) (\<lambda>_.
     rbind (require (\<not> (oi_order_type i = LIMIT \<and> oi_limit_price i = None))
              (ValueError ''limit order requires limit price'')) (\<lambda>_.
     rbind (require (\<not> (oi_order_type i = MARKET \<and> oi_limit_price i \<noteq> None))
              (ValueError ''market order cannot include limit price'')) (\<lambda>_.
     Inr i))))))"

definition intent_venue_order :: "order_intent \<Rightarrow> venue_order" where
  "intent_venue_order i = \<lparr>vo_side = oi_side i, vo_quantity = oi_quantity i,
     vo_order_type = oi_order_type i, vo_limit_price = oi_limit_price i,
     vo_reduce_only = oi_reduce_only i, vo_post_only = oi_post_only i,
     vo_time_in_force = oi_time_in_force i\<rparr>"

section \<open>Emergency stops\<close>

datatype stop_scope = STRATEGY_STOP | VENUE_STOP | PAPER_GLOBAL_STOP | FUTURE_LIVE_GLOBAL_STOP

datatype stop_action = BLOCK_NEW | CANCEL_WORKING | RECONCILE | REDUCE_FLATTEN

record emergency_stop =
  es_stop_id :: string
  es_scope :: stop_scope
  es_actions :: "stop_action set"
  es_actor_id :: string
  es_reason :: string
  es_activated_at :: datetime
  es_policy_version :: string
  es_strategy_id :: "string option"
  es_venue :: "string option"

definition mk_emergency_stop :: "emergency_stop \<Rightarrow> emergency_stop result" where
  "mk_emergency_stop s =
     rbind (require (es_stop_id s \<noteq> [] \<and> es_actor_id s \<noteq> [] \<and> es_reason s \<noteq> [] \<and> es_policy_version s \<noteq> [])
              (ValueError ''String should have at least 1 character'')) (\<lambda>_.
     rbind (require (es_actions s \<noteq> {})
              (ValueError ''emergency stop needs at least one action'')) (\<lambda>_.
     rbind (require (\<not> (es_scope s = STRATEGY_STOP \<and> \<not> truthy (es_strategy_id s)))
              (ValueError ''strategy stop needs strategy_id'')) (\<lambda>_.
     rbind (require (\<not> (es_scope s = VENUE_STOP \<and> \<not> truthy (es_venue s)))
              (ValueError ''venue stop needs venue'')) (\<lambda>_.
     rbind (require (\<not> (es_scope s \<in> {PAPER_GLOBAL_STOP, FUTURE_LIVE_GLOBAL_STOP} \<and>
                        (truthy (es_strategy_id s) \<or> truthy (es_venue s))))
              (ValueError ''global stop cannot have strategy or venue scope'')) (\<lambda>_.
     rbind (require (\<not> (REDUCE_FLATTEN \<in> es_actions s \<and> RECONCILE \<notin> es_actions s))
              (ValueError ''reduce/flatten requires reconciliation'')) (\<lambda>_.
     Inr s))))))"

definition applies_to :: "emergency_stop \<Rightarrow> order_intent \<Rightarrow> bool" where
  "applies_to s i = (es_scope s = PAPER_GLOBAL_STOP \<or>
     (es_scope s = STRATEGY_STOP \<and> es_strategy_id s = Some (oi_strategy_id i)) \<or>
     (es_scope s = VENUE_STOP \<and> es_venue s = Some (oi_venue i)))"

text \<open>The function \<open>emergency_stop\<close>, given the fields of the stop as a record.\<close>

definition build_emergency_stop :: "emergency_stop \<Rightarrow> emergency_stop result" where
  "build_emergency_stop s =
     (if es_scope s = FUTURE_LIVE_GLOBAL_STOP
      then Inl (ValueError ''future live stop is reserved; live execution is unavailable'')
      else mk_emergency_stop s)"

definition enforce_emergency_stops :: "order_intent \<Rightarrow> emergency_stop list \<Rightarrow> unit result" where
  "enforce_emergency_stops i stops =
     (case List.filter (\<lambda>s. applies_to s i \<and> BLOCK_NEW \<in> es_actions s) stops of
        [] \<Rightarrow> Inr ()
      | s # _ \<Rightarrow> Inl (ValueError (''order blocked by emergency stop: '' @ es_stop_id s)))"

section \<open>Market snapshots and the fill model\<close>

record market_snapshot =
  ms_timestamp :: datetime
  ms_bid :: rat
  ms_ask :: rat
  ms_available_quantity :: rat
  ms_fidelity :: fidelity_tier
  ms_book_sequence_valid :: bool
  ms_observed_at :: "datetime option"

definition mk_market_snapshot :: "market_snapshot \<Rightarrow> market_snapshot result" where
  "mk_market_snapshot s =
     rbind (require (is_aware (ms_timestamp s)) (ValueError ''market timestamp must be aware'')) (\<lambda>_.
     rbind (require (\<not> (ms_bid s \<le> 0 \<or> ms_ask s < ms_bid s \<or> ms_available_quantity s < 0))
              (ValueError ''invalid market snapshot'')) (\<lambda>_. Inr s))"

record simulated_fill =
  sf_quantity :: rat
  sf_price :: rat
  sf_role :: liquidity_role
  sf_uncertainty :: "string option"

record fill_model =
  fm_version :: string
  fm_minimum_fidelity :: fidelity_tier
  fm_participation_limit :: rat
  fm_latency :: int
  fm_queue_assumption :: "string option"
  fm_stress_multiplier :: rat

definition mk_fill_model :: "fill_model \<Rightarrow> fill_model result" where
  "mk_fill_model m =
     rbind (require (\<not> (\<not> (0 < fm_participation_limit m \<and> fm_participation_limit m \<le> 1) \<or>
                        fm_latency m < 0 \<or> fm_stress_multiplier m < 1))
              (ValueError ''invalid fill model bounds'')) (\<lambda>_.
     rbind (require (\<not> (fm_minimum_fidelity m \<in> {F3_SEQ_L2, F4_ORDER_LEVEL} \<and>
                        \<not> truthy (fm_queue_assumption m)))
              (ValueError ''queue-sensitive model requires explicit assumption'')) (\<lambda>_. Inr m))"

definition executable :: "fill_model \<Rightarrow> order_intent \<Rightarrow> market_snapshot \<Rightarrow> rat" where
  "executable m order snap =
     min (oi_quantity order) (dmul (ms_available_quantity snap) (fm_participation_limit m))"

definition marketable :: "order_intent \<Rightarrow> market_snapshot \<Rightarrow> bool" where
  "marketable order snap \<longleftrightarrow> oi_order_type order = MARKET \<or>
     (case oi_limit_price order of None \<Rightarrow> False
      | Some limit \<Rightarrow> (oi_side order = BUY \<and> ms_ask snap \<le> limit) \<or>
                       (oi_side order = SELL \<and> limit \<le> ms_bid snap))"

definition touched :: "order_intent \<Rightarrow> market_snapshot \<Rightarrow> rat \<Rightarrow> bool" where
  "touched order snap limit \<longleftrightarrow> (oi_side order = BUY \<and> ms_bid snap \<le> limit) \<or>
     (oi_side order = SELL \<and> limit \<le> ms_ask snap)"

definition taker_price :: "fill_model \<Rightarrow> order_intent \<Rightarrow> market_snapshot \<Rightarrow> rat result" where
  "taker_price m order snap =
     (let base = (if oi_side order = BUY then ms_ask snap else ms_bid snap)
      in rbind (ddiv (dsub (ms_ask snap) (ms_bid snap)) 2) (\<lambda>half_spread.
         Inr (dadd base (dmul (dmul half_spread (dsub (fm_stress_multiplier m) 1))
                              (side_sign (oi_side order))))))"

definition simulate ::
  "fill_model \<Rightarrow> order_intent \<Rightarrow> market_snapshot \<Rightarrow> simulated_fill option result" where
  "simulate m order snap =
     (if instant (ms_timestamp snap) < instant (oi_submission_time order) + fm_latency m then Inr None
      else if ms_fidelity snap < fm_minimum_fidelity m
      then Inl (ValueError ''insufficient market-data fidelity for fill model'')
      else if F2_AGG_L2 \<le> fm_minimum_fidelity m \<and> \<not> ms_book_sequence_valid snap
      then Inl (ValueError ''unresolved order-book sequence gap'')
      else if executable m order snap \<le> 0 then Inr None
      else if marketable order snap then
        rbind (taker_price m order snap) (\<lambda>price.
          Inr (Some \<lparr>sf_quantity = executable m order snap, sf_price = price, sf_role = TAKER,
                     sf_uncertainty = None\<rparr>))
      else case oi_limit_price order of
        None \<Rightarrow> Inl (ValueError ''non-marketable market order is invalid'')
      | Some limit \<Rightarrow>
          if \<not> touched order snap limit \<or> ms_available_quantity snap = 0 then Inr None
          else Inr (Some \<lparr>sf_quantity = executable m order snap, sf_price = limit, sf_role = MAKER,
                          sf_uncertainty = (if ms_fidelity snap < F4_ORDER_LEVEL
                            then Some ''aggregate-depth queue position is unobserved'' else None)\<rparr>))"

section \<open>Order records\<close>

record order_record =
  or_intent :: order_intent
  or_state :: order_state
  or_filled_quantity :: rat
  or_raw_venue_status :: "string option"

definition new_order :: "order_intent \<Rightarrow> order_record" where
  "new_order i = \<lparr>or_intent = i, or_state = INTENT, or_filled_quantity = 0, or_raw_venue_status = None\<rparr>"

definition order_transition ::
  "order_record \<Rightarrow> order_state \<Rightarrow> string option \<Rightarrow> rat \<Rightarrow> order_record result" where
  "order_transition r target raw q =
     rbind (require (target \<in> set (transitions (or_state r)))
              (ValueError ''invalid order transition'')) (\<lambda>_.
     rbind (require (\<not> (q < 0 \<or> oi_quantity (or_intent r) < dadd (or_filled_quantity r) q))
              (ValueError ''invalid cumulative fill quantity'')) (\<lambda>_.
     let cumulative = dadd (or_filled_quantity r) q in
     rbind (require (\<not> (target = FILLED \<and> cumulative \<noteq> oi_quantity (or_intent r)))
              (ValueError ''FILLED requires complete quantity'')) (\<lambda>_.
     rbind (require (\<not> (target = PARTIALLY_FILLED \<and>
                        \<not> (0 < cumulative \<and> cumulative < oi_quantity (or_intent r))))
              (ValueError ''PARTIALLY_FILLED requires partial quantity'')) (\<lambda>_.
     Inr (r\<lparr>or_state := target, or_filled_quantity := cumulative,
            or_raw_venue_status := (if truthy raw then raw else or_raw_venue_status r)\<rparr>)))))"

section \<open>Pretrade check\<close>

datatype envelope_mode = PAPER | RESEARCH

record risk_envelope =
  re_version :: string
  re_max_order_notional :: rat
  re_max_position_notional :: rat
  re_max_portfolio_notional :: rat
  re_stale_after_seconds :: nat
  re_mode :: envelope_mode

definition mk_risk_envelope :: "risk_envelope \<Rightarrow> risk_envelope result" where
  "mk_risk_envelope e =
     rbind (require (0 < re_max_order_notional e \<and> 0 < re_max_position_notional e \<and>
                     0 < re_max_portfolio_notional e)
              (ValueError ''risk limits must be positive'')) (\<lambda>_. Inr e)"

datatype reservation_state = HELD | RELEASED | CONVERTED

record reservation =
  rv_reservation_id :: string
  rv_client_order_id :: string
  rv_amount :: rat
  rv_normalized_quantity :: rat
  rv_normalized_limit_price :: "rat option"
  rv_expires_at :: datetime
  rv_envelope_version :: string
  rv_state :: reservation_state

definition pretrade_check ::
  "order_intent \<Rightarrow> instrument_spec \<Rightarrow> market_snapshot \<Rightarrow> risk_envelope \<Rightarrow> rat \<Rightarrow> rat \<Rightarrow> datetime \<Rightarrow>
   reservation result" where
  "pretrade_check i spec snap env position portfolio now =
     rbind (require (re_mode env = PAPER) (ValueError ''only paper execution is permitted'')) (\<lambda>_.
     rbind (require (is_aware now) mixed_datetimes) (\<lambda>_.
     rbind (require (\<not> (instant now < instant (oi_submission_time i) \<or>
                        instant (ms_timestamp snap) < instant (oi_order_eligible_time i)))
              (ValueError ''order or market observation is not yet eligible'')) (\<lambda>_.
     rbind (require (\<not> seconds (int (re_stale_after_seconds env)) < instant now - instant (ms_timestamp snap))
              (ValueError ''stale market data'')) (\<lambda>_.
     let reference = (if oi_side i = BUY then ms_ask snap else ms_bid snap) in
     rbind (rounded_order (intent_venue_order i) spec) (\<lambda>normalized.
     rbind (validate_order normalized spec reference position) (\<lambda>_.
     let order_notional = dmul (dmul (vo_quantity normalized) reference) (spec_multiplier spec);
         resulting = dmul (dmul (dabs (dadd position (dmul (side_sign (oi_side i)) (vo_quantity normalized))))
                                reference) (spec_multiplier spec) in
     rbind (require (\<not> (re_max_order_notional env < order_notional \<or>
                        re_max_position_notional env < resulting))
              (ValueError ''risk envelope exceeded'')) (\<lambda>_.
     rbind (require (\<not> re_max_portfolio_notional env < dadd portfolio order_notional)
              (ValueError ''portfolio envelope exceeded'')) (\<lambda>_.
     Inr \<lparr>rv_reservation_id = oi_client_order_id i, rv_client_order_id = oi_client_order_id i,
          rv_amount = order_notional, rv_normalized_quantity = vo_quantity normalized,
          rv_normalized_limit_price = vo_limit_price normalized,
          rv_expires_at = dt_plus now (seconds 300), rv_envelope_version = re_version env,
          rv_state = HELD\<rparr>))))))))"

section \<open>Order records: lemmas\<close>

lemma order_transition_Inr:
  assumes "order_transition r target raw q = Inr r'"
  shows "target \<in> set (transitions (or_state r))" "0 \<le> q"
    "dadd (or_filled_quantity r) q \<le> oi_quantity (or_intent r)"
    "target = FILLED \<Longrightarrow> dadd (or_filled_quantity r) q = oi_quantity (or_intent r)"
    "target = PARTIALLY_FILLED \<Longrightarrow> 0 < dadd (or_filled_quantity r) q \<and>
       dadd (or_filled_quantity r) q < oi_quantity (or_intent r)"
    "r' = r\<lparr>or_state := target, or_filled_quantity := dadd (or_filled_quantity r) q,
            or_raw_venue_status := (if truthy raw then raw else or_raw_venue_status r)\<rparr>"
  using assms by (auto simp: order_transition_def rbind_eq_Inr Let_def not_less)

text \<open>The life of an order: any accepted call of \<open>OrderRecord.transition\<close> is a step.\<close>

inductive order_step :: "order_record \<Rightarrow> order_record \<Rightarrow> bool" where
  step: "order_transition r target raw q = Inr r' \<Longrightarrow> order_step r r'"

inductive_cases order_stepE: "order_step r r'"

definition order_ok :: "order_intent \<Rightarrow> order_record \<Rightarrow> bool" where
  "order_ok i r \<longleftrightarrow> or_intent r = i \<and>
     0 \<le> or_filled_quantity r \<and> or_filled_quantity r \<le> oi_quantity i \<and>
     dround (or_filled_quantity r) = or_filled_quantity r \<and>
     (or_state r = FILLED \<longrightarrow> or_filled_quantity r = oi_quantity i) \<and>
     (or_state r = PARTIALLY_FILLED \<longrightarrow> 0 < or_filled_quantity r \<and> or_filled_quantity r < oi_quantity i)"

lemma order_ok_new: "0 < oi_quantity i \<Longrightarrow> order_ok i (new_order i)"
  by (simp add: order_ok_def new_order_def)

lemma order_step_ok:
  assumes "order_step r r'" and "order_ok i r"
  shows "order_ok i r' \<and> or_filled_quantity r \<le> or_filled_quantity r' \<and>
    or_state r' \<in> set (transitions (or_state r))"
proof -
  from assms(1) obtain target raw q where t: "order_transition r target raw q = Inr r'"
    by (rule order_stepE)
  note facts = order_transition_Inr [OF t]
  have i: "or_intent r = i" and f: "0 \<le> or_filled_quantity r"
    and fixed: "dround (or_filled_quantity r) = or_filled_quantity r"
    using assms(2) by (simp_all add: order_ok_def)
  have grow: "or_filled_quantity r \<le> dadd (or_filled_quantity r) q"
    unfolding dadd_def by (rule d28.rnd_ge_fixed [OF _ fixed]) (use facts(2) in simp)
  have idem: "dround (dadd (or_filled_quantity r) q) = dadd (or_filled_quantity r) q"
    by (simp add: dadd_def)
  show ?thesis
    using facts i f grow idem unfolding order_ok_def by auto
qed

lemma order_reach_ok:
  assumes "order_step\<^sup>*\<^sup>* r r'" and "order_ok i r"
  shows "order_ok i r' \<and> or_filled_quantity r \<le> or_filled_quantity r' \<and>
    order_table.leads_to (or_state r) (or_state r')"
  using assms
proof (induction rule: rtranclp_induct)
  case base
  then show ?case by (simp add: order_table.leads_to_def)
next
  case (step s t)
  with order_step_ok [OF step(2), of i] show ?case
    by (auto simp: order_table.leads_to_def intro: rtranclp.rtrancl_into_rtrancl)
qed

lemma close_order:
  assumes "order_ok i r" and "or_state r \<notin> set terminal_states"
  shows "order_transition r (closing_state (or_state r)) None 0
    = Inr (r\<lparr>or_state := closing_state (or_state r)\<rparr>)"
proof -
  have fills: "or_filled_quantity r \<le> oi_quantity (or_intent r)"
    "dround (or_filled_quantity r) = or_filled_quantity r" "or_intent r = i"
    using assms(1) by (simp_all add: order_ok_def)
  then show ?thesis
    by (simp add: order_transition_def closing_state(1) [OF assms(2)] closing_state(3,4) truthy_def Let_def)
qed

section \<open>The fill model: lemmas\<close>

lemma taker_price_adverse:
  assumes "taker_price m order snap = Inr p" and "1 \<le> fm_stress_multiplier m"
    and "ms_bid snap \<le> ms_ask snap"
  shows "(oi_side order = BUY \<longrightarrow> dround (ms_ask snap) \<le> p) \<and>
    (oi_side order = SELL \<longrightarrow> p \<le> dround (ms_bid snap))"
proof -
  let ?half = "dround (dsub (ms_ask snap) (ms_bid snap) / 2)"
  let ?extra = "dmul ?half (dsub (fm_stress_multiplier m) 1)"
  have "0 \<le> ?half" using assms(3) by (simp add: dsub_def d28.rnd_nonneg)
  moreover have "0 \<le> dsub (fm_stress_multiplier m) 1" using assms(2) by (simp add: dsub_def d28.rnd_nonneg)
  ultimately have extra: "0 \<le> ?extra" by (simp add: dmul_def d28.rnd_nonneg)
  have "p = dadd (if oi_side order = BUY then ms_ask snap else ms_bid snap) (dmul ?extra (side_sign (oi_side order)))"
    using assms(1) by (simp add: taker_price_def ddiv_def Let_def)
  moreover have "dround (ms_ask snap) \<le> dround (ms_ask snap + dround ?extra)"
    by (rule dround_mono) (use extra in \<open>simp add: d28.rnd_nonneg\<close>)
  moreover have "dround (ms_bid snap + dround (- ?extra)) \<le> dround (ms_bid snap)"
    by (rule dround_mono) (use extra in \<open>simp add: d28.rnd_nonpos\<close>)
  ultimately show ?thesis by (cases "oi_side order") (simp_all add: dadd_def dmul_def side_sign_def)
qed

section \<open>Properties\<close>

text \<open>C3 The life of a paper order: whatever sequence of transitions is accepted from a new
  record, the intent never changes, the cumulative fill stays between zero and the ordered
  quantity and never decreases, \<open>FILLED\<close> means completely filled, \<open>PARTIALLY_FILLED\<close>
  strictly partially, and no step leaves a terminal state.\<close>

theorem order_lifecycle:
  assumes "0 < oi_quantity i" and "order_step\<^sup>*\<^sup>* (new_order i) r" and "order_step\<^sup>*\<^sup>* r r'"
  shows "or_intent r = i \<and> 0 \<le> or_filled_quantity r \<and>
    or_filled_quantity r \<le> or_filled_quantity r' \<and> or_filled_quantity r' \<le> oi_quantity i \<and>
    (or_state r = FILLED \<longrightarrow> or_filled_quantity r = oi_quantity i) \<and>
    (or_state r = PARTIALLY_FILLED \<longrightarrow>
       0 < or_filled_quantity r \<and> or_filled_quantity r < oi_quantity i) \<and>
    (or_state r \<in> set terminal_states \<longrightarrow> or_state r' = or_state r)"
proof -
  have r: "order_ok i r" using order_reach_ok [OF assms(2)] order_ok_new [OF assms(1)] by blast
  from order_reach_ok [OF assms(3) r] order_table.terminal_absorbing
  have "order_ok i r'" "or_filled_quantity r \<le> or_filled_quantity r'"
    "or_state r \<in> set terminal_states \<longrightarrow> or_state r' = or_state r" by blast+
  with r show ?thesis by (simp add: order_ok_def)
qed

definition sample_intent :: order_intent where
  "sample_intent = \<lparr>oi_client_order_id = ''o1'', oi_strategy_id = ''s1'', oi_venue = ''V'',
     oi_instrument_id = ''BTC-USD'', oi_side = BUY, oi_quantity = 2, oi_order_type = LIMIT,
     oi_limit_price = Some 101, oi_information_cutoff_time = Aware 0 0,
     oi_signal_ready_time = Aware 0 0, oi_order_eligible_time = Aware 1 0,
     oi_submission_time = Aware 2 0, oi_reduce_only = False, oi_post_only = False,
     oi_time_in_force = GTC\<rparr>"

lemma sample_intent_simps [simp]:
  "oi_quantity sample_intent = 2" "oi_side sample_intent = BUY"
  "oi_order_type sample_intent = LIMIT" "oi_limit_price sample_intent = Some 101"
  "oi_submission_time sample_intent = Aware 2 0" "oi_order_eligible_time sample_intent = Aware 1 0"
  "oi_client_order_id sample_intent = ''o1''" "oi_reduce_only sample_intent = False"
  "mk_order_intent sample_intent = Inr sample_intent"
  by (simp_all add: sample_intent_def mk_order_intent_def)

lemma sample_order_path:
  "order_step\<^sup>*\<^sup>* (new_order sample_intent)
     \<lparr>or_intent = sample_intent, or_state = PARTIALLY_FILLED, or_filled_quantity = 1, or_raw_venue_status = None\<rparr>"
proof -
  let ?r = "\<lambda>s q. \<lparr>or_intent = sample_intent, or_state = s, or_filled_quantity = q, or_raw_venue_status = None\<rparr>"
  have t: "order_step (?r a x) (?r b y)"
    if "b \<in> set (transitions a)" "x = 0" "y = 0 \<or> y = 1" "b \<noteq> FILLED" "b = PARTIALLY_FILLED \<longrightarrow> y = 1" for a b x y
    using that by (intro order_step.intros [where target = b and raw = None and q = y])
      (auto simp: order_transition_def Let_def truthy_def dround_exact12)
  have "order_step (?r INTENT 0) (?r PRETRADE_VALIDATED 0)" by (rule t) simp_all
  moreover have "order_step (?r PRETRADE_VALIDATED 0) (?r SUBMITTED 0)" by (rule t) simp_all
  moreover have "order_step (?r SUBMITTED 0) (?r ACKNOWLEDGED 0)" by (rule t) simp_all
  moreover have "order_step (?r ACKNOWLEDGED 0) (?r PARTIALLY_FILLED 1)" by (rule t) simp_all
  ultimately show ?thesis unfolding new_order_def
    by (meson converse_rtranclp_into_rtranclp rtranclp.rtrancl_refl)
qed

theorem order_lifecycle_witness:
  "or_filled_quantity \<lparr>or_intent = sample_intent, or_state = PARTIALLY_FILLED, or_filled_quantity = 1,
     or_raw_venue_status = None\<rparr> < oi_quantity sample_intent"
  using order_lifecycle [OF _ sample_order_path rtranclp.rtrancl_refl] by simp

text \<open>No order gets stuck: a reachable record that is not terminal accepts a transition
  with no fill to a terminal state other than \<open>FILLED\<close>, and keeps its filled quantity.\<close>

theorem order_can_close:
  assumes "0 < oi_quantity i" and "order_step\<^sup>*\<^sup>* (new_order i) r"
    and "or_state r \<notin> set terminal_states"
  shows "\<exists>target. target \<in> set terminal_states \<and> target \<noteq> FILLED \<and>
    order_transition r target None 0 = Inr (r\<lparr>or_state := target\<rparr>)"
proof -
  have "order_ok i r" using order_reach_ok [OF assms(2)] order_ok_new [OF assms(1)] by blast
  from close_order [OF this assms(3)] closing_state(2,3) show ?thesis by blast
qed

theorem order_can_close_witness:
  "\<exists>target. target \<in> set terminal_states \<and>
     order_transition \<lparr>or_intent = sample_intent, or_state = PARTIALLY_FILLED, or_filled_quantity = 1,
       or_raw_venue_status = None\<rparr> target None 0
     = Inr \<lparr>or_intent = sample_intent, or_state = target, or_filled_quantity = 1, or_raw_venue_status = None\<rparr>"
  using order_can_close [OF _ sample_order_path] by (auto simp: terminal_states_def)

text \<open>C33 A simulated fill never trades more than the order or the participating share of the
  displayed quantity, never happens before submission plus latency or on data below the
  model's fidelity, pays at least the ask and receives at most the bid (as the context rounds
  them) when it takes liquidity, and trades exactly at the limit when it provides it.\<close>

theorem simulate_sound:
  assumes model: "mk_fill_model m = Inr m" and snapshot: "mk_market_snapshot snap = Inr snap"
    and "simulate m order snap = Inr (Some f)"
  shows "0 < sf_quantity f \<and> sf_quantity f \<le> oi_quantity order \<and>
    sf_quantity f \<le> dmul (ms_available_quantity snap) (fm_participation_limit m) \<and>
    instant (oi_submission_time order) + fm_latency m \<le> instant (ms_timestamp snap) \<and>
    fm_minimum_fidelity m \<le> ms_fidelity snap \<and>
    (sf_role f = TAKER \<longrightarrow>
       (oi_side order = BUY \<longrightarrow> dround (ms_ask snap) \<le> sf_price f) \<and>
       (oi_side order = SELL \<longrightarrow> sf_price f \<le> dround (ms_bid snap))) \<and>
    (sf_role f = MAKER \<longrightarrow> oi_limit_price order = Some (sf_price f) \<and>
       touched order snap (sf_price f) \<and> (sf_uncertainty f = None \<longrightarrow> F4_ORDER_LEVEL \<le> ms_fidelity snap))"
proof -
  have bounds: "0 < executable m order snap" "executable m order snap \<le> oi_quantity order"
      "executable m order snap \<le> dmul (ms_available_quantity snap) (fm_participation_limit m)"
      "instant (oi_submission_time order) + fm_latency m \<le> instant (ms_timestamp snap)"
      "fm_minimum_fidelity m \<le> ms_fidelity snap"
    and cases: "(\<exists>p. taker_price m order snap = Inr p \<and> f = \<lparr>sf_quantity = executable m order snap,
          sf_price = p, sf_role = TAKER, sf_uncertainty = None\<rparr>) \<or>
       (\<exists>l. oi_limit_price order = Some l \<and> touched order snap l \<and> f = \<lparr>sf_quantity = executable m order snap,
          sf_price = l, sf_role = MAKER, sf_uncertainty = (if ms_fidelity snap < F4_ORDER_LEVEL
                            then Some ''aggregate-depth queue position is unobserved'' else None)\<rparr>)"
    using assms(3) unfolding simulate_def
    by (auto simp: rbind_eq_Inr not_less not_le executable_def split: if_splits option.splits)
  have stress: "1 \<le> fm_stress_multiplier m" using model by (simp add: mk_fill_model_def rbind_eq_Inr not_less)
  have spread: "ms_bid snap \<le> ms_ask snap" using snapshot by (simp add: mk_market_snapshot_def rbind_eq_Inr not_less)
  have taker: "(oi_side order = BUY \<longrightarrow> dround (ms_ask snap) \<le> p) \<and> (oi_side order = SELL \<longrightarrow> p \<le> dround (ms_bid snap))"
    if "taker_price m order snap = Inr p" for p
    using that taker_price_adverse [OF _ stress spread] by blast
  from cases show ?thesis
  proof (elim disjE exE conjE)
    fix p assume "taker_price m order snap = Inr p" and f: "f = \<lparr>sf_quantity = executable m order snap,
          sf_price = p, sf_role = TAKER, sf_uncertainty = None\<rparr>"
    with taker bounds show ?thesis by simp
  next
    fix l assume "oi_limit_price order = Some l" "touched order snap l"
      and "f = \<lparr>sf_quantity = executable m order snap,
          sf_price = l, sf_role = MAKER, sf_uncertainty = (if ms_fidelity snap < F4_ORDER_LEVEL
                            then Some ''aggregate-depth queue position is unobserved'' else None)\<rparr>"
    with bounds show ?thesis by (simp add: not_less)
  qed
qed

definition sample_snapshot :: market_snapshot where
  "sample_snapshot = \<lparr>ms_timestamp = Aware 5 0, ms_bid = 99, ms_ask = 100, ms_available_quantity = 10,
     ms_fidelity = F0_BAR, ms_book_sequence_valid = True, ms_observed_at = None\<rparr>"

definition sample_model :: "rat \<Rightarrow> fill_model" where
  "sample_model stress = \<lparr>fm_version = ''v1'', fm_minimum_fidelity = F0_BAR,
     fm_participation_limit = 1 / 10, fm_latency = 3, fm_queue_assumption = None,
     fm_stress_multiplier = stress\<rparr>"

lemma sample_snapshot_simps [simp]:
  "ms_timestamp sample_snapshot = Aware 5 0" "ms_bid sample_snapshot = 99"
  "ms_ask sample_snapshot = 100" "ms_available_quantity sample_snapshot = 10"
  "ms_fidelity sample_snapshot = F0_BAR" "mk_market_snapshot sample_snapshot = Inr sample_snapshot"
  by (simp_all add: sample_snapshot_def mk_market_snapshot_def)

lemma sample_model_simps [simp]:
  "fm_minimum_fidelity (sample_model stress) = F0_BAR" "fm_participation_limit (sample_model stress) = 1 / 10"
  "fm_latency (sample_model stress) = 3" "fm_stress_multiplier (sample_model stress) = stress"
  "1 \<le> stress \<Longrightarrow> mk_fill_model (sample_model stress) = Inr (sample_model stress)"
  by (simp_all add: sample_model_def mk_fill_model_def)

lemma sample_simulate:
  assumes "dmul (1 / 2) (dsub stress 1) = x" and "dmul x 1 = x"
  shows "simulate (sample_model stress) sample_intent sample_snapshot
    = Inr (Some \<lparr>sf_quantity = 1, sf_price = dadd 100 x, sf_role = TAKER, sf_uncertainty = None\<rparr>)"
proof -
  have h: "dmul 10 (1 / 10) = 1" "dsub 100 99 = 1" "dround (1 / 2) = 1 / 2" by (simp_all add: decimal_eval)
  have "taker_price (sample_model stress) sample_intent sample_snapshot = Inr (dadd 100 x)"
    by (simp add: taker_price_def ddiv_def side_sign_def h assms)
  then show ?thesis
    by (simp add: simulate_def executable_def marketable_def less_fidelity_tier_def
        less_eq_fidelity_tier_def h)
qed

theorem simulate_sound_witness:
  "sf_quantity \<lparr>sf_quantity = 1, sf_price = 100, sf_role = TAKER, sf_uncertainty = None\<rparr>
     \<le> dmul (ms_available_quantity sample_snapshot) (fm_participation_limit (sample_model 1))"
proof -
  have "simulate (sample_model 1) sample_intent sample_snapshot
      = Inr (Some \<lparr>sf_quantity = 1, sf_price = 100, sf_role = TAKER, sf_uncertainty = None\<rparr>)"
    using sample_simulate [of 1 0] by (simp add: decimal_eval)
  from simulate_sound [OF _ _ this] show ?thesis by simp
qed

text \<open>With a stress multiplier above one the fill model itself does not respect the limit
  price: an order to buy at no more than 101 is filled at 101.5. The backtest engine checks
  the price after the call; the paper service, which calls the same method, does not.\<close>

theorem simulate_can_breach_limit:
  "\<exists>m order snap f limit. mk_fill_model m = Inr m \<and> mk_order_intent order = Inr order \<and>
     mk_market_snapshot snap = Inr snap \<and> simulate m order snap = Inr (Some f) \<and>
     oi_side order = BUY \<and> oi_limit_price order = Some limit \<and> limit < sf_price f"
proof -
  have "simulate (sample_model 4) sample_intent sample_snapshot
      = Inr (Some \<lparr>sf_quantity = 1, sf_price = 203 / 2, sf_role = TAKER, sf_uncertainty = None\<rparr>)"
    using sample_simulate [of 4 "3 / 2"] by (simp add: decimal_eval)
  then show ?thesis
    by (intro exI [of _ "sample_model 4"] exI [of _ sample_intent] exI [of _ sample_snapshot]
        exI [of _ "\<lparr>sf_quantity = 1, sf_price = 203 / 2, sf_role = TAKER, sf_uncertainty = None\<rparr>"]
        exI [of _ 101]) simp
qed

text \<open>C25 What a reservation granted by the pretrade check guarantees: a paper envelope, fresh
  market data, a tradeable instrument, the venue's own validation of the rounded order, the
  order, position and portfolio limits, and an amount held for five minutes.\<close>

theorem pretrade_check_sound:
  assumes "pretrade_check i spec snap env position portfolio now = Inr rv"
  shows "\<exists>rounded reference. rounded_order (intent_venue_order i) spec = Inr rounded \<and>
    reference = (if oi_side i = BUY then ms_ask snap else ms_bid snap) \<and>
    validate_order rounded spec reference position = Inr () \<and>
    re_mode env = PAPER \<and> spec_trading_status spec = TRADING \<and>
    instant now - instant (ms_timestamp snap) \<le> seconds (int (re_stale_after_seconds env)) \<and>
    instant (oi_order_eligible_time i) \<le> instant (ms_timestamp snap) \<and>
    rv_amount rv = dmul (dmul (vo_quantity rounded) reference) (spec_multiplier spec) \<and>
    rv_amount rv \<le> re_max_order_notional env \<and>
    dmul (dmul (dabs (dadd position (dmul (side_sign (oi_side i)) (vo_quantity rounded)))) reference)
         (spec_multiplier spec) \<le> re_max_position_notional env \<and>
    dadd portfolio (rv_amount rv) \<le> re_max_portfolio_notional env \<and>
    rv_normalized_quantity rv = vo_quantity rounded \<and> spec_min_quantity spec \<le> vo_quantity rounded \<and>
    instant (rv_expires_at rv) = instant now + seconds 300 \<and> rv_state rv = HELD"
proof -
  from assms obtain rounded where r: "rounded_order (intent_venue_order i) spec = Inr rounded"
    unfolding pretrade_check_def by (auto simp: rbind_eq_Inr Let_def)
  have q: "spec_min_quantity spec \<le> vo_quantity rounded"
    using r by (auto simp: rounded_order_def rbind_eq_Inr split: if_splits option.splits)
  define ref where "ref = (if oi_side i = BUY then ms_ask snap else ms_bid snap)"
  have core: "validate_order rounded spec ref position = Inr ()" "re_mode env = PAPER"
      "instant now - instant (ms_timestamp snap) \<le> seconds (int (re_stale_after_seconds env))"
      "instant (oi_order_eligible_time i) \<le> instant (ms_timestamp snap)"
      "rv_amount rv = dmul (dmul (vo_quantity rounded) ref) (spec_multiplier spec)"
      "rv_amount rv \<le> re_max_order_notional env"
      "dmul (dmul (dabs (dadd position (dmul (side_sign (oi_side i)) (vo_quantity rounded)))) ref)
         (spec_multiplier spec) \<le> re_max_position_notional env"
      "dadd portfolio (rv_amount rv) \<le> re_max_portfolio_notional env"
      "rv_normalized_quantity rv = vo_quantity rounded"
      "instant (rv_expires_at rv) = instant now + seconds 300" "rv_state rv = HELD"
    using assms r unfolding pretrade_check_def ref_def [symmetric] Let_def
    by (auto simp: rbind_eq_Inr not_less)
  have "spec_trading_status spec = TRADING"
    using core(1) unfolding validate_order_def by (simp add: rbind_eq_Inr)
  with r q core show ?thesis
    by (intro exI [of _ rounded] exI [of _ ref]) (simp add: ref_def)
qed

definition sample_envelope :: risk_envelope where
  "sample_envelope = \<lparr>re_version = ''r1'', re_max_order_notional = 1000, re_max_position_notional = 1000,
     re_max_portfolio_notional = 1000, re_stale_after_seconds = 60, re_mode = PAPER\<rparr>"

lemma sample_envelope_simps [simp]:
  "re_max_order_notional sample_envelope = 1000" "re_max_position_notional sample_envelope = 1000"
  "re_max_portfolio_notional sample_envelope = 1000" "re_stale_after_seconds sample_envelope = 60"
  "re_mode sample_envelope = PAPER" "re_version sample_envelope = ''r1''"
  by (simp_all add: sample_envelope_def)

lemma sample_intent_rounded:
  "rounded_order (intent_venue_order sample_intent) sample_spec = Inr (intent_venue_order sample_intent)"
  "validate_order (intent_venue_order sample_intent) sample_spec 100 0 = Inr ()"
proof -
  have "floor_to_increment 2 (1 / 100) = Inr 2" "ceil_to_increment 101 (1 / 10) = Inr 101"
    using floor_to_increment_exact [of 200 1 2] ceil_to_increment_exact [of 1010 1 1] by simp_all
  then show r: "rounded_order (intent_venue_order sample_intent) sample_spec
      = Inr (intent_venue_order sample_intent)"
    by (simp add: rounded_order_def intent_venue_order_def)
  have "dmul (dmul 101 2) 1 = 202" by (simp add: decimal_eval)
  then show "validate_order (intent_venue_order sample_intent) sample_spec 100 0 = Inr ()"
    by (simp add: validate_order_def r) (simp add: intent_venue_order_def price_or_def Let_def)
qed

lemma sample_pretrade:
  "\<exists>rv. pretrade_check sample_intent sample_spec sample_snapshot sample_envelope 0 100 (Aware 10 0) = Inr rv"
proof -
  have e: "dmul (dmul 2 100) 1 = 200" "dabs (dadd 0 (dmul 1 2)) = 2" "dadd 100 200 = 300"
    by (simp_all add: decimal_eval)
  have "vo_quantity (intent_venue_order sample_intent) = 2" by (simp add: intent_venue_order_def)
  then show ?thesis
    by (simp add: pretrade_check_def sample_intent_rounded side_sign_def Let_def e del: dadd_0)
qed

theorem pretrade_check_sound_witness:
  "\<exists>rv. pretrade_check sample_intent sample_spec sample_snapshot sample_envelope 0 100 (Aware 10 0) = Inr rv \<and>
     rv_amount rv \<le> re_max_order_notional sample_envelope"
  using sample_pretrade pretrade_check_sound by meson

end
