(* ===== verification/Backtest.thy ===== *)
theory Backtest
  imports Accounting Execution
begin

text \<open>
  The deterministic event backtest of \<open>liki/finance/backtest.py\<close>: bars, the causal view a
  signal gets, and the replay loop as a fold over the bars in time order. The strategy
  callback (\<open>signal\<close> or \<open>target\<close>) is a function argument.
\<close>

section \<open>Bars and causal history\<close>

record bar =
  bar_timestamp :: datetime
  bar_open :: rat
  bar_high :: rat
  bar_low :: rat
  bar_close :: rat
  bar_volume :: rat
  bar_available_at :: datetime
  bar_fidelity :: fidelity_tier
  bar_revised :: bool
  bar_quote :: "market_snapshot option"

definition mk_bar :: "bar \<Rightarrow> bar result" where
  "mk_bar b =
     rbind (require (\<not> (bar_low b \<le> 0 \<or> bar_volume b < 0 \<or> min (bar_open b) (bar_close b) < bar_low b \<or>
                        bar_high b < max (bar_open b) (bar_close b)))
              (ValueError ''invalid market observation'')) (\<lambda>_.
     rbind (require (case bar_quote b of None \<Rightarrow> True
                     | Some q \<Rightarrow> is_aware (ms_timestamp q) = is_aware (bar_timestamp b) \<and>
                         instant (ms_timestamp q) = instant (bar_timestamp b) \<and> ms_fidelity q = bar_fidelity b)
              (ValueError ''quote must match the observation timestamp and fidelity'')) (\<lambda>_. Inr b))"

definition bar_snapshot :: "bar \<Rightarrow> market_snapshot result" where
  "bar_snapshot b =
     (case bar_quote b of
        Some q \<Rightarrow> Inr q
      | None \<Rightarrow>
          if bar_fidelity b = F0_BAR
          then mk_market_snapshot \<lparr>ms_timestamp = bar_timestamp b, ms_bid = bar_open b, ms_ask = bar_open b,
                 ms_available_quantity = bar_volume b, ms_fidelity = bar_fidelity b,
                 ms_book_sequence_valid = True, ms_observed_at = None\<rparr>
          else Inl (UnknownContractError ''higher-fidelity replay requires actual bid/ask observations''))"

definition causal_history :: "bar list \<Rightarrow> datetime \<Rightarrow> bar list" where
  "causal_history bars cutoff =
     List.filter (\<lambda>b. instant (bar_available_at b) \<le> instant cutoff \<and>
                      instant (bar_timestamp b) \<le> instant cutoff \<and> \<not> bar_revised b) bars"

definition history_latest :: "bar list \<Rightarrow> bar result" where
  "history_latest h = (if h = [] then Inl (ValueError ''no point-in-time data at cutoff'') else Inr (last h))"

text \<open>
  The strategy of a run: a signal that returns an order, or a target position. Both get
  the causal history and the time of the bar.
\<close>

datatype strategy =
    Signal "bar list \<Rightarrow> datetime \<Rightarrow> order_intent option"
  | Target "bar list \<Rightarrow> datetime \<Rightarrow> decimal_like"

section \<open>The engine\<close>

record engine =
  en_spec :: instrument_spec
  en_fill_model :: fill_model
  en_starting_cash :: rat
  en_fee_schedules :: "fee_schedule list"
  en_account_tier :: string
  en_slippage_bps :: rat
  en_impact_bps :: rat

definition mk_engine :: "engine \<Rightarrow> engine result" where
  "mk_engine e =
     rbind (require (en_fee_schedules e \<noteq> [] \<and> en_account_tier e \<noteq> [])
              (UnknownContractError ''backtests require an explicit historical fee policy'')) (\<lambda>_.
     rbind (require (spec_contract_kind (en_spec e) = SPOT \<and> spec_multiplier (en_spec e) = 1 \<and>
                     spec_settlement_currency (en_spec e) = spec_quote_currency (en_spec e))
              (UnknownContractError ''spot ledger cannot value derivative or cross-currency settlement'')) (\<lambda>_.
     rbind (require (0 < en_starting_cash e) (ValueError ''starting cash must be positive'')) (\<lambda>_.
     rbind (require (0 \<le> min (en_slippage_bps e) (en_impact_bps e))
              (ValueError ''execution cost bounds cannot be negative'')) (\<lambda>_. Inr e))))"

record order_view =
  ov_intent :: order_intent
  ov_state :: order_state
  ov_filled_quantity :: rat
  ov_normalized :: "order_intent option"

record bt_event =
  ev_order_id :: string
  ev_timestamp :: datetime
  ev_state :: order_state
  ev_reason :: string

record observation =
  ob_timestamp :: datetime
  ob_mark :: rat
  ob_cash :: rat
  ob_position :: rat
  ob_equity :: rat
  ob_exposure :: rat
  ob_fees :: rat
  ob_other_costs :: rat
  ob_reference :: reconciliation

record bt_costs =
  ct_fee :: rat
  ct_spread :: rat
  ct_slippage :: rat
  ct_impact :: rat

text \<open>
  The local variables of \<open>_run\<close>; \<open>bt_seen\<close> is \<open>ordered[:index]\<close>.
\<close>

record bt =
  bt_seen :: "bar list"
  bt_ledger :: ledger
  bt_curve :: "(datetime \<times> rat) list"
  bt_errors :: "string list"
  bt_orders :: "(string \<times> order_view) list"
  bt_events :: "bt_event list"
  bt_observations :: "observation list"
  bt_pending :: "(string \<times> order_intent) list"
  bt_cost_totals :: bt_costs

definition bt_init :: "engine \<Rightarrow> bt" where
  "bt_init en = \<lparr>bt_seen = [], bt_ledger = ledger_init (en_starting_cash en), bt_curve = [], bt_errors = [],
     bt_orders = [], bt_events = [], bt_observations = [], bt_pending = [],
     bt_cost_totals = \<lparr>ct_fee = 0, ct_spread = 0, ct_slippage = 0, ct_impact = 0\<rparr>\<rparr>"

definition modify_order :: "string \<Rightarrow> (order_view \<Rightarrow> order_view) \<Rightarrow> bt \<Rightarrow> bt" where
  "modify_order oid f b =
     (case dict_get (bt_orders b) oid of None \<Rightarrow> b
      | Some v \<Rightarrow> b\<lparr>bt_orders := dict_set oid (f v) (bt_orders b)\<rparr>)"

definition log_event :: "string \<Rightarrow> datetime \<Rightarrow> order_state \<Rightarrow> string \<Rightarrow> bt \<Rightarrow> bt" where
  "log_event oid ts st reason b =
     modify_order oid (\<lambda>v. v\<lparr>ov_state := st\<rparr>)
       (b\<lparr>bt_events := bt_events b @ [\<lparr>ev_order_id = oid, ev_timestamp = ts, ev_state = st, ev_reason = reason\<rparr>]\<rparr>)"

section \<open>Decision at a bar\<close>

definition target_intent ::
  "engine \<Rightarrow> string \<Rightarrow> bar \<Rightarrow> rat \<Rightarrow> decimal_like \<Rightarrow> nat \<Rightarrow> order_intent option result" where
  "target_intent en strategy_id bar pos wanted index =
     rbind (decimal wanted) (\<lambda>desired.
     if desired < 0 then Inl (UnknownContractError ''spot target cannot require borrow'')
     else
       let delta = dsub desired pos in
       if delta = 0 then Inr None
       else rbind (mk_order_intent
              \<lparr>oi_client_order_id = strategy_id @ '':'' @ show_nat index, oi_strategy_id = strategy_id,
               oi_venue = spec_venue (en_spec en), oi_instrument_id = spec_instrument_id (en_spec en),
               oi_side = (if 0 < delta then BUY else SELL), oi_quantity = dabs delta,
               oi_order_type = MARKET, oi_limit_price = None,
               oi_information_cutoff_time = bar_timestamp bar, oi_signal_ready_time = bar_timestamp bar,
               oi_order_eligible_time = bar_timestamp bar, oi_submission_time = bar_timestamp bar,
               oi_reduce_only = False, oi_post_only = False, oi_time_in_force = IOC\<rparr>)
            (\<lambda>i. Inr (Some i)))"

definition decide :: "engine \<Rightarrow> strategy \<Rightarrow> string \<Rightarrow> bar list \<Rightarrow> bar \<Rightarrow> bt \<Rightarrow> order_intent option result" where
  "decide en strat strategy_id history bar b =
     (case strat of
        Signal f \<Rightarrow> Inr (f history (bar_timestamp bar))
      | Target f \<Rightarrow>
          if bt_pending b \<noteq> [] then Inr None
          else target_intent en strategy_id bar (position (bt_ledger b)) (f history (bar_timestamp bar))
                 (length (bt_seen b)))"

definition register :: "bar list \<Rightarrow> bar \<Rightarrow> order_intent \<Rightarrow> bt \<Rightarrow> bt result" where
  "register history bar raw b =
     rbind (mk_order_intent raw) (\<lambda>intent.
     let oid = oi_client_order_id intent in
     if oid \<in> set (dict_keys (bt_orders b)) then Inl (ValueError ''duplicate client order id'')
     else
       let b1 = log_event oid (bar_timestamp bar) INTENT ''''
                  (b\<lparr>bt_orders := dict_set oid \<lparr>ov_intent = intent, ov_state = INTENT, ov_filled_quantity = 0,
                                               ov_normalized = None\<rparr> (bt_orders b)\<rparr>)
       in if instant (bar_timestamp bar) < instant (oi_information_cutoff_time intent) \<or>
             instant (oi_submission_time intent) < instant (bar_timestamp bar) \<or>
             (\<exists>item \<in> set history. instant (oi_information_cutoff_time intent) < instant (bar_available_at item))
          then Inl (ValueError ''signal information cutoff does not match causal history'')
          else Inr (log_event oid (bar_timestamp bar) SUBMITTED ''''
                      (b1\<lparr>bt_pending := dict_set oid intent (bt_pending b1)\<rparr>)))"

section \<open>Execution of the pending orders\<close>

definition admit_order ::
  "engine \<Rightarrow> bar \<Rightarrow> market_snapshot \<Rightarrow> order_intent \<Rightarrow> venue_order result" where
  "admit_order en bar snap intent =
     rbind (spec_effective_at [en_spec en] (bar_timestamp bar)) (\<lambda>_.
     rbind (require ((oi_venue intent, oi_instrument_id intent)
                       = (spec_venue (en_spec en), spec_instrument_id (en_spec en)))
              (ValueError ''order instrument does not match pinned specification'')) (\<lambda>_.
     rbind (require (spec_trading_status (en_spec en) = TRADING)
              (ValueError ''instrument is not trading'')) (\<lambda>_.
     rbind (require (\<not> (oi_post_only intent \<and> oi_order_type intent = MARKET))
              (ValueError ''post-only market order'')) (\<lambda>_.
     rbind (require (\<not> ms_fidelity snap < fm_minimum_fidelity (en_fill_model en))
              (UnknownContractError ''insufficient market-data fidelity for fill model'')) (\<lambda>_.
     rbind (require (\<not> (fm_minimum_fidelity (en_fill_model en) = F0_BAR \<and> oi_order_type intent \<noteq> MARKET))
              (UnknownContractError ''OHLC cannot establish passive order fills'')) (\<lambda>_.
     rounded_order (intent_venue_order intent) (en_spec en)))))))"

text \<open>The price checks on a simulated fill and the traded quantity; \<open>None\<close> when nothing trades.\<close>

definition accept_fill ::
  "engine \<Rightarrow> order_intent \<Rightarrow> rat \<Rightarrow> simulated_fill \<Rightarrow> (simulated_fill \<times> rat) option result" where
  "accept_fill en intent remaining f =
     rbind (require (\<not> ((case spec_price_lower (en_spec en) of None \<Rightarrow> False | Some lo \<Rightarrow> sf_price f < lo) \<or>
                        (case spec_price_upper (en_spec en) of None \<Rightarrow> False | Some hi \<Rightarrow> hi < sf_price f)))
              (ValueError ''execution price violates venue band'')) (\<lambda>_.
     rbind (require (\<not> (oi_post_only intent \<and> sf_role f = TAKER))
              (ValueError ''post-only order would take liquidity'')) (\<lambda>_.
     rbind (require (case oi_limit_price intent of None \<Rightarrow> True
                     | Some l \<Rightarrow> \<not> (oi_side intent = BUY \<and> l < sf_price f \<or> oi_side intent = SELL \<and> sf_price f < l))
              (ValueError ''fill would violate the order limit'')) (\<lambda>_.
     rbind (require (\<not> truthy (sf_uncertainty f))
              (UnknownContractError ''passive fill uncertainty requires an explicit queue model'')) (\<lambda>_.
     rbind (floor_to_increment (min (sf_quantity f) remaining) (spec_lot_size (en_spec en))) (\<lambda>quantity.
     Inr (if oi_time_in_force intent = FOK \<and> quantity < oi_quantity intent then None
          else if quantity < spec_min_quantity (en_spec en) \<or>
                  dmul quantity (sf_price f) < spec_min_notional (en_spec en) then None
          else Some (f, quantity)))))))"

definition execution_costs ::
  "engine \<Rightarrow> datetime \<Rightarrow> liquidity_role \<Rightarrow> rat \<Rightarrow> (rat \<times> rat \<times> rat) result" where
  "execution_costs en ts role notional =
     rbind (ddiv (dmul notional (en_slippage_bps en)) 10000) (\<lambda>slippage.
     rbind (ddiv (dmul notional (en_impact_bps en)) 10000) (\<lambda>impact.
     rbind (select_fee (en_fee_schedules en) (spec_venue (en_spec en)) (spec_instrument_id (en_spec en))
              (en_account_tier en) role ts) (\<lambda>schedule.
     rbind (fee_amount schedule notional) (\<lambda>fee.
     rbind (require (money_amount fee = dmul notional (fs_rate schedule))
              (UnknownContractError ''independent fee accounting disagreement'')) (\<lambda>_.
     Inr (slippage, impact, money_amount fee))))))"

text \<open>The funding checks and the fill handed to the ledger.\<close>

definition book_fill ::
  "engine \<Rightarrow> bar \<Rightarrow> string \<Rightarrow> order_intent \<Rightarrow> ledger \<Rightarrow> nat \<Rightarrow> simulated_fill \<Rightarrow> rat \<Rightarrow>
   (ledger \<times> rat \<times> rat \<times> rat) result" where
  "book_fill en bar oid intent l index f quantity =
     (let notional = dmul quantity (sf_price f) in
     rbind (execution_costs en (bar_timestamp bar) (sf_role f) notional) (\<lambda>(slippage, impact, fee).
     rbind (require (\<not> dsub (dsub (dsub (dsub (cash l) (dmul (side_sign (oi_side intent)) notional)) fee)
                              slippage) impact < 0)
              (ValueError ''spot execution costs exceed available cash'')) (\<lambda>_.
     rbind (require (\<not> (oi_side intent = SELL \<and> position l < quantity))
              (ValueError ''unfunded spot short requires an explicit borrow model'')) (\<lambda>_.
     rbind (mk_cost_component IMPLEMENTATION_SHORTFALL (DecFinite slippage) ADDITIVE None) (\<lambda>c1.
     rbind (mk_cost_component IMPACT (DecFinite impact) ADDITIVE None) (\<lambda>c2.
     rbind (mk_fill (oid @ '':'' @ show_nat index) oid (bar_timestamp bar) (oi_side intent)
              (DecFinite quantity) (DecFinite (sf_price f)) (sf_role f) (DecFinite fee) [c1, c2]) (\<lambda>fl.
     rbind (ledger_apply dround l fl) (\<lambda>l'. Inr (l', slippage, impact, fee)))))))))"

definition add_costs :: "bt_costs \<Rightarrow> rat \<Rightarrow> rat \<Rightarrow> rat \<Rightarrow> rat \<Rightarrow> bt_costs" where
  "add_costs c fee slippage impact spread =
     \<lparr>ct_fee = dadd (ct_fee c) fee, ct_spread = dadd (ct_spread c) spread,
      ct_slippage = dadd (ct_slippage c) slippage, ct_impact = dadd (ct_impact c) impact\<rparr>"

text \<open>The updates after \<open>ledger.apply\<close>: totals, liquidity, the order's view and the pending table.\<close>

definition settle_order ::
  "bar \<Rightarrow> market_snapshot \<Rightarrow> string \<Rightarrow> order_intent \<Rightarrow> simulated_fill \<Rightarrow> rat \<Rightarrow>
   ledger \<times> rat \<times> rat \<times> rat \<Rightarrow> bt \<Rightarrow> bt" where
  "settle_order bar snap oid intent f quantity booked b =
     (let (l', slippage, impact, fee) = booked;
          mid = dround (dadd (ms_bid snap) (ms_ask snap) / 2);
          spread = dmul (dmul quantity (side_sign (oi_side intent))) (dsub (sf_price f) mid);
          b1 = modify_order oid (\<lambda>v. v\<lparr>ov_filled_quantity := dadd (ov_filled_quantity v) quantity\<rparr>)
                 (b\<lparr>bt_ledger := l', bt_cost_totals := add_costs (bt_cost_totals b) fee slippage impact spread\<rparr>);
          b2 = log_event oid (bar_timestamp bar)
                 (if quantity = oi_quantity intent then FILLED else PARTIALLY_FILLED) '''' b1
      in if quantity = oi_quantity intent then b2\<lparr>bt_pending := dict_del oid (bt_pending b2)\<rparr>
         else b2\<lparr>bt_pending := dict_set oid (intent\<lparr>oi_quantity := dsub (oi_quantity intent) quantity\<rparr>)
                                 (bt_pending b2)\<rparr>)"

definition cancel_immediate :: "bar \<Rightarrow> string \<Rightarrow> order_intent \<Rightarrow> bt \<Rightarrow> bt" where
  "cancel_immediate bar oid intent b =
     (if oid \<in> set (dict_keys (bt_pending b)) \<and> oi_time_in_force intent \<in> {IOC, FOK}
      then let b1 = log_event oid (bar_timestamp bar) CANCELLED ''UNFILLED_IMMEDIATE_REMAINDER'' b
           in b1\<lparr>bt_pending := dict_del oid (bt_pending b1)\<rparr>
      else b)"

definition trade ::
  "engine \<Rightarrow> bar \<Rightarrow> market_snapshot \<Rightarrow> string \<Rightarrow> order_intent \<Rightarrow> venue_order \<Rightarrow> bt \<Rightarrow> rat \<Rightarrow> (bt \<times> rat) result" where
  "trade en bar snap oid intent normalized b remaining =
     rbind (validate_order normalized (en_spec en) (bar_open bar) (position (bt_ledger b))) (\<lambda>_.
     rbind (simulate (en_fill_model en) intent snap) (\<lambda>simulated.
     rbind (case simulated of None \<Rightarrow> Inr None | Some f \<Rightarrow> accept_fill en intent remaining f) (\<lambda>accepted.
     rbind (case accepted of
              None \<Rightarrow> Inr (b, remaining)
            | Some (f, quantity) \<Rightarrow>
                rbind (book_fill en bar oid intent (bt_ledger b) (length (bt_seen b)) f quantity) (\<lambda>booked.
                Inr (settle_order bar snap oid intent f quantity booked b, dsub remaining quantity)))
       (\<lambda>(b', remaining'). Inr (cancel_immediate bar oid intent b', remaining')))))"

definition normalized_intent :: "order_intent \<Rightarrow> venue_order \<Rightarrow> order_intent" where
  "normalized_intent intent n = intent\<lparr>oi_quantity := vo_quantity n, oi_limit_price := vo_limit_price n\<rparr>"

definition note_normalized :: "string \<Rightarrow> order_intent \<Rightarrow> bt \<Rightarrow> bt" where
  "note_normalized oid intent =
     modify_order oid (\<lambda>v. case ov_normalized v of None \<Rightarrow> v\<lparr>ov_normalized := Some intent\<rparr> | Some _ \<Rightarrow> v)"

definition reject_order :: "bar \<Rightarrow> string \<Rightarrow> exn \<Rightarrow> bt \<Rightarrow> bt" where
  "reject_order bar oid e b =
     (let b1 = log_event oid (bar_timestamp bar) REJECTED (exn_message e)
                 (b\<lparr>bt_errors := bt_errors b @ [''rejected:'' @ oid @ '':'' @ exn_message e]\<rparr>)
      in b1\<lparr>bt_pending := dict_del oid (bt_pending b1)\<rparr>)"

text \<open>The \<open>except\<close> clauses: an unknown contract stops the run, another \<open>ValueError\<close> the order.\<close>

definition or_reject :: "bar \<Rightarrow> string \<Rightarrow> bt \<Rightarrow> rat \<Rightarrow> (bt \<times> rat) result \<Rightarrow> (bt \<times> rat) result" where
  "or_reject bar oid b remaining outcome =
     (case outcome of
        Inr r \<Rightarrow> Inr r
      | Inl e \<Rightarrow> if is_unknown_contract e \<or> \<not> is_value_error e then Inl e
                 else Inr (reject_order bar oid e b, remaining))"

text \<open>
  One turn of the loop over \<open>tuple(pending.items())\<close>. The view's normalised intent is set
  before the checks that may still refuse the order, and stays set when they do.
\<close>

definition process_order ::
  "engine \<Rightarrow> bar \<Rightarrow> market_snapshot \<Rightarrow> bt \<times> rat \<Rightarrow> string \<times> order_intent \<Rightarrow> (bt \<times> rat) result" where
  "process_order en bar snap s entry =
     (let (b, remaining) = s; (oid, intent) = entry in
      if instant (ms_timestamp snap) < instant (oi_submission_time intent) + fm_latency (en_fill_model en)
      then Inr (b, remaining)
      else case admit_order en bar snap intent of
        Inl e \<Rightarrow> or_reject bar oid b remaining (Inl e)
      | Inr n \<Rightarrow>
          let intent' = normalized_intent intent n; b1 = note_normalized oid intent' b
          in or_reject bar oid b1 remaining (trade en bar snap oid intent' n b1 remaining))"

section \<open>One bar, and the run\<close>

definition close_bar :: "engine \<Rightarrow> bar \<Rightarrow> bt \<Rightarrow> bt result" where
  "close_bar en bar b =
     (let l = bt_ledger b; mark = bar_close bar in
     rbind (independently_reconcile dround (en_starting_cash en) (fills l) mark) (\<lambda>r.
     rbind (require (\<not> (cash l \<noteq> rec_cash r \<or> position l \<noteq> rec_position r \<or>
                        equity dround l mark \<noteq> rec_equity r \<or> reconcile dround l mark \<noteq> 0))
              (ValueError ''independent accounting disagreement'')) (\<lambda>_.
     Inr (b\<lparr>bt_curve := bt_curve b @ [(bar_timestamp bar, equity dround l mark)],
            bt_observations := bt_observations b @
              [\<lparr>ob_timestamp = bar_timestamp bar, ob_mark = mark, ob_cash = cash l, ob_position = position l,
                ob_equity = equity dround l mark, ob_exposure = dmul (position l) mark,
                ob_fees = fees l, ob_other_costs = other_costs l, ob_reference = r\<rparr>],
            bt_seen := bt_seen b @ [bar]\<rparr>))))"

definition bar_step :: "engine \<Rightarrow> strategy \<Rightarrow> string \<Rightarrow> bt \<Rightarrow> bar \<Rightarrow> bt result" where
  "bar_step en strat strategy_id b bar =
     rbind (require (\<not> instant (bar_timestamp bar) < instant (bar_available_at bar))
              (UnknownContractError ''execution observation unavailable at simulated time'')) (\<lambda>_.
     let history = causal_history (bt_seen b) (bar_timestamp bar) in
     rbind (decide en strat strategy_id history bar b) (\<lambda>intent.
     rbind (case intent of None \<Rightarrow> Inr b | Some i \<Rightarrow> register history bar i b) (\<lambda>b1.
     rbind (bar_snapshot bar) (\<lambda>snap.
     let remaining = dmul (ms_available_quantity snap) (fm_participation_limit (en_fill_model en)) in
     rbind (rfold (process_order en bar snap) (b1, remaining) (bt_pending b1)) (\<lambda>(b2, _).
     close_bar en bar b2)))))"

definition replay :: "engine \<Rightarrow> strategy \<Rightarrow> string \<Rightarrow> bar list \<Rightarrow> bt result" where
  "replay en strat strategy_id ordered = rfold (bar_step en strat strategy_id) (bt_init en) ordered"

definition end_of_replay :: "datetime \<Rightarrow> bt \<Rightarrow> bt" where
  "end_of_replay ts b =
     foldl (\<lambda>b oid. log_event oid ts CANCELLED ''END_OF_REPLAY'' b) b (dict_keys (bt_pending b))"

text \<open>
  \<open>_run\<close>, for the one strategy the caller passed. Sorting is stable; a list that mixes naive
  and aware timestamps cannot be sorted.
\<close>

definition run_backtest :: "engine \<Rightarrow> strategy \<Rightarrow> string \<Rightarrow> bar list \<Rightarrow> bt result" where
  "run_backtest en strat strategy_id bars =
     (if \<not> (\<forall>b \<in> set bars. \<forall>c \<in> set bars. comparable (bar_timestamp b) (bar_timestamp c))
      then Inl mixed_datetimes
      else
        let ordered = sort_key (\<lambda>b. instant (bar_timestamp b)) bars in
        if ordered = [] then Inl (ValueError ''empty market replay'')
        else if \<not> unique (map (\<lambda>b. instant (bar_timestamp b)) ordered)
        then Inl (ValueError ''duplicate market timestamp'')
        else if \<exists>b \<in> set ordered. bar_revised b \<or> \<not> is_aware (bar_timestamp b) \<or> \<not> is_aware (bar_available_at b)
        then Inl (ValueError ''revised or naive market data cannot enter an execution replay'')
        else rbind (replay en strat strategy_id ordered) (\<lambda>b.
             Inr (end_of_replay (bar_timestamp (last ordered)) b)))"

section \<open>What the steps leave unchanged\<close>

lemma modify_order_frame [simp]:
  "bt_ledger (modify_order oid f b) = bt_ledger b" "bt_pending (modify_order oid f b) = bt_pending b"
  "bt_curve (modify_order oid f b) = bt_curve b" "bt_seen (modify_order oid f b) = bt_seen b"
  "bt_observations (modify_order oid f b) = bt_observations b"
  by (simp_all add: modify_order_def split: option.splits)

lemma log_event_frame [simp]:
  "bt_ledger (log_event oid ts st r b) = bt_ledger b" "bt_pending (log_event oid ts st r b) = bt_pending b"
  "bt_curve (log_event oid ts st r b) = bt_curve b" "bt_seen (log_event oid ts st r b) = bt_seen b"
  "bt_observations (log_event oid ts st r b) = bt_observations b"
  by (simp_all add: log_event_def)

lemma cancel_immediate_frame [simp]:
  "bt_ledger (cancel_immediate bar oid i b) = bt_ledger b" "bt_curve (cancel_immediate bar oid i b) = bt_curve b"
  "bt_seen (cancel_immediate bar oid i b) = bt_seen b"
  "bt_observations (cancel_immediate bar oid i b) = bt_observations b"
  by (simp_all add: cancel_immediate_def Let_def)

lemma settle_order_frame [simp]:
  "bt_ledger (settle_order bar snap oid i f q booked b) = fst booked"
  "bt_curve (settle_order bar snap oid i f q booked b) = bt_curve b"
  "bt_seen (settle_order bar snap oid i f q booked b) = bt_seen b"
  "bt_observations (settle_order bar snap oid i f q booked b) = bt_observations b"
  by (simp_all add: settle_order_def Let_def split: prod.splits)

lemma register_frame:
  assumes "register history bar i b = Inr b'"
  shows "bt_ledger b' = bt_ledger b" "bt_curve b' = bt_curve b" "bt_seen b' = bt_seen b"
    "bt_observations b' = bt_observations b"
  using assms by (auto simp: register_def rbind_eq_Inr Let_def split: if_splits)

lemma end_of_replay_frame [simp]:
  "bt_ledger (end_of_replay ts b) = bt_ledger b" "bt_curve (end_of_replay ts b) = bt_curve b"
  "bt_seen (end_of_replay ts b) = bt_seen b" "bt_observations (end_of_replay ts b) = bt_observations b"
proof -
  have "bt_ledger (foldl (\<lambda>b oid. log_event oid ts st r b) b ks) = bt_ledger b \<and>
      bt_curve (foldl (\<lambda>b oid. log_event oid ts st r b) b ks) = bt_curve b \<and>
      bt_seen (foldl (\<lambda>b oid. log_event oid ts st r b) b ks) = bt_seen b \<and>
      bt_observations (foldl (\<lambda>b oid. log_event oid ts st r b) b ks) = bt_observations b" for st r ks
    by (induction ks arbitrary: b) simp_all
  then show "bt_ledger (end_of_replay ts b) = bt_ledger b" "bt_curve (end_of_replay ts b) = bt_curve b"
    "bt_seen (end_of_replay ts b) = bt_seen b" "bt_observations (end_of_replay ts b) = bt_observations b"
    by (simp_all add: end_of_replay_def)
qed

lemma note_normalized_frame [simp]:
  "bt_ledger (note_normalized oid i b) = bt_ledger b" "bt_curve (note_normalized oid i b) = bt_curve b"
  "bt_seen (note_normalized oid i b) = bt_seen b" "bt_observations (note_normalized oid i b) = bt_observations b"
  by (simp_all add: note_normalized_def)

lemma reject_order_frame [simp]:
  "bt_ledger (reject_order bar oid e b) = bt_ledger b" "bt_curve (reject_order bar oid e b) = bt_curve b"
  "bt_seen (reject_order bar oid e b) = bt_seen b" "bt_observations (reject_order bar oid e b) = bt_observations b"
  by (simp_all add: reject_order_def Let_def)

text \<open>
  A turn of the pending loop keeps the curve, the bars seen and the observations, and
  changes the ledger only by a fill that \<open>accept_fill\<close> and \<open>book_fill\<close> let through.
\<close>

definition books :: "engine \<Rightarrow> bar \<Rightarrow> ledger \<Rightarrow> ledger \<Rightarrow> bool" where
  "books en bar l l' \<longleftrightarrow>
     (\<exists>oid intent rem f f' q k c. accept_fill en intent rem f' = Inr (Some (f, q)) \<and>
        book_fill en bar oid intent l k f q = Inr (l', c))"

lemma booksI:
  "accept_fill en intent rem f' = Inr (Some (f, q)) \<Longrightarrow> book_fill en bar oid intent l k f q = Inr booked \<Longrightarrow>
   books en bar l (fst booked)"
  unfolding books_def by (metis prod.collapse)

lemma trade_cases:
  assumes "trade en bar snap oid intent n b remaining = Inr (b', r')"
  shows "bt_curve b' = bt_curve b \<and> bt_seen b' = bt_seen b \<and> bt_observations b' = bt_observations b \<and>
    (bt_ledger b' = bt_ledger b \<or> books en bar (bt_ledger b) (bt_ledger b'))"
proof -
  from assms obtain sim acc where
    acc: "(case sim of None \<Rightarrow> Inr None | Some f \<Rightarrow> accept_fill en intent remaining f) = Inr acc"
    and out: "rbind (case acc of
              None \<Rightarrow> Inr (b, remaining)
            | Some (f, quantity) \<Rightarrow>
                rbind (book_fill en bar oid intent (bt_ledger b) (length (bt_seen b)) f quantity) (\<lambda>booked.
                Inr (settle_order bar snap oid intent f quantity booked b, dsub remaining quantity)))
       (\<lambda>(b', remaining'). Inr (cancel_immediate bar oid intent b', remaining')) = Inr (b', r')"
    unfolding trade_def by (auto simp: rbind_eq_Inr)
  show ?thesis
  proof (cases acc)
    case None
    with out show ?thesis by auto
  next
    case (Some a)
    obtain f q where a: "acc = Some (f, q)" using Some by (cases a) auto
    then obtain f' where f': "accept_fill en intent remaining f' = Inr (Some (f, q))"
      using acc by (cases sim) auto
    from out obtain booked where bk:
      "book_fill en bar oid intent (bt_ledger b) (length (bt_seen b)) f q = Inr booked"
      and b': "b' = cancel_immediate bar oid intent (settle_order bar snap oid intent f q booked b)"
      unfolding a by (auto simp: rbind_eq_Inr)
    from booksI [OF f' bk] show ?thesis unfolding b' by simp
  qed
qed

lemma process_order_cases:
  assumes "process_order en bar snap s entry = Inr s'"
  shows "bt_curve (fst s') = bt_curve (fst s) \<and> bt_seen (fst s') = bt_seen (fst s) \<and>
    bt_observations (fst s') = bt_observations (fst s) \<and>
    (bt_ledger (fst s') = bt_ledger (fst s) \<or> books en bar (bt_ledger (fst s)) (bt_ledger (fst s')))"
proof -
  obtain b r oid i where s: "s = (b, r)" "entry = (oid, i)" by (cases s; cases entry)
  show ?thesis
  proof (cases "instant (ms_timestamp snap) < instant (oi_submission_time i) + fm_latency (en_fill_model en)")
    case True
    with assms show ?thesis by (auto simp: process_order_def s)
  next
    case late: False
    show ?thesis
    proof (cases "admit_order en bar snap i")
      case (Inl e)
      with late assms show ?thesis by (auto simp: process_order_def s or_reject_def split: if_splits)
    next
      case (Inr n)
      let ?i = "normalized_intent i n"
      let ?b1 = "note_normalized oid ?i b"
      have out: "or_reject bar oid ?b1 r (trade en bar snap oid ?i n ?b1 r) = Inr s'"
        using assms late Inr by (simp add: process_order_def s Let_def)
      show ?thesis
      proof (cases "trade en bar snap oid ?i n ?b1 r")
        case (Inl e)
        with out show ?thesis by (auto simp: or_reject_def s split: if_splits)
      next
        case (Inr o')
        then have t: "trade en bar snap oid ?i n ?b1 r = Inr (fst s', snd s')" using out by (simp add: or_reject_def)
        from trade_cases [OF t] show ?thesis unfolding s by simp
      qed
    qed
  qed
qed

lemma pending_loop:
  assumes "rfold (process_order en bar snap) s ps = Inr s'" and "I (bt_ledger (fst s))"
    and step: "\<And>l l'. I l \<Longrightarrow> books en bar l l' \<Longrightarrow> I l'"
  shows "I (bt_ledger (fst s')) \<and> bt_curve (fst s') = bt_curve (fst s) \<and> bt_seen (fst s') = bt_seen (fst s) \<and>
    bt_observations (fst s') = bt_observations (fst s)"
proof (rule rfold_invariant [OF assms(1)])
  fix t p t' assume t: "I (bt_ledger (fst t)) \<and> bt_curve (fst t) = bt_curve (fst s) \<and>
      bt_seen (fst t) = bt_seen (fst s) \<and> bt_observations (fst t) = bt_observations (fst s)"
    and st: "process_order en bar snap t p = Inr t'"
  have "I (bt_ledger (fst t'))" using process_order_cases [OF st] t step by metis
  with process_order_cases [OF st] t show "I (bt_ledger (fst t')) \<and> bt_curve (fst t') = bt_curve (fst s) \<and>
      bt_seen (fst t') = bt_seen (fst s) \<and> bt_observations (fst t') = bt_observations (fst s)" by simp
qed (use assms(2) in simp)

lemma bar_step_cases:
  assumes "bar_step en strat sid b bar = Inr b'" and "I (bt_ledger b)"
    and step: "\<And>l l'. I l \<Longrightarrow> books en bar l l' \<Longrightarrow> I l'"
  shows "I (bt_ledger b')" and "\<exists>v. bt_curve b' = bt_curve b @ [(bar_timestamp bar, v)]"
    and "bt_seen b' = bt_seen b @ [bar]"
    and "\<exists>r. independently_reconcile dround (en_starting_cash en) (fills (bt_ledger b')) (bar_close bar) = Inr r \<and>
      cash (bt_ledger b') = rec_cash r \<and> position (bt_ledger b') = rec_position r \<and>
      equity dround (bt_ledger b') (bar_close bar) = rec_equity r \<and>
      reconcile dround (bt_ledger b') (bar_close bar) = 0"
    and "\<exists>ob. bt_observations b' = bt_observations b @ [ob] \<and> ob_cash ob = cash (bt_ledger b') \<and>
      ob_position ob = position (bt_ledger b')"
proof -
  let ?h = "causal_history (bt_seen b) (bar_timestamp bar)"
  from assms(1) obtain i b1 snap rem b2 rem' where
    reg: "(case i of None \<Rightarrow> Inr b | Some i \<Rightarrow> register ?h bar i b) = Inr b1"
    and loop: "rfold (process_order en bar snap) (b1, rem) (bt_pending b1) = Inr (b2, rem')"
    and close: "close_bar en bar b2 = Inr b'"
    unfolding bar_step_def by (auto simp: rbind_eq_Inr Let_def)
  have b1: "bt_ledger b1 = bt_ledger b" "bt_curve b1 = bt_curve b" "bt_seen b1 = bt_seen b"
    "bt_observations b1 = bt_observations b"
    using reg by (auto split: option.splits dest: register_frame)
  have b2: "I (bt_ledger b2)" "bt_curve b2 = bt_curve b" "bt_seen b2 = bt_seen b"
    "bt_observations b2 = bt_observations b"
    using pending_loop [where I = I, OF loop] step assms(2) b1 by auto
  from close have b': "bt_ledger b' = bt_ledger b2" "\<exists>v. bt_curve b' = bt_curve b2 @ [(bar_timestamp bar, v)]"
    "bt_seen b' = bt_seen b2 @ [bar]"
    "\<exists>r. independently_reconcile dround (en_starting_cash en) (fills (bt_ledger b2)) (bar_close bar) = Inr r \<and>
      cash (bt_ledger b2) = rec_cash r \<and> position (bt_ledger b2) = rec_position r \<and>
      equity dround (bt_ledger b2) (bar_close bar) = rec_equity r \<and>
      reconcile dround (bt_ledger b2) (bar_close bar) = 0"
    "\<exists>ob. bt_observations b' = bt_observations b2 @ [ob] \<and> ob_cash ob = cash (bt_ledger b2) \<and>
      ob_position ob = position (bt_ledger b2)"
    unfolding close_bar_def by (auto simp: rbind_eq_Inr Let_def)
  show "I (bt_ledger b')" "\<exists>v. bt_curve b' = bt_curve b @ [(bar_timestamp bar, v)]"
    "bt_seen b' = bt_seen b @ [bar]"
    "\<exists>r. independently_reconcile dround (en_starting_cash en) (fills (bt_ledger b')) (bar_close bar) = Inr r \<and>
      cash (bt_ledger b') = rec_cash r \<and> position (bt_ledger b') = rec_position r \<and>
      equity dround (bt_ledger b') (bar_close bar) = rec_equity r \<and>
      reconcile dround (bt_ledger b') (bar_close bar) = 0"
    "\<exists>ob. bt_observations b' = bt_observations b @ [ob] \<and> ob_cash ob = cash (bt_ledger b') \<and>
      ob_position ob = position (bt_ledger b')"
    using b' b2 by simp_all
qed

lemma replay_ledger_invariant:
  assumes "replay en strat sid bars = Inr b" and "I (ledger_init (en_starting_cash en))"
    and step: "\<And>bar l l'. bar \<in> set bars \<Longrightarrow> I l \<Longrightarrow> books en bar l l' \<Longrightarrow> I l'"
  shows "I (bt_ledger b)"
proof (rule rfold_invariant [where I = "\<lambda>b. I (bt_ledger b)"])
  show "rfold (bar_step en strat sid) (bt_init en) bars = Inr b" using assms(1) by (simp only: replay_def)
  show "I (bt_ledger (bt_init en))" using assms(2) by (simp add: bt_init_def)
next
  fix b bar b' assume "bar \<in> set bars" "I (bt_ledger b)" "bar_step en strat sid b bar = Inr b'"
  with bar_step_cases(1) [of en strat sid b bar b' I] step show "I (bt_ledger b')" by blast
qed

lemma run_backtest_Inr:
  assumes "run_backtest en strat sid bars = Inr b"
  obtains b0 where "replay en strat sid (sort_key (\<lambda>b. instant (bar_timestamp b)) bars) = Inr b0"
    and "bars \<noteq> []" and "b = end_of_replay (bar_timestamp (last (sort_key (\<lambda>b. instant (bar_timestamp b)) bars))) b0"
proof -
  have "bars \<noteq> []" using assms by (auto simp: run_backtest_def)
  with assms that show ?thesis by (auto simp: run_backtest_def Let_def rbind_eq_Inr split: if_splits)
qed

section \<open>What a booked fill satisfies\<close>

lemma accept_fill_Inr:
  assumes "accept_fill en intent rem f' = Inr (Some (f, q))"
  shows "f = f'" "spec_min_quantity (en_spec en) \<le> q" "dround q = q"
    "spec_min_notional (en_spec en) \<le> dmul q (sf_price f)"
    "\<forall>lo. spec_price_lower (en_spec en) = Some lo \<longrightarrow> lo \<le> sf_price f"
    "\<forall>hi. spec_price_upper (en_spec en) = Some hi \<longrightarrow> sf_price f \<le> hi"
proof -
  from assms obtain x where x: "floor_to_increment x (spec_lot_size (en_spec en)) = Inr q"
    and rest: "f = f'" "spec_min_quantity (en_spec en) \<le> q"
      "spec_min_notional (en_spec en) \<le> dmul q (sf_price f)"
      "\<forall>lo. spec_price_lower (en_spec en) = Some lo \<longrightarrow> lo \<le> sf_price f"
      "\<forall>hi. spec_price_upper (en_spec en) = Some hi \<longrightarrow> sf_price f \<le> hi"
    by (auto simp: accept_fill_def rbind_eq_Inr not_less split: if_splits option.splits)
  show "dround q = q" using x by (auto simp: floor_to_increment_def rbind_eq_Inr dmul_def)
  show "f = f'" "spec_min_quantity (en_spec en) \<le> q" "spec_min_notional (en_spec en) \<le> dmul q (sf_price f)"
    "\<forall>lo. spec_price_lower (en_spec en) = Some lo \<longrightarrow> lo \<le> sf_price f"
    "\<forall>hi. spec_price_upper (en_spec en) = Some hi \<longrightarrow> sf_price f \<le> hi"
    using rest by simp_all
qed

lemma execution_costs_Inr:
  assumes "execution_costs en ts role notional = Inr (slippage, impact, fee)"
  shows "slippage = dround (dmul notional (en_slippage_bps en) / 10000)"
    "impact = dround (dmul notional (en_impact_bps en) / 10000)" "dround fee = fee"
    "\<exists>s. select_fee (en_fee_schedules en) (spec_venue (en_spec en)) (spec_instrument_id (en_spec en))
              (en_account_tier en) role ts = Inr s \<and> fee = dmul notional (fs_rate s)"
  using assms by (auto simp: execution_costs_def rbind_eq_Inr ddiv_def fee_amount_def dmul_def split: if_splits)

lemma book_fill_Inr:
  assumes "book_fill en bar oid intent l k f q = Inr (l', c)" and q: "dround q = q"
  obtains slippage impact fee fl where
    "execution_costs en (bar_timestamp bar) (sf_role f) (dmul q (sf_price f)) = Inr (slippage, impact, fee)"
    "0 \<le> dsub (dsub (dsub (dsub (cash l) (dmul (side_sign (oi_side intent)) (dmul q (sf_price f)))) fee) slippage) impact"
    "oi_side intent = SELL \<Longrightarrow> q \<le> position l"
    "fl = \<lparr>fill_id = oid @ '':'' @ show_nat k, fill_order_id = oid, fill_timestamp = bar_timestamp bar,
       fill_side = oi_side intent, fill_quantity = q, fill_price = sf_price f, fill_role = sf_role f, fill_fee = fee,
       fill_costs = [\<lparr>cc_kind = IMPLEMENTATION_SHORTFALL, cc_amount = slippage, cc_treatment = ADDITIVE, cc_parent = None\<rparr>,
                     \<lparr>cc_kind = IMPACT, cc_amount = impact, cc_treatment = ADDITIVE, cc_parent = None\<rparr>]\<rparr>"
    "0 < q" "0 < sf_price f" "ledger_apply dround l fl = Inr l'"
  using assms(1)
  by (force simp: book_fill_def rbind_eq_Inr mk_cost_component_def mk_fill_def not_less Let_def split: prod.splits)

lemma booked_ledger:
  assumes "ledger_apply rnd l f = Inr l'"
  shows "fills l' = fills l @ [f]"
    "position l' = rnd (position l + rnd (side_sign (fill_side f) * fill_quantity f))"
    "\<exists>a. additive_costs rnd (fill_costs f) = Inr a \<and>
       cash l' = rnd (rnd (rnd (cash l - rnd (rnd (side_sign (fill_side f) * fill_quantity f) * fill_price f))
                           - fill_fee f) - a)"
  using assms by (auto simp: ledger_apply_def rbind_eq_Inr Let_def split: if_splits)

lemma signed_fixed: "dround q = q \<Longrightarrow> dround (side_sign sd * q) = side_sign sd * q"
  by (cases sd) (simp_all add: side_sign_def dround_minus)

lemma books_funded:
  assumes "books en bar l l'" and "0 \<le> position l"
  shows "0 \<le> position l'"
    and "en_slippage_bps en = 0 \<or> en_impact_bps en = 0 \<Longrightarrow> 0 \<le> cash l'"
proof -
  obtain oid intent rem f f' q k c where acc: "accept_fill en intent rem f' = Inr (Some (f, q))"
    and book: "book_fill en bar oid intent l k f q = Inr (l', c)"
    using assms(1) unfolding books_def by blast
  note q = accept_fill_Inr(3) [OF acc]
  from book_fill_Inr [OF book q] obtain slippage impact fee fl where
    costs: "execution_costs en (bar_timestamp bar) (sf_role f) (dmul q (sf_price f)) = Inr (slippage, impact, fee)"
    and funded: "0 \<le> dsub (dsub (dsub (dsub (cash l) (dmul (side_sign (oi_side intent)) (dmul q (sf_price f)))) fee) slippage) impact"
    and short: "oi_side intent = SELL \<Longrightarrow> q \<le> position l" and "0 < q"
    and fl: "fl = \<lparr>fill_id = oid @ '':'' @ show_nat k, fill_order_id = oid, fill_timestamp = bar_timestamp bar,
       fill_side = oi_side intent, fill_quantity = q, fill_price = sf_price f, fill_role = sf_role f, fill_fee = fee,
       fill_costs = [\<lparr>cc_kind = IMPLEMENTATION_SHORTFALL, cc_amount = slippage, cc_treatment = ADDITIVE, cc_parent = None\<rparr>,
                     \<lparr>cc_kind = IMPACT, cc_amount = impact, cc_treatment = ADDITIVE, cc_parent = None\<rparr>]\<rparr>"
    and app: "ledger_apply dround l fl = Inr l'" by metis
  let ?sd = "side_sign (oi_side intent)"
  note applied = booked_ledger [OF app]
  have "0 \<le> position l + ?sd * q"
    using short \<open>0 < q\<close> assms(2) by (cases "oi_side intent") (simp_all add: side_sign_def)
  then show "0 \<le> position l'"
    using applied(2) by (simp add: fl signed_fixed [OF q] d28.rnd_nonneg)
  have fixed: "dround slippage = slippage" "dround impact = impact"
    using execution_costs_Inr(1,2) [OF costs] by simp_all
  have notional: "dround (dround (?sd * q) * sf_price f) = dmul ?sd (dmul q (sf_price f))"
    by (cases "oi_side intent") (simp_all add: side_sign_def dmul_def q dround_minus)
  have cash': "cash l' = dsub (dsub (dsub (cash l) (dmul ?sd (dmul q (sf_price f)))) fee) (dround (slippage + impact))"
    using applied(3) notional
    by (auto simp: fl additive_costs_def is_additive_def orphan_def dsub_def fixed split: if_splits)
  show "0 \<le> cash l'" if "en_slippage_bps en = 0 \<or> en_impact_bps en = 0"
  proof -
    from that have "slippage = 0 \<or> impact = 0"
      using execution_costs_Inr(1,2) [OF costs] by (auto simp: dmul_def)
    with funded show ?thesis unfolding cash' by (auto simp: fixed dsub_def)
  qed
qed

section \<open>A sample replay\<close>

text \<open>One bar on which a market order for 2 at 10 trades against a fee of one percent.\<close>

definition sample_spot :: instrument_spec where
  "sample_spot = \<lparr>spec_version = ''v1'', spec_venue = ''V'', spec_instrument_id = ''BTC-USD'',
       spec_contract_kind = SPOT, spec_base_currency = ''BTC'', spec_quote_currency = ''USD'',
       spec_settlement_currency = ''USD'', spec_tick_size = 1, spec_lot_size = 1, spec_min_quantity = 1,
       spec_min_notional = 1, spec_max_quantity = None, spec_price_lower = None, spec_price_upper = None,
       spec_multiplier = 1, spec_initial_margin_rate = None, spec_maintenance_margin_rate = None,
       spec_effective_from = Aware 0 0, spec_effective_to = None, spec_trading_status = TRADING\<rparr>"

definition sample_engine :: engine where
  "sample_engine = \<lparr>en_spec = sample_spot,
     en_fill_model = \<lparr>fm_version = ''v1'', fm_minimum_fidelity = F0_BAR, fm_participation_limit = 1,
       fm_latency = 0, fm_queue_assumption = None, fm_stress_multiplier = 1\<rparr>,
     en_starting_cash = 100,
     en_fee_schedules = [\<lparr>fs_version = ''f1'', fs_venue = ''V'', fs_instrument_id = ''BTC-USD'',
       fs_account_tier = ''T'', fs_liquidity_role = TAKER, fs_rate = 1 / 100, fs_effective_from = Aware 0 0,
       fs_effective_to = None, fs_source = ''doc''\<rparr>],
     en_account_tier = ''T'', en_slippage_bps = 0, en_impact_bps = 0\<rparr>"

definition sample_bar :: "int \<Rightarrow> rat \<Rightarrow> bar" where
  "sample_bar t p = \<lparr>bar_timestamp = Aware t 0, bar_open = p, bar_high = p, bar_low = p, bar_close = p,
     bar_volume = 50, bar_available_at = Aware t 0, bar_fidelity = F0_BAR, bar_revised = False, bar_quote = None\<rparr>"

lemma sample_increment_2: "floor_to_increment 2 1 = Inr 2"
  using floor_to_increment_exact [of 2 1 0] by simp


definition sample_order_intent :: order_intent where
  "sample_order_intent = \<lparr>oi_client_order_id = ''o'', oi_strategy_id = ''s'', oi_venue = ''V'',
     oi_instrument_id = ''BTC-USD'', oi_side = BUY, oi_quantity = 2, oi_order_type = MARKET,
     oi_limit_price = None, oi_information_cutoff_time = Aware 1 0, oi_signal_ready_time = Aware 1 0,
     oi_order_eligible_time = Aware 1 0, oi_submission_time = Aware 1 0, oi_reduce_only = False,
     oi_post_only = False, oi_time_in_force = IOC\<rparr>"

lemma dround_numeral: "numeral n \<le> (10 ^ 28 :: int) \<Longrightarrow> dround (numeral n) = numeral n"
  using dround_fits [OF fits_of_int [of "numeral n"]] by simp

lemma dround_1: "dround 1 = 1"
  using dround_fits [OF fits_of_int [of 1]] by simp

lemma dround_fifth: "dround (1 / 5) = 1 / 5" by (simp add: dround_exact12)
lemmas sample_decimals = dround_numeral dround_1 dround_fifth dadd_def dsub_def dmul_def ddiv_def dneg_def dabs_def dsum_def

definition sample_trade :: "simulated_fill" where
  "sample_trade = \<lparr>sf_quantity = 2, sf_price = 10, sf_role = TAKER, sf_uncertainty = None\<rparr>"

abbreviation sample_snap :: market_snapshot where
  "sample_snap \<equiv> \<lparr>ms_timestamp = Aware 1 0, ms_bid = 10, ms_ask = 10,
                 ms_available_quantity = 50, ms_fidelity = F0_BAR,
                 ms_book_sequence_valid = True, ms_observed_at = None\<rparr>"

lemma sample_snapshot_of_bar: "bar_snapshot (sample_bar 1 10) = Inr sample_snap"
  by (simp add: bar_snapshot_def sample_bar_def mk_market_snapshot_def)

lemma sample_admitted: "admit_order sample_engine (sample_bar 1 10) sample_snap sample_order_intent = Inr (intent_venue_order sample_order_intent)"
  by (simp add: admit_order_def sample_engine_def sample_spot_def sample_bar_def sample_order_intent_def
   spec_effective_at_def effective_at_def covers_def comparable_def rounded_order_def sample_increment_2
   intent_venue_order_def less_fidelity_tier_def Let_def)

lemma sample_simulated: "simulate (en_fill_model sample_engine) sample_order_intent sample_snap = Inr (Some sample_trade)"
  by (simp add: simulate_def sample_engine_def sample_order_intent_def executable_def marketable_def taker_price_def
   less_fidelity_tier_def less_eq_fidelity_tier_def sample_trade_def sample_decimals side_sign_def)

lemma sample_validated: "validate_order (intent_venue_order sample_order_intent) (en_spec sample_engine) 10 0 = Inr ()"
  by (simp add: validate_order_def sample_engine_def sample_spot_def sample_order_intent_def intent_venue_order_def
   rounded_order_def sample_increment_2 price_or_def Let_def sample_decimals)

lemma sample_accepted: "accept_fill sample_engine sample_order_intent 50 sample_trade = Inr (Some (sample_trade, 2))"
  by (simp add: accept_fill_def sample_engine_def sample_spot_def sample_order_intent_def sample_trade_def
    truthy_def sample_increment_2 Let_def sample_decimals)

definition sample_fl :: fill where "sample_fl = \<lparr>fill_id = ''o'' @ '':'' @ show_nat 0, fill_order_id = ''o'', fill_timestamp = Aware 1 0,
       fill_side = BUY, fill_quantity = 2, fill_price = 10, fill_role = TAKER, fill_fee = 1/5,
       fill_costs = [\<lparr>cc_kind = IMPLEMENTATION_SHORTFALL, cc_amount = 0, cc_treatment = ADDITIVE, cc_parent = None\<rparr>,
                     \<lparr>cc_kind = IMPACT, cc_amount = 0, cc_treatment = ADDITIVE, cc_parent = None\<rparr>]\<rparr>"

definition sample_after :: ledger where
  "sample_after = (ledger_init 100)\<lparr>average_entry := 10, position := 2, cash := 399/5, fees := 1/5, fills := [sample_fl]\<rparr>"

lemma sample_fifths: "dround (399/5) = 399/5" "dround (499/5) = 499/5" "dround (101/5) = 101/5" by (simp_all add: dround_exact12)

lemma sample_costs: "execution_costs sample_engine (Aware 1 0) TAKER 20 = Inr (0, 0, 1/5)"
  by (simp add: execution_costs_def sample_engine_def sample_spot_def select_fee_def effective_at_def covers_def
    comparable_def Let_def fee_amount_def sample_decimals)
lemma sample_applied: "ledger_apply dround (ledger_init 100) sample_fl = Inr sample_after"
  by (simp add: ledger_apply_def ledger_init_def sample_fl_def additive_costs_def is_additive_def orphan_def settle_def
    side_sign_def Let_def sample_decimals sample_after_def sample_fifths)
lemma sample_booked: "book_fill sample_engine (sample_bar 1 10) ''o'' sample_order_intent (ledger_init 100) 0 sample_trade 2
   = Inr (sample_after, 0, 0, 1/5)"
proof -
  have f: "mk_fill (''o'' @ '':'' @ show_nat 0) ''o'' (Aware 1 0) BUY (DecFinite 2) (DecFinite 10) TAKER (DecFinite (1/5)) 
     (fill_costs sample_fl) = Inr sample_fl" by (simp add: mk_fill_def sample_fl_def)
  have n: "dmul 2 10 = 20" "dmul 1 20 = 20" "dsub (dsub (dsub (dsub 100 20) (1/5)) 0) 0 = 399/5" by (simp_all add: sample_decimals sample_fifths)
  have l: "cash (ledger_init 100) = 100" "sf_price sample_trade = 10" "sf_role sample_trade = TAKER" "oi_side sample_order_intent = BUY"
    "bar_timestamp (sample_bar 1 10) = Aware 1 0"
    by (simp_all add: ledger_init_def sample_trade_def sample_order_intent_def sample_bar_def)
  have c: "fill_costs sample_fl = [\<lparr>cc_kind = IMPLEMENTATION_SHORTFALL, cc_amount = 0, cc_treatment = ADDITIVE, cc_parent = None\<rparr>,
                     \<lparr>cc_kind = IMPACT, cc_amount = 0, cc_treatment = ADDITIVE, cc_parent = None\<rparr>]" by (simp add: sample_fl_def)
  show ?thesis using f
    by (simp add: book_fill_def l n sample_costs sample_applied side_sign_def mk_cost_component_def c del: append.simps append_Cons)
qed

definition sample_signal :: strategy where
  "sample_signal = Signal (\<lambda>h t. Some sample_order_intent)"

definition sample_state :: bt where
  "sample_state = (bt_init sample_engine)\<lparr>
     bt_orders := [(''o'', \<lparr>ov_intent = sample_order_intent, ov_state = SUBMITTED, ov_filled_quantity = 0, ov_normalized = None\<rparr>)],
     bt_pending := [(''o'', sample_order_intent)],
     bt_events := [\<lparr>ev_order_id = ''o'', ev_timestamp = Aware 1 0, ev_state = INTENT, ev_reason = ''''\<rparr>,
                   \<lparr>ev_order_id = ''o'', ev_timestamp = Aware 1 0, ev_state = SUBMITTED, ev_reason = ''''\<rparr>]\<rparr>"

lemma sample_registered: "register [] (sample_bar 1 10) sample_order_intent (bt_init sample_engine) = Inr sample_state"
  by (simp add: register_def mk_order_intent_def sample_order_intent_def log_event_def modify_order_def bt_init_def
    sample_bar_def sample_state_def Let_def)

lemma sample_processed: "\<exists>b r. process_order sample_engine (sample_bar 1 10) sample_snap (sample_state, 50) (''o'', sample_order_intent) = Inr (b, r)
   \<and> bt_ledger b = sample_after"
proof -
  have n: "normalized_intent sample_order_intent (intent_venue_order sample_order_intent) = sample_order_intent"
    by (simp add: normalized_intent_def intent_venue_order_def)
  let ?b = "note_normalized ''o'' sample_order_intent sample_state"
  have l: "bt_ledger ?b = ledger_init 100" "bt_seen ?b = []" "bt_ledger sample_state = ledger_init 100" "bt_seen sample_state = []" by (simp_all add: sample_state_def bt_init_def sample_engine_def)
  have p: "position (ledger_init 100) = 0" "bar_open (sample_bar 1 10) = 10" by (simp_all add: ledger_init_def sample_bar_def)
  have lat: "fm_latency (en_fill_model sample_engine) = 0" "oi_submission_time sample_order_intent = Aware 1 0"
   by (simp_all add: sample_engine_def sample_order_intent_def)
  show ?thesis
    by (simp add: process_order_def sample_admitted n trade_def l p sample_simulated sample_validated sample_accepted sample_booked or_reject_def Let_def lat)
qed

lemma sample_closed: "\<exists>b'. close_bar sample_engine (sample_bar 1 10) b = Inr b' \<and> bt_ledger b' = sample_after" if "bt_ledger b = sample_after"
proof -
  have "\<exists>r. independently_reconcile dround 100 [sample_fl] 10 = Inr r \<and> rec_cash r = 399/5 \<and> rec_position r = 2 \<and> rec_equity r = 499/5"
    by (simp add: independently_reconcile_def fifo_step_def sample_fl_def side_sign_def fifo_costs_def is_additive_def Let_def sample_decimals sample_fifths)
  moreover have "equity dround sample_after 10 = 499/5" "reconcile dround sample_after 10 = 0"
    by (simp_all add: sample_after_def equity_def reconcile_def unrealized_pnl_def ledger_init_def sample_decimals sample_fifths Let_def)
  moreover have "fills sample_after = [sample_fl]" "cash sample_after = 399/5" "position sample_after = 2" "en_starting_cash sample_engine = 100"
    "bar_close (sample_bar 1 10) = 10"
   by (simp_all add: sample_after_def sample_engine_def sample_bar_def ledger_init_def)
  ultimately show ?thesis using that by (auto simp: close_bar_def Let_def)
qed

lemma sample_run: "\<exists>b. run_backtest sample_engine sample_signal ''s'' [sample_bar 1 10] = Inr b \<and> bt_ledger b = sample_after"
proof -
  obtain b r where b: "process_order sample_engine (sample_bar 1 10) sample_snap (sample_state, 50) (''o'', sample_order_intent) = Inr (b, r)"
     "bt_ledger b = sample_after" using sample_processed by blast
  obtain b' where b': "close_bar sample_engine (sample_bar 1 10) b = Inr b'" "bt_ledger b' = sample_after" using sample_closed b(2) by blast
  have q: "dmul 50 (fm_participation_limit (en_fill_model sample_engine)) = 50" "bt_pending sample_state = [(''o'', sample_order_intent)]"
     "bt_seen (bt_init sample_engine) = []"
    by (simp_all add: sample_engine_def sample_decimals sample_state_def bt_init_def)
  have "bar_step sample_engine sample_signal ''s'' (bt_init sample_engine) (sample_bar 1 10) = Inr b'"
    using b(1) b'(1) by (simp add: bar_step_def sample_signal_def decide_def q causal_history_def sample_registered sample_snapshot_of_bar Let_def)
       (simp add: sample_bar_def)
  then have "replay sample_engine sample_signal ''s'' [sample_bar 1 10] = Inr b'" by (simp add: replay_def)
  then show ?thesis using b'(2)
   by (simp add: run_backtest_def comparable_def) (simp add: sample_bar_def)
qed

section \<open>Properties\<close>

text \<open>C1 Accounting of a replay: when a backtest returns, it has marked every bar once, and at the
  last close its ledger reconciles exactly and agrees with the independent FIFO reconciliation
  of all its fills on cash, position and equity.\<close>

theorem backtest_accounted:
  assumes "run_backtest en strat sid bars = Inr b"
  shows "length (bt_curve b) = length bars \<and>
    (\<exists>mark r. independently_reconcile dround (en_starting_cash en) (fills (bt_ledger b)) mark = Inr r \<and>
      cash (bt_ledger b) = rec_cash r \<and> position (bt_ledger b) = rec_position r \<and>
      equity dround (bt_ledger b) mark = rec_equity r \<and> reconcile dround (bt_ledger b) mark = 0 \<and>
      mark = bar_close (last (sort_key (\<lambda>b. instant (bar_timestamp b)) bars)))"
proof -
  let ?ordered = "sort_key (\<lambda>b. instant (bar_timestamp b)) bars"
  from run_backtest_Inr [OF assms] obtain b0 where run: "replay en strat sid ?ordered = Inr b0"
    and "bars \<noteq> []" and b: "b = end_of_replay (bar_timestamp (last ?ordered)) b0" by metis
  have "?ordered \<noteq> []" using \<open>bars \<noteq> []\<close> by (metis length_0_conv length_sort)
  then obtain xs x where ord: "?ordered = xs @ [x]" by (metis rev_exhaust)
  obtain b1 where b1: "replay en strat sid xs = Inr b1" and last: "bar_step en strat sid b1 x = Inr b0"
    using run unfolding ord replay_def by (auto simp: rfold_append rbind_eq_Inr)
  have len: "length (bt_curve b') = length (bt_curve s) + length ys"
    if "rfold (bar_step en strat sid) s ys = Inr b'" for s ys b'
    using that
  proof (induction ys arbitrary: s)
    case (Cons y ys)
    then obtain s' where st: "bar_step en strat sid s y = Inr s'" and "rfold (bar_step en strat sid) s' ys = Inr b'"
      by (auto simp: rbind_eq_Inr)
    with Cons.IH bar_step_cases(2) [OF st, of "\<lambda>_. True"] show ?case by auto
  qed simp
  have "length (bt_curve b) = length bars"
    using len [of "bt_init en" ?ordered b0] run unfolding b replay_def by (simp add: bt_init_def)
  with bar_step_cases(4) [OF last, of "\<lambda>_. True"] show ?thesis unfolding b ord by auto
qed

theorem backtest_accounted_witness:
  "\<exists>b. run_backtest sample_engine sample_signal ''s'' [sample_bar 1 10] = Inr b \<and>
     length (bt_curve b) = 1 \<and> position (bt_ledger b) = 2"
proof -
  obtain b where b: "run_backtest sample_engine sample_signal ''s'' [sample_bar 1 10] = Inr b"
    and l: "bt_ledger b = sample_after" using sample_run by blast
  from backtest_accounted [OF b] have "length (bt_curve b) = 1" by simp
  with b l show ?thesis by (simp add: sample_after_def)
qed

text \<open>C22 A spot replay never borrows: at every mark and at the end the position is not negative,
  and when at least one of slippage and impact is zero neither is the cash. (With both charged
  the funding test rounds the two deductions in another order than the ledger.)\<close>

theorem backtest_funded:
  assumes "run_backtest en strat sid bars = Inr b" and "mk_engine en = Inr en"
  shows "(0 \<le> position (bt_ledger b) \<and> (\<forall>ob \<in> set (bt_observations b). 0 \<le> ob_position ob)) \<and>
    (en_slippage_bps en = 0 \<or> en_impact_bps en = 0 \<longrightarrow>
       0 \<le> cash (bt_ledger b) \<and> (\<forall>ob \<in> set (bt_observations b). 0 \<le> ob_cash ob))"
proof -
  let ?ordered = "sort_key (\<lambda>b. instant (bar_timestamp b)) bars"
  let ?I = "\<lambda>l. 0 \<le> position l \<and> (en_slippage_bps en = 0 \<or> en_impact_bps en = 0 \<longrightarrow> 0 \<le> cash l)"
  let ?J = "\<lambda>b. ?I (bt_ledger b) \<and> (\<forall>ob \<in> set (bt_observations b). 0 \<le> ob_position ob \<and>
      (en_slippage_bps en = 0 \<or> en_impact_bps en = 0 \<longrightarrow> 0 \<le> ob_cash ob))"
  from run_backtest_Inr [OF assms(1)] obtain b0 where run: "replay en strat sid ?ordered = Inr b0"
    and b: "b = end_of_replay (bar_timestamp (last ?ordered)) b0" by metis
  have "?J b0"
  proof (rule rfold_invariant [where I = ?J])
    show "rfold (bar_step en strat sid) (bt_init en) ?ordered = Inr b0" using run by (simp only: replay_def)
    show "?J (bt_init en)"
      using assms(2) by (auto simp: bt_init_def ledger_init_def mk_engine_def rbind_eq_Inr)
  next
    fix s bar s' assume J: "?J s" and st: "bar_step en strat sid s bar = Inr s'"
    have keep: "?I l'" if "?I l" "books en bar l l'" for l l' using books_funded [OF that(2)] that(1) by blast
    have "?I (bt_ledger s')" by (rule bar_step_cases(1) [where I = ?I, OF st _ keep]) (use J in blast)
    with bar_step_cases(5) [OF st, of "\<lambda>_. True"] J show "?J s'" by auto
  qed
  then show ?thesis unfolding b by simp
qed

theorem backtest_funded_witness:
  "\<exists>b. run_backtest sample_engine sample_signal ''s'' [sample_bar 1 10] = Inr b \<and>
     fills (bt_ledger b) \<noteq> [] \<and> 0 \<le> cash (bt_ledger b)"
proof -
  obtain b where b: "run_backtest sample_engine sample_signal ''s'' [sample_bar 1 10] = Inr b"
    and l: "bt_ledger b = sample_after" using sample_run by blast
  have "mk_engine sample_engine = Inr sample_engine" "en_slippage_bps sample_engine = 0"
    by (simp_all add: mk_engine_def sample_engine_def sample_spot_def)
  with backtest_funded [OF b] have "0 \<le> cash (bt_ledger b)" by blast
  with b l show ?thesis by (auto simp: sample_after_def)
qed

definition venue_fill :: "engine \<Rightarrow> bar list \<Rightarrow> fill \<Rightarrow> bool" where
  "venue_fill en bars f \<longleftrightarrow>
     spec_min_quantity (en_spec en) \<le> fill_quantity f \<and> 0 < fill_quantity f \<and>
     spec_min_notional (en_spec en) \<le> dmul (fill_quantity f) (fill_price f) \<and>
     (\<forall>lo. spec_price_lower (en_spec en) = Some lo \<longrightarrow> lo \<le> fill_price f) \<and>
     (\<forall>hi. spec_price_upper (en_spec en) = Some hi \<longrightarrow> fill_price f \<le> hi) \<and>
     (\<exists>bar \<in> set bars. fill_timestamp f = bar_timestamp bar) \<and>
     (\<exists>s. select_fee (en_fee_schedules en) (spec_venue (en_spec en)) (spec_instrument_id (en_spec en))
            (en_account_tier en) (fill_role f) (fill_timestamp f) = Inr s \<and>
          fill_fee f = dmul (dmul (fill_quantity f) (fill_price f)) (fs_rate s))"

lemma books_venue_fill:
  assumes "books en bar l l'" and "bar \<in> set bars" and "\<forall>f \<in> set (fills l). venue_fill en bars f"
  shows "\<forall>f \<in> set (fills l'). venue_fill en bars f"
proof -
  obtain oid intent rem f f' q k c where acc: "accept_fill en intent rem f' = Inr (Some (f, q))"
    and book: "book_fill en bar oid intent l k f q = Inr (l', c)"
    using assms(1) unfolding books_def by blast
  note a = accept_fill_Inr [OF acc]
  from book_fill_Inr [OF book a(3)] obtain slippage impact fee fl where
    costs: "execution_costs en (bar_timestamp bar) (sf_role f) (dmul q (sf_price f)) = Inr (slippage, impact, fee)"
    and q: "0 < q" and fl: "fill_quantity fl = q" "fill_price fl = sf_price f" "fill_timestamp fl = bar_timestamp bar"
      "fill_role fl = sf_role f" "fill_fee fl = fee"
    and app: "ledger_apply dround l fl = Inr l'"
    by (metis (no_types) fill.select_convs(3,5-8))
  have "venue_fill en bars fl"
    unfolding venue_fill_def fl using a q assms(2) execution_costs_Inr(4) [OF costs] by blast
  then show ?thesis using assms(3) booked_ledger(1) [OF app] by simp
qed

text \<open>Every fill of a replay is one the venue would take: its quantity and notional reach the
  minimum, its price lies in the venue band, it happens at the time of a bar, and its fee is
  the notional at the rate of the single schedule in force for its role at that time.\<close>

theorem backtest_fills_valid:
  assumes "run_backtest en strat sid bars = Inr b"
  shows "\<forall>f \<in> set (fills (bt_ledger b)). venue_fill en bars f"
proof -
  let ?ordered = "sort_key (\<lambda>b. instant (bar_timestamp b)) bars"
  from run_backtest_Inr [OF assms] obtain b0 where run: "replay en strat sid ?ordered = Inr b0"
    and b: "b = end_of_replay (bar_timestamp (last ?ordered)) b0" by metis
  have "\<forall>f \<in> set (fills (bt_ledger b0)). venue_fill en bars f"
    by (rule replay_ledger_invariant [OF run, where I = "\<lambda>l. \<forall>f \<in> set (fills l). venue_fill en bars f"])
      (use books_venue_fill in \<open>auto simp: ledger_init_def\<close>)
  then show ?thesis unfolding b by simp
qed

theorem backtest_fills_valid_witness: "venue_fill sample_engine [sample_bar 1 10] sample_fl"
proof -
  obtain b where b: "run_backtest sample_engine sample_signal ''s'' [sample_bar 1 10] = Inr b"
    and "bt_ledger b = sample_after" using sample_run by blast
  then have "sample_fl \<in> set (fills (bt_ledger b))" by (simp add: sample_after_def)
  with backtest_fills_valid [OF b] show ?thesis by blast
qed




end
