(* ===== verification/Derivatives.thy ===== *)
theory Derivatives
  imports FinTypes
begin

text \<open>
  Valuation of perpetual positions, margin, funding and forced conversion:
  \<open>liki/finance/derivatives.py\<close>.
\<close>

datatype margin_mode = CROSS | ISOLATED

record derivative_position =
  dp_side :: side
  dp_contracts :: rat
  dp_entry_price :: rat
  dp_spec :: instrument_spec
  dp_margin_mode :: margin_mode
  dp_collateral :: rat

definition mk_derivative_position :: "derivative_position \<Rightarrow> derivative_position result" where
  "mk_derivative_position p =
     rbind (require (\<not> (spec_contract_kind (dp_spec p) = SPOT \<or> dp_contracts p \<le> 0 \<or> dp_entry_price p \<le> 0))
              (ValueError ''invalid derivative position'')) (\<lambda>_. Inr p)"

definition position_pnl :: "derivative_position \<Rightarrow> rat \<Rightarrow> rat result" where
  "position_pnl p mark =
     (if mark \<le> 0 then Inl (ValueError ''mark must be positive'')
      else
        let base = dmul (dmul (side_sign (dp_side p)) (dp_contracts p)) (spec_multiplier (dp_spec p))
        in if spec_contract_kind (dp_spec p) = LINEAR_PERPETUAL
           then Inr (dmul base (dsub mark (dp_entry_price p)))
           else rbind (ddiv 1 (dp_entry_price p)) (\<lambda>a. rbind (ddiv 1 mark) (\<lambda>b.
                Inr (dmul base (dsub a b)))))"

definition position_notional :: "derivative_position \<Rightarrow> rat \<Rightarrow> rat" where
  "position_notional p mark = dmul (dmul (dp_contracts p) (spec_multiplier (dp_spec p))) mark"

definition maintenance_margin :: "derivative_position \<Rightarrow> rat \<Rightarrow> rat result" where
  "maintenance_margin p mark =
     (case spec_maintenance_margin_rate (dp_spec p) of
        None \<Rightarrow> Inl (ValueError ''maintenance margin is unknown; fail closed'')
      | Some r \<Rightarrow> Inr (dmul (position_notional p mark) r))"

definition liquidatable :: "derivative_position \<Rightarrow> rat \<Rightarrow> rat \<Rightarrow> bool result" where
  "liquidatable p mark haircut =
     rbind (require (0 \<le> haircut \<and> haircut < 1) (ValueError ''invalid collateral haircut'')) (\<lambda>_.
     rbind (position_pnl p mark) (\<lambda>pnl.
     let eq = dadd (dmul (dp_collateral p) (dsub 1 haircut)) pnl in
     rbind (maintenance_margin p mark) (\<lambda>mm. Inr (eq \<le> mm))))"

definition funding_payment :: "derivative_position \<Rightarrow> rat \<Rightarrow> rat \<Rightarrow> rat" where
  "funding_payment p rate mark =
     dmul (dmul (dneg (side_sign (dp_side p))) (position_notional p mark)) rate"

datatype forced_event_type = LIQUIDATION | ADL | DELISTING | MIGRATION

record forced_event =
  fe_event_type :: forced_event_type
  fe_conversion_price :: rat
  fe_fee_rate :: rat
  fe_evidence :: evidence_kind

definition forced_convert :: "forced_event \<Rightarrow> derivative_position \<Rightarrow> (rat \<times> rat) result" where
  "forced_convert e p =
     rbind (require (0 < fe_conversion_price e)
              (ValueError ''forced conversion requires a positive documented price'')) (\<lambda>_.
     rbind (position_pnl p (fe_conversion_price e)) (\<lambda>pnl.
     Inr (pnl, dmul (position_notional p (fe_conversion_price e)) (fe_fee_rate e))))"

section \<open>Lemmas\<close>

lemma dmul_minus [simp]: "dmul (- a) b = - dmul a b"
  by (simp add: dmul_def dround_minus)

definition opposite :: "side \<Rightarrow> side" where
  "opposite s = (if s = BUY then SELL else BUY)"

lemma side_sign_opposite [simp]: "side_sign (opposite s) = - side_sign s"
  by (cases s) (simp_all add: opposite_def side_sign_def)

lemma position_notional_side [simp]: "position_notional (p\<lparr>dp_side := s\<rparr>) mark = position_notional p mark"
  by (simp add: position_notional_def)

lemma liquidatable_equity_mono:
  assumes "0 \<le> c" and "a \<le> b"
  shows "dadd (dmul c (dsub 1 b)) x \<le> dadd (dmul c (dsub 1 a)) x"
proof -
  have "dsub 1 b \<le> dsub 1 a" unfolding dsub_def by (rule dround_mono) (use assms in simp)
  then have "dmul c (dsub 1 b) \<le> dmul c (dsub 1 a)"
    unfolding dmul_def by (intro dround_mono mult_left_mono assms(1))
  then show ?thesis unfolding dadd_def by (intro dround_mono) simp
qed

section \<open>Properties\<close>

text \<open>Perpetuals are a zero-sum market at every rounding: the two sides of the same position
  have opposite profit at every mark, pay opposite funding, and owe the same fee in a forced
  conversion; an invalid mark is refused for both.\<close>

theorem perpetual_zero_sum:
  "position_pnl (p\<lparr>dp_side := opposite (dp_side p)\<rparr>) mark = map_sum id uminus (position_pnl p mark) \<and>
   funding_payment (p\<lparr>dp_side := opposite (dp_side p)\<rparr>) rate mark = - funding_payment p rate mark \<and>
   map_sum id snd (forced_convert e (p\<lparr>dp_side := opposite (dp_side p)\<rparr>)) = map_sum id snd (forced_convert e p)"
proof -
  have pnl: "position_pnl (p\<lparr>dp_side := opposite (dp_side p)\<rparr>) m = map_sum id uminus (position_pnl p m)" for m
    by (simp add: position_pnl_def ddiv_def Let_def)
  have fund: "funding_payment (p\<lparr>dp_side := opposite (dp_side p)\<rparr>) rate mark = - funding_payment p rate mark"
    by (simp add: funding_payment_def dneg_def dround_minus)
  have "map_sum id snd (forced_convert e (p\<lparr>dp_side := opposite (dp_side p)\<rparr>)) = map_sum id snd (forced_convert e p)"
    unfolding forced_convert_def pnl
    by (cases "position_pnl p (fe_conversion_price e)"; cases "0 < fe_conversion_price e") simp_all
  with pnl fund show ?thesis by blast
qed

text \<open>The haircut stress is monotone: a position that is liquidatable under one collateral
  haircut is liquidatable under every larger one, whatever the rounding.\<close>

theorem liquidatable_haircut_mono:
  assumes "0 \<le> dp_collateral p" and "liquidatable p mark h = Inr True" and "h \<le> h'" and "h' < 1"
  shows "liquidatable p mark h' = Inr True"
proof -
  from assms(2) obtain pnl mm where "0 \<le> h" "position_pnl p mark = Inr pnl"
      "maintenance_margin p mark = Inr mm" "dadd (dmul (dp_collateral p) (dsub 1 h)) pnl \<le> mm"
    by (auto simp: liquidatable_def rbind_eq_Inr Let_def)
  with assms(3,4) liquidatable_equity_mono [OF assms(1,3), of pnl] show ?thesis
    by (simp add: liquidatable_def Let_def)
qed

definition sample_perp :: derivative_position where
  "sample_perp = \<lparr>dp_side = BUY, dp_contracts = 2, dp_entry_price = 100,
     dp_spec = \<lparr>spec_version = ''v1'', spec_venue = ''V'', spec_instrument_id = ''BTC-PERP'',
       spec_contract_kind = LINEAR_PERPETUAL, spec_base_currency = ''BTC'', spec_quote_currency = ''USD'',
       spec_settlement_currency = ''USD'', spec_tick_size = 1, spec_lot_size = 1, spec_min_quantity = 1,
       spec_min_notional = 1, spec_max_quantity = None, spec_price_lower = None, spec_price_upper = None,
       spec_multiplier = 1, spec_initial_margin_rate = None, spec_maintenance_margin_rate = Some (1 / 20),
       spec_effective_from = Aware 0 0, spec_effective_to = None, spec_trading_status = TRADING\<rparr>,
     dp_margin_mode = ISOLATED, dp_collateral = 30\<rparr>"

lemma sample_perp_liquidatable: "liquidatable sample_perp 90 (1 / 10) = Inr True"
  by (simp add: liquidatable_def position_pnl_def maintenance_margin_def position_notional_def sample_perp_def
      side_sign_def Let_def) (simp add: decimal_eval)

theorem liquidatable_haircut_mono_witness: "liquidatable sample_perp 90 (1 / 2) = Inr True"
  by (rule liquidatable_haircut_mono [OF _ sample_perp_liquidatable]) (simp_all add: sample_perp_def)

end
