(* ===== verification/Metrics.thy ===== *)
theory Metrics
  imports FinTypes
begin

text \<open>
  Netting and stress of \<open>liki/finance/portfolio.py\<close>, and the metrics of
  \<open>liki/finance/metrics.py\<close> with their exceptional states. The numpy covariance code and
  the Sharpe ratio (decimal square root) are not modelled.
\<close>

section \<open>Netting and stress\<close>

record strategy_order =
  so_strategy_id :: string
  so_instrument_id :: string
  so_venue :: string
  so_side :: side
  so_quantity :: rat
  so_price :: rat

definition signed_quantity :: "strategy_order \<Rightarrow> rat" where
  "signed_quantity o' = dmul (side_sign (so_side o')) (so_quantity o')"

abbreviation order_key :: "strategy_order \<Rightarrow> string \<times> string" where
  "order_key o' \<equiv> (so_venue o', so_instrument_id o')"

definition net_step ::
  "((string \<times> string) \<times> rat) list \<Rightarrow> strategy_order \<Rightarrow> ((string \<times> string) \<times> rat) list" where
  "net_step book o' =
     dict_set (order_key o')
       (dadd (case dict_get book (order_key o') of None \<Rightarrow> 0 | Some q \<Rightarrow> q) (signed_quantity o')) book"

definition net_orders :: "strategy_order list \<Rightarrow> ((string \<times> string) \<times> rat) list" where
  "net_orders orders = List.filter (\<lambda>(k, q). q \<noteq> 0) (foldl net_step [] orders)"

text \<open>\<open>dict.get(key, ZERO)\<close>.\<close>

definition get_or_zero :: "('k \<times> rat) list \<Rightarrow> 'k \<Rightarrow> rat" where
  "get_or_zero d k = (case dict_get d k of None \<Rightarrow> 0 | Some q \<Rightarrow> q)"

definition reverse_stress :: "('k \<times> rat) list \<Rightarrow> ('k \<times> rat) list \<Rightarrow> rat \<Rightarrow> rat result" where
  "reverse_stress exposures shocks eq =
     (if eq \<le> 0 then Inl (ValueError ''equity must be positive'')
      else
        let loss = dsum (map (\<lambda>(k, x). dmul (dneg x) (get_or_zero shocks k)) exposures)
        in rbind (ddiv loss eq) (\<lambda>r. Inr (max 0 r)))"

definition collateral_step ::
  "('k \<times> rat) list \<Rightarrow> ('k \<times> rat) list \<Rightarrow> rat \<times> rat \<Rightarrow> 'k \<times> rat \<Rightarrow> (rat \<times> rat) result" where
  "collateral_step depegs recovery acc entry =
     (let (loss, trapped) = acc; (asset, v) = entry;
          depeg = get_or_zero depegs asset; recovered = get_or_zero recovery asset
      in if \<not> (0 \<le> depeg \<and> depeg \<le> 1) \<or> \<not> (0 \<le> recovered \<and> recovered \<le> 1)
         then Inl (ValueError ''depeg and recovery must be decimal fractions'')
         else Inr (dadd loss (dmul v depeg), dadd trapped (dmul v (dsub 1 recovered))))"

definition collateral_and_venue_loss ::
  "('k \<times> rat) list \<Rightarrow> ('k \<times> rat) list \<Rightarrow> ('k \<times> rat) list \<Rightarrow> (rat \<times> rat) result" where
  "collateral_and_venue_loss collateral depegs recovery =
     rfold (collateral_step depegs recovery) (0, 0) collateral"

section \<open>Metrics\<close>

record metric_result =
  mr_metric_id :: string
  mr_version :: string
  mr_state :: metric_state
  mr_value :: "rat option"
  mr_reason :: "string option"

fun simple_returns :: "rat list \<Rightarrow> rat list result" where
  "simple_returns [] = Inr []"
| "simple_returns [a] = Inr []"
| "simple_returns (a # b # xs) =
     (if a = 0 then Inl ZeroDivision
      else rbind (ddiv b a) (\<lambda>q. rbind (simple_returns (b # xs)) (\<lambda>rs. Inr (dsub q 1 # rs))))"

text \<open>
  \<open>_result\<close> runs a calculation and turns its exceptions into metric states; an exception of
  another kind passes through.
\<close>

definition metric_outcome :: "string \<Rightarrow> string \<Rightarrow> rat result \<Rightarrow> metric_result result" where
  "metric_outcome metric version calc =
     (case calc of
        Inr v \<Rightarrow> Inr \<lparr>mr_metric_id = metric, mr_version = version, mr_state = VALUE, mr_value = Some v, mr_reason = None\<rparr>
      | Inl e \<Rightarrow>
          if e = ZeroDivision
          then Inr \<lparr>mr_metric_id = metric, mr_version = version, mr_state = UNDEFINED, mr_value = None, mr_reason = Some ''division by zero''\<rparr>
          else if is_value_error e \<or> is_decimal_error e
          then Inr \<lparr>mr_metric_id = metric, mr_version = version, mr_state = NUMERIC_ERROR, mr_value = None, mr_reason = Some ''numeric error''\<rparr>
          else Inl e)"

definition drawdown_step :: "rat \<times> rat \<Rightarrow> rat \<Rightarrow> (rat \<times> rat) result" where
  "drawdown_step s v =
     (let peak = max (fst s) v
      in if peak \<le> 0 then Inl ZeroDivision
         else rbind (ddiv v peak) (\<lambda>q. Inr (peak, min (snd s) (dsub q 1))))"

definition max_drawdown :: "rat list \<Rightarrow> string \<Rightarrow> metric_result result" where
  "max_drawdown eq version =
     (case eq of
        [] \<Rightarrow> Inr \<lparr>mr_metric_id = ''maximum_drawdown'', mr_version = version, mr_state = INSUFFICIENT_DATA,
                    mr_value = None, mr_reason = Some ''empty equity series''\<rparr>
      | v # _ \<Rightarrow> metric_outcome ''maximum_drawdown'' version
                   (rbind (rfold drawdown_step (v, 0) eq) (\<lambda>s. Inr (snd s))))"

definition tail_count :: "rat \<Rightarrow> nat \<Rightarrow> nat" where
  "tail_count confidence n = nat (max 1 (to_integral_down (dmul (dsub 1 confidence) (of_nat n))))"

definition expected_shortfall :: "rat list \<Rightarrow> rat \<Rightarrow> string \<Rightarrow> metric_result result" where
  "expected_shortfall returns confidence version =
     (if \<not> (0 < confidence \<and> confidence < 1)
      then Inr \<lparr>mr_metric_id = ''expected_shortfall'', mr_version = version, mr_state = NOT_APPLICABLE,
                mr_value = None, mr_reason = Some ''confidence outside (0, 1)''\<rparr>
      else if returns = []
      then Inr \<lparr>mr_metric_id = ''expected_shortfall'', mr_version = version, mr_state = INSUFFICIENT_DATA,
                mr_value = None, mr_reason = Some ''empty return series''\<rparr>
      else
        let count = tail_count confidence (length returns)
        in metric_outcome ''expected_shortfall'' version
             (ddiv (dsum (take count (sort returns))) (of_nat count)))"

section \<open>Lemmas\<close>

lemma net_step_get:
  "dict_get (net_step book o') k =
     (if k = order_key o' then Some (dadd (get_or_zero book k) (signed_quantity o')) else dict_get book k)"
  by (auto simp: net_step_def get_or_zero_def dict_get_set)

lemma net_fold_get:
  "get_or_zero (foldl net_step book orders) k =
     foldl dadd (get_or_zero book k) (map signed_quantity (List.filter (\<lambda>o'. order_key o' = k) orders))"
proof (induction orders arbitrary: book)
  case Nil
  then show ?case by simp
next
  case (Cons o' orders)
  have "get_or_zero (net_step book o') k =
      (if order_key o' = k then dadd (get_or_zero book k) (signed_quantity o') else get_or_zero book k)"
    using net_step_get [of book o' k] by (simp add: get_or_zero_def)
  then show ?case by (simp only: foldl.simps Cons.IH) simp
qed

lemma get_or_zero_filter:
  "distinct (dict_keys d) \<Longrightarrow> get_or_zero (List.filter (\<lambda>(k, q). q \<noteq> 0) d) k = get_or_zero d k"
proof (induction d)
  case (Cons e d)
  obtain x v where e: "e = (x, v)" by (cases e)
  have "x \<notin> set (dict_keys (List.filter (\<lambda>(k, q). q \<noteq> 0) d))" using Cons.prems e by auto
  then have "dict_get (List.filter (\<lambda>(k, q). q \<noteq> 0) d) x = None" by (simp add: map_of_eq_None_iff)
  with Cons e show ?case by (simp add: get_or_zero_def)
qed (simp add: get_or_zero_def)

lemma net_fold_distinct: "distinct (dict_keys book) \<Longrightarrow> distinct (dict_keys (foldl net_step book orders))"
  by (induction orders arbitrary: book) (simp_all add: net_step_def distinct_dict_set)

lemma drawdown_step_pos:
  assumes "0 < p" and "0 < v" and "drawdown_step (p, d) v = Inr (p', d')"
  shows "p' = max p v" and "d' = min d (dsub (dround (v / p')) 1)"
  using assms by (auto simp: drawdown_step_def ddiv_def Let_def split: if_splits)

text \<open>
  The invariant of the drawdown loop after the prefix \<open>seen\<close>: the peak is the largest value seen,
  and the drawdown the smallest of zero and the returns from any earlier value.
\<close>

definition worst_pair :: "rat list \<Rightarrow> rat \<Rightarrow> bool" where
  "worst_pair seen d \<longleftrightarrow>
     (\<forall>i j. i \<le> j \<longrightarrow> j < length seen \<longrightarrow> d \<le> dsub (dround (seen ! j / seen ! i)) 1) \<and>
     (\<exists>i j. i \<le> j \<and> j < length seen \<and> d = dsub (dround (seen ! j / seen ! i)) 1)"

lemma pair_return_mono:
  assumes "0 < (v :: rat)" and "0 < a" and "a \<le> b"
  shows "dsub (dround (v / b)) 1 \<le> dsub (dround (v / a)) 1"
proof -
  have "v / b \<le> v / a" using assms by (simp add: frac_le)
  then show ?thesis unfolding dsub_def by (intro dround_mono diff_right_mono)
qed

lemma worst_pair_snoc:
  assumes w: "worst_pair seen d" and pos: "\<forall>x \<in> set seen. 0 < x" "0 < v"
    and p: "p \<in> set (seen @ [v])" "\<forall>x \<in> set (seen @ [v]). x \<le> p"
  shows "worst_pair (seen @ [v]) (min d (dsub (dround (v / p)) 1))" (is "worst_pair ?seen (min d ?r)")
proof -
  obtain k where k: "k < length ?seen" "?seen ! k = p" using p(1) by (metis in_set_conv_nth)
  have old: "?seen ! i = seen ! i" if "i < length seen" for i using that by (simp add: nth_append)
  have "min d ?r \<le> dsub (dround (?seen ! j / ?seen ! i)) 1" if ij: "i \<le> j" "j < length ?seen" for i j
  proof (cases "j = length seen")
    case False
    with ij have "d \<le> dsub (dround (?seen ! j / ?seen ! i)) 1"
      using w old [of i] old [of j] unfolding worst_pair_def by simp
    then show ?thesis by simp
  next
    case True
    then have v: "?seen ! j = v" by simp
    have "?seen ! i \<in> set ?seen" using ij by (intro nth_mem) simp
    then have "0 < ?seen ! i" "?seen ! i \<le> p" using pos p(2) by auto
    from pair_return_mono [OF pos(2) this] show ?thesis unfolding v by simp
  qed
  moreover have "\<exists>i j. i \<le> j \<and> j < length ?seen \<and> min d ?r = dsub (dround (?seen ! j / ?seen ! i)) 1"
  proof (cases "d \<le> ?r")
    case True
    obtain i j where "i \<le> j" "j < length seen" "d = dsub (dround (seen ! j / seen ! i)) 1"
      using w unfolding worst_pair_def by blast
    with True old [of i] old [of j] show ?thesis by (intro exI [of _ i] exI [of _ j]) simp
  next
    case False
    with k show ?thesis by (intro exI [of _ k] exI [of _ "length seen"]) simp
  qed
  ultimately show ?thesis unfolding worst_pair_def by blast
qed

lemma drawdown_run:
  assumes "rfold drawdown_step (p, d) vs = Inr s" and "\<forall>x \<in> set (seen @ vs). 0 < x"
    and "p \<in> set seen" "\<forall>x \<in> set seen. x \<le> p" "worst_pair seen d"
  shows "worst_pair (seen @ vs) (snd s)"
  using assms
proof (induction vs arbitrary: p d seen)
  case Nil
  then show ?case by auto
next
  case (Cons v vs)
  from Cons.prems(1) obtain p' d' where st: "drawdown_step (p, d) v = Inr (p', d')"
    and run: "rfold drawdown_step (p', d') vs = Inr s" by (auto simp: rbind_eq_Inr)
  have "0 < p" "0 < v" using Cons.prems(2,3) by auto
  note eqs = drawdown_step_pos [OF this st]
  have p': "p' \<in> set (seen @ [v])" "\<forall>x \<in> set (seen @ [v]). x \<le> p'"
    using Cons.prems(3,4) eqs(1) by (auto simp: max_def)
  have "worst_pair (seen @ [v]) d'"
    unfolding eqs(2) using Cons.prems(2) by (intro worst_pair_snoc Cons.prems(5) p') auto
  from Cons.IH [OF run _ p' this] Cons.prems(2) show ?case by simp
qed

lemma drawdown_start:
  assumes "0 < v" and "rfold drawdown_step (v, 0) (v # vs) = Inr s" and "\<forall>x \<in> set vs. 0 < x"
  shows "worst_pair (v # vs) (snd s)"
proof -
  have "dround 1 = 1" by (simp add: dround_exact12)
  then have zero: "dsub (dround (v / v)) 1 = 0" using assms(1) by (simp add: dsub_def)
  then have "drawdown_step (v, 0) v = Inr (v, 0)"
    using assms(1) by (simp add: drawdown_step_def ddiv_def Let_def)
  with assms(2) have run: "rfold drawdown_step (v, 0) vs = Inr s" by simp
  have "worst_pair [v] 0" using zero by (simp add: worst_pair_def)
  from drawdown_run [OF run _ _ _ this] assms show ?thesis by simp
qed

section \<open>Properties\<close>

text \<open>Netting preserves exposure: for every venue and instrument the netted book holds exactly
  the rounded running sum of the signed quantities sent there, in order, and a key appears at
  most once and never with a zero quantity.\<close>

theorem net_orders_exposure:
  "get_or_zero (net_orders orders) k =
     foldl dadd 0 (map signed_quantity (List.filter (\<lambda>o'. order_key o' = k) orders)) \<and>
   distinct (dict_keys (net_orders orders)) \<and> 0 \<notin> set (map snd (net_orders orders))"
proof -
  let ?book = "foldl net_step [] orders"
  have d: "distinct (dict_keys ?book)" by (rule net_fold_distinct) simp
  from get_or_zero_filter [OF d] net_fold_get [of "[]" orders k] have "get_or_zero (net_orders orders) k =
     foldl dadd 0 (map signed_quantity (List.filter (\<lambda>o'. order_key o' = k) orders))"
    by (simp add: net_orders_def get_or_zero_def)
  moreover have "distinct (dict_keys (net_orders orders))"
    unfolding net_orders_def by (rule distinct_map_filter) (rule d)
  ultimately show ?thesis by (auto simp: net_orders_def)
qed

text \<open>C32 The single-pass drawdown is the worst peak-to-trough return: on a positive equity
  series the metric is a value, it is at most the return between any two points in time
  order, and it is attained by one such pair.\<close>

theorem max_drawdown_worst_pair:
  assumes "eq \<noteq> []" and "\<forall>x \<in> set eq. 0 < x"
  shows "\<exists>d. max_drawdown eq version = Inr \<lparr>mr_metric_id = ''maximum_drawdown'', mr_version = version,
      mr_state = VALUE, mr_value = Some d, mr_reason = None\<rparr> \<and>
    (\<forall>i j. i \<le> j \<longrightarrow> j < length eq \<longrightarrow> d \<le> dsub (dround (eq ! j / eq ! i)) 1) \<and>
    (\<exists>i j. i \<le> j \<and> j < length eq \<and> d = dsub (dround (eq ! j / eq ! i)) 1)"
proof -
  obtain v vs where vs: "eq = v # vs" using assms(1) by (cases eq) auto
  have total: "\<exists>s. rfold drawdown_step (p, d) xs = Inr s" if "0 < p" for p d xs
    using that
  proof (induction xs arbitrary: p d)
    case (Cons x xs)
    then have "0 < max p x" by simp
    with Cons.IH [OF this] Cons.prems show ?case by (simp add: drawdown_step_def ddiv_def Let_def)
  qed simp
  obtain s where s: "rfold drawdown_step (v, 0) (v # vs) = Inr s"
    using total [of v 0 "v # vs"] assms(2) vs by auto
  have "worst_pair eq (snd s)" unfolding vs by (rule drawdown_start [OF _ s]) (use assms(2) vs in simp_all)
  then show ?thesis
    unfolding worst_pair_def using s
    by (intro exI [of _ "snd s"]) (simp add: max_drawdown_def metric_outcome_def vs del: rfold.simps)
qed

theorem max_drawdown_worst_pair_witness:
  "\<exists>r. max_drawdown [100, 120, 90, 110] ''1'' = Inr r \<and> mr_state r = VALUE \<and> mr_value r \<noteq> Some 0"
proof -
  let ?eq = "[100, 120, 90, 110 :: rat]"
  obtain d where d: "max_drawdown ?eq ''1'' = Inr \<lparr>mr_metric_id = ''maximum_drawdown'', mr_version = ''1'',
      mr_state = VALUE, mr_value = Some d, mr_reason = None\<rparr>"
    and le: "\<And>i j. i \<le> j \<Longrightarrow> j < length ?eq \<Longrightarrow> d \<le> dsub (dround (?eq ! j / ?eq ! i)) 1"
    using max_drawdown_worst_pair [of ?eq "''1''"] by auto
  from le [of 1 2] have "d \<le> dsub (dround (3 / 4)) 1" by simp
  then have "d < 0" by (simp add: decimal_eval)
  with d show ?thesis by simp
qed

end
