(* ===== verification/EventStore.thy ===== *)
theory EventStore
  imports Prelude "HOL-Library.Countable"
begin

text \<open>
  The hash-chained event log with its projections, and the artifact table:
  \<open>liki/store.py\<close>. A transaction is a function from the database state to an error or the
  new state; an exception rolls the transaction back, so an error carries no state. The
  advisory lock serialises transactions, so their interleavings are the sequences of
  these functions. PostgreSQL's row-level policies are not part of the model.
\<close>

section \<open>JSON\<close>

text \<open>
  Values of the \<open>jsonb\<close> columns. The members of an object are in the normal order of
  \<open>jsonb\<close>, so equal dictionaries are equal lists.
\<close>

datatype json = JNull | JBool bool | JNum rat | JStr string | JArr "json list" | JObj "(string \<times> json) list"

type_synonym jobj = "(string \<times> json) list"

definition jget :: "jobj \<Rightarrow> string \<Rightarrow> json" where
  "jget obj k = (case dict_get obj k of None \<Rightarrow> JNull | Some v \<Rightarrow> v)"

text \<open>\<open>{**obj, k: v}\<close> on the normal form, whose members are ordered by key.\<close>

fun jset :: "string \<Rightarrow> json \<Rightarrow> jobj \<Rightarrow> jobj" where
  "jset k v [] = [(k, v)]"
| "jset k v ((k', v') # obj) =
     (if k = k' then (k, v) # obj
      else if str_less k k' then (k, v) # (k', v') # obj
      else (k', v') # jset k v obj)"

definition json_option :: "string option \<Rightarrow> json" where
  "json_option s = (case s of None \<Rightarrow> JNull | Some x \<Rightarrow> JStr x)"

section \<open>Principals and capabilities\<close>

record identity =
  id_principal :: string
  id_role :: string
  id_code_fingerprint :: string

definition capabilities :: "(string \<times> string list) list" where
  "capabilities =
     [(''owner'', [''read'', ''stop'', ''proposal'', ''owner_decision'', ''incident'', ''notification'']),
      (''operator'', [''read'', ''stop'', ''incident'', ''notification'']),
      (''research'', [''read'', ''artifact'', ''research'', ''task'']),
      (''evaluator'', [''read'', ''artifact'', ''evidence'', ''gate'', ''snapshot'']),
      (''sealed_evaluator'', [''sealed'', ''artifact'', ''evidence'', ''gate'', ''snapshot'']),
      (''inference'', [''read'', ''artifact'', ''inference'']),
      (''scheduler'', [''read'', ''task'', ''incident'', ''notification'']),
      (''governance'', [''read'', ''artifact'', ''proposal'', ''policy'', ''incident'', ''notification'']),
      (''paper'', [''read'', ''artifact'', ''paper'', ''stop'', ''incident'']),
      (''data'', [''read'', ''artifact'', ''evidence'', ''data'']),
      (''auditor'', [''read''])]"

definition role_can :: "string \<Rightarrow> string \<Rightarrow> bool" where
  "role_can role capability =
     (case dict_get capabilities role of None \<Rightarrow> False | Some cs \<Rightarrow> capability \<in> set cs)"

definition require_capability :: "identity \<Rightarrow> string \<Rightarrow> unit result" where
  "require_capability actor capability = require (role_can (id_role actor) capability) (DomainError ''FORBIDDEN'')"

section \<open>Events, artifacts and the database\<close>

datatype 'h envelope = Envelope
  (env_event_id: string) (env_event_type: string) (env_occurred_at: datetime)
  (env_aggregate_type: string) (env_aggregate_id: string) (env_aggregate_version: nat)
  (env_principal_id: string) (env_actor_type: string) (env_task_id: string)
  (env_branch_id: json) (env_strategy_version_id: json)
  (env_artifact_ids: "string list") (env_evidence_ids: "string list") (env_gate_id: json)
  (env_policy_version: string) (env_code_commit: string) (env_environment: string)
  (env_metadata: jobj) (env_previous_hash: 'h) (env_operation_key: string) (env_operation_hash: 'h)

fun set_gate :: "json \<Rightarrow> 'h envelope \<Rightarrow> 'h envelope" where
  "set_gate g (Envelope a b c d e f h i j k l m n _ p q r s t u v) =
     Envelope a b c d e f h i j k l m n g p q r s t u v"

text \<open>A row of \<open>event_log\<close>, in the order of its sequence: the envelope as stored, and its hash.\<close>

record 'h event =
  row_envelope :: "'h envelope"
  row_hash :: 'h

record 'h artifact =
  art_id :: string
  art_content_hash :: 'h
  art_schema_name :: string
  art_classification :: string
  art_producer_id :: string
  art_environment :: string
  art_policy_version :: string
  art_content :: jobj

record 'h store =
  st_events :: "'h event list"
  st_aggregates :: "((string \<times> string) \<times> (nat \<times> jobj)) list"
  st_artifacts :: "'h artifact list"
  st_evidence :: "string list"
  st_outbox :: "(string \<times> string \<times> string) list"

record request =
  rq_kind :: string
  rq_id :: string
  rq_expected_version :: nat
  rq_state :: jobj
  rq_event_type :: string
  rq_actor :: string
  rq_task_id :: string
  rq_policy_version :: string
  rq_evidence :: "string list"
  rq_artifacts :: "string list"
  rq_metadata :: jobj

text \<open>
  \<open>content_hash\<close> is SHA-256 of a canonical JSON text: here a digest for each kind of value it
  is applied to. \<open>h_text\<close> is the text projection of a JSON gate id.
\<close>

record 'h hashing =
  h_genesis :: 'h
  h_envelope :: "'h envelope \<Rightarrow> 'h"
  h_request :: "request \<Rightarrow> 'h"
  h_content :: "jobj \<Rightarrow> 'h"
  h_text :: "json \<Rightarrow> string"

text \<open>What a call draws from outside: identifiers, the clock, the environment fingerprint.\<close>

record fresh =
  fr_event_id :: string
  fr_outbox_id :: string
  fr_artifact_id :: string
  fr_now :: datetime
  fr_environment :: string

definition gate_text :: "'h hashing \<Rightarrow> json \<Rightarrow> json" where
  "gate_text h g = (if g = JNull then JNull else JStr (h_text h g))"

definition state_after :: "'h envelope \<Rightarrow> jobj" where
  "state_after env = (case jget (env_metadata env) ''state_after'' of JObj s \<Rightarrow> s | _ \<Rightarrow> [])"

section \<open>Transition\<close>

definition find_operation :: "'h store \<Rightarrow> string \<Rightarrow> 'h event option" where
  "find_operation st key = List.find (\<lambda>e. env_operation_key (row_envelope e) = key) (st_events st)"

definition current_version :: "'h store \<Rightarrow> string \<Rightarrow> string \<Rightarrow> nat" where
  "current_version st kind i = (case dict_get (st_aggregates st) (kind, i) of None \<Rightarrow> 0 | Some (v, _) \<Rightarrow> v)"

definition head_hash :: "'h hashing \<Rightarrow> 'h store \<Rightarrow> 'h" where
  "head_hash h st = (if st_events st = [] then h_genesis h else row_hash (last (st_events st)))"

definition make_envelope ::
  "'h hashing \<Rightarrow> identity \<Rightarrow> request \<Rightarrow> string \<Rightarrow> fresh \<Rightarrow> 'h store \<Rightarrow> 'h envelope" where
  "make_envelope h actor rq key fr st =
     Envelope (fr_event_id fr) (rq_event_type rq) (fr_now fr) (rq_kind rq) (rq_id rq)
       (current_version st (rq_kind rq) (rq_id rq) + 1) (id_principal actor)
       (if id_role actor = ''owner'' then ''human'' else ''deterministic_service'') (rq_task_id rq)
       (jget (rq_state rq) ''branch_id'') (jget (rq_state rq) ''strategy_version_id'')
       (rq_artifacts rq) (rq_evidence rq) (jget (rq_state rq) ''gate_id'') (rq_policy_version rq)
       (id_code_fingerprint actor) (fr_environment fr)
       (dict_set ''state_after'' (JObj (rq_state rq)) (rq_metadata rq))
       (head_hash h st) key (h_request h rq)"

definition append_event ::
  "'h hashing \<Rightarrow> request \<Rightarrow> string option \<Rightarrow> fresh \<Rightarrow> 'h envelope \<Rightarrow> 'h store \<Rightarrow> 'h event \<times> 'h store" where
  "append_event h rq topic fr env st =
     (let row = \<lparr>row_envelope = set_gate (gate_text h (env_gate_id env)) env, row_hash = h_envelope h env\<rparr>
      in (row, st\<lparr>st_events := st_events st @ [row],
                  st_aggregates := dict_set (rq_kind rq, rq_id rq) (env_aggregate_version env, rq_state rq) (st_aggregates st),
                  st_outbox := (if truthy topic then st_outbox st @ [(fr_outbox_id fr, env_event_id env, the topic)]
                                else st_outbox st)\<rparr>))"

definition transition ::
  "'h hashing \<Rightarrow> identity \<Rightarrow> string \<Rightarrow> request \<Rightarrow> string \<Rightarrow> string option \<Rightarrow> fresh \<Rightarrow> 'h store \<Rightarrow>
   ('h event \<times> 'h store) result" where
  "transition h actor capability rq0 key topic fr st =
     rbind (require_capability actor capability) (\<lambda>_.
     rbind (require (rq_kind rq0 \<noteq> [] \<and> rq_id rq0 \<noteq> [] \<and> key \<noteq> [] \<and> rq_task_id rq0 \<noteq> [] \<and> rq_policy_version rq0 \<noteq> [])
              (DomainError ''INVALID_TRANSITION'')) (\<lambda>_.
     let rq = rq0\<lparr>rq_actor := id_principal actor\<rparr> in
     case find_operation st key of
       Some e \<Rightarrow>
         if env_operation_hash (row_envelope e) \<noteq> h_request h rq then Inl (DomainError ''IDEMPOTENCY_CONFLICT'')
         else Inr (e, st)
     | None \<Rightarrow>
         rbind (require (rq_expected_version rq = current_version st (rq_kind rq) (rq_id rq))
                  (DomainError ''CONCURRENT_MODIFICATION'')) (\<lambda>_.
         rbind (require (\<forall>e \<in> set (rq_evidence rq). e \<in> set (st_evidence st))
                  (DomainError ''UNKNOWN_EVIDENCE'')) (\<lambda>_.
         rbind (require (\<forall>a \<in> set (rq_artifacts rq). a \<in> set (map art_id (st_artifacts st)))
                  (DomainError ''UNKNOWN_ARTIFACT'')) (\<lambda>_.
         Inr (append_event h rq topic fr (make_envelope h actor rq key fr st) st))))))"

section \<open>Artifacts\<close>

definition put_artifact ::
  "'h hashing \<Rightarrow> identity \<Rightarrow> jobj \<Rightarrow> string \<Rightarrow> string \<Rightarrow> string \<Rightarrow> fresh \<Rightarrow> 'h store \<Rightarrow> (string \<times> 'h store) result" where
  "put_artifact h actor content schema classification policy fr st =
     rbind (require_capability actor ''artifact'') (\<lambda>_.
     rbind (require (\<not> (classification = ''SECRET'' \<or>
                        (classification = ''SEALED'' \<and> id_role actor \<noteq> ''sealed_evaluator'')))
              (DomainError ''FORBIDDEN_CLASSIFICATION'')) (\<lambda>_.
     let digest = h_content h content in
     case List.find (\<lambda>a. art_producer_id a = id_principal actor \<and> art_content_hash a = digest \<and>
                         art_schema_name a = schema) (st_artifacts st) of
       Some a \<Rightarrow> Inr (art_id a, st)
     | None \<Rightarrow> Inr (fr_artifact_id fr, st\<lparr>st_artifacts := st_artifacts st @
         [\<lparr>art_id = fr_artifact_id fr, art_content_hash = digest, art_schema_name = schema,
           art_classification = classification, art_producer_id = id_principal actor,
           art_environment = fr_environment fr, art_policy_version = policy, art_content = content\<rparr>]\<rparr>)))"

definition read_artifact :: "'h hashing \<Rightarrow> 'h store \<Rightarrow> identity \<Rightarrow> string \<Rightarrow> 'h artifact result" where
  "read_artifact h st actor i =
     (case List.find (\<lambda>a. art_id a = i) (st_artifacts st) of
        None \<Rightarrow> Inl (DomainError ''NOT_FOUND'')
      | Some a \<Rightarrow>
          if art_classification a = ''SEALED'' \<and> id_role actor \<noteq> ''sealed_evaluator'' then Inl (DomainError ''NOT_FOUND'')
          else if h_content h (art_content a) \<noteq> art_content_hash a then Inl (DomainError ''ARTIFACT_CORRUPTED'')
          else Inr a)"

section \<open>Audit\<close>

record 'h audit_state =
  au_previous :: 'h
  au_count :: nat
  au_reconstructed :: "((string \<times> string) \<times> (nat \<times> jobj)) list"

definition audit_step :: "'h hashing \<Rightarrow> 'h audit_state \<Rightarrow> 'h event \<Rightarrow> 'h audit_state result" where
  "audit_step h a row =
     (let env = row_envelope row; gate = jget (state_after env) ''gate_id'';
          key = (env_aggregate_type env, env_aggregate_id env);
          prior = (case dict_get (au_reconstructed a) key of None \<Rightarrow> 0 | Some (v, _) \<Rightarrow> v)
      in if env_gate_id env \<noteq> gate_text h gate then Inl (DomainError ''AUDIT_GATE_PROJECTION_MISMATCH'')
         else if env_previous_hash env \<noteq> au_previous a \<or> h_envelope h (set_gate gate env) \<noteq> row_hash row
         then Inl (DomainError ''AUDIT_INTEGRITY_FAILURE'')
         else if env_aggregate_version env \<noteq> prior + 1 then Inl (DomainError ''AUDIT_REVISION_GAP'')
         else Inr \<lparr>au_previous = row_hash row, au_count = au_count a + 1,
                   au_reconstructed = dict_set key (env_aggregate_version env, state_after env) (au_reconstructed a)\<rparr>)"

definition audit_start :: "'h hashing \<Rightarrow> 'h audit_state" where
  "audit_start h = \<lparr>au_previous = h_genesis h, au_count = 0, au_reconstructed = []\<rparr>"

definition audit :: "'h hashing \<Rightarrow> 'h store \<Rightarrow> 'h audit_state result" where
  "audit h st =
     rbind (rfold (audit_step h) (audit_start h) (st_events st)) (\<lambda>a.
     rbind (require (length (st_aggregates st) = length (au_reconstructed a)) (DomainError ''PROJECTION_DRIFT'')) (\<lambda>_.
     rbind (require (\<forall>(k, v) \<in> set (st_aggregates st). dict_get (au_reconstructed a) k = Some v)
              (DomainError ''PROJECTION_DRIFT'')) (\<lambda>_.
     Inr a)))"

section \<open>Histories\<close>

definition empty_store :: "'h store" where
  "empty_store = \<lparr>st_events = [], st_aggregates = [], st_artifacts = [], st_evidence = [], st_outbox = []\<rparr>"

text \<open>
  The writes of the program to these tables: transitions, artifacts, and evidence rows
  admitted by the data and evaluation services.
\<close>

inductive store_step :: "'h hashing \<Rightarrow> 'h store \<Rightarrow> 'h store \<Rightarrow> bool" for h where
  transition: "transition h actor cap rq key topic fr st = Inr (e, st') \<Longrightarrow> store_step h st st'"
| artifact: "put_artifact h actor content schema cls policy fr st = Inr (i, st') \<Longrightarrow> store_step h st st'"
| evidence: "store_step h st (st\<lparr>st_evidence := ev # st_evidence st\<rparr>)"

inductive_cases store_stepE: "store_step h st st'"

lemma set_gate_simps [simp]:
  "env_gate_id (set_gate g env) = g" "env_previous_hash (set_gate g env) = env_previous_hash env"
  "env_metadata (set_gate g env) = env_metadata env" "env_operation_key (set_gate g env) = env_operation_key env"
  "env_operation_hash (set_gate g env) = env_operation_hash env"
  "env_aggregate_type (set_gate g env) = env_aggregate_type env"
  "env_aggregate_id (set_gate g env) = env_aggregate_id env"
  "env_aggregate_version (set_gate g env) = env_aggregate_version env"
  "set_gate g (set_gate g' env) = set_gate g env" "set_gate (env_gate_id env) env = env"
  "state_after (set_gate g env) = state_after env"
  by (cases env; simp add: state_after_def)+

lemma make_envelope_simps [simp]:
  "env_previous_hash (make_envelope h actor rq key fr st) = head_hash h st"
  "state_after (make_envelope h actor rq key fr st) = rq_state rq"
  "env_gate_id (make_envelope h actor rq key fr st) = jget (rq_state rq) ''gate_id''"
  "env_aggregate_type (make_envelope h actor rq key fr st) = rq_kind rq"
  "env_aggregate_id (make_envelope h actor rq key fr st) = rq_id rq"
  "env_aggregate_version (make_envelope h actor rq key fr st) = current_version st (rq_kind rq) (rq_id rq) + 1"
  "env_operation_key (make_envelope h actor rq key fr st) = key"
  "env_operation_hash (make_envelope h actor rq key fr st) = h_request h rq"
  by (simp_all add: make_envelope_def state_after_def jget_def dict_get_set)

lemma set_gate_make_envelope [simp]:
  "set_gate (jget (rq_state rq) ''gate_id'') (make_envelope h actor rq key fr st) = make_envelope h actor rq key fr st"
  by (simp add: make_envelope_def)

text \<open>A successful transition returns an event of the log: the old one, or a new last one.\<close>

lemma transition_cases:
  assumes "transition h actor cap rq key topic fr st = Inr (e, st')"
  obtains (old) "find_operation st key = Some e" "st' = st"
      "env_operation_hash (row_envelope e) = h_request h (rq\<lparr>rq_actor := id_principal actor\<rparr>)"
  | (new) "find_operation st key = None" "rq_expected_version rq = current_version st (rq_kind rq) (rq_id rq)"
      "(e, st') = append_event h (rq\<lparr>rq_actor := id_principal actor\<rparr>) topic fr
         (make_envelope h actor (rq\<lparr>rq_actor := id_principal actor\<rparr>) key fr st) st"
  using assms
  by (auto simp: transition_def rbind_eq_Inr Let_def split: option.splits if_splits)

lemma transition_authorized:
  assumes "transition h actor cap rq key topic fr st = Inr (e, st')"
  shows "role_can (id_role actor) cap" "rq_kind rq \<noteq> []" "rq_id rq \<noteq> []" "key \<noteq> []" "rq_task_id rq \<noteq> []"
    "rq_policy_version rq \<noteq> []"
  using assms by (simp_all add: transition_def rbind_eq_Inr require_capability_def)

lemma put_artifact_frame:
  assumes "put_artifact h actor content schema cls policy fr st = Inr (i, st')"
  shows "st_events st' = st_events st" "st_aggregates st' = st_aggregates st"
  using assms by (auto simp: put_artifact_def rbind_eq_Inr Let_def split: option.splits)

section \<open>The log and its projection\<close>

definition audited :: "'h hashing \<Rightarrow> 'h store \<Rightarrow> bool" where
  "audited h st \<longleftrightarrow> distinct (dict_keys (st_aggregates st)) \<and>
     rfold (audit_step h) (audit_start h) (st_events st) =
       Inr \<lparr>au_previous = head_hash h st, au_count = length (st_events st), au_reconstructed = st_aggregates st\<rparr>"

lemma audited_empty: "audited h empty_store"
  by (simp add: audited_def empty_store_def audit_start_def head_hash_def)

lemma append_event_Inr:
  assumes "(e, st') = append_event h rq topic fr env st"
  shows "st_events st' = st_events st @ [e]" "row_envelope e = set_gate (gate_text h (env_gate_id env)) env"
    "row_hash e = h_envelope h env"
    "st_aggregates st' = dict_set (rq_kind rq, rq_id rq) (env_aggregate_version env, rq_state rq) (st_aggregates st)"
    "st_artifacts st' = st_artifacts st"
  using assms by (simp_all add: append_event_def Let_def)

lemma audited_append:
  assumes "audited h st" and "(e, st') = append_event h rq topic fr (make_envelope h actor rq key fr st) st"
  shows "audited h st'"
proof -
  note a = append_event_Inr [OF assms(2)]
  have d: "distinct (dict_keys (st_aggregates st'))"
    using assms(1) unfolding a(4) audited_def by (intro distinct_dict_set) simp
  have "audit_step h \<lparr>au_previous = head_hash h st, au_count = length (st_events st),
      au_reconstructed = st_aggregates st\<rparr> e =
    Inr \<lparr>au_previous = head_hash h st', au_count = length (st_events st'), au_reconstructed = st_aggregates st'\<rparr>"
    by (simp add: audit_step_def a current_version_def head_hash_def Let_def split: option.splits)
  with d assms(1) show ?thesis by (simp add: audited_def a(1) rfold_append)
qed

lemma audited_step: "store_step h st st' \<Longrightarrow> audited h st \<Longrightarrow> audited h st'"
proof (erule store_stepE)
  fix actor cap rq key topic fr e
  assume a: "audited h st" and "transition h actor cap rq key topic fr st = Inr (e, st')"
  then show "audited h st'" by (auto elim!: transition_cases intro: audited_append)
next
  fix actor content schema cls policy fr i
  assume "audited h st" "put_artifact h actor content schema cls policy fr st = Inr (i, st')"
  with put_artifact_frame show "audited h st'" by (fastforce simp: audited_def head_hash_def)
next
  fix ev assume "audited h st" "st' = st\<lparr>st_evidence := ev # st_evidence st\<rparr>"
  then show "audited h st'" by (simp add: audited_def head_hash_def)
qed


lemma audited_audit:
  assumes "audited h st"
  shows "audit h st = Inr \<lparr>au_previous = head_hash h st, au_count = length (st_events st), au_reconstructed = st_aggregates st\<rparr>"
proof -
  have "dict_get (st_aggregates st) k = Some v" if "(k, v) \<in> set (st_aggregates st)" for k v
    using that assms by (simp add: audited_def)
  then show ?thesis using assms by (auto simp: audit_def audited_def)
qed

text \<open>Events are only ever appended, and the version of an aggregate never decreases.\<close>

definition extends :: "'h store \<Rightarrow> 'h store \<Rightarrow> bool" where
  "extends st st' \<longleftrightarrow> (\<exists>es. st_events st' = st_events st @ es) \<and>
     (\<forall>kind i. current_version st kind i \<le> current_version st' kind i)"

lemma extends_step: "store_step h st st' \<Longrightarrow> extends st st'"
proof (erule store_stepE)
  fix actor cap rq key topic fr e
  assume "transition h actor cap rq key topic fr st = Inr (e, st')"
  then show "extends st st'"
  proof (cases rule: transition_cases)
    case old
    then show ?thesis by (simp add: extends_def)
  next
    case new
    note a = append_event_Inr [OF new(3)]
    then show ?thesis by (auto simp: extends_def current_version_def dict_get_set split: option.splits)
  qed
next
  fix actor content schema cls policy fr i
  assume "put_artifact h actor content schema cls policy fr st = Inr (i, st')"
  with put_artifact_frame show "extends st st'" by (fastforce simp: extends_def current_version_def)
qed (simp add: extends_def current_version_def)

lemma extends_reachable: "(store_step h)\<^sup>*\<^sup>* st st' \<Longrightarrow> extends st st'"
proof (induction rule: rtranclp_induct)
  case base
  then show ?case by (simp add: extends_def)
next
  case (step s t)
  from extends_step [OF step(2)] step(3) show ?case
    unfolding extends_def by (metis append_assoc order_trans)
qed

lemma find_append_Some: "List.find P xs = Some x \<Longrightarrow> List.find P (xs @ ys) = Some x"
  by (induction xs) (auto split: if_splits)

lemma find_None_append: "List.find P xs = None \<Longrightarrow> P x \<Longrightarrow> List.find P (xs @ x # ys) = Some x"
  by (induction xs) (auto split: if_splits)

lemma transition_logged:
  assumes "transition h actor cap rq key topic fr st = Inr (e, st')"
  shows "find_operation st' key = Some e \<and>
    env_operation_hash (row_envelope e) = h_request h (rq\<lparr>rq_actor := id_principal actor\<rparr>)"
  using assms
proof (cases rule: transition_cases)
  case old
  then show ?thesis by simp
next
  case new
  note a = append_event_Inr [OF new(3)]
  have "find_operation st' key = Some e"
    using new(1) unfolding find_operation_def a(1) by (rule find_None_append) (simp add: a)
  then show ?thesis by (simp add: a)
qed

lemma find_operation_extends: "find_operation st key = Some e \<Longrightarrow> extends st st' \<Longrightarrow> find_operation st' key = Some e"
  by (auto simp: find_operation_def extends_def find_append_Some)

text \<open>
  Every logged request was made against a version its aggregate has since left behind. So,
  for a collision-free hash of requests, a request against the current version is never the
  retry of a logged one: its operation key is fresh, or it is refused.
\<close>

definition versions_logged :: "'h hashing \<Rightarrow> 'h store \<Rightarrow> bool" where
  "versions_logged h st \<longleftrightarrow>
     (\<forall>e \<in> set (st_events st). \<exists>rq. env_operation_hash (row_envelope e) = h_request h rq \<and>
        rq_expected_version rq < current_version st (rq_kind rq) (rq_id rq))"

lemma versions_logged_empty: "versions_logged h empty_store"
  by (simp add: versions_logged_def empty_store_def)

lemma versions_logged_extends:
  assumes "versions_logged h st" and "extends st st'" and "st_events st' = st_events st"
  shows "versions_logged h st'"
  using assms unfolding versions_logged_def extends_def by (metis order_less_le_trans)

lemma versions_logged_append:
  assumes "versions_logged h st" and "rq_expected_version rq = current_version st (rq_kind rq) (rq_id rq)"
    and "(e, st') = append_event h rq topic fr (make_envelope h actor rq key fr st) st"
  shows "versions_logged h st'"
proof -
  note a = append_event_Inr [OF assms(3)]
  have v: "current_version st' kind i = (if kind = rq_kind rq \<and> i = rq_id rq then current_version st kind i + 1
      else current_version st kind i)" for kind i
    by (simp add: current_version_def a(4) dict_get_set)
  have old: "\<exists>rq. env_operation_hash (row_envelope f) = h_request h rq \<and>
      rq_expected_version rq < current_version st' (rq_kind rq) (rq_id rq)" if f: "f \<in> set (st_events st)" for f
  proof -
    obtain q where "env_operation_hash (row_envelope f) = h_request h q"
        "rq_expected_version q < current_version st (rq_kind q) (rq_id q)"
      using assms(1) f by (auto simp: versions_logged_def)
    then show ?thesis by (intro exI [of _ q]) (auto simp: v)
  qed
  moreover have "\<exists>rq. env_operation_hash (row_envelope e) = h_request h rq \<and>
      rq_expected_version rq < current_version st' (rq_kind rq) (rq_id rq)"
    by (rule exI [of _ rq]) (simp add: a v assms(2))
  ultimately show ?thesis by (simp add: versions_logged_def a(1))
qed

lemma versions_logged_transition:
  assumes "versions_logged h st" and "transition h actor cap rq key topic fr st = Inr (e, st')"
  shows "versions_logged h st'"
  using assms(2)
proof (cases rule: transition_cases)
  case old
  then show ?thesis using assms(1) by simp
next
  case new
  then show ?thesis by (intro versions_logged_append [OF assms(1) _ new(3)]) simp
qed

lemma versions_logged_step:
  assumes "store_step h st st'" and "versions_logged h st"
  shows "versions_logged h st'"
  using assms(1)
proof (cases rule: store_step.cases)
  case (transition actor cap rq key topic fr e)
  then show ?thesis using versions_logged_transition [OF assms(2)] by blast
next
  case (artifact actor content schema cls policy fr i)
  then show ?thesis
    using versions_logged_extends [OF assms(2) extends_step [OF assms(1)]] put_artifact_frame by blast
next
  case (evidence ev)
  then show ?thesis using versions_logged_extends [OF assms(2) extends_step [OF assms(1)]] by simp
qed

lemma current_key_fresh:
  assumes "versions_logged h st" and "inj (h_request h)"
    and "transition h actor cap rq key topic fr st = Inr (e, st')"
    and "rq_expected_version rq = current_version st (rq_kind rq) (rq_id rq)"
  shows "find_operation st key = None"
  using assms(3)
proof (cases rule: transition_cases)
  case old
  have "e \<in> set (st_events st)" using old(1) by (auto simp: find_operation_def find_Some_iff)
  then obtain q where q: "env_operation_hash (row_envelope e) = h_request h q"
      "rq_expected_version q < current_version st (rq_kind q) (rq_id q)"
    using assms(1) by (auto simp: versions_logged_def)
  then have "q = rq\<lparr>rq_actor := id_principal actor\<rparr>" using old(3) assms(2) by (metis injD)
  then show ?thesis using q(2) assms(4) by simp
qed simp

lemma used_key_conflicts:
  assumes "versions_logged h st" and "inj (h_request h)"
    and "find_operation st key = Some e"
    and "rq_expected_version rq = current_version st (rq_kind rq) (rq_id rq)"
    and "role_can (id_role actor) cap"
    and "rq_kind rq \<noteq> []" "rq_id rq \<noteq> []" "key \<noteq> []" "rq_task_id rq \<noteq> []" "rq_policy_version rq \<noteq> []"
  shows "transition h actor cap rq key topic fr st = Inl (DomainError ''IDEMPOTENCY_CONFLICT'')"
proof (cases "transition h actor cap rq key topic fr st")
  case (Inr p)
  then obtain e' st' where "transition h actor cap rq key topic fr st = Inr (e', st')" by (cases p) auto
  from current_key_fresh [OF assms(1,2) this assms(4)] assms(3) show ?thesis by simp
next
  case (Inl x)
  then show ?thesis
    using assms(3,5-10)
    by (auto simp: transition_def require_capability_def Let_def split: if_splits)
qed

section \<open>A sample database\<close>

text \<open>
  Digests as natural numbers: the envelope digest numbers all envelopes, so it is
  collision free, and never yields the genesis value.
\<close>

instance json :: countable by countable_datatype

instance datetime :: countable by countable_datatype

instance envelope :: (countable) countable by countable_datatype

definition sample_hashing :: "nat hashing" where
  "sample_hashing = \<lparr>h_genesis = 0, h_envelope = (\<lambda>env. Suc (to_nat env)), h_request = rq_expected_version,
     h_content = to_nat, h_text = (\<lambda>j. case j of JStr s \<Rightarrow> s | _ \<Rightarrow> [])\<rparr>"

lemma sample_hashing_good:
  "inj (h_envelope sample_hashing)" "\<forall>env. h_envelope sample_hashing env \<noteq> h_genesis sample_hashing"
  "inj (h_content sample_hashing)"
  by (auto simp: sample_hashing_def inj_def)

definition sample_actor :: "string \<Rightarrow> identity" where
  "sample_actor role = \<lparr>id_principal = ''p1'', id_role = role, id_code_fingerprint = ''c1''\<rparr>"

lemma sample_actor_simps [simp]:
  "id_principal (sample_actor role) = ''p1''" "id_role (sample_actor role) = role"
  by (simp_all add: sample_actor_def)

definition sample_request :: "nat \<Rightarrow> request" where
  "sample_request v = \<lparr>rq_kind = ''task'', rq_id = ''t1'', rq_expected_version = v,
     rq_state = [(''gate_id'', JStr ''g1''), (''status'', JStr ''queued'')], rq_event_type = ''TASK_QUEUED'',
     rq_actor = [], rq_task_id = ''t1'', rq_policy_version = ''v1'', rq_evidence = [], rq_artifacts = [],
     rq_metadata = []\<rparr>"

lemma sample_request_simps [simp]:
  "rq_kind (sample_request v) = ''task''" "rq_id (sample_request v) = ''t1''"
  "rq_expected_version (sample_request v) = v" "rq_task_id (sample_request v) = ''t1''"
  "rq_policy_version (sample_request v) = ''v1''" "rq_evidence (sample_request v) = []"
  "rq_artifacts (sample_request v) = []"
  by (simp_all add: sample_request_def)

definition sample_fresh :: fresh where
  "sample_fresh = \<lparr>fr_event_id = ''e1'', fr_outbox_id = ''x1'', fr_artifact_id = ''a1'', fr_now = Aware 0 0,
     fr_environment = ''env''\<rparr>"

lemma role_can_eval [simp]:
  "role_can ''research'' ''task''" "role_can ''sealed_evaluator'' ''artifact''" "role_can ''data'' ''artifact''"
  by (simp_all add: role_can_def capabilities_def)

lemma sample_transition:
  "\<exists>e st. transition sample_hashing (sample_actor ''research'') ''task'' (sample_request 0) ''k1'' None sample_fresh empty_store
     = Inr (e, st) \<and> length (st_events st) = 1"
proof -
  let ?rq = "(sample_request 0)\<lparr>rq_actor := ''p1''\<rparr>"
  let ?out = "append_event sample_hashing ?rq None sample_fresh
    (make_envelope sample_hashing (sample_actor ''research'') ?rq ''k1'' sample_fresh empty_store) empty_store"
  have "transition sample_hashing (sample_actor ''research'') ''task'' (sample_request 0) ''k1'' None sample_fresh empty_store
      = Inr ?out"
    by (simp add: transition_def require_capability_def find_operation_def empty_store_def current_version_def Let_def)
  moreover have "length (st_events (snd ?out)) = 1" by (simp add: append_event_def empty_store_def Let_def)
  ultimately show ?thesis by (metis prod.collapse)
qed

section \<open>Properties\<close>



lemma audit_step_Inr:
  assumes "audit_step h a row = Inr a'"
  shows "au_previous a' = row_hash row" "env_previous_hash (row_envelope row) = au_previous a"
    "row_hash row = h_envelope h (set_gate (jget (state_after (row_envelope row)) ''gate_id'') (row_envelope row))"
    "env_gate_id (row_envelope row) = gate_text h (jget (state_after (row_envelope row)) ''gate_id'')"
  using assms by (auto simp: audit_step_def Let_def split: if_splits)

lemma audit_chain_unique:
  assumes inj: "inj (h_envelope h)" and gen: "\<forall>env. h_envelope h env \<noteq> h_genesis h"
    and "rfold (audit_step h) (audit_start h) xs = Inr a" and "rfold (audit_step h) (audit_start h) ys = Inr b"
    and "au_previous a = au_previous b"
  shows "xs = ys"
  using assms(3-5)
proof (induction xs arbitrary: ys a b rule: rev_induct)
  case Nil
  show ?case
  proof (cases ys rule: rev_cases)
    case (snoc ys' y)
    from Nil(2) obtain b' where "audit_step h b' y = Inr b"
      unfolding snoc by (auto simp: rfold_append rbind_eq_Inr)
    note y = audit_step_Inr(1,3) [OF this]
    have "au_previous a = h_genesis h" using Nil(1) by (auto simp: audit_start_def)
    then have "h_envelope h (set_gate (jget (state_after (row_envelope y)) ''gate_id'') (row_envelope y)) = h_genesis h"
      using Nil(3) y by simp
    with gen show ?thesis by blast
  qed simp
next
  case (snoc x xs)
  from snoc.prems(1) obtain a' where a': "rfold (audit_step h) (audit_start h) xs = Inr a'"
    and x: "audit_step h a' x = Inr a" by (auto simp: rfold_append rbind_eq_Inr)
  note xs = audit_step_Inr [OF x]
  show ?case
  proof (cases ys rule: rev_cases)
    case Nil
    have "au_previous b = h_genesis h" using snoc.prems(2) unfolding Nil by (auto simp: audit_start_def)
    then have "h_envelope h (set_gate (jget (state_after (row_envelope x)) ''gate_id'') (row_envelope x)) = h_genesis h"
      using snoc.prems(3) xs(1,3) by simp
    with gen show ?thesis by blast
  next
    case ys: (snoc ys' y)
    from snoc.prems(2) obtain b' where b': "rfold (audit_step h) (audit_start h) ys' = Inr b'"
      and y: "audit_step h b' y = Inr b" unfolding ys by (auto simp: rfold_append rbind_eq_Inr)
    note yys = audit_step_Inr [OF y]
    let ?g = "\<lambda>r. jget (state_after (row_envelope r)) ''gate_id''"
    have hash: "row_hash x = row_hash y" using snoc.prems(3) xs(1) yys(1) by simp
    then have same: "set_gate (?g x) (row_envelope x) = set_gate (?g y) (row_envelope y)"
      using xs(3) yys(3) inj by (metis injD)
    have "?g x = ?g y" using arg_cong [OF same, of env_gate_id] by simp
    then have gates: "env_gate_id (row_envelope x) = env_gate_id (row_envelope y)" using xs(4) yys(4) by simp
    have "row_envelope x = row_envelope y"
      using arg_cong [OF same, of "set_gate (env_gate_id (row_envelope x))"] gates
      by (metis set_gate_simps(9,10))
    then have "x = y" and "au_previous a' = au_previous b'" using hash xs(2) yys(2) by auto
    with snoc.IH [OF a' b'] ys show ?thesis by simp
  qed
qed

text \<open>C30 The audit is tamper evident: with a collision-free hash that never yields the genesis
  value, two databases that both pass the audit and agree on the head hash hold the same
  events and the same projections (the primary key makes projection keys distinct).\<close>

theorem audit_tamper_evident:
  assumes "inj (h_envelope h)" and "\<forall>env. h_envelope h env \<noteq> h_genesis h"
    and "audit h s1 = Inr a1" and "audit h s2 = Inr a2" and "au_previous a1 = au_previous a2"
    and "distinct (dict_keys (st_aggregates s1))" and "distinct (dict_keys (st_aggregates s2))"
  shows "st_events s1 = st_events s2 \<and>
    (\<forall>k. dict_get (st_aggregates s1) k = dict_get (st_aggregates s2) k)"
proof -
  have r: "rfold (audit_step h) (audit_start h) (st_events s1) = Inr a1"
      "rfold (audit_step h) (audit_start h) (st_events s2) = Inr a2"
    using assms(3,4) by (auto simp: audit_def rbind_eq_Inr)
  have ev: "st_events s1 = st_events s2" by (rule audit_chain_unique [OF assms(1,2) r assms(5)])
  then have "a1 = a2" using r by simp
  have proj: "dict_get (st_aggregates s) k = dict_get (au_reconstructed a) k"
    if s: "audit h s = Inr a" "distinct (dict_keys (st_aggregates s))" for s a k
  proof -
    have run: "rfold (audit_step h) (audit_start h) (st_events s) = Inr a"
      and len: "length (st_aggregates s) = length (au_reconstructed a)"
      and sub: "\<forall>(k, v) \<in> set (st_aggregates s). dict_get (au_reconstructed a) k = Some v"
      using s(1) by (auto simp: audit_def rbind_eq_Inr)
    have dr: "distinct (dict_keys (au_reconstructed a))"
      by (rule rfold_invariant [OF run, where I = "\<lambda>a. distinct (dict_keys (au_reconstructed a))"])
        (auto simp: audit_start_def audit_step_def Let_def intro: distinct_dict_set split: if_splits)
    have "set (st_aggregates s) \<subseteq> set (au_reconstructed a)" using sub by (auto dest: map_of_SomeD)
    moreover have "card (set (st_aggregates s)) = card (set (au_reconstructed a))"
      using len s(2) dr by (metis distinct_card distinct_map)
    ultimately have "set (st_aggregates s) = set (au_reconstructed a)" by (simp add: card_subset_eq)
    then show ?thesis using s(2) dr by (metis map_of_inject_set)
  qed
  show ?thesis using ev proj [OF assms(3,6)] proj [OF assms(4,7)] \<open>a1 = a2\<close> by simp
qed

theorem audit_tamper_evident_witness:
  "\<exists>st a. audit sample_hashing st = Inr a \<and> au_count a = 1 \<and>
     (\<forall>s2. audit sample_hashing s2 = Inr a \<longrightarrow> distinct (dict_keys (st_aggregates s2)) \<longrightarrow> st_events s2 = st_events st)"
proof -
  obtain e st where t: "transition sample_hashing (sample_actor ''research'') ''task'' (sample_request 0) ''k1'' None
      sample_fresh empty_store = Inr (e, st)" and n: "length (st_events st) = 1"
    using sample_transition by blast
  have ok: "audited sample_hashing st"
    by (rule audited_step [OF store_step.transition [OF t] audited_empty])
  from audited_audit [OF ok] obtain a where a: "audit sample_hashing st = Inr a" and "au_count a = 1"
    using n by auto
  moreover have "st_events s2 = st_events st"
    if "audit sample_hashing s2 = Inr a" "distinct (dict_keys (st_aggregates s2))" for s2
    using audit_tamper_evident [OF sample_hashing_good(1,2) that(1) a refl that(2)] ok by (simp add: audited_def)
  ultimately show ?thesis by blast
qed

text \<open>Idempotency: once an operation key is used, a retry of the same request returns the
  same event and changes nothing, from any later state, and a request with another hash is
  refused as a conflict; neither needs the expected version to be current any more.\<close>

theorem transition_idempotent:
  assumes "transition h actor cap rq key topic fr st = Inr (e, st')" and "(store_step h)\<^sup>*\<^sup>* st' st''"
  shows "transition h actor cap rq key topic' fr' st'' = Inr (e, st'') \<and>
    (\<forall>rq' actor' cap'. role_can (id_role actor') cap' \<longrightarrow>
       rq_kind rq' \<noteq> [] \<longrightarrow> rq_id rq' \<noteq> [] \<longrightarrow> rq_task_id rq' \<noteq> [] \<longrightarrow> rq_policy_version rq' \<noteq> [] \<longrightarrow>
       h_request h (rq'\<lparr>rq_actor := id_principal actor'\<rparr>) \<noteq> h_request h (rq\<lparr>rq_actor := id_principal actor\<rparr>) \<longrightarrow>
       transition h actor' cap' rq' key topic' fr' st'' = Inl (DomainError ''IDEMPOTENCY_CONFLICT''))"
proof -
  note auth = transition_authorized [OF assms(1)]
  have "find_operation st'' key = Some e"
    and "env_operation_hash (row_envelope e) = h_request h (rq\<lparr>rq_actor := id_principal actor\<rparr>)"
    using transition_logged [OF assms(1)] extends_reachable [OF assms(2)] find_operation_extends by blast+
  note found = this
  have "transition h actor cap rq key topic' fr' st'' = Inr (e, st'')"
    using auth found by (simp add: transition_def require_capability_def)
  moreover have "transition h actor' cap' rq' key topic' fr' st'' = Inl (DomainError ''IDEMPOTENCY_CONFLICT'')"
    if "role_can (id_role actor') cap'" "rq_kind rq' \<noteq> []" "rq_id rq' \<noteq> []" "rq_task_id rq' \<noteq> []"
      "rq_policy_version rq' \<noteq> []"
      "h_request h (rq'\<lparr>rq_actor := id_principal actor'\<rparr>) \<noteq> h_request h (rq\<lparr>rq_actor := id_principal actor\<rparr>)"
    for rq' actor' cap'
    using that auth(4) found by (simp add: transition_def require_capability_def)
  ultimately show ?thesis by blast
qed

theorem transition_idempotent_witness:
  "\<exists>e st. transition sample_hashing (sample_actor ''research'') ''task'' (sample_request 0) ''k1'' None sample_fresh st = Inr (e, st) \<and>
     transition sample_hashing (sample_actor ''research'') ''task'' (sample_request 1) ''k1'' None sample_fresh st
       = Inl (DomainError ''IDEMPOTENCY_CONFLICT'')"
proof -
  obtain e st where t: "transition sample_hashing (sample_actor ''research'') ''task'' (sample_request 0) ''k1'' None
      sample_fresh empty_store = Inr (e, st)" using sample_transition by blast
  note idem = transition_idempotent [OF t rtranclp.rtrancl_refl, of None sample_fresh]
  have "h_request sample_hashing ((sample_request 1)\<lparr>rq_actor := ''p1''\<rparr>)
      \<noteq> h_request sample_hashing ((sample_request 0)\<lparr>rq_actor := ''p1''\<rparr>)"
    by (simp add: sample_hashing_def)
  with idem [THEN conjunct2, rule_format, of "sample_actor ''research''" "''task''" "sample_request 1"]
  have "transition sample_hashing (sample_actor ''research'') ''task'' (sample_request 1) ''k1'' None sample_fresh st
       = Inl (DomainError ''IDEMPOTENCY_CONFLICT'')" by simp
  with idem show ?thesis by blast
qed

text \<open>C36 No lost update: when a transition has appended an event against some expected version of
  an aggregate, no later request with a new operation key can still be accepted against that
  version or an earlier one.\<close>

theorem no_lost_update:
  assumes "transition h actor cap rq key topic fr st = Inr (e, st')" and "find_operation st key = None"
    and "(store_step h)\<^sup>*\<^sup>* st' st''"
    and "rq_kind rq' = rq_kind rq" "rq_id rq' = rq_id rq" "rq_expected_version rq' \<le> rq_expected_version rq"
    and "find_operation st'' key' = None"
  shows "\<exists>err. transition h actor' cap' rq' key' topic' fr' st'' = Inl err"
proof -
  have new: "rq_expected_version rq = current_version st (rq_kind rq) (rq_id rq)"
    "current_version st' (rq_kind rq) (rq_id rq) = rq_expected_version rq + 1"
  proof -
    from assms(1) have "rq_expected_version rq = current_version st (rq_kind rq) (rq_id rq) \<and>
        current_version st' (rq_kind rq) (rq_id rq) = rq_expected_version rq + 1"
    proof (cases rule: transition_cases)
      case old
      with assms(2) show ?thesis by simp
    next
      case new
      with append_event_Inr(4) [OF new(3)] show ?thesis by (simp add: current_version_def dict_get_set)
    qed
    then show "rq_expected_version rq = current_version st (rq_kind rq) (rq_id rq)"
      "current_version st' (rq_kind rq) (rq_id rq) = rq_expected_version rq + 1" by simp_all
  qed
  have "current_version st' (rq_kind rq) (rq_id rq) \<le> current_version st'' (rq_kind rq) (rq_id rq)"
    using extends_reachable [OF assms(3)] by (simp add: extends_def)
  then have late: "rq_expected_version rq' < current_version st'' (rq_kind rq') (rq_id rq')"
    using new assms(4-6) by simp
  show ?thesis
  proof (cases "transition h actor' cap' rq' key' topic' fr' st''")
    case (Inr r)
    then obtain e2 s2 where "transition h actor' cap' rq' key' topic' fr' st'' = Inr (e2, s2)" by (cases r) auto
    then show ?thesis by (rule transition_cases) (use assms(7) late in simp_all)
  qed blast
qed

theorem no_lost_update_witness:
  "\<exists>st err. st_events st \<noteq> [] \<and>
     transition sample_hashing (sample_actor ''research'') ''task'' (sample_request 0) ''k2'' None sample_fresh st = Inl err"
proof -
  obtain e st where t: "transition sample_hashing (sample_actor ''research'') ''task'' (sample_request 0) ''k1'' None
      sample_fresh empty_store = Inr (e, st)" and n: "length (st_events st) = 1"
    using sample_transition by blast
  have unused: "find_operation empty_store ''k1'' = None" by (simp add: find_operation_def empty_store_def)
  obtain x where x: "st_events st = [x]" using n by (auto simp: length_Suc_conv)
  have "find_operation st ''k1'' = Some e" using transition_logged [OF t] by blast
  then have "find_operation st ''k2'' = None" using x by (auto simp: find_operation_def split: if_splits)
  from no_lost_update [OF t unused rtranclp.rtrancl_refl refl refl order.refl this] n show ?thesis
    by (metis length_0_conv zero_neq_one)
qed

section \<open>Artifacts: properties\<close>

definition artifacts_ok :: "'h hashing \<Rightarrow> 'h store \<Rightarrow> bool" where
  "artifacts_ok h st \<longleftrightarrow> distinct (map art_id (st_artifacts st)) \<and>
     (\<forall>a \<in> set (st_artifacts st). art_content_hash a = h_content h (art_content a))"

lemma find_by_key:
  "distinct (map f xs) \<Longrightarrow> x \<in> set xs \<Longrightarrow> List.find (\<lambda>y. f y = f x) xs = Some x"
  by (induction xs) auto

text \<open>C38 Content addressing: in a table of intact rows with distinct ids, storing content under a
  fresh id and reading the id back (as the sealed evaluator) gives that content, schema and
  producer, also when an earlier row is reused; the table stays intact, and a reader who is
  not the sealed evaluator never sees a sealed row.\<close>

theorem artifact_roundtrip:
  assumes "artifacts_ok h st" and "inj (h_content h)"
    and "fr_artifact_id fr \<notin> set (map art_id (st_artifacts st))"
    and "put_artifact h actor content schema cls policy fr st = Inr (i, st')"
    and "id_role reader = ''sealed_evaluator''"
  shows "\<exists>a. read_artifact h st' reader i = Inr a \<and> art_content a = content \<and> art_schema_name a = schema \<and>
    art_producer_id a = id_principal actor \<and> artifacts_ok h st' \<and>
    (art_classification a = ''SEALED'' \<longrightarrow>
       (\<forall>other. id_role other \<noteq> ''sealed_evaluator'' \<longrightarrow> read_artifact h st' other i = Inl (DomainError ''NOT_FOUND'')))"
proof -
  let ?P = "\<lambda>a. art_producer_id a = id_principal actor \<and> art_content_hash a = h_content h content \<and>
                         art_schema_name a = schema"
  have "\<exists>a. a \<in> set (st_artifacts st') \<and> i = art_id a \<and> ?P a \<and> artifacts_ok h st'"
  proof (cases "List.find ?P (st_artifacts st)")
    case None
    let ?new = "\<lparr>art_id = fr_artifact_id fr, art_content_hash = h_content h content, art_schema_name = schema,
           art_classification = cls, art_producer_id = id_principal actor,
           art_environment = fr_environment fr, art_policy_version = policy, art_content = content\<rparr>"
    from None assms(4) have st': "i = fr_artifact_id fr" "st' = st\<lparr>st_artifacts := st_artifacts st @ [?new]\<rparr>"
      by (auto simp: put_artifact_def rbind_eq_Inr)
    have "artifacts_ok h st'" using assms(1,3) unfolding st' artifacts_ok_def by auto
    then show ?thesis unfolding st' by (intro exI [of _ ?new]) simp
  next
    case (Some a)
    then have "a \<in> set (st_artifacts st)" "?P a" by (auto simp: find_Some_iff)
    then show ?thesis using Some assms(1,4) by (auto simp: put_artifact_def rbind_eq_Inr)
  qed
  then obtain a where a: "a \<in> set (st_artifacts st')" "i = art_id a" "?P a" and ok: "artifacts_ok h st'" by blast
  have f: "List.find (\<lambda>x. art_id x = i) (st_artifacts st') = Some a"
    unfolding a(2) by (rule find_by_key) (use ok a(1) in \<open>simp_all add: artifacts_ok_def\<close>)
  have intact: "h_content h (art_content a) = art_content_hash a" using ok a(1) by (simp add: artifacts_ok_def)
  then have "art_content a = content" using a(3) assms(2) by (simp add: inj_eq)
  with intact show ?thesis using a(3) f ok assms(5) by (auto simp: read_artifact_def)
qed

theorem artifact_roundtrip_witness:
  "\<exists>i st a. put_artifact sample_hashing (sample_actor ''data'') [(''x'', JNum 1)] ''S'' ''INTERNAL'' ''v1'' sample_fresh empty_store
       = Inr (i, st) \<and>
     read_artifact sample_hashing st (sample_actor ''sealed_evaluator'') i = Inr a \<and> art_content a = [(''x'', JNum 1)]"
proof -
  obtain i st where p: "put_artifact sample_hashing (sample_actor ''data'') [(''x'', JNum 1)] ''S'' ''INTERNAL'' ''v1''
      sample_fresh empty_store = Inr (i, st)"
    by (simp add: put_artifact_def require_capability_def empty_store_def Let_def)
  have "artifacts_ok sample_hashing empty_store" "fr_artifact_id sample_fresh \<notin> set (map art_id (st_artifacts (empty_store :: nat store)))"
    by (simp_all add: artifacts_ok_def empty_store_def)
  from artifact_roundtrip [OF this(1) sample_hashing_good(3) this(2) p, of "sample_actor ''sealed_evaluator''"] p
  show ?thesis by auto
qed

text \<open>The classification is not part of the key of an artifact: content the sealed evaluator
  first stored as \<open>INTERNAL\<close> keeps that classification when it is stored again as \<open>SEALED\<close>,
  and any other role can read it under the id the second call returns.\<close>

theorem resealing_keeps_classification:
  "\<exists>h content st1 st2 i a. put_artifact h (sample_actor ''sealed_evaluator'') content ''S'' ''INTERNAL'' ''v1'' sample_fresh empty_store
       = Inr (i, st1) \<and>
     put_artifact h (sample_actor ''sealed_evaluator'') content ''S'' ''SEALED'' ''v1'' sample_fresh st1 = Inr (i, st2) \<and>
     read_artifact (h :: nat hashing) st2 (sample_actor ''research'') i = Inr a \<and> art_content a = content"
proof -
  let ?a = "\<lparr>art_id = ''a1'', art_content_hash = h_content sample_hashing [], art_schema_name = ''S'',
     art_classification = ''INTERNAL'', art_producer_id = ''p1'', art_environment = ''env'',
     art_policy_version = ''v1'', art_content = []\<rparr>"
  let ?st = "(empty_store :: nat store)\<lparr>st_artifacts := [?a]\<rparr>"
  have "put_artifact sample_hashing (sample_actor ''sealed_evaluator'') [] ''S'' ''INTERNAL'' ''v1'' sample_fresh empty_store
      = Inr (''a1'', ?st)"
    by (simp add: put_artifact_def require_capability_def empty_store_def sample_fresh_def Let_def)
  moreover have "put_artifact sample_hashing (sample_actor ''sealed_evaluator'') [] ''S'' ''SEALED'' ''v1'' sample_fresh ?st
      = Inr (''a1'', ?st)"
    by (simp add: put_artifact_def require_capability_def Let_def)
  moreover have "read_artifact sample_hashing ?st (sample_actor ''research'') ''a1'' = Inr ?a"
    by (simp add: read_artifact_def)
  ultimately show ?thesis
    by (intro exI [of _ sample_hashing] exI [of _ "[]"] exI [of _ ?st] exI [of _ "''a1''"] exI [of _ ?a]) simp
qed

end
