(* ===== verification/GovRecords.thy ===== *)
theory GovRecords
  imports Prelude "HOL-Library.List_Lexorder" "HOL-Library.Char_ord" "HOL-Library.Product_Lexorder"
begin

text \<open>
  The immutable governance records of \<open>liki/governance/domain.py\<close> and
  \<open>liki/governance/policy.py\<close>, with their validators as predicates: a record the program
  holds satisfies its predicate. Records a function builds go through the validator in the
  function. Digests and text are strings; \<open>_canonical_hash\<close> is a parameter (\<open>gov_hashing\<close>).
\<close>

section \<open>Constrained strings\<close>

text \<open>\<open>NonEmpty\<close> and \<open>Sha256\<close>: what a validated string looks like.\<close>

definition is_non_empty :: "string \<Rightarrow> bool" where
  "is_non_empty s \<longleftrightarrow> s \<noteq> [] \<and> strip s = s"

definition is_hex :: "char \<Rightarrow> bool" where
  "is_hex c \<longleftrightarrow> c \<in> set ''0123456789abcdef''"

definition is_sha256 :: "string \<Rightarrow> bool" where
  "is_sha256 s =
     (let body = (if prefix_of ''sha256:'' s then drop 7 s else s) in length body = 64 \<and> list_all is_hex body)"

definition utc_ok :: "datetime option \<Rightarrow> bool" where
  "utc_ok d = pred_option is_utc d"

text \<open>\<open>_utc\<close> as a check on an argument.\<close>

definition check_utc :: "datetime \<Rightarrow> unit result" where
  "check_utc d =
     (if \<not> is_aware d then Inl (ValueError ''timestamps must be timezone-aware UTC'')
      else require (is_utc d) (ValueError ''timestamps must be UTC''))"

fun contains_sub :: "string \<Rightarrow> string \<Rightarrow> bool" where
  "contains_sub sub [] = (sub = [])"
| "contains_sub sub (c # s) = (prefix_of sub (c # s) \<or> contains_sub sub s)"

definition lower_char :: "char \<Rightarrow> char" where
  "lower_char c = (let n = (of_char c :: nat) in if 65 \<le> n \<and> n \<le> 90 then char_of (n + 32) else c)"

definition lower_string :: "string \<Rightarrow> string" where
  "lower_string s = map lower_char s"

section \<open>Enumerations\<close>

datatype change_class = GREEN | AMBER | RED

fun severity_rank :: "change_class \<Rightarrow> nat" where
  "severity_rank GREEN = 0"
| "severity_rank AMBER = 1"
| "severity_rank RED = 2"

datatype proposal_status = PROPOSED | CLASSIFIED | REVIEWING | REPLAYED | TESTED | SHADOW | CANARY
  | READY | PROMOTED | MONITORING | ROLLED_BACK | VETOED | FROZEN | STALE_APPROVAL | REJECTED

datatype review_verdict = SUPPORT | CONCERNS | REJECT

datatype objection_disposition = OBJ_OPEN | FALSIFIED | ACCEPTED_RISK | MORE_EVIDENCE | BLOCKED

datatype check_result = PASS | FAIL

section \<open>Provenance, checks and snapshots\<close>

record provenance =
  ap_artifact_id :: string
  ap_content_hash :: string
  ap_authenticated_principal :: string
  ap_environment_fingerprint :: string
  ap_code_fingerprint :: string
  ap_classification :: string

definition valid_provenance :: "provenance \<Rightarrow> bool" where
  "valid_provenance a \<longleftrightarrow> is_non_empty (ap_artifact_id a) \<and> is_sha256 (ap_content_hash a) \<and>
     is_non_empty (ap_authenticated_principal a) \<and> is_sha256 (ap_environment_fingerprint a) \<and>
     is_sha256 (ap_code_fingerprint a) \<and> is_non_empty (ap_classification a)"

record automated_check =
  ac_check_id :: string
  ac_check_kind :: string
  ac_result :: check_result
  ac_result_artifact :: provenance
  ac_executed_at :: datetime

definition valid_check :: "automated_check \<Rightarrow> bool" where
  "valid_check c \<longleftrightarrow> is_non_empty (ac_check_id c) \<and> is_non_empty (ac_check_kind c) \<and>
     valid_provenance (ac_result_artifact c) \<and> is_utc (ac_executed_at c)"

record evidence_reference =
  er_role :: string
  er_artifact :: provenance

record snapshot_dependency =
  sd_scope :: string
  sd_version :: string
  sd_content_hash :: string

record approval_snapshot =
  as_dependencies :: "snapshot_dependency list"
  as_known_incident_ids :: "string list"
  as_evidence_hashes :: "string list"
  as_snapshot_hash :: string

record synthesis_record =
  sy_proposal_id :: string
  sy_synthesized_by :: string
  sy_source_review_ids :: "string list"
  sy_synthesis_artifact :: provenance
  sy_residual_correlation_limitations :: "string list"
  sy_created_at :: datetime

record lifecycle_evidence =
  le_replay :: "automated_check list"
  le_tests :: "automated_check list"
  le_shadow :: "automated_check list"
  le_canary :: "automated_check list"

definition lifecycle_checks :: "lifecycle_evidence \<Rightarrow> automated_check list" where
  "lifecycle_checks l = le_replay l @ le_tests l @ le_shadow l @ le_canary l"

definition has_failure :: "lifecycle_evidence \<Rightarrow> bool" where
  "has_failure l = list_ex (\<lambda>c. ac_result c = FAIL) (lifecycle_checks l)"

section \<open>Reviews\<close>

record independence_profile =
  ip_provider_correlation_domain :: string
  ip_model_family :: string
  ip_model_version :: string
  ip_reviewer_mandate :: string
  ip_prompt_template_version :: string
  ip_evidence_ordering :: "string list"
  ip_prior_verdicts_visible :: bool
  ip_shared_tools_retrieval_policy :: string
  ip_known_shared_contamination :: "string list"
  ip_independence_group_id :: string
  ip_fresh_context_id :: string

definition valid_profile :: "independence_profile \<Rightarrow> bool" where
  "valid_profile p \<longleftrightarrow> list_all is_non_empty [ip_provider_correlation_domain p, ip_model_family p,
       ip_model_version p, ip_reviewer_mandate p, ip_prompt_template_version p,
       ip_shared_tools_retrieval_policy p, ip_independence_group_id p, ip_fresh_context_id p] \<and>
     ip_evidence_ordering p \<noteq> [] \<and> list_all is_non_empty (ip_evidence_ordering p) \<and>
     list_all is_non_empty (ip_known_shared_contamination p) \<and> \<not> ip_prior_verdicts_visible p"

text \<open>The fields the correlation fingerprint is the hash of.\<close>

type_synonym correlation_body = "string \<times> string \<times> string \<times> string \<times> string list \<times> string \<times> string list"

definition correlation_body_of :: "independence_profile \<Rightarrow> correlation_body" where
  "correlation_body_of p = (ip_provider_correlation_domain p, ip_model_family p, ip_model_version p,
     ip_prompt_template_version p, ip_evidence_ordering p, ip_shared_tools_retrieval_policy p,
     ip_known_shared_contamination p)"

record gov_hashing =
  gh_correlation :: "correlation_body \<Rightarrow> string"
  gh_lifecycle :: "lifecycle_evidence \<Rightarrow> string"
  gh_snapshot :: "snapshot_dependency list \<times> string list \<times> string list \<Rightarrow> string"

text \<open>The snapshot's hash covers its contents in sorted order.\<close>

definition valid_snapshot :: "gov_hashing \<Rightarrow> approval_snapshot \<Rightarrow> bool" where
  "valid_snapshot h s \<longleftrightarrow> as_dependencies s \<noteq> [] \<and> as_evidence_hashes s \<noteq> [] \<and>
     list_all is_sha256 (as_evidence_hashes s) \<and> is_sha256 (as_snapshot_hash s) \<and>
     as_snapshot_hash s = gh_snapshot h (sort_key (\<lambda>d. (sd_scope d, sd_version d)) (as_dependencies s),
       sort (as_known_incident_ids s), sort (as_evidence_hashes s))"

definition correlation_fingerprint :: "gov_hashing \<Rightarrow> independence_profile \<Rightarrow> string" where
  "correlation_fingerprint h p = gh_correlation h (correlation_body_of p)"

record material_objection =
  mo_objection_id :: string
  mo_statement :: string
  mo_disposition :: objection_disposition
  mo_resolution_evidence :: "evidence_reference list"

definition valid_objection :: "material_objection \<Rightarrow> bool" where
  "valid_objection o' \<longleftrightarrow> is_non_empty (mo_objection_id o') \<and> is_non_empty (mo_statement o') \<and>
     (mo_disposition o' \<in> {FALSIFIED, ACCEPTED_RISK} \<longrightarrow> mo_resolution_evidence o' \<noteq> [])"

record governance_review =
  gr_council_review_id :: string
  gr_proposal_id :: string
  gr_reviewer_principal :: string
  gr_profile :: independence_profile
  gr_evidence_manifest_hash :: string
  gr_inspected_evidence :: "provenance list"
  gr_verdict :: review_verdict
  gr_material_objections :: "material_objection list"
  gr_confidence_advisory :: "rat option"
  gr_created_at :: datetime

definition valid_review :: "governance_review \<Rightarrow> bool" where
  "valid_review r \<longleftrightarrow> is_non_empty (gr_council_review_id r) \<and> is_non_empty (gr_proposal_id r) \<and>
     is_non_empty (gr_reviewer_principal r) \<and> valid_profile (gr_profile r) \<and>
     is_sha256 (gr_evidence_manifest_hash r) \<and> gr_inspected_evidence r \<noteq> [] \<and>
     list_all valid_provenance (gr_inspected_evidence r) \<and> list_all valid_objection (gr_material_objections r) \<and>
     (case gr_confidence_advisory r of None \<Rightarrow> True | Some c \<Rightarrow> 0 \<le> c \<and> c \<le> 1) \<and> is_utc (gr_created_at r)"

section \<open>Proposals\<close>

record proposal =
  gp_proposal_id :: string
  gp_proposal_version :: nat
  gp_authored_by :: string
  gp_declared_class :: change_class
  gp_problem :: string
  gp_proposed_change :: string
  gp_affected_modules :: "string list"
  gp_affected_paths :: "string list"
  gp_protected_controls :: "string list"
  gp_evidence :: "evidence_reference list"
  gp_counterevidence :: "evidence_reference list"
  gp_historical_replay_plan :: string
  gp_risk_if_changed :: string
  gp_risk_if_not_changed :: string
  gp_rollback_plan :: string
  gp_owner_attention_required :: bool
  gp_real_money_enablement :: bool
  gp_approval_snapshot :: approval_snapshot
  gp_status :: proposal_status
  gp_created_at :: datetime
  gp_classification_source :: "string option"
  gp_complete_evidence_at :: "datetime option"
  gp_owner_notification_delivered_at :: "datetime option"
  gp_promotion_eligible_at :: "datetime option"
  gp_owner_veto_at :: "datetime option"
  gp_owner_approval_at :: "datetime option"
  gp_promoted_at :: "datetime option"
  gp_rollback_policy_id :: "string option"

definition valid_proposal :: "gov_hashing \<Rightarrow> proposal \<Rightarrow> bool" where
  "valid_proposal h p \<longleftrightarrow> 1 \<le> gp_proposal_version p \<and>
     list_all is_non_empty [gp_proposal_id p, gp_authored_by p, gp_problem p, gp_proposed_change p,
       gp_historical_replay_plan p, gp_risk_if_changed p, gp_risk_if_not_changed p, gp_rollback_plan p] \<and>
     gp_affected_modules p \<noteq> [] \<and> list_all is_non_empty (gp_affected_modules p) \<and>
     list_all is_non_empty (gp_affected_paths p) \<and> list_all is_non_empty (gp_protected_controls p) \<and>
     gp_evidence p \<noteq> [] \<and> valid_snapshot h (gp_approval_snapshot p) \<and>
     is_utc (gp_created_at p) \<and> list_all utc_ok [gp_complete_evidence_at p, gp_owner_notification_delivered_at p,
       gp_promotion_eligible_at p, gp_owner_veto_at p, gp_owner_approval_at p, gp_promoted_at p]"

record blind_packet =
  bp_proposal_id :: string
  bp_proposal_version :: nat
  bp_change_class :: change_class
  bp_problem :: string
  bp_proposed_change :: string
  bp_affected_modules :: "string list"
  bp_evidence_dossier :: "evidence_reference list"
  bp_counterevidence_dossier :: "evidence_reference list"
  bp_historical_replay_plan :: string
  bp_risk_if_changed :: string
  bp_risk_if_not_changed :: string
  bp_rollback_plan :: string

record classification =
  cl_proposal_id :: string
  cl_policy_id :: string
  cl_policy_version :: string
  cl_classifier_principal :: string
  cl_deterministic_floor :: change_class
  cl_final_class :: change_class
  cl_matched_controls :: "string list"
  cl_policy_content_hash :: string
  cl_classified_at :: datetime

definition valid_classification :: "classification \<Rightarrow> bool" where
  "valid_classification c \<longleftrightarrow> list_all is_non_empty [cl_proposal_id c, cl_policy_id c, cl_policy_version c,
       cl_classifier_principal c] \<and> list_all is_non_empty (cl_matched_controls c) \<and>
     is_sha256 (cl_policy_content_hash c) \<and> is_utc (cl_classified_at c) \<and>
     severity_rank (cl_deterministic_floor c) \<le> severity_rank (cl_final_class c)"

record state_transition =
  tr_proposal_id :: string
  tr_proposal_version :: nat
  tr_state_before :: proposal_status
  tr_state_after :: proposal_status
  tr_state_version_before :: nat
  tr_state_version_after :: nat
  tr_actor_principal :: string
  tr_evidence :: "provenance list"
  tr_created_at :: datetime

section \<open>Owner, change sets and policy\<close>

record owner_delivery =
  od_authoritative_channel :: string
  od_notification_id :: string
  od_provider_message_id :: string
  od_delivered_at :: datetime
  od_lifecycle_snapshot_hash :: string

record owner_decision =
  ow_proposal_id :: string
  ow_owner_principal :: string
  ow_approved :: bool
  ow_vetoed :: bool
  ow_decision_artifact :: provenance
  ow_decided_at :: datetime

definition valid_owner_decision :: "owner_decision \<Rightarrow> bool" where
  "valid_owner_decision d \<longleftrightarrow> is_non_empty (ow_proposal_id d) \<and> is_non_empty (ow_owner_principal d) \<and>
     valid_provenance (ow_decision_artifact d) \<and> is_utc (ow_decided_at d) \<and> ow_approved d \<noteq> ow_vetoed d"

record change_set =
  cs_change_set_id :: string
  cs_proposal_ids :: "string list"
  cs_dependencies :: "snapshot_dependency list"
  cs_affected_scopes :: "string list"
  cs_approval_snapshot_hash :: string
  cs_interaction_test_artifacts :: "provenance list"
  cs_interaction_tests :: "automated_check list"
  cs_state :: string
  cs_created_at :: datetime
  cs_revalidated_at :: "datetime option"
  cs_promoted_at :: "datetime option"
  cs_rollback_set_id :: "string option"

definition valid_change_set :: "change_set \<Rightarrow> bool" where
  "valid_change_set c \<longleftrightarrow> is_non_empty (cs_change_set_id c) \<and> cs_proposal_ids c \<noteq> [] \<and>
     cs_dependencies c \<noteq> [] \<and> cs_affected_scopes c \<noteq> [] \<and> is_sha256 (cs_approval_snapshot_hash c) \<and>
     is_utc (cs_created_at c) \<and> utc_ok (cs_revalidated_at c) \<and> utc_ok (cs_promoted_at c) \<and>
     (1 < length (cs_proposal_ids c) \<longrightarrow> cs_interaction_test_artifacts c \<noteq> [] \<and> cs_interaction_tests c \<noteq> [])"

record protected_control =
  pc_control_id :: string
  pc_path_prefixes :: "string list"
  pc_minimum_class :: change_class

record governance_policy =
  po_policy_id :: string
  po_policy_version :: string
  po_content_hash :: string
  po_protected_controls :: "protected_control list"
  po_review_thresholds :: "(change_class \<times> nat) list"

definition required_reviews :: "change_class \<Rightarrow> nat" where
  "required_reviews c = (case c of GREEN \<Rightarrow> 3 | AMBER \<Rightarrow> 5 | RED \<Rightarrow> 7)"

definition valid_policy :: "governance_policy \<Rightarrow> bool" where
  "valid_policy p \<longleftrightarrow> is_non_empty (po_policy_id p) \<and> is_non_empty (po_policy_version p) \<and>
     is_sha256 (po_content_hash p) \<and> po_protected_controls p \<noteq> [] \<and>
     list_all (\<lambda>c. is_non_empty (pc_control_id c) \<and> pc_path_prefixes c \<noteq> [] \<and>
                   list_all is_non_empty (pc_path_prefixes c)) (po_protected_controls p) \<and>
     set (po_review_thresholds p) = {(GREEN, 3), (AMBER, 5), (RED, 7)}"

section \<open>Incidents\<close>

datatype incident_severity = SEV0 | SEV1 | SEV2 | SEV3

datatype incident_status = OPEN | CONTAINED | RECONCILING | RESOLVED | CLOSED

record incident =
  in_incident_id :: string
  in_severity :: incident_severity
  in_status :: incident_status
  in_incident_type :: string
  in_opened_at :: datetime
  in_opened_by :: string
  in_affected_modules :: "string list"
  in_affected_run_ids :: "string list"
  in_affected_strategy_ids :: "string list"
  in_affected_policy_versions :: "string list"
  in_affected_artifact_ids :: "string list"
  in_evidence :: "provenance list"
  in_containment_actions :: "string list"
  in_contained_at :: "datetime option"
  in_resolved_at :: "datetime option"
  in_closed_at :: "datetime option"
  in_reconciliation_evidence :: "provenance list"
  in_root_cause_artifact :: "provenance option"
  in_impact_assessment_artifact :: "provenance option"
  in_postmortem_artifact :: "provenance option"
  in_owner_notification_artifact :: "provenance option"
  in_owner_notified_at :: "datetime option"
  in_corrective_action_ids :: "string list"
  in_state_version :: nat

text \<open>The model validator of \<open>Incident\<close>, as a check.\<close>

definition check_incident :: "incident \<Rightarrow> incident result" where
  "check_incident i =
     rbind (require (in_status i \<in> {RESOLVED, CLOSED} \<longrightarrow>
                     in_reconciliation_evidence i \<noteq> [] \<and> in_root_cause_artifact i \<noteq> None \<and>
                     in_impact_assessment_artifact i \<noteq> None)
              (ValueError ''resolution requires reconciliation, root-cause, and impact evidence'')) (\<lambda>_.
     rbind (require (\<not> (in_status i = CLOSED \<and> in_severity i \<in> {SEV0, SEV1} \<and> in_postmortem_artifact i = None))
              (ValueError ''material incident closure requires a structured postmortem'')) (\<lambda>_.
     Inr i))"

end
