(* ===== verification/Governance.thy ===== *)
theory Governance
  imports GovRecords States
begin

text \<open>
  Classification, promotion and the proposal state machine of
  \<open>liki/governance/domain.py\<close>, with the protected-path floor of \<open>liki/governance/policy.py\<close>.
\<close>

section \<open>Policy floor and classification\<close>

text \<open>\<open>prefix.rstrip("/")\<close>\<close>

definition rstrip_slash :: "string \<Rightarrow> string" where
  "rstrip_slash s = rev (dropWhile (\<lambda>c. c = CHR ''/'') (rev s))"

definition path_match :: "protected_control \<Rightarrow> string list \<Rightarrow> bool" where
  "path_match c paths \<longleftrightarrow>
     list_ex (\<lambda>path. list_ex (\<lambda>prefix. path = prefix \<or> prefix_of (rstrip_slash prefix @ ''/'') path)
       (pc_path_prefixes c)) paths"

definition floor_step ::
  "string list \<Rightarrow> string list \<Rightarrow> change_class \<times> string list \<Rightarrow> protected_control \<Rightarrow> change_class \<times> string list" where
  "floor_step paths controls acc c =
     (if pc_control_id c \<in> set controls \<or> path_match c paths
      then (if severity_rank (fst acc) < severity_rank (pc_minimum_class c) then pc_minimum_class c else fst acc,
            snd acc @ [pc_control_id c])
      else acc)"

definition floor_for ::
  "governance_policy \<Rightarrow> string list \<Rightarrow> string list \<Rightarrow> change_class \<times> string list" where
  "floor_for p paths controls = foldl (floor_step paths controls) (GREEN, []) (po_protected_controls p)"

definition classify_proposal ::
  "proposal \<Rightarrow> governance_policy \<Rightarrow> string \<Rightarrow> datetime \<Rightarrow> classification result" where
  "classify_proposal p policy classifier now =
     rbind (check_utc now) (\<lambda>_.
     rbind (require (classifier \<noteq> gp_authored_by p)
              (GovernanceError ''proposal author cannot be the sole severity classifier'')) (\<lambda>_.
     let (floor0, controls0) = floor_for policy (gp_affected_paths p) (gp_protected_controls p);
         (fl, controls) = (if gp_real_money_enablement p then (RED, controls0 @ [''real_money_enablement''])
                           else (floor0, controls0));
         final = (if severity_rank fl \<le> severity_rank (gp_declared_class p) then gp_declared_class p else fl)
     in rbind (non_empty classifier) (\<lambda>who.
        rbind (require (severity_rank fl \<le> severity_rank final)
                 (ValueError ''classification may escalate but cannot downgrade its deterministic floor'')) (\<lambda>_.
        Inr \<lparr>cl_proposal_id = gp_proposal_id p, cl_policy_id = po_policy_id policy,
             cl_policy_version = po_policy_version policy, cl_classifier_principal = who,
             cl_deterministic_floor = fl, cl_final_class = final, cl_matched_controls = sort (remdups controls),
             cl_policy_content_hash = po_content_hash policy, cl_classified_at = now\<rparr>))))"

definition build_blind_packet :: "proposal \<Rightarrow> classification \<Rightarrow> blind_packet" where
  "build_blind_packet p c =
     \<lparr>bp_proposal_id = gp_proposal_id p, bp_proposal_version = gp_proposal_version p,
      bp_change_class = cl_final_class c, bp_problem = gp_problem p, bp_proposed_change = gp_proposed_change p,
      bp_affected_modules = gp_affected_modules p, bp_evidence_dossier = gp_evidence p,
      bp_counterevidence_dossier = gp_counterevidence p,
      bp_historical_replay_plan = gp_historical_replay_plan p, bp_risk_if_changed = gp_risk_if_changed p,
      bp_risk_if_not_changed = gp_risk_if_not_changed p, bp_rollback_plan = gp_rollback_plan p\<rparr>"

section \<open>Reviews and promotion requirements\<close>

definition check_unique_independence ::
  "gov_hashing \<Rightarrow> governance_review list \<Rightarrow> governance_review list result" where
  "check_unique_independence h reviews =
     rbind (require (unique (map (\<lambda>r. ip_independence_group_id (gr_profile r)) reviews))
              (GovernanceError ''review padding detected: independence groups must be unique'')) (\<lambda>_.
     rbind (require (unique (map (\<lambda>r. correlation_fingerprint h (gr_profile r)) reviews))
              (GovernanceError ''review padding detected: materially identical review profiles'')) (\<lambda>_.
     Inr reviews))"

definition correlation_domain :: "governance_review \<Rightarrow> string \<times> string \<times> string" where
  "correlation_domain r = (ip_provider_correlation_domain (gr_profile r), ip_model_family (gr_profile r),
     ip_model_version (gr_profile r))"

definition adversarial :: "governance_review list \<Rightarrow> governance_review list" where
  "adversarial reviews =
     List.filter (\<lambda>r. contains_sub ''adversarial'' (lower_string (ip_reviewer_mandate (gr_profile r)))) reviews"

definition unresolved :: "governance_review list \<Rightarrow> bool" where
  "unresolved reviews =
     list_ex (\<lambda>r. list_ex (\<lambda>o'. mo_disposition o' \<in> {OBJ_OPEN, MORE_EVIDENCE, BLOCKED}) (gr_material_objections r)) reviews"

text \<open>One reason appended per failed requirement: \<open>if bad: reasons.append(text)\<close>.\<close>

definition complain :: "bool \<Rightarrow> string \<Rightarrow> string list" where
  "complain bad text = (if bad then [text] else [])"

definition requirements_met ::
  "classification \<Rightarrow> proposal \<Rightarrow> governance_review list \<Rightarrow> lifecycle_evidence \<Rightarrow> synthesis_record option \<Rightarrow> string list" where
  "requirements_met c p reviews life syn =
     complain (length reviews < required_reviews (cl_final_class c)) ''requires independent blind reviews'' @
     complain (list_ex (\<lambda>r. gr_proposal_id r \<noteq> gp_proposal_id p) reviews) ''review proposal mismatch'' @
     complain (list_ex (\<lambda>r. gr_reviewer_principal r = gp_authored_by p) reviews)
       ''proposal author cannot review own proposal'' @
     complain (\<not> unique (map correlation_domain reviews) \<and>
               (case syn of None \<Rightarrow> True | Some s \<Rightarrow> sy_residual_correlation_limitations s = []))
       ''shared model correlation requires explicit synthesis disclosure'' @
     complain (le_tests life = [])
       ''automated acceptance checks are required before owner timing or promotion'' @
     complain (has_failure life) ''lifecycle evidence contains a failed deterministic check'' @
     complain (cl_final_class c \<in> {AMBER, RED} \<and>
               (case syn of None \<Rightarrow> True
                | Some s \<Rightarrow> sy_synthesized_by s \<in> {gp_authored_by p, cl_classifier_principal c}))
       ''AMBER/RED synthesis must be separate from author and classifier'' @
     complain (cl_final_class c \<in> {AMBER, RED} \<and>
               (le_replay life = [] \<or> le_tests life = [] \<or> le_shadow life = [] \<or> le_canary life = []))
       ''AMBER/RED requires replay, tests, shadow, and canary evidence'' @
     complain (cl_final_class c = RED \<and> length (adversarial reviews) < 2)
       ''RED requires two independent adversarial audits'' @
     complain (cl_final_class c = AMBER \<and> length (adversarial reviews) < 1)
       ''AMBER requires one independent adversarial audit'' @
     complain (unresolved reviews)
       ''material objections are unresolved; a majority cannot override them''"

lemma complain_Nil [simp]: "complain bad text = [] \<longleftrightarrow> \<not> bad"
  by (simp add: complain_def)

section \<open>Promotion\<close>

definition stale_snapshot :: "approval_snapshot \<Rightarrow> approval_snapshot \<Rightarrow> bool" where
  "stale_snapshot approved current = (as_snapshot_hash approved \<noteq> as_snapshot_hash current)"

definition incident_relevant :: "incident \<Rightarrow> proposal \<Rightarrow> bool" where
  "incident_relevant i p \<longleftrightarrow>
     (set (gp_affected_modules p) \<union> set (gp_affected_paths p)) \<inter> set (in_affected_modules i) \<noteq> {} \<or>
     in_affected_policy_versions i \<noteq> []"

definition change_set_blocks :: "change_set option \<Rightarrow> proposal \<Rightarrow> bool" where
  "change_set_blocks cs p =
     (case cs of None \<Rightarrow> False
      | Some c \<Rightarrow> gp_proposal_id p \<notin> set (cs_proposal_ids c) \<or>
          cs_approval_snapshot_hash c \<noteq> as_snapshot_hash (gp_approval_snapshot p) \<or>
          (1 < length (cs_proposal_ids c) \<and>
             \<not> (cs_interaction_test_artifacts c \<noteq> [] \<and> cs_interaction_tests c \<noteq> [])))"

definition evaluate_promotion ::
  "gov_hashing \<Rightarrow> proposal \<Rightarrow> classification \<Rightarrow> governance_review list \<Rightarrow> lifecycle_evidence \<Rightarrow> approval_snapshot \<Rightarrow>
   datetime \<Rightarrow> synthesis_record option \<Rightarrow> owner_delivery option \<Rightarrow> owner_decision option \<Rightarrow> incident list \<Rightarrow>
   change_set option \<Rightarrow> proposal_status result" where
  "evaluate_promotion h p c reviews life current now syn delivery decision incidents cs =
     rbind (check_utc now) (\<lambda>_.
     if cl_proposal_id c \<noteq> gp_proposal_id p then Inr REJECTED
     else if (case decision of None \<Rightarrow> False | Some d \<Rightarrow> ow_proposal_id d \<noteq> gp_proposal_id p) then Inr REJECTED
     else if gp_status p = VETOED \<or> (case decision of None \<Rightarrow> False | Some d \<Rightarrow> ow_vetoed d) then Inr VETOED
     else if gp_real_money_enablement p then Inr REJECTED
     else if list_ex (\<lambda>i. in_status i \<notin> {RESOLVED, CLOSED} \<and> incident_relevant i p) incidents then Inr FROZEN
     else if stale_snapshot (gp_approval_snapshot p) current then Inr STALE_APPROVAL
     else if change_set_blocks cs p then Inr STALE_APPROVAL
     else case check_unique_independence h reviews of
       Inl e \<Rightarrow> Inr REJECTED
     | Inr values \<Rightarrow>
       if (case delivery of None \<Rightarrow> False | Some d \<Rightarrow>
             list_ex (\<lambda>k. ac_result k = FAIL \<and> instant (od_delivered_at d) \<le> instant (ac_executed_at k)) (lifecycle_checks life))
       then Inr FROZEN
       else if requirements_met c p values life syn \<noteq> [] then Inr REVIEWING
       else if cl_final_class c = RED then
         Inr (if (case decision of None \<Rightarrow> False | Some d \<Rightarrow> ow_approved d) then PROMOTED else READY)
       else case delivery of
         None \<Rightarrow> Inr READY
       | Some d \<Rightarrow>
         if (case gp_complete_evidence_at p of None \<Rightarrow> True | Some t \<Rightarrow> instant (od_delivered_at d) < instant t) then Inr READY
         else if od_lifecycle_snapshot_hash d \<noteq> gh_lifecycle h life then Inr READY
         else if list_ex (\<lambda>k. instant (od_delivered_at d) < instant (ac_executed_at k)) (lifecycle_checks life) then Inr READY
         else if instant now < instant (od_delivered_at d) + hours 24 then Inr READY
         else Inr PROMOTED)"

section \<open>The proposal state machine\<close>

fun proposal_flow :: "proposal_status \<Rightarrow> proposal_status list" where
  "proposal_flow PROPOSED = [CLASSIFIED]"
| "proposal_flow CLASSIFIED = [REVIEWING]"
| "proposal_flow REVIEWING = [REPLAYED]"
| "proposal_flow REPLAYED = [TESTED]"
| "proposal_flow TESTED = [SHADOW]"
| "proposal_flow SHADOW = [CANARY]"
| "proposal_flow CANARY = [READY]"
| "proposal_flow READY = [PROMOTED]"
| "proposal_flow PROMOTED = [MONITORING, ROLLED_BACK]"
| "proposal_flow MONITORING = [ROLLED_BACK]"
| "proposal_flow _ = []"



text \<open>
  The flow without the universal exits as a transition table: its terminal states are the
  ones a proposal only leaves sideways.
\<close>

fun flow_rank :: "proposal_status \<Rightarrow> nat" where
  "flow_rank PROPOSED = 10"
| "flow_rank CLASSIFIED = 9"
| "flow_rank REVIEWING = 8"
| "flow_rank REPLAYED = 7"
| "flow_rank TESTED = 6"
| "flow_rank SHADOW = 5"
| "flow_rank CANARY = 4"
| "flow_rank READY = 3"
| "flow_rank PROMOTED = 2"
| "flow_rank MONITORING = 1"
| "flow_rank _ = 0"

interpretation proposal_table: transition_table proposal_flow "\<lambda>s. flow_rank s = 0" flow_rank
proof unfold_locales
  fix s
  show "flow_rank s = 0 \<Longrightarrow> proposal_flow s = []" by (cases s) simp_all
  show "flow_rank s \<noteq> 0 \<Longrightarrow> \<exists>t \<in> set (proposal_flow s). flow_rank t < flow_rank s" by (cases s) simp_all
qed








section \<open>Lemmas on the floor\<close>

lemma floor_fold:
  assumes "foldl (floor_step paths controls) acc cs = (fl, matched)"
  shows "severity_rank (fst acc) \<le> severity_rank fl"
    and "\<forall>c \<in> set cs. pc_control_id c \<in> set controls \<or> path_match c paths \<longrightarrow>
           severity_rank (pc_minimum_class c) \<le> severity_rank fl \<and> pc_control_id c \<in> set matched"
    and "set (snd acc) \<subseteq> set matched"
  using assms
proof (induction cs arbitrary: acc)
  case (Cons c cs)
  { case 1 then show ?case using Cons.IH(1) [of "floor_step paths controls acc c"]
      by (auto simp: floor_step_def split: if_splits) }
  { case 2 then show ?case using Cons.IH [of "floor_step paths controls acc c"]
      by (auto simp: floor_step_def split: if_splits) }
  { case 3 then show ?case using Cons.IH(3) [of "floor_step paths controls acc c"]
      by (auto simp: floor_step_def split: if_splits) }
qed auto

section \<open>Sample records\<close>

definition sample_provenance :: provenance where
  "sample_provenance = \<lparr>ap_artifact_id = ''a'', ap_content_hash = replicate 64 (CHR ''0''),
     ap_authenticated_principal = ''p'', ap_environment_fingerprint = replicate 64 (CHR ''0''),
     ap_code_fingerprint = replicate 64 (CHR ''0''), ap_classification = ''INTERNAL''\<rparr>"

definition sample_approval :: approval_snapshot where
  "sample_approval = \<lparr>as_dependencies = [], as_known_incident_ids = [], as_evidence_hashes = [], as_snapshot_hash = ''s''\<rparr>"

definition sample_proposal :: "change_class \<Rightarrow> proposal" where
  "sample_proposal cls = \<lparr>gp_proposal_id = ''P1'', gp_proposal_version = 1, gp_authored_by = ''alice'',
     gp_declared_class = cls, gp_problem = ''x'', gp_proposed_change = ''x'', gp_affected_modules = [''core''],
     gp_affected_paths = [''config/limits.json''], gp_protected_controls = [], gp_evidence = [],
     gp_counterevidence = [], gp_historical_replay_plan = ''x'', gp_risk_if_changed = ''x'',
     gp_risk_if_not_changed = ''x'', gp_rollback_plan = ''x'', gp_owner_attention_required = False,
     gp_real_money_enablement = False, gp_approval_snapshot = sample_approval, gp_status = PROPOSED,
     gp_created_at = Aware 0 0, gp_classification_source = None, gp_complete_evidence_at = Some (Aware 0 0),
     gp_owner_notification_delivered_at = None, gp_promotion_eligible_at = None, gp_owner_veto_at = None,
     gp_owner_approval_at = None, gp_promoted_at = None, gp_rollback_policy_id = None\<rparr>"

lemma sample_proposal_simps [simp]:
  "gp_proposal_id (sample_proposal cls) = ''P1''" "gp_authored_by (sample_proposal cls) = ''alice''"
  "gp_declared_class (sample_proposal cls) = cls" "gp_affected_paths (sample_proposal cls) = [''config/limits.json'']"
  "gp_protected_controls (sample_proposal cls) = []" "gp_real_money_enablement (sample_proposal cls) = False"
  "gp_status (sample_proposal cls) = PROPOSED" "gp_approval_snapshot (sample_proposal cls) = sample_approval"
  "gp_complete_evidence_at (sample_proposal cls) = Some (Aware 0 0)"
  by (simp_all add: sample_proposal_def)

definition sample_policy :: governance_policy where
  "sample_policy = \<lparr>po_policy_id = ''gov'', po_policy_version = ''1'', po_content_hash = replicate 64 (CHR ''0''),
     po_protected_controls = [\<lparr>pc_control_id = ''limits'', pc_path_prefixes = [''config/''], pc_minimum_class = RED\<rparr>],
     po_review_thresholds = [(GREEN, 3), (AMBER, 5), (RED, 7)]\<rparr>"

lemma sample_floor: "floor_for sample_policy [''config/limits.json''] [] = (RED, [''limits''])"
  by (simp add: floor_for_def floor_step_def path_match_def rstrip_slash_def sample_policy_def)

lemma sample_classified:
  "\<exists>c. classify_proposal (sample_proposal GREEN) sample_policy '' alice'' (Aware 0 0) = Inr c \<and>
     cl_classifier_principal c = ''alice''"
  by (simp add: classify_proposal_def check_utc_def sample_floor non_empty_def strip_def is_space_def)

definition sample_review :: "string \<Rightarrow> review_verdict \<Rightarrow> governance_review" where
  "sample_review who verdict = \<lparr>gr_council_review_id = who, gr_proposal_id = ''P1'', gr_reviewer_principal = who,
     gr_profile = \<lparr>ip_provider_correlation_domain = who, ip_model_family = ''m'', ip_model_version = ''1'',
       ip_reviewer_mandate = ''review'', ip_prompt_template_version = ''1'', ip_evidence_ordering = [''e''],
       ip_prior_verdicts_visible = False, ip_shared_tools_retrieval_policy = ''t'', ip_known_shared_contamination = [],
       ip_independence_group_id = who, ip_fresh_context_id = who\<rparr>,
     gr_evidence_manifest_hash = replicate 64 (CHR ''0''), gr_inspected_evidence = [sample_provenance],
     gr_verdict = verdict, gr_material_objections = [], gr_confidence_advisory = None, gr_created_at = Aware 0 0\<rparr>"

definition sample_gov_hashing :: gov_hashing where
  "sample_gov_hashing = \<lparr>gh_correlation = fst, gh_lifecycle = (\<lambda>_. ''L''), gh_snapshot = (\<lambda>_. ''s'')\<rparr>"

definition sample_lifecycle :: lifecycle_evidence where
  "sample_lifecycle = \<lparr>le_replay = [], le_tests = [\<lparr>ac_check_id = ''c'', ac_check_kind = ''k'', ac_result = PASS,
     ac_result_artifact = sample_provenance, ac_executed_at = Aware 0 0\<rparr>], le_shadow = [], le_canary = []\<rparr>"

definition sample_classification :: classification where
  "sample_classification = \<lparr>cl_proposal_id = ''P1'', cl_policy_id = ''gov'', cl_policy_version = ''1'',
     cl_classifier_principal = ''bob'', cl_deterministic_floor = GREEN, cl_final_class = GREEN, cl_matched_controls = [],
     cl_policy_content_hash = replicate 64 (CHR ''0''), cl_classified_at = Aware 0 0\<rparr>"

definition sample_delivery :: owner_delivery where
  "sample_delivery = \<lparr>od_authoritative_channel = ''t'', od_notification_id = ''n'', od_provider_message_id = ''m'',
     od_delivered_at = Aware 10 0, od_lifecycle_snapshot_hash = ''L''\<rparr>"

lemma sample_promotion:
  "evaluate_promotion sample_gov_hashing (sample_proposal GREEN) sample_classification
     [sample_review ''r1'' v1, sample_review ''r2'' v2, sample_review ''r3'' v3] sample_lifecycle sample_approval
     (Aware (hours 25) 0) None (Some sample_delivery) None [] None = Inr PROMOTED"
proof -
  have u: "check_unique_independence sample_gov_hashing
      [sample_review ''r1'' v1, sample_review ''r2'' v2, sample_review ''r3'' v3]
      = Inr [sample_review ''r1'' v1, sample_review ''r2'' v2, sample_review ''r3'' v3]"
    by (simp add: check_unique_independence_def correlation_fingerprint_def correlation_body_of_def
        sample_gov_hashing_def sample_review_def)
  have r: "requirements_met sample_classification (sample_proposal GREEN)
      [sample_review ''r1'' v1, sample_review ''r2'' v2, sample_review ''r3'' v3] sample_lifecycle None = []"
    unfolding requirements_met_def append_is_Nil_conv complain_Nil
    by (simp add: sample_classification_def sample_review_def sample_lifecycle_def required_reviews_def
        correlation_domain_def has_failure_def lifecycle_checks_def unresolved_def)
  show ?thesis
    by (simp add: evaluate_promotion_def check_utc_def u r stale_snapshot_def change_set_blocks_def)
      (simp add: sample_classification_def sample_delivery_def sample_gov_hashing_def sample_lifecycle_def
        lifecycle_checks_def)
qed

section \<open>Properties\<close>

text \<open>Classification only escalates: the final class is at least the declared class and at
  least the minimum of every protected control the proposal names or whose path prefix it
  touches, every such control is recorded, and a proposal that enables real money is RED.\<close>

theorem classification_floor:
  assumes "classify_proposal p policy who now = Inr c"
  shows "severity_rank (gp_declared_class p) \<le> severity_rank (cl_final_class c) \<and>
    (\<forall>k \<in> set (po_protected_controls policy).
       pc_control_id k \<in> set (gp_protected_controls p) \<or> path_match k (gp_affected_paths p) \<longrightarrow>
       severity_rank (pc_minimum_class k) \<le> severity_rank (cl_final_class c) \<and>
       pc_control_id k \<in> set (cl_matched_controls c)) \<and>
    (gp_real_money_enablement p \<longrightarrow> cl_final_class c = RED) \<and> who \<noteq> gp_authored_by p"
proof -
  obtain f0 m0 where f: "floor_for policy (gp_affected_paths p) (gp_protected_controls p) = (f0, m0)" by fastforce
  note fold = floor_fold(2) [OF f [unfolded floor_for_def]]
  have red: "severity_rank x \<le> severity_rank RED" "severity_rank RED \<le> severity_rank x \<Longrightarrow> x = RED" for x
    by (cases x; simp)+
  from assms f have "severity_rank (gp_declared_class p) \<le> severity_rank (cl_final_class c)"
      "severity_rank f0 \<le> severity_rank (cl_final_class c)" "set m0 \<subseteq> set (cl_matched_controls c)"
      "gp_real_money_enablement p \<longrightarrow> cl_final_class c = RED" "who \<noteq> gp_authored_by p"
    using red(1) [of f0] red(2) [of "gp_declared_class p"]
    by (auto simp: classify_proposal_def rbind_eq_Inr Let_def split: if_splits intro: order_trans)
  with fold show ?thesis by (meson order_trans subsetD)
qed

theorem classification_floor_witness:
  "\<exists>c. classify_proposal (sample_proposal GREEN) sample_policy '' alice'' (Aware 0 0) = Inr c \<and>
     ''limits'' \<in> set (cl_matched_controls c) \<and> severity_rank RED \<le> severity_rank (cl_final_class c)"
proof -
  obtain c where c: "classify_proposal (sample_proposal GREEN) sample_policy '' alice'' (Aware 0 0) = Inr c"
    using sample_classified by blast
  have "path_match \<lparr>pc_control_id = ''limits'', pc_path_prefixes = [''config/''], pc_minimum_class = RED\<rparr>
      (gp_affected_paths (sample_proposal GREEN))"
    by (simp add: path_match_def rstrip_slash_def)
  with classification_floor [OF c] c show ?thesis by (auto simp: sample_policy_def)
qed

text \<open>The separation of author and classifier compares the raw argument, while the record
  keeps it stripped of white space: a principal that differs from the author by a blank
  passes the check and is recorded as the author.\<close>

theorem author_can_classify:
  "\<exists>p policy who now c. classify_proposal p policy who now = Inr c \<and> cl_classifier_principal c = gp_authored_by p"
  using sample_classified by (metis sample_proposal_simps(2))

text \<open>C23 What a promotion proves: the evaluation answers \<open>PROMOTED\<close> only for the classified
  proposal, never with real money, a veto, an open relevant incident, a changed snapshot, a
  failed check, an author among the reviewers or an unresolved objection; with at least 3, 5
  or 7 reviews in distinct independence groups; RED needs the owner's approval and two
  adversarial audits, the others 24 hours after the delivery of the final evidence.\<close>

theorem promotion_requirements:
  assumes "evaluate_promotion h p c reviews life current now syn delivery decision incidents cs = Inr PROMOTED"
  shows "cl_proposal_id c = gp_proposal_id p \<and> \<not> gp_real_money_enablement p \<and> gp_status p \<noteq> VETOED \<and>
    (\<forall>d. decision = Some d \<longrightarrow> ow_proposal_id d = gp_proposal_id p \<and> \<not> ow_vetoed d) \<and>
    (\<forall>i \<in> set incidents. incident_relevant i p \<longrightarrow> in_status i \<in> {RESOLVED, CLOSED}) \<and>
    as_snapshot_hash current = as_snapshot_hash (gp_approval_snapshot p) \<and>
    required_reviews (cl_final_class c) \<le> length reviews \<and>
    distinct (map (\<lambda>r. ip_independence_group_id (gr_profile r)) reviews) \<and>
    (\<forall>r \<in> set reviews. gr_reviewer_principal r \<noteq> gp_authored_by p \<and> gr_proposal_id r = gp_proposal_id p) \<and>
    \<not> unresolved reviews \<and> le_tests life \<noteq> [] \<and> (\<forall>k \<in> set (lifecycle_checks life). ac_result k = PASS) \<and>
    (cl_final_class c = RED \<longrightarrow> 2 \<le> length (adversarial reviews) \<and> (\<exists>d. decision = Some d \<and> ow_approved d)) \<and>
    (cl_final_class c \<noteq> RED \<longrightarrow> (\<exists>d. delivery = Some d \<and> instant (od_delivered_at d) + hours 24 \<le> instant now \<and>
       od_lifecycle_snapshot_hash d = gh_lifecycle h life \<and>
       (\<forall>k \<in> set (lifecycle_checks life). instant (ac_executed_at k) \<le> instant (od_delivered_at d))))"
proof -
  have res: "ac_result k = PASS" if "ac_result k \<noteq> FAIL" for k using that by (cases "ac_result k") simp_all
  from assms have guards: "cl_proposal_id c = gp_proposal_id p" "\<not> gp_real_money_enablement p" "gp_status p \<noteq> VETOED"
      "\<forall>d. decision = Some d \<longrightarrow> ow_proposal_id d = gp_proposal_id p \<and> \<not> ow_vetoed d"
      "\<not> list_ex (\<lambda>i. in_status i \<notin> {RESOLVED, CLOSED} \<and> incident_relevant i p) incidents"
      "\<not> stale_snapshot (gp_approval_snapshot p) current"
    unfolding evaluate_promotion_def rbind_eq_Inr by (auto split: if_splits option.splits)
  obtain vs where "check_unique_independence h reviews = Inr vs"
    using assms guards unfolding evaluate_promotion_def rbind_eq_Inr
    by (cases "check_unique_independence h reviews") (auto split: if_splits)
  then have u: "check_unique_independence h reviews = Inr reviews"
      "distinct (map (\<lambda>r. ip_independence_group_id (gr_profile r)) reviews)"
    by (auto simp: check_unique_independence_def rbind_eq_Inr)
  have late: "requirements_met c p reviews life syn = [] \<and>
      (cl_final_class c = RED \<longrightarrow> (\<exists>d. decision = Some d \<and> ow_approved d)) \<and>
      (cl_final_class c \<noteq> RED \<longrightarrow> (\<exists>d. delivery = Some d \<and> instant (od_delivered_at d) + hours 24 \<le> instant now \<and>
        od_lifecycle_snapshot_hash d = gh_lifecycle h life \<and>
        \<not> list_ex (\<lambda>k. instant (od_delivered_at d) < instant (ac_executed_at k)) (lifecycle_checks life)))"
    using assms u guards unfolding evaluate_promotion_def rbind_eq_Inr
    by (auto simp: not_less split: if_splits option.splits)
  have req: "required_reviews (cl_final_class c) \<le> length reviews" "\<not> unresolved reviews" "le_tests life \<noteq> []"
      "\<not> has_failure life" "\<forall>r \<in> set reviews. gr_reviewer_principal r \<noteq> gp_authored_by p \<and> gr_proposal_id r = gp_proposal_id p"
      "cl_final_class c = RED \<longrightarrow> 2 \<le> length (adversarial reviews)"
    using late unfolding requirements_met_def append_is_Nil_conv complain_Nil
    by (auto simp: list_ex_iff not_less)
  have passes: "\<forall>k \<in> set (lifecycle_checks life). ac_result k = PASS"
    using req(4) res unfolding has_failure_def list_ex_iff by blast
  show ?thesis
    using guards u(2) late req(1-3,5,6) passes
    by (auto simp: stale_snapshot_def list_ex_iff not_less)
qed

theorem promotion_requirements_witness:
  "required_reviews GREEN \<le> length [sample_review ''r1'' SUPPORT, sample_review ''r2'' SUPPORT, sample_review ''r3'' SUPPORT] \<and>
   list_all (\<lambda>k. ac_result k = PASS) (lifecycle_checks sample_lifecycle)"
  using promotion_requirements [OF sample_promotion [of SUPPORT SUPPORT SUPPORT]]
  by (simp add: sample_classification_def list_all_iff)

lemma verdict_map_simps:
  "map (f \<circ> gr_profile) (map (gr_verdict_update g) rs) = map (f \<circ> gr_profile) rs"
  "list_ex (\<lambda>r. P (gr_profile r) (gr_proposal_id r) (gr_reviewer_principal r) (gr_material_objections r))
     (map (gr_verdict_update g) rs)
   = list_ex (\<lambda>r. P (gr_profile r) (gr_proposal_id r) (gr_reviewer_principal r) (gr_material_objections r)) rs"
  by (induction rs) simp_all

text \<open>Verdicts do not count: replacing the verdict of every review changes no promotion
  evaluation, so a proposal all of whose reviewers voted \<open>REJECT\<close> without filing a material
  objection is promoted.\<close>

theorem verdicts_do_not_count:
  "evaluate_promotion h p c (map (gr_verdict_update g) reviews) life current now syn delivery decision incidents cs
     = evaluate_promotion h p c reviews life current now syn delivery decision incidents cs \<and>
   (\<exists>h p c reviews life snap now delivery. (\<forall>r \<in> set reviews. gr_verdict r = REJECT) \<and>
      evaluate_promotion h p c reviews life snap now None delivery None [] None = Inr PROMOTED)"
proof -
  let ?rs = "map (gr_verdict_update g) reviews"
  have u: "map_sum id (\<lambda>_. ()) (check_unique_independence h ?rs) = map_sum id (\<lambda>_. ()) (check_unique_independence h reviews)"
    and same: "check_unique_independence h rs = Inr vs \<Longrightarrow> vs = rs" for rs vs
    by (auto simp: check_unique_independence_def rbind_def require_def comp_def split: if_splits)
  have "adversarial ?rs = map (gr_verdict_update g) (adversarial reviews)"
    by (induction reviews) (simp_all add: adversarial_def)
  moreover have dom: "map correlation_domain ?rs = map correlation_domain reviews"
    by (simp add: correlation_domain_def)
  ultimately have r: "requirements_met c p ?rs life syn = requirements_met c p reviews life syn"
    using verdict_map_simps(2) [of "\<lambda>_ pid _ _. pid \<noteq> gp_proposal_id p" g reviews]
      verdict_map_simps(2) [of "\<lambda>_ _ who _. who = gp_authored_by p" g reviews]
      verdict_map_simps(2) [of "\<lambda>_ _ _ os. list_ex (\<lambda>o'. mo_disposition o' \<in> {OBJ_OPEN, MORE_EVIDENCE, BLOCKED}) os" g reviews]
    by (simp add: requirements_met_def unresolved_def dom del: map_map)
  have "evaluate_promotion h p c ?rs life current now syn delivery decision incidents cs
     = evaluate_promotion h p c reviews life current now syn delivery decision incidents cs"
  proof (cases "check_unique_independence h reviews")
    case (Inl e)
    then obtain e' where "check_unique_independence h ?rs = Inl e'" using u by (cases "check_unique_independence h ?rs") auto
    with Inl show ?thesis by (simp add: evaluate_promotion_def)
  next
    case (Inr vs)
    then obtain vs' where "check_unique_independence h ?rs = Inr vs'" using u by (cases "check_unique_independence h ?rs") auto
    with Inr have "check_unique_independence h ?rs = Inr ?rs" "check_unique_independence h reviews = Inr reviews"
      using same by blast+
    then show ?thesis by (simp add: evaluate_promotion_def r)
  qed
  moreover have "\<forall>r \<in> set [sample_review ''r1'' REJECT, sample_review ''r2'' REJECT, sample_review ''r3'' REJECT]. gr_verdict r = REJECT"
    by (simp add: sample_review_def)
  ultimately show ?thesis using sample_promotion [of REJECT REJECT REJECT] by blast
qed

theorem verdicts_do_not_count_witness:
  "\<exists>h p c reviews life snap now delivery. length reviews = 3 \<and> (\<forall>r \<in> set reviews. gr_verdict r = REJECT) \<and>
     evaluate_promotion h p c reviews life snap now None delivery None [] None = Inr PROMOTED"
proof -
  let ?rs = "\<lambda>v. [sample_review ''r1'' v, sample_review ''r2'' v, sample_review ''r3'' v]"
  have "?rs REJECT = map (gr_verdict_update (\<lambda>_. REJECT)) (?rs SUPPORT)" by (simp add: sample_review_def)
  then have "evaluate_promotion sample_gov_hashing (sample_proposal GREEN) sample_classification (?rs REJECT)
      sample_lifecycle sample_approval (Aware (hours 25) 0) None (Some sample_delivery) None [] None = Inr PROMOTED"
    using verdicts_do_not_count [THEN conjunct1] sample_promotion [of SUPPORT SUPPORT SUPPORT] by metis
  moreover have "length (?rs REJECT) = 3" "\<forall>r \<in> set (?rs REJECT). gr_verdict r = REJECT"
    by (simp_all add: sample_review_def)
  ultimately show ?thesis by blast
qed



end
