(* ===== verification/Oversight.thy ===== *)
theory Oversight
  imports GovRecords States
begin

text \<open>
  Incidents, model-risk admission and the deterministic evidence computations:
  the second half of \<open>liki/governance/domain.py\<close> and \<open>liki/governance/simulation.py\<close>.
  Floating point sums are over an abstract type of floats.
\<close>

section \<open>Incidents\<close>

fun incident_nexts :: "incident_status \<Rightarrow> incident_status list" where
  "incident_nexts OPEN = [CONTAINED]"
| "incident_nexts CONTAINED = [RECONCILING]"
| "incident_nexts RECONCILING = [RESOLVED]"
| "incident_nexts RESOLVED = [CLOSED, OPEN]"
| "incident_nexts CLOSED = []"

fun incident_rank :: "incident_status \<Rightarrow> nat" where
  "incident_rank OPEN = 4"
| "incident_rank CONTAINED = 3"
| "incident_rank RECONCILING = 2"
| "incident_rank RESOLVED = 1"
| "incident_rank CLOSED = 0"

interpretation incident_table: transition_table incident_nexts "\<lambda>s. s = CLOSED" incident_rank
proof unfold_locales
  fix s
  show "s = CLOSED \<Longrightarrow> incident_nexts s = []" by simp
  show "s \<noteq> CLOSED \<Longrightarrow> \<exists>t \<in> set (incident_nexts s). incident_rank t < incident_rank s" by (cases s) simp_all
qed

record incident_args =
  ia_containment_action :: "string option"
  ia_reconciliation_evidence :: "provenance list"
  ia_root_cause_artifact :: "provenance option"
  ia_impact_assessment_artifact :: "provenance option"
  ia_postmortem_artifact :: "provenance option"

definition apply_incident_change :: "incident \<Rightarrow> incident_status \<Rightarrow> datetime \<Rightarrow> incident_args \<Rightarrow> incident result" where
  "apply_incident_change i target now a =
     (let base = i\<lparr>in_status := target, in_state_version := in_state_version i + 1\<rparr> in
      if target = CONTAINED then
        rbind (non_empty (if truthy (ia_containment_action a) then the (ia_containment_action a) else ''contained''))
          (\<lambda>act. Inr (base\<lparr>in_contained_at := Some now,
                           in_containment_actions := in_containment_actions i @ [act]\<rparr>))
      else if target = RESOLVED then
        Inr (base\<lparr>in_resolved_at := Some now, in_reconciliation_evidence := ia_reconciliation_evidence a,
                  in_root_cause_artifact := ia_root_cause_artifact a,
                  in_impact_assessment_artifact := ia_impact_assessment_artifact a\<rparr>)
      else if target = CLOSED then
        Inr (base\<lparr>in_closed_at := Some now, in_postmortem_artifact := ia_postmortem_artifact a\<rparr>)
      else Inr base)"

definition transition_incident ::
  "incident \<Rightarrow> incident_status \<Rightarrow> datetime \<Rightarrow> incident_args \<Rightarrow> incident result" where
  "transition_incident i target now a =
     rbind (check_utc now) (\<lambda>_.
     rbind (require (target \<in> set (incident_nexts (in_status i)))
              (GovernanceError ''invalid incident transition'')) (\<lambda>_.
     rbind (apply_incident_change i target now a) check_incident))"

inductive incident_step :: "incident \<Rightarrow> incident \<Rightarrow> bool" where
  step: "transition_incident i target now a = Inr i' \<Longrightarrow> incident_step i i'"

inductive_cases incident_stepE: "incident_step i i'"

definition incident_ok :: "incident \<Rightarrow> bool" where
  "incident_ok i \<longleftrightarrow>
     (in_status i \<noteq> OPEN \<longrightarrow> in_contained_at i \<noteq> None \<and> in_containment_actions i \<noteq> []) \<and>
     (in_status i \<in> {RESOLVED, CLOSED} \<longrightarrow> in_resolved_at i \<noteq> None \<and> in_reconciliation_evidence i \<noteq> [] \<and>
        in_root_cause_artifact i \<noteq> None \<and> in_impact_assessment_artifact i \<noteq> None) \<and>
     (in_status i = CLOSED \<longrightarrow> in_closed_at i \<noteq> None \<and>
        (in_severity i \<in> {SEV0, SEV1} \<longrightarrow> in_postmortem_artifact i \<noteq> None))"

lemma incident_step_ok:
  assumes "incident_step i i'" and "incident_ok i"
  shows "incident_ok i' \<and> in_state_version i' = in_state_version i + 1 \<and> in_incident_id i' = in_incident_id i \<and>
    in_severity i' = in_severity i \<and> in_status i' \<in> set (incident_nexts (in_status i)) \<and>
    (\<exists>acts. in_containment_actions i' = in_containment_actions i @ acts)"
proof -
  from assms(1) obtain target now a where t: "transition_incident i target now a = Inr i'"
    by (rule incident_stepE)
  then obtain x where x: "apply_incident_change i target now a = Inr x" and c: "check_incident x = Inr i'"
    and tab: "target \<in> set (incident_nexts (in_status i))"
    by (auto simp: transition_incident_def rbind_eq_Inr)
  have "x = i'" using c by (auto simp: check_incident_def rbind_eq_Inr)
  then have x': "apply_incident_change i target now a = Inr i'" and c': "check_incident i' = Inr i'" using x c by simp_all
  show ?thesis
    using x' c' tab assms(2)
    by (cases "in_status i"; cases target)
      (auto simp: apply_incident_change_def check_incident_def rbind_eq_Inr incident_ok_def Let_def)
qed

section \<open>Model risk\<close>

datatype model_type = STRATEGY | RISK | COST | EXECUTION | STATISTICS | DATA_TRANSFORM | ROUTER | THIRD_PARTY | OTHER

datatype materiality = CRITICAL | MATERIAL | SUPPORTING

datatype model_status = DEVELOPMENT | MODEL_SHADOW | APPROVED | WATCH | SUSPENDED | RETIRED

record model_card =
  mc_card_artifact :: provenance
  mc_purpose :: string
  mc_scope :: string
  mc_assumptions :: "string list"
  mc_limitations :: "string list"
  mc_dependencies :: "string list"

record model_validation =
  mv_validation_id :: string
  mv_validator_principal :: string
  mv_validation_evidence :: "provenance list"
  mv_conceptual_soundness :: automated_check
  mv_implementation_correctness :: automated_check
  mv_sensitivity :: automated_check
  mv_monitoring_thresholds :: "string list"
  mv_challenger_evidence :: "provenance list"
  mv_completed_at :: datetime

record model_record =
  md_model_id :: string
  md_model_type :: model_type
  md_owner_role :: string
  md_developer_principals :: "string list"
  md_developer_artifacts :: "provenance list"
  md_purpose :: string
  md_allowed_uses :: "string list"
  md_prohibited_uses :: "string list"
  md_materiality :: materiality
  md_inputs :: "string list"
  md_outputs :: "string list"
  md_assumptions :: "string list"
  md_limitations :: "string list"
  md_dependencies :: "string list"
  md_validation_status :: string
  md_champion_challenger_status :: string
  md_monitoring_plan_id :: string
  md_version :: string
  md_status :: model_status
  md_development_evidence :: "provenance list"
  md_validation_evidence :: "provenance list"
  md_monitoring_evidence :: "provenance list"
  md_recalibration_consumed_evidence :: "provenance list"
  md_model_card :: "model_card option"
  md_created_at :: datetime
  md_updated_at :: datetime
  md_validation_due_at :: "datetime option"
  md_retired_at :: "datetime option"
  md_replacement_model_id :: "string option"

definition hashes :: "provenance list \<Rightarrow> string set" where
  "hashes ps = set (map ap_content_hash ps)"

text \<open>The lifecycle validator of \<open>ModelRecord\<close>.\<close>

definition check_model_record :: "model_record \<Rightarrow> model_record result" where
  "check_model_record m =
     rbind (require (hashes (md_development_evidence m) \<inter> hashes (md_validation_evidence m) = {})
              (ValueError ''development evidence cannot be claimed as independent validation'')) (\<lambda>_.
     rbind (require (\<not> (md_status m = RETIRED \<and> md_retired_at m = None))
              (ValueError ''retired model requires retired_at'')) (\<lambda>_.
     rbind (require (\<not> (md_status m \<noteq> RETIRED \<and> md_retired_at m \<noteq> None))
              (ValueError ''only retired model may have retired_at'')) (\<lambda>_.
     rbind (require (\<not> (md_materiality m \<in> {CRITICAL, MATERIAL} \<and> md_model_card m = None))
              (ValueError ''material models require a machine-readable Model Card'')) (\<lambda>_.
     rbind (require (hashes (md_validation_evidence m) \<inter> hashes (md_recalibration_consumed_evidence m) = {})
              (ValueError ''recalibration-consumed validation evidence is no longer independent'')) (\<lambda>_.
     Inr m)))))"

record admission_decision =
  ad_admissible :: bool
  ad_reasons :: "string list"

definition admission_reasons :: "model_record \<Rightarrow> model_validation option \<Rightarrow> string list" where
  "admission_reasons m validation =
     (if md_status m = RETIRED then [''retired models cannot be admitted''] else []) @
     (if md_status m \<in> {SUSPENDED, WATCH} then [''model status blocks admission''] else []) @
     (if md_materiality m \<in> {CRITICAL, MATERIAL} then
        (case validation of
           None \<Rightarrow> [''material model requires independent validation'']
         | Some v \<Rightarrow>
             if mv_validator_principal v \<in> set (md_developer_principals m)
             then [''developer cannot be sole independent validator'']
             else if hashes (mv_validation_evidence v) \<inter>
                     (hashes (md_development_evidence m) \<union> hashes (md_recalibration_consumed_evidence m)) \<noteq> {}
             then [''development or recalibration-consumed evidence cannot validate the model'']
             else [])
      else [])"

definition assess_model_admission :: "model_record \<Rightarrow> model_validation option \<Rightarrow> admission_decision" where
  "assess_model_admission m validation =
     (let reasons = admission_reasons m validation
      in \<lparr>ad_admissible = (reasons = []),
          ad_reasons = (if reasons = [] then [''admission requirements met''] else reasons)\<rparr>)"

text \<open>\<open>by_dependency.setdefault(dependency, []).append(record.model_id)\<close>\<close>

definition index_dependency ::
  "string \<Rightarrow> (string \<times> string list) list \<Rightarrow> string \<Rightarrow> (string \<times> string list) list" where
  "index_dependency model d dep = dict_set dep ((case dict_get d dep of None \<Rightarrow> [] | Some ms \<Rightarrow> ms) @ [model]) d"

definition index_record :: "(string \<times> string list) list \<Rightarrow> model_record \<Rightarrow> (string \<times> string list) list" where
  "index_record d m = foldl (index_dependency (md_model_id m)) d (md_dependencies m)"

definition find_common_dependencies :: "model_record list \<Rightarrow> (string \<times> string list) list" where
  "find_common_dependencies records =
     List.filter (\<lambda>(dep, ms). 1 < length ms) (foldl index_record [] records)"

record 'f drift_observation =
  dr_observation_id :: string
  dr_drift_kind :: string
  dr_measured_value :: 'f
  dr_threshold :: 'f
  dr_direction :: string
  dr_measurement_artifact :: provenance
  dr_observed_at :: datetime

definition drift_breached :: "('f :: linorder) drift_observation \<Rightarrow> bool" where
  "drift_breached d = (if dr_direction d = ''ABOVE'' then dr_threshold d < dr_measured_value d
                       else dr_measured_value d < dr_threshold d)"

section \<open>Counterfactual replay and stress comparison\<close>

record 'f replay_event =
  rp_branch_id :: string
  rp_actual_decision :: string
  rp_counterfactual_decision :: string
  rp_later_outcome :: string
  rp_compute_cost_usd :: 'f
  rp_statistical_capital :: 'f
  rp_source_artifact :: provenance

record 'f replay_result =
  rr_input_hash :: string
  rr_evaluated_branches :: nat
  rr_killed_earlier :: nat
  rr_later_winners_lost :: nat
  rr_late_deaths_prevented :: nat
  rr_compute_cost_saved :: 'f
  rr_statistical_capital_delta :: 'f

definition newly_killed :: "'f replay_event \<Rightarrow> bool" where
  "newly_killed e \<longleftrightarrow> rp_actual_decision e \<noteq> ''KILLED'' \<and> rp_counterfactual_decision e = ''KILLED''"

text \<open>\<open>fsum\<close> and \<open>fneg\<close> are the float sum and negation, \<open>h\<close> the canonical hash.\<close>

definition run_counterfactual_replay ::
  "('f replay_event list \<Rightarrow> string) \<Rightarrow> ('f list \<Rightarrow> 'f) \<Rightarrow> ('f \<Rightarrow> 'f) \<Rightarrow> 'f replay_event list \<Rightarrow> 'f replay_result result" where
  "run_counterfactual_replay h fsum fneg events =
     (if events = [] then Inl (ValueError ''historical replay requires at least one provenance-backed event'')
      else
        let killed = List.filter newly_killed events
        in Inr \<lparr>rr_input_hash = h events, rr_evaluated_branches = length events,
                rr_killed_earlier = length killed,
                rr_later_winners_lost = length (List.filter (\<lambda>e. newly_killed e \<and> rp_later_outcome e = ''WINNER'') events),
                rr_late_deaths_prevented = length (List.filter (\<lambda>e. newly_killed e \<and> rp_later_outcome e = ''LATE_DEATH'') events),
                rr_compute_cost_saved = fsum (map rp_compute_cost_usd killed),
                rr_statistical_capital_delta = fneg (fsum (map rp_statistical_capital killed))\<rparr>)"

record stress_scenario =
  ss_scenario_id :: string
  ss_scenario_class :: string
  ss_expected_decision :: string
  ss_observed_decision :: string
  ss_fixture_artifact :: provenance

record stress_comparison =
  sc_input_hash :: string
  sc_scenario_classes :: "string list"
  sc_total :: nat
  sc_matched :: int
  sc_mismatches :: "string list"

definition run_labeled_stress_comparison ::
  "(stress_scenario list \<Rightarrow> string) \<Rightarrow> stress_scenario list \<Rightarrow> stress_comparison result" where
  "run_labeled_stress_comparison h scenarios =
     (if scenarios = [] then Inl (ValueError ''stress comparison requires labeled fixtures'')
      else
        let mismatches = map ss_scenario_id (List.filter (\<lambda>s. ss_expected_decision s \<noteq> ss_observed_decision s) scenarios)
        in Inr \<lparr>sc_input_hash = h scenarios, sc_scenario_classes = sort (remdups (map ss_scenario_class scenarios)),
                sc_total = length scenarios, sc_matched = int (length scenarios) - int (length mismatches),
                sc_mismatches = mismatches\<rparr>)"

section \<open>Lemmas\<close>

lemma index_dependency_get:
  "dict_get (index_dependency m d dep) k =
     (if k = dep then Some ((case dict_get d dep of None \<Rightarrow> [] | Some ms \<Rightarrow> ms) @ [m]) else dict_get d k)"
  by (simp add: index_dependency_def dict_get_set)

definition listed :: "(string \<times> string list) list \<Rightarrow> string \<Rightarrow> string list" where
  "listed d k = (case dict_get d k of None \<Rightarrow> [] | Some ms \<Rightarrow> ms)"

lemma listed_deps:
  "listed (foldl (index_dependency m) d deps) k = listed d k @ replicate (count_list deps k) m"
  by (induction deps arbitrary: d)
    (auto simp: listed_def index_dependency_get replicate_app_Cons_same split: option.splits)

lemma listed_records:
  "listed (foldl index_record d ms) k = listed d k @ concat (map (\<lambda>m. replicate (count_list (md_dependencies m) k) (md_model_id m)) ms)"
  by (induction ms arbitrary: d) (simp_all add: index_record_def listed_deps)

lemma count_distinct: "distinct xs \<Longrightarrow> count_list xs x = (if x \<in> set xs then 1 else 0)"
  by (induction xs) auto

lemma index_distinct:
  "distinct (dict_keys d) \<Longrightarrow> distinct (dict_keys (foldl index_record d ms))"
proof (induction ms arbitrary: d)
  case (Cons m ms)
  have "distinct (dict_keys (foldl (index_dependency i) d deps))" if "distinct (dict_keys d)" for d i deps
    using that by (induction deps arbitrary: d) (simp_all add: index_dependency_def distinct_dict_set)
  with Cons show ?case by (simp add: index_record_def)
qed simp

section \<open>Properties\<close>

text \<open>C28 Incident life cycle: from a valid open incident every accepted transition advances the
  version by one and keeps the identity and severity; containment, resolution and closure carry
  their times and evidence, a material incident is only closed with a postmortem, and nothing
  leaves \<open>CLOSED\<close>.\<close>

theorem incident_lifecycle:
  assumes "(incident_step ^^ n) i i'" and "in_status i = OPEN"
  shows "incident_ok i' \<and> in_state_version i' = in_state_version i + n \<and> in_incident_id i' = in_incident_id i \<and>
    in_severity i' = in_severity i \<and>
    (in_status i' = CLOSED \<longrightarrow> (\<forall>target now a. \<exists>e. transition_incident i' target now a = Inl e))"
proof -
  have "incident_ok i' \<and> in_state_version i' = in_state_version i + n \<and> in_incident_id i' = in_incident_id i \<and>
      in_severity i' = in_severity i"
    using assms(1)
  proof (induction n arbitrary: i')
    case 0
    then show ?case using assms(2) by (simp add: incident_ok_def)
  next
    case (Suc n)
    then obtain j where "(incident_step ^^ n) i j" "incident_step j i'" by auto
    with Suc.IH incident_step_ok show ?case by fastforce
  qed
  moreover have "\<exists>e. transition_incident i' target now a = Inl e" if "in_status i' = CLOSED" for target now a
    using that by (cases "check_utc now") (simp_all add: transition_incident_def)
  ultimately show ?thesis by blast
qed

text \<open>Admission, characterised: a model is admitted exactly when its status does not block it
  and, if it is critical or material, a validation by someone who did not develop it rests on
  evidence used neither in development nor in recalibration.\<close>

theorem admission_iff:
  "ad_admissible (assess_model_admission m validation) \<longleftrightarrow>
     md_status m \<notin> {RETIRED, SUSPENDED, WATCH} \<and>
     (md_materiality m \<in> {CRITICAL, MATERIAL} \<longrightarrow>
        (\<exists>v. validation = Some v \<and> mv_validator_principal v \<notin> set (md_developer_principals m) \<and>
             (\<forall>e \<in> set (mv_validation_evidence v). \<forall>d \<in> set (md_development_evidence m) \<union>
                set (md_recalibration_consumed_evidence m). ap_content_hash e \<noteq> ap_content_hash d)))"
proof -
  have "hashes A \<inter> (hashes B \<union> hashes C) = {} \<longleftrightarrow>
      (\<forall>e \<in> set A. \<forall>d \<in> set B \<union> set C. ap_content_hash e \<noteq> ap_content_hash d)" for A B C
    by (auto simp: hashes_def)
  then show ?thesis
    by (cases validation) (auto simp: assess_model_admission_def admission_reasons_def Let_def)
qed

text \<open>Common dependencies are exactly the shared ones: when no model lists a dependency twice,
  a dependency is reported iff at least two of the records list it, with the ids of all of
  them in order, once.\<close>

theorem common_dependencies_shared:
  assumes "\<forall>m \<in> set records. distinct (md_dependencies m)"
  shows "dict_get (find_common_dependencies records) dep =
    (let users = map md_model_id (List.filter (\<lambda>m. dep \<in> set (md_dependencies m)) records)
     in if 1 < length users then Some users else None)"
proof -
  let ?d = "foldl index_record [] records"
  let ?users = "map md_model_id (List.filter (\<lambda>m. dep \<in> set (md_dependencies m)) records)"
  have "concat (map (\<lambda>m. replicate (count_list (md_dependencies m) dep) (md_model_id m)) records) = ?users"
    using assms by (induction records) (simp_all add: count_distinct)
  then have users: "listed ?d dep = ?users" using listed_records [of "[]" records dep] by (simp add: listed_def)
  have filt: "dict_get (List.filter (\<lambda>(k, ms). 1 < length ms) d) k =
      (case dict_get d k of None \<Rightarrow> None | Some ms \<Rightarrow> if 1 < length ms then Some ms else None)"
    if "distinct (dict_keys d)" for d :: "(string \<times> string list) list" and k
    using that
  proof (induction d)
    case (Cons e d)
    obtain x ms where e: "e = (x, ms)" by (cases e)
    have "dict_get (List.filter (\<lambda>(k, ms). 1 < length ms) d) x = None" if "x \<notin> set (dict_keys d)"
      using that by (auto simp: map_of_eq_None_iff)
    with Cons e show ?case by simp
  qed simp
  have "distinct (dict_keys ?d)" by (rule index_distinct) simp
  from filt [OF this, of dep] users show ?thesis
    unfolding find_common_dependencies_def listed_def Let_def by (auto split: option.splits)
qed

section \<open>Sample records and witnesses\<close>

definition sample_artifact :: "string \<Rightarrow> provenance" where
  "sample_artifact digest = \<lparr>ap_artifact_id = ''a'', ap_content_hash = digest,
     ap_authenticated_principal = ''p'', ap_environment_fingerprint = digest,
     ap_code_fingerprint = digest, ap_classification = ''INTERNAL''\<rparr>"

definition sample_incident :: incident where
  "sample_incident = \<lparr>in_incident_id = ''I1'', in_severity = SEV1, in_status = OPEN, in_incident_type = ''drift'',
     in_opened_at = Aware 0 0, in_opened_by = ''op'', in_affected_modules = [''core''], in_affected_run_ids = [],
     in_affected_strategy_ids = [], in_affected_policy_versions = [], in_affected_artifact_ids = [],
     in_evidence = [sample_artifact ''e''], in_containment_actions = [], in_contained_at = None, in_resolved_at = None,
     in_closed_at = None, in_reconciliation_evidence = [], in_root_cause_artifact = None,
     in_impact_assessment_artifact = None, in_postmortem_artifact = None, in_owner_notification_artifact = None,
     in_owner_notified_at = None, in_corrective_action_ids = [], in_state_version = 1\<rparr>"

definition sample_args :: incident_args where
  "sample_args = \<lparr>ia_containment_action = None, ia_reconciliation_evidence = [sample_artifact ''r''],
     ia_root_cause_artifact = Some (sample_artifact ''c''), ia_impact_assessment_artifact = Some (sample_artifact ''i''),
     ia_postmortem_artifact = Some (sample_artifact ''m'')\<rparr>"

lemma sample_incident_closes:
  "\<exists>i. (incident_step ^^ 4) sample_incident i \<and> in_status i = CLOSED"
proof -
  let ?t = "\<lambda>i s. transition_incident i s (Aware 1 0) sample_args"
  obtain a b c d where ts: "?t sample_incident CONTAINED = Inr a" "?t a RECONCILING = Inr b" "?t b RESOLVED = Inr c"
      "?t c CLOSED = Inr d" and st: "in_status d = CLOSED"
    by (simp add: transition_incident_def check_utc_def apply_incident_change_def check_incident_def truthy_def
        sample_incident_def sample_args_def non_empty_def strip_def is_space_def)
  have "(incident_step ^^ 4) sample_incident d"
    using ts by (auto simp: numeral_eq_Suc intro!: relcomppI incident_step.intros)
  with st show ?thesis by blast
qed

theorem incident_lifecycle_witness:
  "\<exists>i :: incident. in_status i = CLOSED \<and> in_severity i = SEV1 \<and> in_postmortem_artifact i \<noteq> None \<and> in_state_version i = 5"
proof -
  obtain i where i: "(incident_step ^^ 4) sample_incident i" "in_status i = CLOSED" using sample_incident_closes by blast
  have s: "in_status sample_incident = OPEN" "in_state_version sample_incident = 1" "in_severity sample_incident = SEV1"
    by (simp_all add: sample_incident_def)
  from incident_lifecycle [OF i(1) s(1)] have "incident_ok i" "in_state_version i = 5" "in_severity i = SEV1"
    by (simp_all add: s)
  with i(2) show ?thesis by (intro exI [of _ i]) (simp add: incident_ok_def)
qed

definition sample_model :: "string \<Rightarrow> model_status \<Rightarrow> model_record" where
  "sample_model i st = \<lparr>md_model_id = i, md_model_type = RISK, md_owner_role = ''o'', md_developer_principals = [''dev''],
     md_developer_artifacts = [sample_artifact ''d''], md_purpose = ''p'', md_allowed_uses = [''u''],
     md_prohibited_uses = [''n''], md_materiality = MATERIAL, md_inputs = [''i''], md_outputs = [''o''],
     md_assumptions = [''a''], md_limitations = [''l''], md_dependencies = [''numpy''], md_validation_status = ''v'',
     md_champion_challenger_status = ''c'', md_monitoring_plan_id = ''m'', md_version = ''1'', md_status = st,
     md_development_evidence = [sample_artifact ''d''], md_validation_evidence = [], md_monitoring_evidence = [],
     md_recalibration_consumed_evidence = [], md_model_card = None, md_created_at = Aware 0 0,
     md_updated_at = Aware 0 0, md_validation_due_at = None, md_retired_at = None, md_replacement_model_id = None\<rparr>"

definition sample_check :: automated_check where
  "sample_check = \<lparr>ac_check_id = ''c'', ac_check_kind = ''k'', ac_result = PASS,
     ac_result_artifact = sample_artifact ''c'', ac_executed_at = Aware 0 0\<rparr>"

definition sample_validation :: model_validation where
  "sample_validation = \<lparr>mv_validation_id = ''v'', mv_validator_principal = ''val'',
     mv_validation_evidence = [sample_artifact ''v''], mv_conceptual_soundness = sample_check,
     mv_implementation_correctness = sample_check, mv_sensitivity = sample_check, mv_monitoring_thresholds = [''t''],
     mv_challenger_evidence = [], mv_completed_at = Aware 0 0\<rparr>"

theorem admission_iff_witness:
  "ad_admissible (assess_model_admission (sample_model ''m1'' APPROVED) (Some sample_validation))"
  unfolding admission_iff by (simp add: sample_model_def sample_validation_def sample_artifact_def)

theorem common_dependencies_shared_witness:
  "dict_get (find_common_dependencies [sample_model ''m1'' APPROVED, sample_model ''m2'' WATCH]) ''numpy'' = Some [''m1'', ''m2'']"
proof -
  have "\<forall>m \<in> set [sample_model ''m1'' APPROVED, sample_model ''m2'' WATCH]. distinct (md_dependencies m)"
    by (simp add: sample_model_def)
  from common_dependencies_shared [OF this, of "''numpy''"] show ?thesis by (simp add: sample_model_def)
qed

end
