(* ===== verification/DataRecords.thy ===== *)
theory DataRecords
  imports FinTypes
begin

text \<open>
  The schemas of the data layer, \<open>liki/data/models.py\<close> and the contracts of
  \<open>liki/data/monitoring.py\<close>: UTC timestamps, dataset manifests, canonical market records,
  validation findings, provider reconciliation and clock measurements. A \<open>mk_*\<close> function
  is the construction of an instance with the validators of its class.
\<close>

section \<open>Timestamps\<close>

definition ensure_utc :: "datetime \<Rightarrow> datetime result" where
  "ensure_utc d =
     (case d of
        Naive w \<Rightarrow> Inl (ValueError ''timestamp must be timezone-aware'')
      | Aware i off \<Rightarrow>
          if off \<noteq> 0 then Inl (ValueError ''timestamp must be expressed in UTC'')
          else Inr (Aware i 0))"

definition ensure_optional_utc :: "datetime option \<Rightarrow> datetime option result" where
  "ensure_optional_utc d =
     (case d of None \<Rightarrow> Inr None | Some x \<Rightarrow> rbind (ensure_utc x) (\<lambda>y. Inr (Some y)))"

lemma ensure_utc_iff: "ensure_utc d = Inr e \<longleftrightarrow> is_utc d \<and> e = d"
  by (cases d) (auto simp: ensure_utc_def)

lemma ensure_utc_ok [simp]: "is_utc d \<Longrightarrow> ensure_utc d = Inr d"
  by (simp add: ensure_utc_iff)

lemma ensure_utc_fails: "\<not> is_utc d \<Longrightarrow> \<exists>m. ensure_utc d = Inl (ValueError m)"
  by (cases d) (auto simp: ensure_utc_def)

lemma ensure_utc_aware [simp]: "ensure_utc (Aware i 0) = Inr (Aware i 0)"
  by simp

lemma ensure_optional_utc_iff:
  "ensure_optional_utc d = Inr e \<longleftrightarrow> (\<forall>x. d = Some x \<longrightarrow> is_utc x) \<and> e = d"
  by (auto simp: ensure_optional_utc_def rbind_eq_Inr ensure_utc_iff split: option.splits)

text \<open>A validator applied to several fields: the first failure is the one reported.\<close>

fun each_utc :: "datetime list \<Rightarrow> unit result" where
  "each_utc [] = Inr ()"
| "each_utc (d # ds) = rbind (ensure_utc d) (\<lambda>_. each_utc ds)"

lemma each_utc_iff [simp]: "each_utc ds = Inr u \<longleftrightarrow> list_all is_utc ds"
  by (induction ds) (auto simp: rbind_eq_Inr ensure_utc_iff)

declare each_utc.simps [simp del]

section \<open>Enumerations\<close>

datatype quality_status = Q_PASS | Q_WARN | Q_FAIL | QUARANTINED

datatype price_kind = INDEX_PRICE | MARK_PRICE | LAST_PRICE | TRADE_PRICE | BBO_PRICE

datatype finding_kind =
    GAP
  | DUPLICATE
  | BAD_TICK
  | UNCERTAIN
  | LOOKAHEAD
  | STALE
  | SOURCE_COMPROMISE
  | PROVIDER_DISAGREEMENT

datatype disagreement_class =
    TIMESTAMP_CONVENTION
  | SYMBOL_MAPPING
  | STALE_SOURCE
  | VENUE_DIFFERENCE
  | VENDOR_REPAIR
  | MARKET_DISCREPANCY
  | UNRESOLVED

section \<open>Raw payloads\<close>

text \<open>SHA-256 of the bytes, in hexadecimal, is a parameter: \<open>hashlib\<close> is not under \<open>src\<close>.\<close>

record raw_payload =
  rp_content_hash :: string
  rp_provider :: string
  rp_uri :: string
  rp_retrieved_at :: datetime
  rp_content_type :: string
  rp_provider_revision_id :: "string option"
  rp_transport_metadata :: "(string \<times> string) list"
  rp_payload_bytes :: "nat list"

definition raw_from_bytes ::
  "(nat list \<Rightarrow> string) \<Rightarrow> string \<Rightarrow> string \<Rightarrow> nat list \<Rightarrow> datetime \<Rightarrow> raw_payload result" where
  "raw_from_bytes sha256_hex provider uri content retrieved_at =
     rbind (ensure_utc retrieved_at) (\<lambda>when.
     Inr \<lparr>rp_content_hash = ''sha256:'' @ sha256_hex content, rp_provider = provider, rp_uri = uri,
          rp_retrieved_at = when, rp_content_type = ''application/json'',
          rp_provider_revision_id = None, rp_transport_metadata = [],
          rp_payload_bytes = content\<rparr>)"

section \<open>Dataset manifests\<close>

text \<open>The values of a repair event, \<open>Any\<close> in the source, are kept as strings; no code reads them.\<close>

record dataset_manifest =
  dm_snapshot_id :: string
  dm_provider :: string
  dm_venue :: string
  dm_instrument :: string
  dm_instrument_type :: string
  dm_timezone :: string
  dm_start_time :: datetime
  dm_end_time :: datetime
  dm_as_of_time :: datetime
  dm_fetched_at :: datetime
  dm_candle_semantics :: string
  dm_timestamp_semantics :: string
  dm_provider_revision_id :: "string option"
  dm_missing_intervals :: "(datetime \<times> datetime) list"
  dm_repair_events :: "(string \<times> string) list list"
  dm_duplicates_removed :: int
  dm_bad_ticks_removed :: int
  dm_corporate_action_policy :: "string option"
  dm_delisting_policy :: string
  dm_survivorship_policy :: string
  dm_freshness_sec :: int
  dm_freshness_sla_sec :: int
  dm_schema_hash :: string
  dm_content_hash :: string
  dm_quality_status :: quality_status
  dm_raw_payload_hashes :: "string list"
  dm_license_restrictions :: "string option"
  dm_retention_until :: "datetime option"
  dm_fidelity_tier :: fidelity_tier
  dm_coverage_limitations :: "string list"

fun check_intervals :: "(datetime \<times> datetime) list \<Rightarrow> unit result" where
  "check_intervals [] = Inr ()"
| "check_intervals ((from_t, to_t) # rest) =
     rbind (ensure_utc from_t) (\<lambda>a.
     rbind (ensure_utc to_t) (\<lambda>b.
     rbind (require (\<not> instant b \<le> instant a)
              (ValueError ''missing interval must have positive UTC duration'')) (\<lambda>_.
     check_intervals rest)))"

definition mk_dataset_manifest :: "dataset_manifest \<Rightarrow> dataset_manifest result" where
  "mk_dataset_manifest m =
     rbind (each_utc [dm_start_time m, dm_end_time m, dm_as_of_time m, dm_fetched_at m]) (\<lambda>_.
     rbind (ensure_optional_utc (dm_retention_until m)) (\<lambda>_.
     rbind (require (0 \<le> dm_duplicates_removed m \<and> 0 \<le> dm_bad_ticks_removed m
                     \<and> 0 \<le> dm_freshness_sec m \<and> 0 \<le> dm_freshness_sla_sec m)
              (ValueError ''greater than or equal to 0'')) (\<lambda>_.
     rbind (require (dm_timezone m = ''UTC'')
              (ValueError ''LIKI canonical data timestamps must use UTC'')) (\<lambda>_.
     rbind (require (\<not> instant (dm_end_time m) < instant (dm_start_time m))
              (ValueError ''end_time precedes start_time'')) (\<lambda>_.
     rbind (require (\<not> instant (dm_as_of_time m) < instant (dm_end_time m))
              (ValueError ''as_of_time precedes dataset end_time'')) (\<lambda>_.
     rbind (require (\<not> (dm_freshness_sla_sec m < dm_freshness_sec m
                        \<and> dm_quality_status m \<in> {Q_PASS, Q_WARN}))
              (ValueError ''stale data must be failed or quarantined'')) (\<lambda>_.
     rbind (require (dm_raw_payload_hashes m \<noteq> [])
              (ValueError ''dataset must retain immutable raw provenance pointers'')) (\<lambda>_.
     rbind (check_intervals (dm_missing_intervals m)) (\<lambda>_. Inr m)))))))))"

lemma check_intervals_iff:
  "check_intervals xs = Inr u \<longleftrightarrow>
     (\<forall>(a, b) \<in> set xs. is_utc a \<and> is_utc b \<and> instant a < instant b)"
  by (induction xs rule: check_intervals.induct) (auto simp: rbind_eq_Inr ensure_utc_iff)

lemma manifest_fresh:
  assumes "mk_dataset_manifest m = Inr m'" and "dm_quality_status m \<in> {Q_PASS, Q_WARN}"
  shows "dm_freshness_sec m \<le> dm_freshness_sla_sec m"
    and "instant (dm_start_time m) \<le> instant (dm_end_time m)"
    and "instant (dm_end_time m) \<le> instant (dm_as_of_time m)"
    and "dm_raw_payload_hashes m \<noteq> []"
  using assms by (auto simp: mk_dataset_manifest_def rbind_eq_Inr)

section \<open>Canonical market records\<close>

record market_record =
  mr_instrument_id :: string
  mr_event_time :: datetime
  mr_available_at :: datetime
  mr_price :: rat
  mr_quantity :: "rat option"
  mr_price_kind :: price_kind
  mr_raw_payload_hash :: string

definition mk_market_record :: "market_record \<Rightarrow> market_record result" where
  "mk_market_record r =
     rbind (each_utc [mr_event_time r, mr_available_at r]) (\<lambda>_.
     rbind (require (0 < mr_price r) (ValueError ''price must be greater than 0'')) (\<lambda>_.
     rbind (require (\<not> (case mr_quantity r of None \<Rightarrow> False | Some q \<Rightarrow> q < 0))
              (ValueError ''quantity must be greater than or equal to 0'')) (\<lambda>_.
     rbind (require (\<not> instant (mr_available_at r) < instant (mr_event_time r))
              (ValueError ''available_at cannot precede event_time'')) (\<lambda>_. Inr r))))"

definition valid_market_record :: "market_record \<Rightarrow> bool" where
  "valid_market_record r = (mk_market_record r = Inr r)"

lemma valid_market_recordD:
  assumes "valid_market_record r"
  shows "is_utc (mr_event_time r)" "is_utc (mr_available_at r)" "0 < mr_price r"
    "instant (mr_event_time r) \<le> instant (mr_available_at r)"
    "mr_quantity r = Some q \<Longrightarrow> 0 \<le> q"
  using assms by (auto simp: valid_market_record_def mk_market_record_def rbind_eq_Inr)

section \<open>Validation findings\<close>

record finding =
  vf_kind :: finding_kind
  vf_severity :: quality_status
  vf_reason :: string
  vf_at :: "datetime option"
  vf_hashes :: "string list"

text \<open>Every finding the code builds carries its instant, which is checked.\<close>

definition mk_finding ::
  "finding_kind \<Rightarrow> quality_status \<Rightarrow> string \<Rightarrow> datetime \<Rightarrow> string list \<Rightarrow> finding result" where
  "mk_finding kind severity reason when raw_hashes =
     rbind (ensure_utc when) (\<lambda>t.
     Inr \<lparr>vf_kind = kind, vf_severity = severity, vf_reason = reason, vf_at = Some t,
          vf_hashes = raw_hashes\<rparr>)"

section \<open>Monitoring\<close>

record reconciliation_record =
  rr_comparison_id :: string
  rr_primary_provider :: string
  rr_comparison_provider :: string
  rr_classification :: disagreement_class
  rr_compared_at :: datetime
  rr_rationale :: string
  rr_primary_raw_hash :: string
  rr_comparison_raw_hash :: string

definition reconciliation_finding :: "reconciliation_record \<Rightarrow> finding option result" where
  "reconciliation_finding r =
     (if rr_classification r \<noteq> UNRESOLVED then Inr None
      else rbind (mk_finding PROVIDER_DISAGREEMENT Q_FAIL (rr_rationale r) (rr_compared_at r)
                    [rr_primary_raw_hash r, rr_comparison_raw_hash r]) (\<lambda>f. Inr (Some f)))"

record clock_measurement =
  cm_measured_at :: datetime
  cm_before :: datetime
  cm_after :: datetime
  cm_venue_time :: datetime
  cm_maximum_offset :: int

text \<open>
  Python divides a \<open>timedelta\<close> by two rounding half to even, in microseconds.
\<close>

definition round_trip :: "clock_measurement \<Rightarrow> int" where
  "round_trip c = instant (cm_after c) - instant (cm_before c)"

definition clock_offset :: "clock_measurement \<Rightarrow> int" where
  "clock_offset c =
     (let midpoint = instant (cm_before c) + half_even (of_int (round_trip c) / 2)
      in instant (cm_venue_time c) - midpoint)"

definition latency_sensitive_usable :: "clock_measurement \<Rightarrow> bool" where
  "latency_sensitive_usable c = (0 \<le> round_trip c \<and> \<bar>clock_offset c\<bar> \<le> cm_maximum_offset c)"

text \<open>
  A usable measurement bounds the distance of the venue clock from every instant of the
  round trip.
\<close>

lemma usable_clock_bound:
  assumes "latency_sensitive_usable c"
    and "instant (cm_before c) \<le> t" and "t \<le> instant (cm_after c)"
  shows "\<bar>instant (cm_venue_time c) - t\<bar> \<le> cm_maximum_offset c + (round_trip c + 1) div 2"
proof -
  let ?h = "half_even (of_int (round_trip c) / 2)"
  have e: "\<bar>of_int ?h - (of_int (round_trip c) / 2 :: rat)\<bar> \<le> 1 / 2" by (rule half_even_error)
  then have "\<bar>of_int (2 * ?h - round_trip c) :: rat\<bar> \<le> 1"
    by (simp add: abs_le_iff field_simps)
  then have h: "\<bar>2 * ?h - round_trip c\<bar> \<le> 1" by linarith
  have "\<bar>instant (cm_venue_time c) - (instant (cm_before c) + ?h)\<bar> \<le> cm_maximum_offset c"
    using assms(1) by (simp add: latency_sensitive_usable_def clock_offset_def)
  moreover have "t \<le> instant (cm_before c) + round_trip c" using assms(3) by (simp add: round_trip_def)
  ultimately show ?thesis using assms(2) h by linarith
qed

end
