(* ===== verification/OrderBooks.thy ===== *)
theory OrderBooks
  imports DataRecords
begin

text \<open>
  The sequence-validated L2 book of \<open>liki/data/orderbook.py\<close>. An operation of the class
  mutates the object and may raise halfway, so its model returns the new book together with
  the exception, if any.
\<close>

section \<open>Messages\<close>

type_synonym level = "rat \<times> rat"

type_synonym levels = "(rat \<times> rat) list"

record book_snapshot =
  bs_last_update_id :: int
  bs_bids :: "level list"
  bs_asks :: "level list"
  bs_event_time :: datetime
  bs_received_at :: datetime

record book_delta =
  bd_first_update_id :: int
  bd_final_update_id :: int
  bd_bids :: "level list"
  bd_asks :: "level list"
  bd_event_time :: datetime
  bd_received_at :: datetime

definition mk_book_snapshot :: "book_snapshot \<Rightarrow> book_snapshot result" where
  "mk_book_snapshot s =
     rbind (require (0 \<le> bs_last_update_id s) (ValueError ''greater than or equal to 0'')) (\<lambda>_.
     rbind (each_utc [bs_event_time s, bs_received_at s]) (\<lambda>_. Inr s))"

definition mk_book_delta :: "book_delta \<Rightarrow> book_delta result" where
  "mk_book_delta d =
     rbind (require (0 \<le> bd_first_update_id d \<and> 0 \<le> bd_final_update_id d)
              (ValueError ''greater than or equal to 0'')) (\<lambda>_.
     rbind (each_utc [bd_event_time d, bd_received_at d]) (\<lambda>_.
     rbind (require (\<not> bd_final_update_id d < bd_first_update_id d)
              (ValueError ''final update ID must not precede first update ID'')) (\<lambda>_. Inr d)))"

section \<open>The book\<close>

record book =
  bk_bids :: levels
  bk_asks :: levels
  bk_last_update_id :: "int option"
  bk_valid :: bool
  bk_gap_count :: nat
  bk_duplicate_count :: nat

definition new_book :: book where
  "new_book = \<lparr>bk_bids = [], bk_asks = [], bk_last_update_id = None, bk_valid = False,
               bk_gap_count = 0, bk_duplicate_count = 0\<rparr>"

fun apply_levels :: "levels \<Rightarrow> level list \<Rightarrow> levels \<times> exn option" where
  "apply_levels levels [] = (levels, None)"
| "apply_levels levels ((price, quantity) # changes) =
     (if price \<le> 0 \<or> quantity < 0 then (levels, Some (ValueError ''invalid order-book level''))
      else if quantity = 0 then apply_levels (dict_del price levels) changes
      else apply_levels (dict_set price quantity levels) changes)"

text \<open>
  \<open>update_sides\<close> is the pair of calls both operations make: the bids first, and the asks
  only when the bids did not raise.
\<close>

definition update_sides :: "level list \<Rightarrow> level list \<Rightarrow> book \<Rightarrow> book \<times> exn option" where
  "update_sides bids asks bk =
     (let (bids', e) = apply_levels (bk_bids bk) bids;
          bk1 = bk\<lparr>bk_bids := bids'\<rparr>
      in case e of
           Some x \<Rightarrow> (bk1, Some x)
         | None \<Rightarrow>
             let (asks', e') = apply_levels (bk_asks bk1) asks
             in (bk1\<lparr>bk_asks := asks'\<rparr>, e'))"

definition apply_snapshot :: "book_snapshot \<Rightarrow> book \<Rightarrow> book \<times> exn option" where
  "apply_snapshot s bk =
     (let (bk1, e) = update_sides (bs_bids s) (bs_asks s) (bk\<lparr>bk_bids := [], bk_asks := []\<rparr>)
      in case e of
           Some x \<Rightarrow> (bk1, Some x)
         | None \<Rightarrow> (bk1\<lparr>bk_last_update_id := Some (bs_last_update_id s), bk_valid := True\<rparr>, None))"

definition apply_delta :: "book_delta \<Rightarrow> book \<Rightarrow> book \<times> exn option" where
  "apply_delta d bk =
     (case (bk_valid bk, bk_last_update_id bk) of
        (True, Some last_id) \<Rightarrow>
          if bd_final_update_id d \<le> last_id
          then (bk\<lparr>bk_duplicate_count := bk_duplicate_count bk + 1\<rparr>, None)
          else if \<not> (bd_first_update_id d \<le> last_id + 1 \<and> last_id + 1 \<le> bd_final_update_id d)
          then (bk\<lparr>bk_valid := False, bk_gap_count := bk_gap_count bk + 1\<rparr>,
                Some (SequenceGapError ''order-book sequence gap; resynchronization required''))
          else (let (bk1, e) = update_sides (bd_bids d) (bd_asks d) bk
                in case e of
                     Some x \<Rightarrow> (bk1, Some x)
                   | None \<Rightarrow> (bk1\<lparr>bk_last_update_id := Some (bd_final_update_id d)\<rparr>, None))
      | _ \<Rightarrow> (bk, Some (SequenceGapError ''order book requires a snapshot before deltas'')))"

definition mid_price :: "book \<Rightarrow> rat result" where
  "mid_price bk =
     (if \<not> bk_valid bk \<or> bk_bids bk = [] \<or> bk_asks bk = []
      then Inl (SequenceGapError ''order-book feature invalid without a continuous book'')
      else ddiv (dadd (Max (set (dict_keys (bk_bids bk)))) (Min (set (dict_keys (bk_asks bk))))) 2)"

text \<open>A caller's session: messages in the order they arrive, exceptions caught and dropped.\<close>

datatype message = Snapshot book_snapshot | Delta book_delta

fun receive :: "book \<Rightarrow> message \<Rightarrow> book" where
  "receive bk (Snapshot s) = fst (apply_snapshot s bk)"
| "receive bk (Delta d) = fst (apply_delta d bk)"

section \<open>Levels\<close>

definition levels_ok :: "levels \<Rightarrow> bool" where
  "levels_ok ls \<longleftrightarrow> distinct (dict_keys ls) \<and> (\<forall>(p, q) \<in> set ls. 0 < p \<and> 0 < q)"

definition qty_at :: "levels \<Rightarrow> rat \<Rightarrow> rat" where
  "qty_at ls p = (case dict_get ls p of None \<Rightarrow> 0 | Some q \<Rightarrow> q)"

definition well_formed :: "level list \<Rightarrow> bool" where
  "well_formed cs \<longleftrightarrow> (\<forall>(p, q) \<in> set cs. 0 < p \<and> 0 \<le> q)"

lemma qty_at_Nil [simp]: "qty_at [] p = 0"
  by (simp add: qty_at_def)

lemma levels_ok_Nil [simp]: "levels_ok []"
  by (simp add: levels_ok_def)

lemma levels_ok_del: "levels_ok ls \<Longrightarrow> levels_ok (dict_del p ls)"
  by (auto simp: levels_ok_def set_dict_del intro: distinct_dict_del)

lemma levels_ok_set: "levels_ok ls \<Longrightarrow> 0 < p \<Longrightarrow> 0 < q \<Longrightarrow> levels_ok (dict_set p q ls)"
  unfolding levels_ok_def by (auto simp: set_dict_set intro: distinct_dict_set)

lemma apply_levels_ok: "levels_ok ls \<Longrightarrow> levels_ok (fst (apply_levels ls cs))"
  by (induction ls cs rule: apply_levels.induct) (simp_all add: levels_ok_del levels_ok_set)

lemma apply_levels_error: "snd (apply_levels ls cs) = None \<longleftrightarrow> well_formed cs"
  by (induction ls cs rule: apply_levels.induct) (auto simp: well_formed_def)

lemma apply_levels_qty:
  assumes "well_formed cs"
  shows "qty_at (fst (apply_levels ls cs)) p
           = (case map_of (rev cs) p of None \<Rightarrow> qty_at ls p | Some q \<Rightarrow> q)"
  using assms
proof (induction ls cs rule: apply_levels.induct)
  case (1 ls)
  then show ?case by simp
next
  case (2 ls price quantity cs)
  from "2.prems" have wf: "0 < price" "0 \<le> quantity" "well_formed cs"
    by (auto simp: well_formed_def)
  show ?case
  proof (cases "quantity = 0")
    case True
    with 2 wf show ?thesis
      by (auto simp: map_add_def qty_at_def dict_get_del split: option.splits)
  next
    case False
    with 2 wf show ?thesis
      by (auto simp: map_add_def qty_at_def dict_get_set split: option.splits)
  qed
qed

section \<open>The invariant of the book\<close>

definition book_ok :: "book \<Rightarrow> bool" where
  "book_ok bk \<longleftrightarrow> levels_ok (bk_bids bk) \<and> levels_ok (bk_asks bk)
                \<and> (bk_valid bk \<longrightarrow> bk_last_update_id bk \<noteq> None)"

lemma update_sides_parts:
  "fst (update_sides bids asks bk) =
     bk\<lparr>bk_bids := fst (apply_levels (bk_bids bk) bids),
        bk_asks := (if well_formed bids then fst (apply_levels (bk_asks bk) asks) else bk_asks bk)\<rparr>"
  "snd (update_sides bids asks bk) = None \<longleftrightarrow> well_formed bids \<and> well_formed asks"
  using apply_levels_error [of "bk_bids bk" bids] apply_levels_error [of "bk_asks bk" asks]
  by (auto simp: update_sides_def Let_def split: prod.splits option.splits)

lemma apply_snapshot_unfold:
  "fst (apply_snapshot s bk) =
     (let bk1 = fst (update_sides (bs_bids s) (bs_asks s) (bk\<lparr>bk_bids := [], bk_asks := []\<rparr>))
      in if well_formed (bs_bids s) \<and> well_formed (bs_asks s)
         then bk1\<lparr>bk_last_update_id := Some (bs_last_update_id s), bk_valid := True\<rparr> else bk1)"
  "snd (apply_snapshot s bk) = None \<longleftrightarrow> well_formed (bs_bids s) \<and> well_formed (bs_asks s)"
  using update_sides_parts(2) [of "bs_bids s" "bs_asks s" "bk\<lparr>bk_bids := [], bk_asks := []\<rparr>"]
  by (auto simp: apply_snapshot_def Let_def split: prod.splits option.splits)

lemma apply_delta_stale:
  "\<not> bk_valid bk \<Longrightarrow> fst (apply_delta d bk) = bk"
  "bk_last_update_id bk = None \<Longrightarrow> fst (apply_delta d bk) = bk"
  by (simp_all add: apply_delta_def split: bool.splits)

lemma apply_delta_live:
  assumes "bk_valid bk" and "bk_last_update_id bk = Some n"
  shows "fst (apply_delta d bk) =
    (if bd_final_update_id d \<le> n then bk\<lparr>bk_duplicate_count := bk_duplicate_count bk + 1\<rparr>
     else if \<not> (bd_first_update_id d \<le> n + 1 \<and> n + 1 \<le> bd_final_update_id d)
     then bk\<lparr>bk_valid := False, bk_gap_count := bk_gap_count bk + 1\<rparr>
     else let bk1 = fst (update_sides (bd_bids d) (bd_asks d) bk)
          in if well_formed (bd_bids d) \<and> well_formed (bd_asks d)
             then bk1\<lparr>bk_last_update_id := Some (bd_final_update_id d)\<rparr> else bk1)"
  using update_sides_parts(2) [of "bd_bids d" "bd_asks d" bk] assms
  by (auto simp: apply_delta_def Let_def split: prod.splits option.splits)

lemma book_ok_receive: "book_ok bk \<Longrightarrow> book_ok (receive bk m)"
proof (cases m)
  case (Snapshot s)
  assume "book_ok bk"
  with Snapshot show ?thesis
    by (auto simp: apply_snapshot_unfold update_sides_parts book_ok_def apply_levels_ok Let_def)
next
  case (Delta d)
  assume ok: "book_ok bk"
  show ?thesis
  proof (cases "bk_valid bk")
    case False
    with ok Delta show ?thesis by (simp add: apply_delta_stale)
  next
    case True
    with ok obtain n where "bk_last_update_id bk = Some n" by (auto simp: book_ok_def)
    with ok True Delta show ?thesis
      by (auto simp: apply_delta_live update_sides_parts book_ok_def apply_levels_ok Let_def)
  qed
qed

lemma book_ok_session: "book_ok bk \<Longrightarrow> book_ok (foldl receive bk ms)"
  by (induction ms arbitrary: bk) (simp_all add: book_ok_receive)

lemma book_ok_new: "book_ok new_book"
  by (simp add: book_ok_def new_book_def)

section \<open>The venue's book\<close>

text \<open>
  The venue's own book is a history: the quantity resting at each price after each update
  identifier. A delta is faithful when a level it lists carries the quantity the venue has
  after its last identifier, and a level it does not list has not moved over the
  identifiers the delta covers; a snapshot is faithful when it lists what is resting.
\<close>

type_synonym history = "int \<Rightarrow> rat \<Rightarrow> rat"

definition reports :: "(rat \<Rightarrow> rat) \<Rightarrow> (rat \<Rightarrow> bool) \<Rightarrow> level list \<Rightarrow> bool" where
  "reports after unmoved cs \<longleftrightarrow> well_formed cs \<and>
     (\<forall>p. case map_of (rev cs) p of Some q \<Rightarrow> q = after p | None \<Rightarrow> unmoved p)"

definition faithful :: "history \<Rightarrow> history \<Rightarrow> message \<Rightarrow> bool" where
  "faithful bids asks m \<longleftrightarrow>
     (case m of
        Snapshot s \<Rightarrow>
          let n = bs_last_update_id s
          in reports (bids n) (\<lambda>p. bids n p = 0) (bs_bids s)
             \<and> reports (asks n) (\<lambda>p. asks n p = 0) (bs_asks s)
      | Delta d \<Rightarrow>
          let n = bd_final_update_id d;
              still = (\<lambda>h p. \<forall>k \<in> {bd_first_update_id d - 1..n}. h k p = h n p)
          in reports (bids n) (still bids) (bd_bids d) \<and> reports (asks n) (still asks) (bd_asks d))"

definition tracks :: "history \<Rightarrow> history \<Rightarrow> book \<Rightarrow> bool" where
  "tracks bids asks bk \<longleftrightarrow> (bk_valid bk \<longrightarrow>
     (\<exists>n. bk_last_update_id bk = Some n \<and> qty_at (bk_bids bk) = bids n \<and> qty_at (bk_asks bk) = asks n))"

lemma reports_snapshot:
  assumes "reports h (\<lambda>p. h p = 0) cs"
  shows "qty_at (fst (apply_levels [] cs)) = h"
proof
  fix p
  from assms have "well_formed cs" by (simp add: reports_def)
  moreover from assms have "case map_of (rev cs) p of Some q \<Rightarrow> q = h p | None \<Rightarrow> h p = 0"
    by (simp add: reports_def)
  ultimately show "qty_at (fst (apply_levels [] cs)) p = h p"
    by (simp add: apply_levels_qty split: option.splits)
qed

lemma reports_delta:
  fixes h :: history
  assumes "reports (h n) (\<lambda>p. \<forall>k \<in> {i - 1..n}. h k p = h n p) cs"
    and "i \<le> m + 1" and "m + 1 \<le> n" and "qty_at ls = h m"
  shows "qty_at (fst (apply_levels ls cs)) = h n"
proof
  fix p
  from assms(1) have "well_formed cs" by (simp add: reports_def)
  have spec: "case map_of (rev cs) p of Some q \<Rightarrow> q = h n p | None \<Rightarrow> \<forall>k \<in> {i - 1..n}. h k p = h n p"
    using assms(1) unfolding reports_def by (elim conjE allE)
  have "(case map_of (rev cs) p of None \<Rightarrow> h m p | Some q \<Rightarrow> q) = h n p"
  proof (cases "map_of (rev cs) p")
    case None
    with spec have "\<forall>k \<in> {i - 1..n}. h k p = h n p" by (simp only: option.case)
    then have "h m p = h n p" by (rule bspec) (use assms(2,3) in simp)
    with None show ?thesis by (simp only: option.case)
  next
    case (Some q)
    with spec have "q = h n p" by (simp only: option.case)
    with Some show ?thesis by (simp only: option.case)
  qed
  with \<open>well_formed cs\<close> show "qty_at (fst (apply_levels ls cs)) p = h n p"
    by (simp only: apply_levels_qty assms(4))
qed

lemma tracks_receive:
  assumes "faithful bids asks m" and "tracks bids asks bk" and "book_ok bk"
  shows "tracks bids asks (receive bk m)"
proof (cases m)
  case (Snapshot s)
  with assms(1) have "reports (bids (bs_last_update_id s)) (\<lambda>p. bids (bs_last_update_id s) p = 0) (bs_bids s)"
    "reports (asks (bs_last_update_id s)) (\<lambda>p. asks (bs_last_update_id s) p = 0) (bs_asks s)"
    by (simp_all add: faithful_def Let_def)
  moreover from this have "well_formed (bs_bids s)" "well_formed (bs_asks s)"
    by (simp_all add: reports_def)
  ultimately show ?thesis
    using Snapshot by (simp add: tracks_def apply_snapshot_unfold update_sides_parts Let_def reports_snapshot)
next
  case (Delta d)
  show ?thesis
  proof (cases "bk_valid bk")
    case False
    then show ?thesis using Delta assms(2) by (simp add: apply_delta_stale)
  next
    case True
    with assms(2) obtain n where n: "bk_last_update_id bk = Some n"
      and q: "qty_at (bk_bids bk) = bids n" "qty_at (bk_asks bk) = asks n"
      by (auto simp: tracks_def)
    let ?f = "bd_final_update_id d"
    from assms(1) Delta have r:
      "reports (bids ?f) (\<lambda>p. \<forall>k \<in> {bd_first_update_id d - 1..?f}. bids k p = bids ?f p) (bd_bids d)"
      "reports (asks ?f) (\<lambda>p. \<forall>k \<in> {bd_first_update_id d - 1..?f}. asks k p = asks ?f p) (bd_asks d)"
      by (simp_all add: faithful_def Let_def)
    then have wf: "well_formed (bd_bids d)" "well_formed (bd_asks d)" by (simp_all add: reports_def)
    show ?thesis
    proof (cases "bd_first_update_id d \<le> n + 1 \<and> n + 1 \<le> ?f")
      case False
      with Delta n q show ?thesis
        by (auto simp: apply_delta_live [OF True n] tracks_def)
    next
      case True': True
      then have t: "bd_first_update_id d \<le> n + 1" "n + 1 \<le> ?f" by auto
      show ?thesis
        using Delta wf t reports_delta [OF r(1) t q(1)] reports_delta [OF r(2) t q(2)]
        by (simp add: apply_delta_live [OF True n] tracks_def update_sides_parts Let_def)
    qed
  qed
qed

lemma tracks_session:
  "list_all (faithful bids asks) ms \<Longrightarrow> tracks bids asks bk \<Longrightarrow> book_ok bk
     \<Longrightarrow> tracks bids asks (foldl receive bk ms)"
  by (induction ms arbitrary: bk) (simp_all add: tracks_receive book_ok_receive)

text \<open>
  C6 A book fed with a faithful market-data stream of any length, in which messages may be
  missing, repeated or replayed, holds exactly the venue's book at its last update
  identifier whenever it reports itself valid: sequence checks and level updates together
  refine the venue's history.
\<close>

theorem book_tracks_venue:
  assumes "list_all (faithful bids asks) ms"
    and "bk_valid (foldl receive new_book ms)"
  shows "\<exists>n. bk_last_update_id (foldl receive new_book ms) = Some n
           \<and> qty_at (bk_bids (foldl receive new_book ms)) = bids n
           \<and> qty_at (bk_asks (foldl receive new_book ms)) = asks n"
proof -
  have "tracks bids asks new_book" by (simp add: tracks_def new_book_def)
  then have "tracks bids asks (foldl receive new_book ms)"
    by (rule tracks_session [OF assms(1) _ book_ok_new])
  with assms(2) show ?thesis by (simp add: tracks_def)
qed

definition sample_book_snapshot :: book_snapshot where
  "sample_book_snapshot = \<lparr>bs_last_update_id = 5, bs_bids = [(99, 1)], bs_asks = [(101, 3)],
     bs_event_time = Aware 0 0, bs_received_at = Aware 0 0\<rparr>"

definition sample_book_delta :: book_delta where
  "sample_book_delta = \<lparr>bd_first_update_id = 4, bd_final_update_id = 7, bd_bids = [(99, 2), (98, 1)],
     bd_asks = [(101, 0)], bd_event_time = Aware 0 0, bd_received_at = Aware 0 0\<rparr>"

definition sample_bids :: history where
  "sample_bids n p = (if n < 6 then (if p = 99 then 1 else 0)
                      else if p = 99 then 2 else if p = 98 then 1 else 0)"

definition sample_asks :: history where
  "sample_asks n p = (if n < 7 \<and> p = 101 then 3 else 0)"

lemma sample_stream_faithful:
  "list_all (faithful sample_bids sample_asks) [Snapshot sample_book_snapshot, Delta sample_book_delta]"
  by (auto simp: faithful_def reports_def well_formed_def sample_bids_def sample_asks_def
      sample_book_snapshot_def sample_book_delta_def Let_def split: option.splits)

lemma sample_stream_valid:
  "bk_valid (foldl receive new_book [Snapshot sample_book_snapshot, Delta sample_book_delta])"
  by (simp add: new_book_def apply_snapshot_def apply_delta_def update_sides_def Let_def
      sample_book_snapshot_def sample_book_delta_def)

theorem book_tracks_venue_witness:
  "\<exists>n. bk_last_update_id (foldl receive new_book [Snapshot sample_book_snapshot, Delta sample_book_delta]) = Some n
     \<and> qty_at (bk_bids (foldl receive new_book [Snapshot sample_book_snapshot, Delta sample_book_delta])) = sample_bids n
     \<and> qty_at (bk_asks (foldl receive new_book [Snapshot sample_book_snapshot, Delta sample_book_delta])) = sample_asks n"
  by (rule book_tracks_venue [OF sample_stream_faithful sample_stream_valid])

section \<open>A malformed snapshot\<close>

text \<open>
  A lost message invalidates the book, and no later delta revives it.
\<close>

lemma invalid_deltas: "\<not> bk_valid bk \<Longrightarrow> foldl receive bk (map Delta ds) = bk"
  by (induction ds) (simp_all add: apply_delta_stale)

lemma gap_blocks_until_snapshot:
  assumes "bk_valid bk" and "bk_last_update_id bk = Some n" and "n + 1 < bd_first_update_id d"
    and "bd_first_update_id d \<le> bd_final_update_id d"
  shows "mid_price (foldl receive bk (map Delta (d # ds))) = Inl (SequenceGapError ''order-book feature invalid without a continuous book'')"
proof -
  have "\<not> bk_valid (receive bk (Delta d))"
    using assms by (simp add: apply_delta_live)
  then show ?thesis by (simp add: invalid_deltas mid_price_def del: receive.simps)
qed

text \<open>
  A malformed snapshot does not invalidate the book. A valid book that receives a
  snapshot with a bad ask level keeps \<open>valid\<close> and its old update identifier, while its
  bids and asks are already those of the rejected snapshot, so the mid price is served
  from them and deltas of the old sequence still apply: the state the class promises to
  discard on any loss of continuity.
\<close>

theorem malformed_snapshot_stays_valid:
  "\<exists>s1 s2 bk e.
     bk = foldl receive new_book [Snapshot s1]
   \<and> bk_valid bk \<and> bk_last_update_id bk = Some 5 \<and> mid_price bk = Inr 100
   \<and> bs_last_update_id s2 = 9 \<and> apply_snapshot s2 bk = (receive bk (Snapshot s2), Some e)
   \<and> bk_valid (receive bk (Snapshot s2)) \<and> bk_last_update_id (receive bk (Snapshot s2)) = Some 5
   \<and> mid_price (receive bk (Snapshot s2)) = Inr 201"
proof -
  let ?s1 = "sample_book_snapshot"
  let ?s2 = "sample_book_snapshot\<lparr>bs_last_update_id := 9, bs_bids := [(200, 1)],
               bs_asks := [(202, 1), (203, - 1)]\<rparr>"
  let ?b1 = "receive new_book (Snapshot ?s1)"
  have b1: "?b1 = \<lparr>bk_bids = [(99, 1)], bk_asks = [(101, 3)], bk_last_update_id = Some 5,
                  bk_valid = True, bk_gap_count = 0, bk_duplicate_count = 0\<rparr>"
    by (simp add: new_book_def apply_snapshot_def update_sides_def Let_def sample_book_snapshot_def)
  have a2: "apply_snapshot ?s2 ?b1 =
      (\<lparr>bk_bids = [(200, 1)], bk_asks = [(202, 1)], bk_last_update_id = Some 5,
        bk_valid = True, bk_gap_count = 0, bk_duplicate_count = 0\<rparr>, Some (ValueError ''invalid order-book level''))"
    unfolding b1 by (simp add: apply_snapshot_def update_sides_def Let_def)
  have m1: "mid_price ?b1 = Inr 100" unfolding b1 by (simp add: mid_price_def decimal_eval)
  have m2: "mid_price (receive ?b1 (Snapshot ?s2)) = Inr 201"
    using a2 by (simp add: mid_price_def decimal_eval)
  show ?thesis
  proof (intro exI conjI)
    show "?b1 = foldl receive new_book [Snapshot ?s1]" by simp
    show "apply_snapshot ?s2 ?b1 = (receive ?b1 (Snapshot ?s2), Some (ValueError ''invalid order-book level''))"
      using a2 by (simp only: receive.simps fst_conv)
  next
    have r: "receive ?b1 (Snapshot ?s2) = \<lparr>bk_bids = [(200, 1)], bk_asks = [(202, 1)],
        bk_last_update_id = Some 5, bk_valid = True, bk_gap_count = 0, bk_duplicate_count = 0\<rparr>"
      using a2 by (simp only: receive.simps fst_conv)
    show "bk_valid (receive ?b1 (Snapshot ?s2))" "bk_last_update_id (receive ?b1 (Snapshot ?s2)) = Some 5"
      by (simp_all only: r book.simps)
  qed (use m1 m2 b1 in simp_all)
qed

end
