(* ===== verification/SymbolMaster.thy ===== *)
theory SymbolMaster
  imports DataRecords Effective
begin

text \<open>
  The effective-dated symbol master of \<open>liki/data/instruments.py\<close>: validated instrument
  versions, the rejection of overlapping versions when the master is built, and the point
  in time lookups over it.
\<close>

section \<open>Instrument versions\<close>

datatype lifecycle_kind =
    LISTING
  | DELISTED
  | SUSPENSION
  | RELISTING
  | SYMBOL_CHANGE
  | REDENOMINATION
  | MIGRATED
  | EXPIRY
  | SETTLEMENT
  | RULE_CHANGE

record lifecycle_event =
  le_instrument_id :: string
  le_kind :: lifecycle_kind
  le_effective_at :: datetime
  le_details :: "(string \<times> string) list"
  le_conversion_ratio :: "rat option"
  le_raw_payload_hash :: string

definition mk_lifecycle_event :: "lifecycle_event \<Rightarrow> lifecycle_event result" where
  "mk_lifecycle_event e =
     rbind (ensure_utc (le_effective_at e)) (\<lambda>_.
     rbind (require (\<not> (case le_conversion_ratio e of None \<Rightarrow> False | Some r \<Rightarrow> r \<le> 0))
              (ValueError ''greater than 0'')) (\<lambda>_. Inr e))"

record symbol_spec =
  sym_instrument_id :: string
  sym_venue :: string
  sym_venue_symbol :: string
  sym_base_asset :: string
  sym_quote_asset :: string
  sym_contract_type :: string
  sym_effective_from :: datetime
  sym_effective_to :: "datetime option"
  sym_expiry_at :: "datetime option"
  sym_multiplier :: rat
  sym_settlement_asset :: "string option"
  sym_margin_asset :: "string option"
  sym_tick_size :: rat
  sym_lot_size :: rat
  sym_min_notional :: "rat option"
  sym_status :: string
  sym_historical_approximation :: "string option"
  sym_raw_payload_hash :: string

definition mk_symbol_spec :: "symbol_spec \<Rightarrow> symbol_spec result" where
  "mk_symbol_spec s =
     rbind (ensure_utc (sym_effective_from s)) (\<lambda>_.
     rbind (ensure_optional_utc (sym_effective_to s)) (\<lambda>_.
     rbind (ensure_optional_utc (sym_expiry_at s)) (\<lambda>_.
     rbind (require (0 < sym_multiplier s \<and> 0 < sym_tick_size s \<and> 0 < sym_lot_size s
                     \<and> \<not> (case sym_min_notional s of None \<Rightarrow> False | Some n \<Rightarrow> n \<le> 0))
              (ValueError ''greater than 0'')) (\<lambda>_.
     rbind (require (\<not> (case sym_effective_to s of None \<Rightarrow> False
                         | Some u \<Rightarrow> instant u \<le> instant (sym_effective_from s)))
              (ValueError ''effective_to must follow effective_from'')) (\<lambda>_. Inr s)))))"

definition valid_symbol_spec :: "symbol_spec \<Rightarrow> bool" where
  "valid_symbol_spec s = (mk_symbol_spec s = Inr s)"

abbreviation sym_start :: "symbol_spec \<Rightarrow> int" where
  "sym_start s \<equiv> instant (sym_effective_from s)"

abbreviation sym_till :: "symbol_spec \<Rightarrow> int option" where
  "sym_till s \<equiv> map_option instant (sym_effective_to s)"

definition is_effective_at :: "symbol_spec \<Rightarrow> datetime \<Rightarrow> bool result" where
  "is_effective_at s at_time =
     rbind (ensure_utc at_time) (\<lambda>t. Inr (covers sym_start sym_till s (instant t)))"

interpretation symbols: effective_dated sym_start sym_till valid_symbol_spec
  by unfold_locales
    (auto simp: valid_symbol_spec_def mk_symbol_spec_def rbind_eq_Inr split: option.splits)

section \<open>The master\<close>

record symbol_master =
  sm_specifications :: "symbol_spec list"
  sm_lifecycle_events :: "lifecycle_event list"

fun check_adjacent :: "symbol_spec list \<Rightarrow> unit result" where
  "check_adjacent (previous # current # rest) =
     (if (case sym_effective_to previous of None \<Rightarrow> True
          | Some u \<Rightarrow> instant (sym_effective_from current) < instant u)
      then Inl (ValueError ''overlapping effective-dated instrument specifications'')
      else check_adjacent (current # rest))"
| "check_adjacent _ = Inr ()"

definition validate_non_overlapping :: "symbol_spec list \<Rightarrow> unit result" where
  "validate_non_overlapping specs =
     rfold (\<lambda>_ (_, versions). check_adjacent (sort_key sym_start versions)) ()
       (foldl (group_append sym_instrument_id) [] specs)"

definition symbol_master_init ::
  "symbol_spec list \<Rightarrow> lifecycle_event list option \<Rightarrow> symbol_master result" where
  "symbol_master_init specs events =
     rbind (validate_non_overlapping specs) (\<lambda>_.
     Inr \<lparr>sm_specifications = specs,
          sm_lifecycle_events = (case events of None \<Rightarrow> [] | Some es \<Rightarrow> es)\<rparr>)"

definition specification_at :: "symbol_master \<Rightarrow> string \<Rightarrow> datetime \<Rightarrow> symbol_spec result" where
  "specification_at m instrument at_time =
     rbind (filter_result (\<lambda>s. if sym_instrument_id s = instrument then is_effective_at s at_time
                               else Inr False) (sm_specifications m)) (\<lambda>matches.
     if length matches \<noteq> 1 then Inl (LookupError ''no unambiguous instrument specification'')
     else Inr (hd matches))"

definition available_universe ::
  "symbol_master \<Rightarrow> datetime \<Rightarrow> string option \<Rightarrow> symbol_spec list result" where
  "available_universe m at_time venue =
     filter_result (\<lambda>s. rbind (is_effective_at s at_time) (\<lambda>on.
         Inr (on \<and> sym_status s = ''TRADING'' \<and> (venue = None \<or> Some (sym_venue s) = venue))))
       (sm_specifications m)"

section \<open>Grouping\<close>

definition versions_of :: "symbol_spec list \<Rightarrow> string \<Rightarrow> symbol_spec list" where
  "versions_of specs i = List.filter (\<lambda>s. sym_instrument_id s = i) specs"

lemma check_adjacent_chained: "check_adjacent cs = Inr u \<longleftrightarrow> chained sym_start sym_till cs"
  by (induction cs rule: check_adjacent.induct) (auto split: option.splits)

lemma rfold_unit: "rfold (\<lambda>_ x. f x) () xs = Inr () \<longleftrightarrow> (\<forall>x \<in> set xs. f x = Inr ())"
  by (induction xs) (auto simp: rbind_eq_Inr)

lemma validate_iff:
  "validate_non_overlapping specs = Inr () \<longleftrightarrow>
     (\<forall>i. chained sym_start sym_till (sort_key sym_start (versions_of specs i)))"
proof -
  have "validate_non_overlapping specs = Inr () \<longleftrightarrow>
      (\<forall>(i, vs) \<in> set (foldl (group_append sym_instrument_id) [] specs). chained sym_start sym_till (sort_key sym_start vs))"
    by (auto simp: validate_non_overlapping_def rfold_unit check_adjacent_chained)
  also have "\<dots> \<longleftrightarrow> (\<forall>i. versions_of specs i \<noteq> [] \<longrightarrow>
      chained sym_start sym_till (sort_key sym_start (versions_of specs i)))"
    by (auto simp: grouped versions_of_def filter_empty_conv image_iff)
  finally show ?thesis by (metis chained.simps(2) sort_key_simps(1))
qed

lemma versions_valid:
  "list_all valid_symbol_spec specs \<Longrightarrow> \<forall>s \<in> set (sort_key sym_start (versions_of specs i)). valid_symbol_spec s"
  by (simp add: versions_of_def list_all_iff)

section \<open>Point in time lookups\<close>

definition in_force :: "symbol_spec list \<Rightarrow> string \<Rightarrow> int \<Rightarrow> symbol_spec list" where
  "in_force specs i t =
     List.filter (\<lambda>s. sym_instrument_id s = i \<and> covers sym_start sym_till s t) specs"

lemma in_force_versions:
  "in_force specs i t = List.filter (\<lambda>s. covers sym_start sym_till s t) (versions_of specs i)"
  unfolding in_force_def versions_of_def filter_filter by (rule filter_cong) auto

lemma validate_disjoint:
  assumes "list_all valid_symbol_spec specs"
  shows "validate_non_overlapping specs = Inr () \<longleftrightarrow> (\<forall>i t. length (in_force specs i t) \<le> 1)"
proof -
  have "validate_non_overlapping specs = Inr ()
      \<longleftrightarrow> (\<forall>i t. length (List.filter (\<lambda>s. covers sym_start sym_till s t)
                              (sort_key sym_start (versions_of specs i))) \<le> 1)"
    by (simp add: validate_iff symbols.chained_iff_disjoint [OF sorted_sort_key versions_valid [OF assms]])
  then show ?thesis by (simp add: filter_sort_length in_force_versions)
qed

lemma accepted_disjoint:
  "list_all valid_symbol_spec specs \<Longrightarrow> validate_non_overlapping specs = Inr ()
     \<Longrightarrow> length (in_force specs i t) \<le> 1"
  using validate_disjoint by blast

text \<open>
  C18 The master accepts a list of valid instrument versions exactly when no instrument has
  two versions in force at any instant: the adjacent-pair check over the sorted versions
  of each instrument is equivalent to pairwise disjointness in time.
\<close>

theorem master_accepts_iff:
  assumes "list_all valid_symbol_spec specs"
  shows "(\<exists>m. symbol_master_init specs events = Inr m)
           \<longleftrightarrow> (\<forall>i t. length (in_force specs i t) \<le> 1)"
  using validate_disjoint [OF assms] by (auto simp: symbol_master_init_def rbind_eq_Inr)

text \<open>
  In a master that was accepted a lookup is exact: at a UTC instant it returns the one
  version in force for the instrument, and it fails only when none is in force, never
  because two are.
\<close>

theorem specification_exact:
  assumes "list_all valid_symbol_spec specs" and "symbol_master_init specs events = Inr m"
    and "is_utc t"
  shows "case specification_at m i t of
           Inr s \<Rightarrow> in_force specs i (instant t) = [s]
         | Inl e \<Rightarrow> in_force specs i (instant t) = []"
proof -
  have m: "sm_specifications m = specs" and v: "validate_non_overlapping specs = Inr ()"
    using assms(2) by (auto simp: symbol_master_init_def rbind_eq_Inr)
  have one: "length (in_force specs i (instant t)) \<le> 1"
    by (rule accepted_disjoint [OF assms(1) v])
  have f: "filter_result (\<lambda>s. if sym_instrument_id s = i then is_effective_at s t else Inr False) specs
      = Inr (in_force specs i (instant t))"
    unfolding in_force_def
    by (rule filter_result_Inr) (simp add: is_effective_at_def assms(3))
  show ?thesis
    using one by (cases "in_force specs i (instant t)") (auto simp: specification_at_def m f)
qed

section \<open>A master with two adjacent versions\<close>

definition sample_symbol :: symbol_spec where
  "sample_symbol = \<lparr>sym_instrument_id = ''BTC'', sym_venue = ''X'', sym_venue_symbol = ''BTCUSDT'',
     sym_base_asset = ''BTC'', sym_quote_asset = ''USDT'', sym_contract_type = ''SPOT'',
     sym_effective_from = Aware 0 0, sym_effective_to = Some (Aware 10 0), sym_expiry_at = None,
     sym_multiplier = 1, sym_settlement_asset = None, sym_margin_asset = None, sym_tick_size = 1,
     sym_lot_size = 1, sym_min_notional = None, sym_status = ''TRADING'',
     sym_historical_approximation = None, sym_raw_payload_hash = ''h''\<rparr>"

definition sample_symbols :: "symbol_spec list" where
  "sample_symbols =
     [sample_symbol\<lparr>sym_effective_from := Aware 10 0, sym_effective_to := None\<rparr>, sample_symbol]"

lemma sample_symbols_valid: "list_all valid_symbol_spec sample_symbols"
  by (simp add: sample_symbols_def sample_symbol_def valid_symbol_spec_def mk_symbol_spec_def
      ensure_optional_utc_def)

lemma sample_master:
  "symbol_master_init sample_symbols None
     = Inr \<lparr>sm_specifications = sample_symbols, sm_lifecycle_events = []\<rparr>"
  by (simp add: symbol_master_init_def validate_non_overlapping_def group_append_def
      sample_symbols_def sample_symbol_def)

theorem master_accepts_iff_witness: "length (in_force sample_symbols ''BTC'' 10) \<le> 1"
  using master_accepts_iff [OF sample_symbols_valid, of None] sample_master by blast

theorem specification_exact_witness:
  "case specification_at \<lparr>sm_specifications = sample_symbols, sm_lifecycle_events = []\<rparr> ''BTC'' (Aware 10 0) of
     Inr s \<Rightarrow> in_force sample_symbols ''BTC'' 10 = [s]
   | Inl e \<Rightarrow> in_force sample_symbols ''BTC'' 10 = []"
  using specification_exact [OF sample_symbols_valid sample_master, of "Aware 10 0" "''BTC''"]
  by (simp only: instant.simps is_utc.simps simp_thms)

end
