(* ===== verification/DataQuality.thy ===== *)
theory DataQuality
  imports DataRecords
begin

text \<open>
  Deterministic dataset validation and the promotion gate over its findings:
  \<open>liki/data/validation.py\<close>.
\<close>

section \<open>The validator\<close>

record dataset_validator =
  dv_max_gap :: int
  dv_max_staleness :: int

definition mk_dataset_validator :: "int \<Rightarrow> int \<Rightarrow> dataset_validator result" where
  "mk_dataset_validator max_gap max_staleness =
     (if max_gap \<le> 0 \<or> max_staleness < 0
      then Inl (ValueError ''gap and staleness policies must be non-negative'')
      else Inr \<lparr>dv_max_gap = max_gap, dv_max_staleness = max_staleness\<rparr>)"

type_synonym record_key = "int \<times> rat \<times> rat option \<times> price_kind"

text \<open>The local variables of the scan. Every record has a UTC event time, so instants key it.\<close>

record scan =
  sc_findings :: "finding list"
  sc_seen :: "record_key list"
  sc_previous :: "market_record option"

definition record_key :: "market_record \<Rightarrow> record_key" where
  "record_key r = (instant (mr_event_time r), mr_price r, mr_quantity r, mr_price_kind r)"

definition when_add :: "bool \<Rightarrow> finding result \<Rightarrow> finding list \<Rightarrow> finding list result" where
  "when_add c f fs = (if c then rbind f (\<lambda>x. Inr (fs @ [x])) else Inr fs)"

definition gap_after :: "int \<Rightarrow> market_record option \<Rightarrow> market_record \<Rightarrow> bool" where
  "gap_after max_gap previous r =
     (case previous of None \<Rightarrow> False
      | Some p \<Rightarrow> max_gap < instant (mr_event_time r) - instant (mr_event_time p))"

definition gap_finding :: "market_record option \<Rightarrow> market_record \<Rightarrow> finding result" where
  "gap_finding previous r =
     (case previous of None \<Rightarrow> Inl (TypeError ''None'')
      | Some p \<Rightarrow> mk_finding GAP Q_FAIL ''gap exceeds declared maximum'' (mr_event_time p)
                    [mr_raw_payload_hash p, mr_raw_payload_hash r])"

definition scan_step :: "int \<Rightarrow> datetime option \<Rightarrow> scan \<Rightarrow> market_record \<Rightarrow> scan result" where
  "scan_step max_gap decision st r =
     rbind (when_add (record_key r \<in> set (sc_seen st))
              (mk_finding DUPLICATE Q_WARN ''exact duplicate canonical record'' (mr_event_time r)
                 [mr_raw_payload_hash r])
              (sc_findings st)) (\<lambda>fs1.
     rbind (when_add (gap_after max_gap (sc_previous st) r) (gap_finding (sc_previous st) r) fs1) (\<lambda>fs2.
     rbind (case decision of
              None \<Rightarrow> Inr fs2
            | Some d \<Rightarrow>
                rbind (ensure_utc d) (\<lambda>t.
                when_add (instant t < instant (mr_available_at r))
                  (mk_finding LOOKAHEAD Q_FAIL ''record was not available at simulated decision time''
                     (mr_available_at r) [mr_raw_payload_hash r]) fs2)) (\<lambda>fs3.
     Inr \<lparr>sc_findings = fs3, sc_seen = record_key r # sc_seen st, sc_previous = Some r\<rparr>)))"

definition scan_start :: scan where
  "scan_start = \<lparr>sc_findings = [], sc_seen = [], sc_previous = None\<rparr>"

abbreviation by_event_time :: "market_record list \<Rightarrow> market_record list" where
  "by_event_time rs \<equiv> sort_key (\<lambda>r. instant (mr_event_time r)) rs"

definition stale_check ::
  "int \<Rightarrow> datetime option \<Rightarrow> market_record list \<Rightarrow> finding list \<Rightarrow> finding list result" where
  "stale_check max_staleness decision ordered fs =
     (case decision of
        None \<Rightarrow> Inr fs
      | Some d \<Rightarrow>
          if ordered = [] then Inr fs
          else rbind (ensure_utc d) (\<lambda>t.
               when_add (max_staleness < instant t - instant (mr_available_at (last ordered)))
                 (mk_finding STALE Q_FAIL ''latest source is stale'' (mr_available_at (last ordered))
                    [mr_raw_payload_hash (last ordered)]) fs))"

definition validate_records ::
  "dataset_validator \<Rightarrow> market_record list \<Rightarrow> datetime option \<Rightarrow> finding list result" where
  "validate_records v records decision =
     (let ordered = by_event_time records in
      rbind (rfold (scan_step (dv_max_gap v) decision) scan_start ordered) (\<lambda>st.
      stale_check (dv_max_staleness v) decision ordered (sc_findings st)))"

definition promotion_status :: "finding list \<Rightarrow> quality_status" where
  "promotion_status findings =
     (if list_ex (\<lambda>f. vf_kind f = SOURCE_COMPROMISE) findings then QUARANTINED
      else if list_ex (\<lambda>f. vf_severity f = Q_FAIL) findings then Q_FAIL
      else if findings \<noteq> [] then Q_WARN
      else Q_PASS)"

definition require_usable :: "finding list \<Rightarrow> unit result" where
  "require_usable findings =
     require (promotion_status findings \<notin> {Q_FAIL, QUARANTINED})
       (DataQualityError ''dataset not eligible for research'')"

definition quarantine :: "string \<Rightarrow> datetime \<Rightarrow> string list \<Rightarrow> finding result" where
  "quarantine reason when raw_hashes =
     (if raw_hashes = [] then Inl (ValueError ''quarantine requires preserved raw payload provenance'')
      else mk_finding SOURCE_COMPROMISE QUARANTINED reason when raw_hashes)"

section \<open>What the findings say\<close>

definition failing :: "finding list \<Rightarrow> bool" where
  "failing fs = list_ex (\<lambda>f. vf_severity f = Q_FAIL \<or> vf_kind f = SOURCE_COMPROMISE) fs"

lemma require_usable_iff: "require_usable fs = Inr () \<longleftrightarrow> \<not> failing fs"
  by (auto simp: require_usable_def promotion_status_def failing_def list_ex_iff)

text \<open>Consecutive records no further apart than the declared maximum.\<close>

fun gap_free :: "int \<Rightarrow> int list \<Rightarrow> bool" where
  "gap_free g (a # b # ts) = (b - a \<le> g \<and> gap_free g (b # ts))"
| "gap_free g _ = True"

lemma when_add_finding:
  assumes "c \<Longrightarrow> is_utc when"
  shows "when_add c (mk_finding k s m when hs) fs =
    Inr (if c then fs @ [\<lparr>vf_kind = k, vf_severity = s, vf_reason = m, vf_at = Some when, vf_hashes = hs\<rparr>]
         else fs)"
  using assms by (simp add: when_add_def mk_finding_def)

lemma failing_append [simp]: "failing (fs @ gs) \<longleftrightarrow> failing fs \<or> failing gs"
  by (simp add: failing_def)

lemma scan_step_ok:
  assumes "valid_market_record r" and "is_utc d"
    and "\<And>p. sc_previous st = Some p \<Longrightarrow> valid_market_record p"
  shows "\<exists>fs. scan_step g (Some d) st r
              = Inr \<lparr>sc_findings = fs, sc_seen = record_key r # sc_seen st, sc_previous = Some r\<rparr>
            \<and> (failing fs \<longleftrightarrow> failing (sc_findings st) \<or> gap_after g (sc_previous st) r
                             \<or> instant d < instant (mr_available_at r))"
proof (cases "sc_previous st")
  case None
  then show ?thesis
    using assms(2) valid_market_recordD(1,2) [OF assms(1)]
    by (auto simp: scan_step_def gap_after_def when_add_finding when_add_def [of False] failing_def)
next
  case (Some p)
  then show ?thesis
    using assms(2) valid_market_recordD(1,2) [OF assms(1)] valid_market_recordD(1) [OF assms(3)]
    by (auto simp: scan_step_def gap_after_def gap_finding_def when_add_finding failing_def)
qed

lemma scan_ok:
  assumes "list_all valid_market_record rs" and "is_utc d"
    and "\<And>p. sc_previous st = Some p \<Longrightarrow> valid_market_record p"
  shows "\<exists>st'. rfold (scan_step g (Some d)) st rs = Inr st'
           \<and> (failing (sc_findings st') \<longleftrightarrow> failing (sc_findings st)
                \<or> \<not> gap_free g (map (\<lambda>r. instant (mr_event_time r))
                       ((case sc_previous st of None \<Rightarrow> [] | Some p \<Rightarrow> [p]) @ rs))
                \<or> (\<exists>r \<in> set rs. instant d < instant (mr_available_at r)))"
  using assms
proof (induction rs arbitrary: st)
  case Nil
  then show ?case by (auto split: option.splits)
next
  case (Cons r rs)
  then have r: "valid_market_record r" by simp
  obtain fs where step: "scan_step g (Some d) st r
      = Inr \<lparr>sc_findings = fs, sc_seen = record_key r # sc_seen st, sc_previous = Some r\<rparr>"
    and fs: "failing fs \<longleftrightarrow> failing (sc_findings st) \<or> gap_after g (sc_previous st) r
                             \<or> instant d < instant (mr_available_at r)"
    using scan_step_ok [OF r Cons.prems(2), of st g] Cons.prems(3) by blast
  let ?st = "\<lparr>sc_findings = fs, sc_seen = record_key r # sc_seen st, sc_previous = Some r\<rparr>"
  obtain st' where "rfold (scan_step g (Some d)) ?st rs = Inr st'"
    and "failing (sc_findings st') \<longleftrightarrow> failing fs
                \<or> \<not> gap_free g (map (\<lambda>r. instant (mr_event_time r)) (r # rs))
                \<or> (\<exists>r \<in> set rs. instant d < instant (mr_available_at r))"
    using Cons.IH [of ?st] Cons.prems(1,2) r by auto
  with step fs show ?case
    by (auto simp: gap_after_def split: option.splits)
qed

text \<open>
  C31 A dataset passes the research gate at a UTC decision time exactly when, in event time
  order, no two consecutive records are further apart than the declared maximum, every
  record was available at the decision time, and the last one is not older than the
  staleness limit: no other finding of the validator blocks, and duplicates only warn.
\<close>

theorem dataset_usable_iff:
  assumes "list_all valid_market_record rs" and "is_utc d"
  shows "rbind (validate_records v rs (Some d)) require_usable = Inr () \<longleftrightarrow>
           gap_free (dv_max_gap v) (map (\<lambda>r. instant (mr_event_time r)) (by_event_time rs))
         \<and> (\<forall>r \<in> set rs. instant (mr_available_at r) \<le> instant d)
         \<and> (rs = [] \<or> instant d - instant (mr_available_at (last (by_event_time rs))) \<le> dv_max_staleness v)"
proof -
  let ?os = "by_event_time rs"
  have os: "list_all valid_market_record ?os" using assms(1) by (simp add: list_all_iff)
  obtain st where st: "rfold (scan_step (dv_max_gap v) (Some d)) scan_start ?os = Inr st"
    and bad: "failing (sc_findings st) \<longleftrightarrow>
        \<not> gap_free (dv_max_gap v) (map (\<lambda>r. instant (mr_event_time r)) ?os)
        \<or> (\<exists>r \<in> set rs. instant d < instant (mr_available_at r))"
    using scan_ok [OF os assms(2), of scan_start "dv_max_gap v"]
    by (auto simp: scan_start_def failing_def)
  show ?thesis
  proof (cases "rs = []")
    case True
    with st bad show ?thesis
      by (simp add: validate_records_def stale_check_def require_usable_iff)
  next
    case False
    then have "?os \<noteq> []" by (metis length_0_conv length_sort)
    then have "last ?os \<in> set rs" using last_in_set [of ?os] by simp
    with assms(1) have u: "is_utc (mr_available_at (last ?os))"
      by (auto simp: list_all_iff dest: valid_market_recordD(2))
    have "validate_records v rs (Some d) =
       when_add (dv_max_staleness v < instant d - instant (mr_available_at (last ?os)))
         (mk_finding STALE Q_FAIL ''latest source is stale'' (mr_available_at (last ?os))
            [mr_raw_payload_hash (last ?os)]) (sc_findings st)"
      using \<open>?os \<noteq> []\<close> assms(2) by (simp add: validate_records_def st stale_check_def Let_def)
    then show ?thesis
      using False bad by (auto simp: when_add_finding [OF u] require_usable_iff failing_def not_less)
  qed
qed

text \<open>A suspected compromise blocks a dataset whatever else was found.\<close>

lemma quarantine_blocks:
  assumes "quarantine reason t hs = Inr f"
  shows "require_usable (fs @ f # gs) = Inl (DataQualityError ''dataset not eligible for research'')"
proof -
  have "vf_kind f = SOURCE_COMPROMISE"
    using assms by (auto simp: quarantine_def mk_finding_def rbind_eq_Inr split: if_splits)
  then show ?thesis by (simp add: require_usable_def promotion_status_def)
qed

definition sample_record :: market_record where
  "sample_record = \<lparr>mr_instrument_id = ''BTC'', mr_event_time = Aware (seconds 60) 0,
     mr_available_at = Aware (seconds 61) 0, mr_price = 100, mr_quantity = Some 2,
     mr_price_kind = TRADE_PRICE, mr_raw_payload_hash = ''h''\<rparr>"

definition sample_records :: "market_record list" where
  "sample_records =
     [sample_record,
      sample_record\<lparr>mr_event_time := Aware (seconds 90) 0, mr_available_at := Aware (seconds 91) 0,
                    mr_price := 101\<rparr>]"

lemma sample_records_valid: "list_all valid_market_record sample_records"
  by (simp add: sample_records_def sample_record_def valid_market_record_def mk_market_record_def
      each_utc.simps)

theorem dataset_usable_iff_witness:
  "rbind (validate_records \<lparr>dv_max_gap = seconds 30, dv_max_staleness = seconds 5\<rparr> sample_records
            (Some (Aware (seconds 95) 0))) require_usable = Inr ()"
  using dataset_usable_iff [OF sample_records_valid, of "Aware (seconds 95) 0"
      "\<lparr>dv_max_gap = seconds 30, dv_max_staleness = seconds 5\<rparr>"]
  by (simp add: sample_records_def sample_record_def)

end
