(* ===== verification/Features.thy ===== *)
theory Features
  imports DataRecords
begin

text \<open>
  Bars and as-of joins, \<open>liki/data/features.py\<close>. The theorems say which inputs produce
  bars, that a bar is computed from the records of its own interval and only from what was
  available in time, and when an as-of join respects its decision times.
\<close>

section \<open>Bars\<close>

record feature_bar =
  fb_start_time :: datetime
  fb_end_time :: datetime
  fb_label_time :: datetime
  fb_open :: rat
  fb_high :: rat
  fb_low :: rat
  fb_close :: rat
  fb_volume :: rat
  fb_complete :: bool
  fb_latest_source :: datetime

definition mk_feature_bar :: "feature_bar \<Rightarrow> feature_bar result" where
  "mk_feature_bar b =
     rbind (each_utc [fb_start_time b, fb_end_time b, fb_label_time b, fb_latest_source b]) (\<lambda>_.
     rbind (require (0 < fb_open b \<and> 0 < fb_high b \<and> 0 < fb_low b \<and> 0 < fb_close b)
              (ValueError ''greater than 0'')) (\<lambda>_.
     rbind (require (0 \<le> fb_volume b) (ValueError ''greater than or equal to 0'')) (\<lambda>_.
     rbind (require (\<not> (\<not> instant (fb_start_time b) < instant (fb_end_time b)
                        \<or> instant (fb_label_time b) \<noteq> instant (fb_end_time b)))
              (ValueError ''bar labels are UTC interval end timestamps'')) (\<lambda>_.
     rbind (require (\<not> (\<not> (fb_low b \<le> min (fb_open b) (fb_close b)
                            \<and> min (fb_open b) (fb_close b) \<le> fb_high b)
                        \<or> \<not> (fb_low b \<le> fb_close b \<and> fb_close b \<le> fb_high b)))
              (ValueError ''OHLC values violate bar range'')) (\<lambda>_.
     rbind (require (\<not> instant (fb_end_time b) < instant (fb_latest_source b))
              (ValueError ''bar uses source after its interval'')) (\<lambda>_. Inr b))))))"

text \<open>
  \<open>int(event_time.timestamp())\<close>: whole seconds, truncated toward zero. The float that
  \<open>timestamp\<close> returns determines them for every instant before the year 2514; beyond it a
  microsecond can be lost, which is not represented. \<open>int(interval.total_seconds())\<close>
  drops the fraction of a second of a positive interval.
\<close>

definition epoch_seconds :: "int \<Rightarrow> int" where
  "epoch_seconds i = (if 0 \<le> i then i div 1000000 else - ((- i) div 1000000))"

definition bucket_end :: "int \<Rightarrow> market_record \<Rightarrow> int" where
  "bucket_end secs r = seconds ((epoch_seconds (instant (mr_event_time r)) div secs + 1) * secs)"

definition quantity_or_zero :: "market_record \<Rightarrow> rat" where
  "quantity_or_zero r = (case mr_quantity r of None \<Rightarrow> 0 | Some q \<Rightarrow> q)"

definition bucket_bar :: "int \<Rightarrow> int \<Rightarrow> int \<Rightarrow> market_record list \<Rightarrow> feature_bar" where
  "bucket_bar interval as_of end_at bucket =
     (let prices = map mr_price bucket in
      \<lparr>fb_start_time = Aware (end_at - interval) 0,
       fb_end_time = Aware end_at 0,
       fb_label_time = Aware end_at 0,
       fb_open = hd prices,
       fb_high = Max (set prices),
       fb_low = Min (set prices),
       fb_close = last prices,
       fb_volume = dsum (map quantity_or_zero bucket),
       fb_complete = (end_at \<le> as_of),
       fb_latest_source = Aware (Max (set (map (\<lambda>r. instant (mr_available_at r)) bucket))) 0\<rparr>)"

definition eligible :: "market_record list \<Rightarrow> int \<Rightarrow> market_record list" where
  "eligible records as_of =
     sort_key (\<lambda>r. instant (mr_event_time r))
       (List.filter (\<lambda>r. instant (mr_available_at r) \<le> as_of) records)"

definition build_bars :: "market_record list \<Rightarrow> int \<Rightarrow> datetime \<Rightarrow> feature_bar list result" where
  "build_bars records interval as_of =
     (if interval \<le> 0 then Inl (ValueError ''interval must be positive'')
      else rbind (ensure_utc as_of) (\<lambda>cutoff.
        let rs = eligible records (instant cutoff);
            secs = interval div 1000000
        in if rs \<noteq> [] \<and> secs = 0 then Inl ZeroDivision
           else map_result (\<lambda>(end_at, bucket). mk_feature_bar (bucket_bar interval (instant cutoff) end_at bucket))
                  (sort_key fst (foldl (group_append (bucket_end secs)) [] rs))))"

definition bucket_of :: "market_record list \<Rightarrow> int \<Rightarrow> int \<Rightarrow> int \<Rightarrow> market_record list" where
  "bucket_of records secs as_of end_at =
     List.filter (\<lambda>r. bucket_end secs r = end_at) (eligible records as_of)"

lemma set_eligible: "set (eligible rs t) = {r \<in> set rs. instant (mr_available_at r) \<le> t}"
  by (auto simp: eligible_def)

lemma bucket_end_after:
  assumes "0 < secs" and "0 \<le> instant (mr_event_time r)"
  shows "instant (mr_event_time r) < bucket_end secs r"
    and "bucket_end secs r - seconds secs \<le> instant (mr_event_time r)"
proof -
  define i where "i = instant (mr_event_time r)"
  define e where "e = i div 1000000"
  define q where "q = e div secs"
  have e: "1000000 * e \<le> i" "i < 1000000 * e + 1000000" unfolding e_def by presburger+
  have "secs * q + e mod secs = e" "0 \<le> e mod secs" "e mod secs < secs"
    using assms(1) by (simp_all add: q_def)
  then have q: "secs * q \<le> e" "e + 1 \<le> secs * q + secs" by linarith+
  have end_at: "bucket_end secs r = 1000000 * (secs * q) + 1000000 * secs"
    using assms(2) by (simp add: bucket_end_def epoch_seconds_def q_def e_def i_def algebra_simps)
  show "instant (mr_event_time r) < bucket_end secs r"
    using e q unfolding end_at i_def [symmetric] by linarith
  show "bucket_end secs r - seconds secs \<le> instant (mr_event_time r)"
    using e q unfolding end_at i_def [symmetric] by linarith
qed

lemma bucket_bar_accepted:
  assumes "list_all valid_market_record bucket" and "bucket \<noteq> []" and "0 < interval"
  shows "mk_feature_bar (bucket_bar interval t e bucket) = Inr b \<longleftrightarrow>
           b = bucket_bar interval t e bucket \<and> (\<forall>r \<in> set bucket. instant (mr_available_at r) \<le> e)"
proof -
  let ?P = "set (map mr_price bucket)"
  have ne: "map mr_price bucket \<noteq> []" using assms(2) by simp
  have fin: "finite ?P" "?P \<noteq> {}" using assms(2) by simp_all
  have pos: "0 < p" if "p \<in> ?P" for p
    using that assms(1) by (auto simp: list_all_iff dest: valid_market_recordD(3))
  have mem: "hd (map mr_price bucket) \<in> ?P" "last (map mr_price bucket) \<in> ?P"
    "Max ?P \<in> ?P" "Min ?P \<in> ?P"
    using ne fin hd_in_set last_in_set Max_in Min_in by blast+
  have vol: "0 \<le> dsum (map quantity_or_zero bucket)"
    using assms(1) valid_market_recordD(5)
    by (intro dsum_nonneg) (fastforce simp: quantity_or_zero_def list_all_iff split: option.splits)
  have rng: "Min ?P \<le> min (hd (map mr_price bucket)) (last (map mr_price bucket))"
    "min (hd (map mr_price bucket)) (last (map mr_price bucket)) \<le> Max ?P"
    "Min ?P \<le> last (map mr_price bucket)" "last (map mr_price bucket) \<le> Max ?P"
    using mem fin by (auto simp: min_def)
  have late: "Max (set (map (\<lambda>r. instant (mr_available_at r)) bucket)) \<le> e
      \<longleftrightarrow> (\<forall>r \<in> set bucket. instant (mr_available_at r) \<le> e)"
    using assms(2) by simp
  show ?thesis
    using mem(1,2) [THEN pos] mem(3,4) [THEN pos] vol rng late assms(3)
    by (auto simp: mk_feature_bar_def bucket_bar_def Let_def rbind_eq_Inr not_less)
qed

lemma sort_key_keys:
  assumes "distinct (map fst ps)"
  shows "map fst (sort_key fst ps) = sorted_list_of_set (fst ` set ps)"
proof -
  have "sorted (map fst (sort_key fst ps))" "distinct (map fst (sort_key fst ps))"
    using assms by (simp_all add: distinct_map)
  then show ?thesis by (metis set_map set_sort sorted_list_of_set.idem_if_sorted_distinct)
qed

lemma buckets_sorted:
  "sort_key fst (foldl (group_append key) [] xs)
     = map (\<lambda>k. (k, List.filter (\<lambda>x. key x = k) xs)) (sorted_list_of_set (key ` set xs))"
proof -
  let ?d = "sort_key fst (foldl (group_append key) [] xs)"
  have "distinct (map fst (foldl (group_append key) [] xs))" by (rule group_keys_distinct) simp
  moreover have "fst ` set (foldl (group_append key) [] xs) = key ` set xs"
    by (force simp: grouped image_iff)
  ultimately have ks: "map fst ?d = sorted_list_of_set (key ` set xs)"
    by (simp add: sort_key_keys)
  have "?d = map (\<lambda>p. (fst p, List.filter (\<lambda>x. key x = fst p) xs)) ?d"
    by (rule map_idI [symmetric]) (auto simp: grouped)
  also have "\<dots> = map (\<lambda>k. (k, List.filter (\<lambda>x. key x = k) xs)) (map fst ?d)" by (simp add: comp_def)
  finally show ?thesis by (simp only: ks)
qed

definition bar_ends :: "market_record list \<Rightarrow> int \<Rightarrow> int \<Rightarrow> int list" where
  "bar_ends records secs t = sorted_list_of_set (bucket_end secs ` set (eligible records t))"

lemma build_bars_unfold:
  assumes "1000000 \<le> interval" and "is_utc as_of"
  shows "build_bars records interval as_of =
     map_result (\<lambda>e. mk_feature_bar (bucket_bar interval (instant as_of) e
                        (bucket_of records (interval div 1000000) (instant as_of) e)))
       (bar_ends records (interval div 1000000) (instant as_of))"
proof -
  have "interval div 1000000 \<noteq> 0" using assms(1) by linarith
  then show ?thesis
    using assms
    by (simp add: build_bars_def Let_def buckets_sorted bar_ends_def bucket_of_def map_result_map)
qed

lemma bucket_valid:
  "list_all valid_market_record rs \<Longrightarrow> list_all valid_market_record (bucket_of rs secs t e)"
  by (auto simp: bucket_of_def list_all_iff set_eligible)

lemma set_bucket_of:
  "set (bucket_of rs secs t e) = {r \<in> set rs. instant (mr_available_at r) \<le> t \<and> bucket_end secs r = e}"
  by (auto simp: bucket_of_def set_eligible)

lemma set_bar_ends:
  "set (bar_ends rs secs t) = bucket_end secs ` {r \<in> set rs. instant (mr_available_at r) \<le> t}"
  by (simp add: bar_ends_def set_eligible)

lemma bucket_nonempty: "e \<in> set (bar_ends rs secs t) \<Longrightarrow> bucket_of rs secs t e \<noteq> []"
proof -
  assume "e \<in> set (bar_ends rs secs t)"
  then obtain r where "r \<in> set (bucket_of rs secs t e)" by (auto simp: set_bar_ends set_bucket_of)
  then show ?thesis by auto
qed

lemma prompt_iff_built:
  assumes "list_all valid_market_record rs" and "seconds 1 \<le> interval" and "is_utc as_of"
  shows "(\<exists>bars. build_bars rs interval as_of = Inr bars) \<longleftrightarrow>
           (\<forall>r \<in> set (eligible rs (instant as_of)). instant (mr_available_at r) \<le> bucket_end (interval div 1000000) r)"
proof -
  let ?s = "interval div 1000000" and ?t = "instant as_of"
  have "(\<exists>bars. build_bars rs interval as_of = Inr bars) \<longleftrightarrow>
      (\<forall>e \<in> set (bar_ends rs ?s ?t). \<exists>b. mk_feature_bar (bucket_bar interval ?t e (bucket_of rs ?s ?t e)) = Inr b)"
    using assms(2,3) by (simp add: build_bars_unfold map_result_ok)
  also have "\<dots> \<longleftrightarrow> (\<forall>e \<in> set (bar_ends rs ?s ?t). \<forall>r \<in> set (bucket_of rs ?s ?t e). instant (mr_available_at r) \<le> e)"
    using assms(2) by (simp add: bucket_bar_accepted [OF bucket_valid [OF assms(1)] bucket_nonempty])
  also have "\<dots> \<longleftrightarrow> (\<forall>r \<in> set (eligible rs ?t). instant (mr_available_at r) \<le> bucket_end ?s r)"
    by (auto simp: set_bar_ends set_bucket_of set_eligible)
  finally show ?thesis .
qed

text \<open>
  C35 Bars exist for an interval of at least one second exactly when every record available
  by the cutoff was already available at the end of its own interval. One record whose
  publication crossed the boundary of its bar makes the whole call raise: no bar of any
  interval is returned.
\<close>

theorem bars_built_iff:
  assumes "list_all valid_market_record rs" and "seconds 1 \<le> interval" and "is_utc as_of"
  shows "(\<exists>bars. build_bars rs interval as_of = Inr bars) \<longleftrightarrow>
           (\<forall>r \<in> set rs. instant (mr_available_at r) \<le> instant as_of
              \<longrightarrow> instant (mr_available_at r) \<le> bucket_end (interval div 1000000) r)"
  using prompt_iff_built [OF assms] by (auto simp: set_eligible)

lemma bars_returned:
  assumes "list_all valid_market_record rs" and "seconds 1 \<le> interval" and "is_utc as_of"
    and "build_bars rs interval as_of = Inr bars"
  shows "bars = map (\<lambda>e. bucket_bar interval (instant as_of) e
                       (bucket_of rs (interval div 1000000) (instant as_of) e))
                  (bar_ends rs (interval div 1000000) (instant as_of))"
proof -
  let ?s = "interval div 1000000" and ?t = "instant as_of"
  have "mk_feature_bar (bucket_bar interval ?t e (bucket_of rs ?s ?t e))
      = Inr (bucket_bar interval ?t e (bucket_of rs ?s ?t e))" if e: "e \<in> set (bar_ends rs ?s ?t)" for e
  proof -
    have "\<exists>ys. map_result (\<lambda>e. mk_feature_bar (bucket_bar interval ?t e (bucket_of rs ?s ?t e)))
                (bar_ends rs ?s ?t) = Inr ys"
      using assms(2-4) by (simp add: build_bars_unfold)
    then obtain b where "mk_feature_bar (bucket_bar interval ?t e (bucket_of rs ?s ?t e)) = Inr b"
      using e unfolding map_result_ok by blast
    then show ?thesis
      using assms(2) by (simp add: bucket_bar_accepted [OF bucket_valid [OF assms(1)] bucket_nonempty [OF e]])
  qed
  then show ?thesis
    using assms(2-4) by (simp add: build_bars_unfold map_result_pure)
qed

text \<open>
  C34 Every bar that is returned aggregates a nonempty set of records, all of them the
  records of its own interval that were available at the cutoff: the bars are in strictly
  increasing order of their ends, one for each interval with a record, each record's price
  lies within the bar's range and its publication is no later than the bar's latest
  source, which is itself no later than the bar's end and the cutoff.
\<close>

theorem bars_no_lookahead:
  assumes "list_all valid_market_record rs" and "seconds 1 \<le> interval" and "is_utc as_of"
    and "build_bars rs interval as_of = Inr bars"
  shows "sorted_wrt (<) (map (\<lambda>b. instant (fb_end_time b)) bars)
       \<and> (\<forall>b \<in> set bars. \<forall>r \<in> set rs.
            instant (mr_available_at r) \<le> instant as_of
              \<and> bucket_end (interval div 1000000) r = instant (fb_end_time b) \<longrightarrow>
            fb_low b \<le> mr_price r \<and> mr_price r \<le> fb_high b
              \<and> instant (mr_available_at r) \<le> instant (fb_latest_source b))
       \<and> (\<forall>b \<in> set bars. instant (fb_latest_source b) \<le> min (instant (fb_end_time b)) (instant as_of))
       \<and> (\<forall>r \<in> set rs. instant (mr_available_at r) \<le> instant as_of \<longrightarrow>
            (\<exists>b \<in> set bars. instant (fb_end_time b) = bucket_end (interval div 1000000) r))"
    (is "?A \<and> ?B \<and> ?C \<and> ?D")
proof -
  let ?s = "interval div 1000000" and ?t = "instant as_of"
  note bars = bars_returned [OF assms]
  have late: "instant (mr_available_at r) \<le> bucket_end ?s r"
    if "r \<in> set rs" "instant (mr_available_at r) \<le> ?t" for r
    using prompt_iff_built [OF assms(1-3)] assms(4) that by (auto simp: set_eligible)
  have A: ?A
    unfolding bars by (simp add: comp_def bucket_bar_def Let_def bar_ends_def strict_sorted_iff)
  have B: ?B
    unfolding bars by (auto simp: bucket_bar_def Let_def set_bucket_of intro!: Min_le Max_ge)
  have C: ?C
  proof
    fix b assume "b \<in> set bars"
    then obtain e where e: "e \<in> set (bar_ends rs ?s ?t)"
      and b: "b = bucket_bar interval ?t e (bucket_of rs ?s ?t e)"
      unfolding bars by auto
    have "instant (mr_available_at r) \<le> min e ?t" if "r \<in> set (bucket_of rs ?s ?t e)" for r
      using that late [of r] by (auto simp: set_bucket_of)
    then show "instant (fb_latest_source b) \<le> min (instant (fb_end_time b)) ?t"
      using bucket_nonempty [OF e] by (simp add: b bucket_bar_def Let_def)
  qed
  have D: ?D
    unfolding bars by (auto simp: bucket_bar_def Let_def set_bar_ends)
  from A B C D show ?thesis by blast
qed

section \<open>Features\<close>

text \<open>
  The source text of a callable (\<open>inspect.getsource\<close>) and its SHA-256 are parameters.
\<close>

record feature_definition =
  fd_feature_id :: string
  fd_version :: string
  fd_source_columns :: "string list"
  fd_lookback :: int
  fd_missing_value_policy :: string
  fd_normalization_policy :: string
  fd_availability_semantics :: string
  fd_code_hash :: string

definition feature_for_callable ::
  "(string \<Rightarrow> string) \<Rightarrow> string \<Rightarrow> feature_definition \<Rightarrow> feature_definition" where
  "feature_for_callable sha256_hex source fd = fd\<lparr>fd_code_hash := ''sha256:'' @ sha256_hex source\<rparr>"

record 'v feature_result =
  fr_definition :: feature_definition
  fr_decision_time :: datetime
  fr_value :: 'v
  fr_latest_source :: datetime

definition mk_feature_result :: "'v feature_result \<Rightarrow> 'v feature_result result" where
  "mk_feature_result r =
     rbind (each_utc [fr_decision_time r, fr_latest_source r]) (\<lambda>_.
     rbind (require (\<not> instant (fr_decision_time r) < instant (fr_latest_source r))
              (ValueError ''feature leakage: source timestamp exceeds decision time'')) (\<lambda>_. Inr r))"

section \<open>As-of joins\<close>

text \<open>
  The loop over \<open>ordered\<close> keeps an index into it; here it keeps the rows not yet passed.
\<close>

fun advance :: "int \<Rightarrow> (datetime \<times> 'a) option \<Rightarrow> (datetime \<times> 'a) list
    \<Rightarrow> (datetime \<times> 'a) option \<times> (datetime \<times> 'a) list" where
  "advance t latest [] = (latest, [])"
| "advance t latest (row # rows) =
     (if instant (fst row) \<le> t then advance t (Some row) rows else (latest, row # rows))"

definition fresh_value :: "int \<Rightarrow> int \<Rightarrow> (datetime \<times> 'a) option \<Rightarrow> 'a option" where
  "fresh_value max_staleness t latest =
     (case latest of
        None \<Rightarrow> None
      | Some (at_time, v) \<Rightarrow> if max_staleness < t - instant at_time then None else Some v)"

fun join_loop :: "int \<Rightarrow> datetime list \<Rightarrow> (datetime \<times> 'a) option \<Rightarrow> (datetime \<times> 'a) list
    \<Rightarrow> 'a option list result" where
  "join_loop max_staleness [] latest rows = Inr []"
| "join_loop max_staleness (d # ds) latest rows =
     rbind (ensure_utc d) (\<lambda>decision_time.
     let (latest', rows') = advance (instant decision_time) latest rows
     in rbind (join_loop max_staleness ds latest' rows') (\<lambda>out.
        Inr (fresh_value max_staleness (instant decision_time) latest' # out)))"

definition asof_join :: "datetime list \<Rightarrow> (datetime \<times> 'a) list \<Rightarrow> int \<Rightarrow> 'a option list result" where
  "asof_join left right max_staleness =
     (if max_staleness < 0 then Inl (ValueError ''max_staleness must be non-negative'')
      else rbind (map_result (\<lambda>(at_time, v). rbind (ensure_utc at_time) (\<lambda>t. Inr (t, v))) right) (\<lambda>rows.
           join_loop max_staleness left None (sort_key (\<lambda>row. instant (fst row)) rows)))"

text \<open>The reference: the last row published by the decision time, if it is fresh.\<close>

definition latest_by :: "(datetime \<times> 'a) list \<Rightarrow> int \<Rightarrow> (datetime \<times> 'a) option" where
  "latest_by right t =
     (case List.filter (\<lambda>row. instant (fst row) \<le> t) (sort_key (\<lambda>row. instant (fst row)) right) of
        [] \<Rightarrow> None
      | row # rows \<Rightarrow> Some (last (row # rows)))"

lemma advance_eq:
  "advance t latest rows =
     (let seen = takeWhile (\<lambda>row. instant (fst row) \<le> t) rows
      in (if seen = [] then latest else Some (last seen),
          dropWhile (\<lambda>row. instant (fst row) \<le> t) rows))"
  by (induction t latest rows rule: advance.induct) (simp_all add: Let_def)

lemma takeWhile_sorted:
  assumes "sorted (map (\<lambda>row. instant (fst row)) rows)"
  shows "takeWhile (\<lambda>row. instant (fst row) \<le> t) rows = List.filter (\<lambda>row. instant (fst row) \<le> t) rows"
  using assms
proof (induction rows)
  case (Cons row rows)
  show ?case
  proof (cases "instant (fst row) \<le> t")
    case True
    with Cons show ?thesis by simp
  next
    case False
    with Cons.prems have "List.filter (\<lambda>row. instant (fst row) \<le> t) rows = []"
      by (auto simp: filter_empty_conv)
    with False show ?thesis by simp
  qed
qed simp

lemma join_loop_correct:
  assumes "sorted (map (\<lambda>row. instant (fst row)) (seen @ rows))"
    and "\<And>d. d \<in> set ds \<Longrightarrow> \<forall>row \<in> set seen. instant (fst row) \<le> instant d"
    and "list_all is_utc ds" and "sorted (map instant ds)"
    and "latest = (if seen = [] then None else Some (last seen))"
  shows "join_loop m ds latest rows =
     Inr (map (\<lambda>d. fresh_value m (instant d)
            (case List.filter (\<lambda>row. instant (fst row) \<le> instant d) (seen @ rows) of
               [] \<Rightarrow> None | x # xs \<Rightarrow> Some (last (x # xs)))) ds)"
  using assms
proof (induction ds arbitrary: seen rows latest)
  case Nil
  then show ?case by simp
next
  case (Cons d ds)
  let ?P = "\<lambda>row. instant (fst row) \<le> instant d"
  let ?more = "takeWhile ?P rows" and ?rest = "dropWhile ?P rows"
  let ?latest = "if seen @ ?more = [] then None else Some (last (seen @ ?more))"
  have srows: "sorted (map (\<lambda>row. instant (fst row)) rows)" using Cons.prems(1) by (simp add: sorted_append)
  have adv: "advance (instant d) latest rows = (?latest, ?rest)"
    using Cons.prems(5) by (simp add: advance_eq Let_def)
  have upto: "List.filter ?P (seen @ rows) = seen @ ?more"
    using Cons.prems(2) [of d] srows by (simp add: takeWhile_sorted)
  have "join_loop m ds ?latest ?rest = Inr (map (\<lambda>d. fresh_value m (instant d)
      (case List.filter (\<lambda>row. instant (fst row) \<le> instant d) ((seen @ ?more) @ ?rest) of
               [] \<Rightarrow> None | x # xs \<Rightarrow> Some (last (x # xs)))) ds)"
  proof (rule Cons.IH)
    show "\<forall>row \<in> set (seen @ ?more). instant (fst row) \<le> instant d'" if "d' \<in> set ds" for d'
      using Cons.prems(2) [of d'] Cons.prems(4) that by (fastforce dest: set_takeWhileD)
  qed (use Cons.prems in simp_all)
  then have "join_loop m ds ?latest ?rest = Inr (map (\<lambda>d. fresh_value m (instant d)
      (case List.filter (\<lambda>row. instant (fst row) \<le> instant d) (seen @ rows) of
               [] \<Rightarrow> None | x # xs \<Rightarrow> Some (last (x # xs)))) ds)"
    by (simp only: append_assoc takeWhile_dropWhile_id)
  moreover have "?latest = (case seen @ ?more of [] \<Rightarrow> None | x # xs \<Rightarrow> Some (last (x # xs)))"
    by (cases "seen @ ?more") simp_all
  ultimately show ?case
    using Cons.prems(3) by (simp only: join_loop.simps list.map upto) (simp add: adv)
qed

text \<open>
  C21 For decision times in order the single pass over the sorted observations is equivalent
  to looking each decision up by itself: the value of the last observation published by
  then, absent when there is none or when it is older than the staleness limit.
\<close>

theorem asof_join_correct:
  assumes "list_all is_utc left" and "sorted (map instant left)"
    and "list_all (\<lambda>row. is_utc (fst row)) right" and "0 \<le> m"
  shows "asof_join left right m
           = Inr (map (\<lambda>d. fresh_value m (instant d) (latest_by right (instant d))) left)"
proof -
  have "map_result (\<lambda>(at_time, v). rbind (ensure_utc at_time) (\<lambda>t. Inr (t, v))) right = Inr right"
    using assms(3) by (induction right) auto
  then show ?thesis
    using assms join_loop_correct [of "[]" "sort_key (\<lambda>row. instant (fst row)) right" left None m]
    by (simp add: asof_join_def latest_by_def)
qed

text \<open>
  With decision times out of order the join leaks the future: an observation published at
  second 10 is returned for a decision taken at second 5 that follows one taken at second
  20, although the contract is to join only what was published by each decision time.
\<close>

theorem asof_join_leaks:
  "asof_join [Aware (seconds 20) 0, Aware (seconds 5) 0] [(Aware (seconds 10) 0, v)] (seconds 60)
     = Inr [Some v, Some v]
   \<and> fresh_value (seconds 60) (seconds 5) (latest_by [(Aware (seconds 10) 0, v)] (seconds 5)) = None"
  by (simp add: asof_join_def fresh_value_def latest_by_def)

section \<open>Concrete inputs\<close>

definition early_record :: market_record where
  "early_record = \<lparr>mr_instrument_id = ''BTC'', mr_event_time = Aware (seconds 61) 0,
     mr_available_at = Aware (seconds 62) 0, mr_price = 100, mr_quantity = Some 2,
     mr_price_kind = TRADE_PRICE, mr_raw_payload_hash = ''h''\<rparr>"

definition late_record :: market_record where
  "late_record = early_record\<lparr>mr_event_time := Aware (seconds 119) 0, mr_available_at := Aware (seconds 121) 0\<rparr>"

lemma early_valid: "list_all valid_market_record [early_record]"
  by (simp add: early_record_def valid_market_record_def mk_market_record_def each_utc.simps)

lemma late_valid: "list_all valid_market_record [early_record, late_record]"
  by (simp add: late_record_def early_record_def valid_market_record_def mk_market_record_def each_utc.simps)

lemma early_end: "bucket_end 60 early_record = seconds 120"
  by (simp add: bucket_end_def epoch_seconds_def early_record_def)

lemma late_end: "bucket_end 60 late_record = seconds 120"
  by (simp add: bucket_end_def epoch_seconds_def late_record_def)

lemma early_bars: "\<exists>bars. build_bars [early_record] (seconds 60) (Aware (seconds 200) 0) = Inr bars"
  using prompt_iff_built [OF early_valid, of "seconds 60" "Aware (seconds 200) 0"] early_end
  by (simp add: set_eligible) (simp add: early_record_def)

theorem bars_built_iff_witness:
  "\<nexists>bars. build_bars [early_record, late_record] (seconds 60) (Aware (seconds 200) 0) = Inr bars"
  using bars_built_iff [OF late_valid, of "seconds 60" "Aware (seconds 200) 0"] late_end
  by (simp add: late_record_def)

theorem bars_no_lookahead_witness:
  "\<exists>bars. build_bars [early_record] (seconds 60) (Aware (seconds 200) 0) = Inr bars
        \<and> (\<exists>b \<in> set bars. instant (fb_end_time b) = seconds 120 \<and> instant (fb_latest_source b) \<le> seconds 120
             \<and> fb_low b \<le> 100)"
proof -
  obtain bars where bars: "build_bars [early_record] (seconds 60) (Aware (seconds 200) 0) = Inr bars"
    using early_bars by blast
  have r: "instant (mr_available_at early_record) \<le> seconds 200" "mr_price early_record = 100"
    by (simp_all add: early_record_def)
  show ?thesis
    using bars_no_lookahead [OF early_valid _ _ bars] bars r early_end by auto force
qed

theorem asof_join_correct_witness:
  "asof_join [Aware (seconds 5) 0, Aware (seconds 20) 0] [(Aware (seconds 10) 0, ''v'')] (seconds 60)
     = Inr [None, Some ''v'']"
  using asof_join_correct [of "[Aware (seconds 5) 0, Aware (seconds 20) 0]" "[(Aware (seconds 10) 0, ''v'')]" "seconds 60"]
  by (simp add: fresh_value_def latest_by_def)

end
