(* ===== verification/Scheduler.thy ===== *)
theory Scheduler
  imports Decimals EventStore
begin

text \<open>
  Campaigns, tasks, dependencies, runs and leases: \<open>liki/scheduler.py\<close> over its tables
  (\<open>migrations/002_research_runtime.sql\<close>) and the event store. Every operation is one
  transaction under the same advisory lock, so it is a function from the state of the
  tables to an error, which rolls back, or the new state. A \<open>CHECK\<close>, \<open>UNIQUE\<close> or foreign key
  of the tables that a statement can violate is an \<open>IntegrityError\<close>. Rows are kept in the
  order of their insertion. \<open>now\<close> is the clock of the transaction, in microseconds.
\<close>

section \<open>Contracts and rows\<close>

record campaign =
  cp_campaign_id :: string
  cp_purpose :: string
  cp_start_rule :: string
  cp_stopping_rule :: string
  cp_horizon_at :: datetime
  cp_usd_budget :: rat
  cp_token_budget :: int
  cp_compute_seconds_budget :: rat
  cp_statistical_budget :: int

definition mk_campaign :: "campaign \<Rightarrow> campaign result" where
  "mk_campaign c =
     rbind (require (cp_purpose c \<noteq> [] \<and> cp_start_rule c \<noteq> [] \<and> cp_stopping_rule c \<noteq> [])
              (ValueError ''at least 1 character'')) (\<lambda>_.
     rbind (require (0 \<le> cp_usd_budget c \<and> 0 \<le> cp_token_budget c \<and> 0 \<le> cp_compute_seconds_budget c
                     \<and> 0 \<le> cp_statistical_budget c)
              (ValueError ''greater than or equal to 0'')) (\<lambda>_. Inr c))"

record task =
  tk_task_id :: string
  tk_campaign_id :: string
  tk_parent_task_id :: "string option"
  tk_purpose :: string
  tk_expected_artifact_schema :: string
  tk_task_class :: string
  tk_lane_class :: string
  tk_handler :: string
  tk_inputs :: jobj
  tk_budget_usd :: rat
  tk_voi_lower_bound :: rat
  tk_novelty :: rat
  tk_information_value :: rat
  tk_max_retries :: int
  tk_timeout_sec :: int
  tk_independent_if_parent_fails :: bool
  tk_dependencies :: "string list"

definition mk_task :: "task \<Rightarrow> task result" where
  "mk_task t =
     rbind (require (tk_purpose t \<noteq> [] \<and> tk_expected_artifact_schema t \<noteq> [])
              (ValueError ''at least 1 character'')) (\<lambda>_.
     rbind (require (0 \<le> tk_budget_usd t \<and> 0 \<le> tk_novelty t \<and> tk_novelty t \<le> 1
                     \<and> 0 \<le> tk_information_value t \<and> 0 \<le> tk_max_retries t \<and> 0 < tk_timeout_sec t)
              (ValueError ''out of range'')) (\<lambda>_. Inr t))"

record campaign_row =
  cr_spec :: campaign
  cr_allocated_usd :: rat
  cr_created_by :: string

datatype task_status =
    Queued
  | Running
  | Hibernating
  | Completed
  | Failed
  | Killed
  | Quarantined

record 'h task_row =
  tr_spec :: task
  tr_semantic_hash :: 'h
  tr_child_allocated_usd :: rat
  tr_status :: task_status
  tr_available_at :: int
  tr_created_at :: int
  tr_state_version :: nat

datatype run_status = RunRunning | RunCompleted | RunFailed | RunExpired

record run_row =
  rn_task_id :: string
  rn_worker_id :: string
  rn_task_class :: string
  rn_status :: run_status
  rn_started_at :: int
  rn_heartbeat_at :: int
  rn_completed_at :: "int option"
  rn_kill_reason :: "string option"
  rn_expected_artifact_schema :: string
  rn_expected_artifact_id :: "string option"
  rn_active_lease_id :: string
  rn_priority :: rat
  rn_retry_count :: int
  rn_max_retries :: int
  rn_timeout_sec :: int

record lease =
  ls_run_id :: string
  ls_worker_id :: string
  ls_fencing_token :: string
  ls_expires_at :: int
  ls_heartbeat_at :: int
  ls_released_at :: "int option"
  ls_resource_class :: string

record allocation =
  al_candidates :: "string list"
  al_chosen :: string
  al_displaced :: "string list"
  al_reason :: string
  al_event_id :: string

record 'h sched =
  sd_store :: "'h store"
  sd_campaigns :: "(string \<times> campaign_row) list"
  sd_tasks :: "(string \<times> 'h task_row) list"
  sd_deps :: "(string \<times> string) list"
  sd_runs :: "(string \<times> run_row) list"
  sd_leases :: "(string \<times> lease) list"
  sd_allocations :: "allocation list"

text \<open>
  The policy file \<open>config/runtime_policy.json\<close>, the hashes, and the JSON forms of a campaign
  and a task that pydantic produces.
\<close>

record runtime_policy =
  po_policy_id :: string
  po_class_limits :: "(string \<times> nat) list"
  po_exploration_floor :: rat

record 'h sched_params =
  sp_hashing :: "'h hashing"
  sp_semantic :: "string \<Rightarrow> jobj \<Rightarrow> string \<Rightarrow> 'h"
  sp_dump_campaign :: "campaign \<Rightarrow> jobj"
  sp_dump_task :: "task \<Rightarrow> jobj"
  sp_policy :: runtime_policy

text \<open>What a claim draws from \<open>uid\<close>, besides the identifiers of its event.\<close>

record run_ids =
  ri_run :: string
  ri_lease :: string
  ri_fence :: string

section \<open>JSON states\<close>

fun status_name :: "task_status \<Rightarrow> string" where
  "status_name Queued = ''queued''"
| "status_name Running = ''running''"
| "status_name Hibernating = ''hibernating''"
| "status_name Completed = ''completed''"
| "status_name Failed = ''failed''"
| "status_name Killed = ''killed''"
| "status_name Quarantined = ''QUARANTINED''"

fun insert_sorted_string :: "string \<Rightarrow> string list \<Rightarrow> string list" where
  "insert_sorted_string x [] = [x]"
| "insert_sorted_string x (y # ys) =
     (if x = y then y # ys else if str_less x y then x # y # ys else y # insert_sorted_string x ys)"

definition json_strings :: "json \<Rightarrow> string list" where
  "json_strings j = (case j of JArr xs \<Rightarrow> concat (map (\<lambda>x. case x of JStr s \<Rightarrow> [s] | _ \<Rightarrow> []) xs) | _ \<Rightarrow> [])"

definition add_dependency_state :: "jobj \<Rightarrow> string \<Rightarrow> jobj" where
  "add_dependency_state state dependency =
     jset ''dependencies''
       (JArr (map JStr (foldr insert_sorted_string (json_strings (jget state ''dependencies'') @ [dependency]) [])))
       state"

section \<open>Transitions of the store\<close>

definition sched_transition ::
  "'h sched_params \<Rightarrow> identity \<Rightarrow> string \<Rightarrow> string \<Rightarrow> string \<Rightarrow> nat \<Rightarrow> jobj \<Rightarrow> string \<Rightarrow> string \<Rightarrow> string
     \<Rightarrow> string list \<Rightarrow> string option \<Rightarrow> fresh \<Rightarrow> 'h sched \<Rightarrow> ('h envelope \<times> 'h sched) result" where
  "sched_transition P actor capability kind i version state event key task_id artifacts topic fr sd =
     rbind (transition (sp_hashing P) actor capability
              \<lparr>rq_kind = kind, rq_id = i, rq_expected_version = version, rq_state = state,
               rq_event_type = event, rq_actor = id_principal actor, rq_task_id = task_id,
               rq_policy_version = po_policy_id (sp_policy P), rq_evidence = [], rq_artifacts = artifacts,
               rq_metadata = []\<rparr> key topic fr (sd_store sd)) (\<lambda>(e, st).
     Inr (row_envelope e, sd\<lparr>sd_store := st\<rparr>))"

definition task_state :: "'h sched \<Rightarrow> string \<Rightarrow> (nat \<times> jobj) result" where
  "task_state sd i =
     (case dict_get (st_aggregates (sd_store sd)) (''task'', i) of
        None \<Rightarrow> Inl (DomainError ''TASK_PROJECTION_MISSING'') | Some s \<Rightarrow> Inr s)"

section \<open>Campaigns and tasks\<close>

definition declare_campaign ::
  "'h sched_params \<Rightarrow> identity \<Rightarrow> campaign \<Rightarrow> int \<Rightarrow> fresh \<Rightarrow> 'h sched \<Rightarrow> (string \<times> 'h sched) result" where
  "declare_campaign P actor spec now fr sd =
     (if \<not> is_aware (cp_horizon_at spec) \<or> instant (cp_horizon_at spec) \<le> now
      then Inl (DomainError ''INVALID_CAMPAIGN_HORIZON'')
      else rbind (sched_transition P actor ''research'' ''campaign'' (cp_campaign_id spec) 0
                    (sp_dump_campaign P spec) ''CAMPAIGN_DECLARED'' (''campaign:'' @ cp_campaign_id spec)
                    (cp_campaign_id spec) [] None fr sd) (\<lambda>(env, sd1).
        Inr (env_aggregate_id env,
             if dict_get (sd_campaigns sd1) (cp_campaign_id spec) \<noteq> None then sd1
             else sd1\<lparr>sd_campaigns := sd_campaigns sd1 @
               [(cp_campaign_id spec,
                 \<lparr>cr_spec = spec, cr_allocated_usd = 0, cr_created_by = id_principal actor\<rparr>)]\<rparr>)))"

definition lanes :: "string list" where
  "lanes = [''EXPLOIT'', ''ALTERNATIVE'', ''NOVELTY'', ''FALSIFICATION'', ''REPLICATION'', ''DATA_QA'',
            ''EXECUTION_QA'', ''SYSTEM_QA'', ''GOVERNANCE'']"

definition find_duplicate :: "'h sched \<Rightarrow> string \<Rightarrow> 'h \<Rightarrow> string option" where
  "find_duplicate sd campaign semantic =
     map_option fst (List.find (\<lambda>(_, t). tk_campaign_id (tr_spec t) = campaign \<and> tr_semantic_hash t = semantic)
                       (sd_tasks sd))"

text \<open>
  The budget of a task comes from its parent or, for a root, from the campaign. The sum is
  compared in Decimal arithmetic by the code and exactly by the \<open>CHECK\<close> of the table.
\<close>

definition charge_parent :: "task \<Rightarrow> string \<Rightarrow> 'h sched \<Rightarrow> 'h sched result" where
  "charge_parent t parent_id sd =
     (case dict_get (sd_tasks sd) parent_id of
        None \<Rightarrow> Inl (DomainError ''INVALID_PARENT'')
      | Some parent \<Rightarrow>
          if tk_campaign_id (tr_spec parent) \<noteq> tk_campaign_id t
             \<or> tr_status parent \<in> {Failed, Killed, Quarantined}
          then Inl (DomainError ''INVALID_PARENT'')
          else if tk_budget_usd (tr_spec parent) < dadd (tr_child_allocated_usd parent) (tk_budget_usd t)
          then Inl (DomainError ''SUBTREE_BUDGET_EXHAUSTED'')
          else let total = tr_child_allocated_usd parent + tk_budget_usd t in
            rbind (require (0 \<le> total \<and> total \<le> tk_budget_usd (tr_spec parent))
                     (IntegrityError ''child_allocated_usd'')) (\<lambda>_.
            Inr (sd\<lparr>sd_tasks := dict_set parent_id (parent\<lparr>tr_child_allocated_usd := total\<rparr>) (sd_tasks sd)\<rparr>)))"

definition charge_campaign :: "task \<Rightarrow> campaign_row \<Rightarrow> 'h sched \<Rightarrow> 'h sched result" where
  "charge_campaign t row sd =
     (if cp_usd_budget (cr_spec row) < dadd (cr_allocated_usd row) (tk_budget_usd t)
      then Inl (DomainError ''CAMPAIGN_BUDGET_EXHAUSTED'')
      else let total = cr_allocated_usd row + tk_budget_usd t in
        rbind (require (0 \<le> total \<and> total \<le> cp_usd_budget (cr_spec row)) (IntegrityError ''allocated_usd'')) (\<lambda>_.
        Inr (sd\<lparr>sd_campaigns := dict_set (tk_campaign_id t) (row\<lparr>cr_allocated_usd := total\<rparr>) (sd_campaigns sd)\<rparr>)))"

definition insert_task :: "task \<Rightarrow> 'h \<Rightarrow> int \<Rightarrow> 'h sched \<Rightarrow> 'h sched result" where
  "insert_task t semantic now sd =
     rbind (require (dict_get (sd_tasks sd) (tk_task_id t) = None) (IntegrityError ''tasks_pkey'')) (\<lambda>_.
     rbind (require (case tk_parent_task_id t of None \<Rightarrow> True
                     | Some p \<Rightarrow> dict_get (sd_tasks sd) p \<noteq> None \<or> p = tk_task_id t)
              (IntegrityError ''parent_task_id'')) (\<lambda>_.
     Inr (sd\<lparr>sd_tasks := sd_tasks sd @
       [(tk_task_id t,
         \<lparr>tr_spec = t, tr_semantic_hash = semantic, tr_child_allocated_usd = 0, tr_status = Queued,
          tr_available_at = now, tr_created_at = now, tr_state_version = 1\<rparr>)]\<rparr>)))"

definition insert_dependency :: "task \<Rightarrow> 'h sched \<Rightarrow> string \<Rightarrow> 'h sched result" where
  "insert_dependency t sd dependency =
     (case dict_get (sd_tasks sd) dependency of
        None \<Rightarrow> Inl (DomainError ''INVALID_DEPENDENCY'')
      | Some target \<Rightarrow>
          if tk_campaign_id (tr_spec target) \<noteq> tk_campaign_id t then Inl (DomainError ''INVALID_DEPENDENCY'')
          else rbind (require ((tk_task_id t, dependency) \<notin> set (sd_deps sd) \<and> tk_task_id t \<noteq> dependency)
                        (IntegrityError ''task_dependencies'')) (\<lambda>_.
            Inr (sd\<lparr>sd_deps := sd_deps sd @ [(tk_task_id t, dependency)]\<rparr>)))"

definition enqueue ::
  "'h sched_params \<Rightarrow> identity \<Rightarrow> task \<Rightarrow> int \<Rightarrow> fresh \<Rightarrow> 'h sched \<Rightarrow> (string \<times> 'h sched) result" where
  "enqueue P actor t now fr sd =
     rbind (require (tk_task_class t \<in> set (dict_keys (po_class_limits (sp_policy P))))
              (DomainError ''UNKNOWN_RESOURCE_CLASS'')) (\<lambda>_.
     rbind (require (tk_lane_class t \<in> set lanes) (DomainError ''UNKNOWN_LANE_CLASS'')) (\<lambda>_.
     rbind (require (\<not> (tk_voi_lower_bound t \<le> 0 \<and> tk_lane_class t \<notin> {''DATA_QA'', ''EXECUTION_QA'', ''SYSTEM_QA''}))
              (DomainError ''NO_POSITIVE_INFORMATION_VALUE'')) (\<lambda>_.
     let semantic = sp_semantic P (tk_handler t) (tk_inputs t) (tk_expected_artifact_schema t) in
     rbind (require_capability actor ''task'') (\<lambda>_.
     case find_duplicate sd (tk_campaign_id t) semantic of
       Some existing \<Rightarrow> Inr (existing, sd)
     | None \<Rightarrow>
        (case dict_get (sd_campaigns sd) (tk_campaign_id t) of
           None \<Rightarrow> Inl (DomainError ''CAMPAIGN_UNAVAILABLE'')
         | Some row \<Rightarrow>
             rbind (require (now < instant (cp_horizon_at (cr_spec row))) (DomainError ''CAMPAIGN_UNAVAILABLE'')) (\<lambda>_.
             rbind (if truthy (tk_parent_task_id t) then charge_parent t (the (tk_parent_task_id t)) sd
                    else charge_campaign t row sd) (\<lambda>sd1.
             rbind (sched_transition P actor ''task'' ''task'' (tk_task_id t) 0
                      (jset ''status'' (JStr ''queued'') (sp_dump_task P t)) ''TASK_QUEUED''
                      (''task:'' @ tk_task_id t) (tk_task_id t) [] (Some ''task.queued'') fr sd1) (\<lambda>(_, sd2).
             rbind (insert_task t semantic now sd2) (\<lambda>sd3.
             rbind (rfold (insert_dependency t) sd3 (tk_dependencies t)) (\<lambda>sd4.
             Inr (tk_task_id t, sd4)))))))))))"

text \<open>
  The recursive query collects what \<open>dependency\<close> depends on, itself included: the
  reflexive transitive closure of the dependency table.
\<close>

definition depends_on :: "(string \<times> string) list \<Rightarrow> string \<Rightarrow> string \<Rightarrow> bool" where
  "depends_on deps a b = (a = b \<or> (a, b) \<in> (set deps)\<^sup>+)"

definition add_dependency ::
  "'h sched_params \<Rightarrow> identity \<Rightarrow> string \<Rightarrow> string \<Rightarrow> fresh \<Rightarrow> 'h sched \<Rightarrow> 'h sched result" where
  "add_dependency P actor task_id dependency fr sd =
     rbind (require_capability actor ''task'') (\<lambda>_.
     case (dict_get (sd_tasks sd) task_id, dict_get (sd_tasks sd) dependency) of
       (Some t, Some target) \<Rightarrow>
         if depends_on (sd_deps sd) dependency task_id
            \<or> tk_campaign_id (tr_spec t) \<noteq> tk_campaign_id (tr_spec target) \<or> tr_status t \<noteq> Queued
         then Inl (DomainError ''INVALID_DEPENDENCY_DAG'')
         else
           rbind (task_state sd task_id) (\<lambda>(version, state).
           rbind (sched_transition P actor ''task'' ''task'' task_id version
                    (add_dependency_state state dependency) ''TASK_DEPENDENCY_ADDED''
                    (''dependency:'' @ task_id @ '':'' @ dependency) task_id [] None fr sd) (\<lambda>(_, sd1).
           Inr (if (task_id, dependency) \<in> set (sd_deps sd1) then sd1
                else sd1\<lparr>sd_deps := sd_deps sd1 @ [(task_id, dependency)]\<rparr>)))
     | _ \<Rightarrow> Inl (DomainError ''INVALID_DEPENDENCY_DAG''))"

section \<open>Claiming\<close>

definition live_leases :: "'h sched \<Rightarrow> string \<Rightarrow> int \<Rightarrow> nat" where
  "live_leases sd cls now =
     length (List.filter (\<lambda>(_, l). ls_released_at l = None \<and> now < ls_expires_at l \<and> ls_resource_class l = cls)
               (sd_leases sd))"

definition class_limit :: "runtime_policy \<Rightarrow> string \<Rightarrow> nat" where
  "class_limit po cls = (case dict_get (po_class_limits po) cls of None \<Rightarrow> 0 | Some n \<Rightarrow> n)"

definition dependencies_met :: "'h sched \<Rightarrow> string \<Rightarrow> bool" where
  "dependencies_met sd i =
     list_all (\<lambda>(a, b). a = i \<longrightarrow> (case dict_get (sd_tasks sd) b of None \<Rightarrow> True | Some p \<Rightarrow> tr_status p = Completed))
       (sd_deps sd)"

definition parent_allows :: "'h sched \<Rightarrow> task \<Rightarrow> bool" where
  "parent_allows sd t =
     (case tk_parent_task_id t of
        None \<Rightarrow> True
      | Some p \<Rightarrow> tk_independent_if_parent_fails t \<or>
          (case dict_get (sd_tasks sd) p of
             None \<Rightarrow> False | Some row \<Rightarrow> tr_status row \<notin> {Failed, Killed, Quarantined}))"

definition campaign_open :: "'h sched \<Rightarrow> string \<Rightarrow> int \<Rightarrow> bool" where
  "campaign_open sd c now =
     (case dict_get (sd_campaigns sd) c of None \<Rightarrow> False | Some row \<Rightarrow> now < instant (cp_horizon_at (cr_spec row)))"

definition claimable :: "'h sched \<Rightarrow> string \<Rightarrow> int \<Rightarrow> string \<times> 'h task_row \<Rightarrow> bool" where
  "claimable sd cls now row =
     (case row of (i, t) \<Rightarrow>
        tr_status t \<in> {Queued, Hibernating} \<and> tr_available_at t \<le> now
        \<and> campaign_open sd (tk_campaign_id (tr_spec t)) now \<and> tk_task_class (tr_spec t) = cls
        \<and> dependencies_met sd i \<and> parent_allows sd (tr_spec t))"

text \<open>\<open>ORDER BY created_at\<close>; rows with equal times stay in the order of their insertion.\<close>

definition candidates :: "'h sched \<Rightarrow> string \<Rightarrow> int \<Rightarrow> (string \<times> 'h task_row) list" where
  "candidates sd cls now =
     take 100 (sort_key (\<lambda>(_, t). tr_created_at t) (List.filter (claimable sd cls now) (sd_tasks sd)))"

definition lane_count :: "'h sched \<Rightarrow> string \<Rightarrow> nat" where
  "lane_count sd lane =
     length (List.filter (\<lambda>(_, r). case dict_get (sd_tasks sd) (rn_task_id r) of
                                    None \<Rightarrow> False | Some t \<Rightarrow> tk_lane_class (tr_spec t) = lane)
               (sd_runs sd))"

definition run_total :: "'h sched \<Rightarrow> nat" where
  "run_total sd = length (List.filter (\<lambda>(_, r). dict_get (sd_tasks sd) (rn_task_id r) \<noteq> None) (sd_runs sd))"

definition lane_of :: "string \<times> 'h task_row \<Rightarrow> string" where
  "lane_of row = tk_lane_class (tr_spec (snd row))"

definition protected_tasks ::
  "runtime_policy \<Rightarrow> 'h sched \<Rightarrow> (string \<times> 'h task_row) list \<Rightarrow> (string \<times> 'h task_row) list" where
  "protected_tasks po sd cands =
     (let novelty_due = of_nat (lane_count sd ''NOVELTY'')
                          < dmul (po_exploration_floor po) (of_nat (run_total sd + 1));
          novel = (if novelty_due then List.filter (\<lambda>t. lane_of t = ''NOVELTY'') cands else [])
      in if novel = [] \<and> lane_count sd ''REPLICATION'' = 0
         then List.filter (\<lambda>t. lane_of t = ''REPLICATION'') cands
         else novel)"

text \<open>
  The key of \<open>max\<close>: information per cost, then age, then novelty. A budget is not negative,
  so the division cannot fail; the order of the ages is that of the instants.
\<close>

definition value_key :: "int \<Rightarrow> string \<times> 'h task_row \<Rightarrow> rat \<times> int \<times> rat" where
  "value_key now row =
     (let t = tr_spec (snd row)
      in (case ddiv (tk_information_value t) (dadd (tk_budget_usd t) 1) of Inr q \<Rightarrow> q | Inl e \<Rightarrow> 0,
          now - tr_created_at (snd row), tk_novelty t))"

definition key_less :: "rat \<times> int \<times> rat \<Rightarrow> rat \<times> int \<times> rat \<Rightarrow> bool" where
  "key_less a b =
     (fst a < fst b \<or> (fst a = fst b \<and>
        (fst (snd a) < fst (snd b) \<or> (fst (snd a) = fst (snd b) \<and> snd (snd a) < snd (snd b)))))"

fun best_by :: "('a \<Rightarrow> 'b) \<Rightarrow> ('b \<Rightarrow> 'b \<Rightarrow> bool) \<Rightarrow> 'a \<Rightarrow> 'a list \<Rightarrow> 'a" where
  "best_by key lt best [] = best"
| "best_by key lt best (x # xs) = best_by key lt (if lt (key best) (key x) then x else best) xs"

definition select_task ::
  "runtime_policy \<Rightarrow> 'h sched \<Rightarrow> int \<Rightarrow> (string \<times> 'h task_row) list \<Rightarrow> string \<times> 'h task_row" where
  "select_task po sd now cands =
     (let pool = (if protected_tasks po sd cands \<noteq> [] then protected_tasks po sd cands else cands)
      in best_by (value_key now) key_less (hd pool) (tl pool))"

definition attempts :: "'h sched \<Rightarrow> string \<Rightarrow> nat" where
  "attempts sd i = length (List.filter (\<lambda>(_, r). rn_task_id r = i) (sd_runs sd))"

definition set_task :: "string \<Rightarrow> ('h task_row \<Rightarrow> 'h task_row) \<Rightarrow> 'h sched \<Rightarrow> 'h sched" where
  "set_task i f sd = sd\<lparr>sd_tasks := map (\<lambda>(j, t). (j, if j = i then f t else t)) (sd_tasks sd)\<rparr>"

definition set_run :: "string \<Rightarrow> (run_row \<Rightarrow> run_row) \<Rightarrow> 'h sched \<Rightarrow> 'h sched" where
  "set_run i f sd = sd\<lparr>sd_runs := map (\<lambda>(j, r). (j, if j = i then f r else r)) (sd_runs sd)\<rparr>"

definition release_leases :: "string \<Rightarrow> int \<Rightarrow> 'h sched \<Rightarrow> 'h sched" where
  "release_leases run now sd =
     sd\<lparr>sd_leases := map (\<lambda>(j, l). (j, if ls_run_id l = run then l\<lparr>ls_released_at := Some now\<rparr> else l)) (sd_leases sd)\<rparr>"

definition start_run ::
  "identity \<Rightarrow> string \<Rightarrow> int \<Rightarrow> run_ids \<Rightarrow> nat \<Rightarrow> nat \<Rightarrow> string \<times> 'h task_row \<Rightarrow> 'h sched \<Rightarrow> 'h sched result" where
  "start_run actor cls now ids tries version selected sd =
     (let i = fst selected; t = tr_spec (snd selected) in
      rbind (require (dict_get (sd_runs sd) (ri_run ids) = None) (IntegrityError ''active_task_runs_pkey'')) (\<lambda>_.
      rbind (require (dict_get (sd_leases sd) (ri_lease ids) = None
                      \<and> \<not> list_ex (\<lambda>(_, l). ls_fencing_token l = ri_fence ids) (sd_leases sd))
               (IntegrityError ''resource_leases'')) (\<lambda>_.
      Inr (set_task i (\<lambda>row. row\<lparr>tr_status := Running, tr_state_version := version\<rparr>)
        (sd\<lparr>sd_runs := sd_runs sd @
              [(ri_run ids,
                \<lparr>rn_task_id = i, rn_worker_id = id_principal actor, rn_task_class = cls, rn_status = RunRunning,
                 rn_started_at = now, rn_heartbeat_at = now, rn_completed_at = None, rn_kill_reason = None,
                 rn_expected_artifact_schema = tk_expected_artifact_schema t, rn_expected_artifact_id = None,
                 rn_active_lease_id = ri_lease ids, rn_priority = tk_information_value t,
                 rn_retry_count = int tries, rn_max_retries = tk_max_retries t, rn_timeout_sec = tk_timeout_sec t\<rparr>)],
            sd_leases := sd_leases sd @
              [(ri_lease ids,
                \<lparr>ls_run_id = ri_run ids, ls_worker_id = id_principal actor, ls_fencing_token = ri_fence ids,
                 ls_expires_at = now + seconds (tk_timeout_sec t), ls_heartbeat_at = now, ls_released_at = None,
                 ls_resource_class = cls\<rparr>)]\<rparr>)))))"

definition claim ::
  "'h sched_params \<Rightarrow> identity \<Rightarrow> string \<Rightarrow> int \<Rightarrow> run_ids \<Rightarrow> fresh \<Rightarrow> 'h sched \<Rightarrow> (string option \<times> 'h sched) result" where
  "claim P actor cls now ids fr sd =
     rbind (require_capability actor ''task'') (\<lambda>_.
     rbind (require (id_role actor = ''scheduler'') (DomainError ''WORKER_AUTHORITY_REQUIRED'')) (\<lambda>_.
     if class_limit (sp_policy P) cls \<le> live_leases sd cls now then Inr (None, sd)
     else
       let cands = candidates sd cls now in
       if cands = [] then Inr (None, sd)
       else
         let selected = select_task (sp_policy P) sd now cands; i = fst selected in
         rbind (task_state sd i) (\<lambda>(version, state).
         rbind (sched_transition P actor ''task'' ''task'' i version
                  (jset ''run_id'' (JStr (ri_run ids)) (jset ''status'' (JStr ''running'') state)) ''TASK_STARTED''
                  (''run:'' @ ri_run ids) i [] None fr sd) (\<lambda>(env, sd1).
         rbind (start_run actor cls now ids (attempts sd i) (env_aggregate_version env) selected sd1) (\<lambda>sd2.
         Inr (Some i, sd2\<lparr>sd_allocations := sd_allocations sd2 @
           [\<lparr>al_candidates = map fst cands, al_chosen = i,
             al_displaced = List.filter (\<lambda>j. j \<noteq> i) (map fst cands),
             al_reason = (if protected_tasks (sp_policy P) sd cands \<noteq> [] then ''protected''
                          else ''value_of_information''),
             al_event_id = env_event_id env\<rparr>]\<rparr>))))))"

section \<open>Running\<close>

definition holds :: "identity \<Rightarrow> string \<Rightarrow> string \<Rightarrow> int \<Rightarrow> lease \<Rightarrow> bool" where
  "holds actor run fence now l =
     (ls_run_id l = run \<and> ls_fencing_token l = fence \<and> ls_worker_id l = id_principal actor
      \<and> ls_released_at l = None \<and> now < ls_expires_at l)"

definition heartbeat :: "identity \<Rightarrow> string \<Rightarrow> string \<Rightarrow> int \<Rightarrow> 'h sched \<Rightarrow> 'h sched result" where
  "heartbeat actor run fence now sd =
     (if \<not> list_ex (\<lambda>(_, l). holds actor run fence now l) (sd_leases sd) then Inl (DomainError ''STALE_LEASE'')
      else Inr (set_run run (\<lambda>r. if rn_status r = RunRunning then r\<lparr>rn_heartbeat_at := now\<rparr> else r)
        (sd\<lparr>sd_leases := map (\<lambda>(j, l). (j, if holds actor run fence now l then l\<lparr>ls_heartbeat_at := now\<rparr> else l))
                           (sd_leases sd)\<rparr>)))"

definition check_delivery ::
  "'h sched_params \<Rightarrow> identity \<Rightarrow> run_row \<Rightarrow> string option \<Rightarrow> string option \<Rightarrow> 'h sched \<Rightarrow> unit result" where
  "check_delivery P actor r artifact_id failure sd =
     (if truthy failure then Inr ()
      else if \<not> truthy artifact_id then Inl (DomainError ''EXPECTED_ARTIFACT_MISSING'')
      else rbind (read_artifact (sp_hashing P) (sd_store sd) actor (the artifact_id)) (\<lambda>a.
        require (art_schema_name a = rn_expected_artifact_schema r) (DomainError ''ARTIFACT_SCHEMA_MISMATCH'')))"

definition finish ::
  "'h sched_params \<Rightarrow> identity \<Rightarrow> string \<Rightarrow> string \<Rightarrow> string option \<Rightarrow> string option \<Rightarrow> int \<Rightarrow> fresh \<Rightarrow> 'h sched
     \<Rightarrow> (task_status \<times> 'h sched) result" where
  "finish P actor run fence artifact_id failure now fr sd =
     rbind (require_capability actor ''task'') (\<lambda>_.
     case (dict_get (sd_runs sd) run, list_ex (\<lambda>(_, l). holds actor run fence now l) (sd_leases sd)) of
       (Some r, True) \<Rightarrow>
         rbind (check_delivery P actor r artifact_id failure sd) (\<lambda>_.
         let i = rn_task_id r;
             status = (if \<not> truthy failure then Completed
                       else if rn_max_retries r \<le> rn_retry_count r then Quarantined else Hibernating) in
         rbind (task_state sd i) (\<lambda>(version, state).
         rbind (sched_transition P actor ''task'' ''task'' i version
                  (jset ''artifact_id'' (json_option artifact_id) (jset ''failure'' (json_option failure)
                    (jset ''status'' (JStr (status_name status)) state))) ''TASK_FINISHED''
                  (''finish:'' @ run) i (if truthy artifact_id then [the artifact_id] else []) None fr sd) (\<lambda>(env, sd1).
         Inr (status,
           release_leases run now
             (set_run run (\<lambda>r'. r'\<lparr>rn_status := (if \<not> truthy failure then RunCompleted else RunFailed),
                                  rn_completed_at := Some now, rn_expected_artifact_id := artifact_id,
                                  rn_kill_reason := failure\<rparr>)
                (set_task i (\<lambda>t. t\<lparr>tr_status := status, tr_state_version := env_aggregate_version env,
                                  tr_available_at := now + seconds (rn_timeout_sec r)\<rparr>) sd1))))))
     | _ \<Rightarrow> Inl (DomainError ''STALE_LEASE''))"

definition expired_runs :: "'h sched \<Rightarrow> int \<Rightarrow> (string \<times> run_row) list" where
  "expired_runs sd now =
     concat (map (\<lambda>(run, r). map (\<lambda>_. (run, r))
        (List.filter (\<lambda>(_, l). ls_run_id l = run \<and> ls_released_at l = None \<and> ls_expires_at l \<le> now) (sd_leases sd)))
       (sd_runs sd))"

definition expire_run ::
  "'h sched_params \<Rightarrow> identity \<Rightarrow> int \<Rightarrow> (string \<Rightarrow> fresh) \<Rightarrow> 'h sched \<Rightarrow> string \<times> run_row \<Rightarrow> 'h sched result" where
  "expire_run P actor now fr sd row =
     (let run = fst row; r = snd row; i = rn_task_id r;
          status = (if rn_max_retries r \<le> rn_retry_count r then Quarantined else Queued) in
      rbind (task_state sd i) (\<lambda>(version, state).
      rbind (sched_transition P actor ''task'' ''task'' i version
               (jset ''failure'' (JStr ''LEASE_EXPIRED'') (jset ''status'' (JStr (status_name status)) state))
               ''LEASE_EXPIRED'' (''expire:'' @ run) i [] None (fr run) sd) (\<lambda>(env, sd1).
      Inr (release_leases run now
             (set_run run (\<lambda>r'. r'\<lparr>rn_status := RunExpired, rn_completed_at := Some now\<rparr>)
               (set_task i (\<lambda>t. t\<lparr>tr_status := status, tr_state_version := env_aggregate_version env\<rparr>) sd1))))))"

definition recover ::
  "'h sched_params \<Rightarrow> identity \<Rightarrow> int \<Rightarrow> (string \<Rightarrow> fresh) \<Rightarrow> 'h sched \<Rightarrow> (nat \<times> 'h sched) result" where
  "recover P actor now fr sd =
     rbind (require_capability actor ''task'') (\<lambda>_.
     rbind (rfold (expire_run P actor now fr) sd (expired_runs sd now)) (\<lambda>sd'.
     Inr (length (expired_runs sd now), sd')))"

section \<open>Histories\<close>

definition empty_sched :: "'h sched" where
  "empty_sched = \<lparr>sd_store = empty_store, sd_campaigns = [], sd_tasks = [], sd_deps = [], sd_runs = [],
                  sd_leases = [], sd_allocations = []\<rparr>"

text \<open>
  \<open>sched_step P now sd sd'\<close>: an operation committed at clock \<open>now\<close>. The other services write
  the store only, which \<open>elsewhere\<close> stands for.
\<close>

inductive sched_step :: "'h sched_params \<Rightarrow> int \<Rightarrow> 'h sched \<Rightarrow> 'h sched \<Rightarrow> bool" for P now where
  declared: "mk_campaign c = Inr c \<Longrightarrow> declare_campaign P actor c now fr sd = Inr (i, sd') \<Longrightarrow> sched_step P now sd sd'"
| enqueued: "mk_task t = Inr t \<Longrightarrow> enqueue P actor t now fr sd = Inr (i, sd') \<Longrightarrow> sched_step P now sd sd'"
| linked: "add_dependency P actor i j fr sd = Inr sd' \<Longrightarrow> sched_step P now sd sd'"
| claimed: "claim P actor cls now ids fr sd = Inr (i', sd') \<Longrightarrow> sched_step P now sd sd'"
| beat: "heartbeat actor run fence now sd = Inr sd' \<Longrightarrow> sched_step P now sd sd'"
| finished: "finish P actor run fence art failure now fr sd = Inr (s, sd') \<Longrightarrow> sched_step P now sd sd'"
| recovered: "recover P actor now frs sd = Inr (n, sd') \<Longrightarrow> sched_step P now sd sd'"
| elsewhere: "sched_step P now sd (sd\<lparr>sd_store := st\<rparr>)"

text \<open>Histories with a clock that does not go back: the last instant and the state.\<close>

inductive sched_run :: "'h sched_params \<Rightarrow> int \<Rightarrow> 'h sched \<Rightarrow> bool" for P where
  start: "sched_run P t0 empty_sched"
| step: "sched_run P t sd \<Longrightarrow> t \<le> now \<Longrightarrow> sched_step P now sd sd' \<Longrightarrow> sched_run P now sd'"

end
