(* ===== verification/SchedulerProps.thy ===== *)
theory SchedulerProps
  imports Scheduler
begin

text \<open>
  Invariants of the scheduler's tables over every history of its operations: concurrency
  limits, acyclic dependencies, single leases, bounded attempts and budgets. The first
  section says what each committed operation does to the tables; the proofs of the
  invariants use only those shapes.
\<close>

section \<open>The shape of the operations\<close>

lemma sched_transition_frame:
  "sched_transition P actor cap kind i v state ev key tid arts topic fr sd = Inr (env, sd1)
     \<Longrightarrow> \<exists>st. sd1 = sd\<lparr>sd_store := st\<rparr>"
  by (auto simp: sched_transition_def rbind_eq_Inr)

lemma declare_shape:
  assumes "declare_campaign P actor c now fr sd = Inr (i, sd')"
  shows "\<exists>st. sd' = sd\<lparr>sd_store := st\<rparr> \<or>
    (dict_get (sd_campaigns sd) (cp_campaign_id c) = None \<and>
     sd' = sd\<lparr>sd_store := st, sd_campaigns := sd_campaigns sd @
       [(cp_campaign_id c, \<lparr>cr_spec = c, cr_allocated_usd = 0, cr_created_by = id_principal actor\<rparr>)]\<rparr>)"
  using assms
  by (auto simp: declare_campaign_def rbind_eq_Inr dest!: sched_transition_frame split: if_splits)

lemma insert_dependencies_shape:
  "rfold (insert_dependency t) sd ds = Inr sd' \<Longrightarrow>
     sd' = sd\<lparr>sd_deps := sd_deps sd @ map (Pair (tk_task_id t)) ds\<rparr>
     \<and> (\<forall>d \<in> set ds. d \<noteq> tk_task_id t \<and> dict_get (sd_tasks sd) d \<noteq> None)"
proof (induction ds arbitrary: sd)
  case Nil
  then show ?case by simp
next
  case (Cons d ds)
  then obtain sd1 where d: "insert_dependency t sd d = Inr sd1" and r: "rfold (insert_dependency t) sd1 ds = Inr sd'"
    by (auto simp: rbind_eq_Inr)
  have s1: "sd1 = sd\<lparr>sd_deps := sd_deps sd @ [(tk_task_id t, d)]\<rparr>" "d \<noteq> tk_task_id t"
    "dict_get (sd_tasks sd) d \<noteq> None"
    using d by (auto simp: insert_dependency_def rbind_eq_Inr split: option.splits if_splits)
  from Cons.IH [OF r] s1 show ?case by simp
qed

lemma insert_deps_store:
  "rfold (insert_dependency t) sd ds = Inr sd' \<Longrightarrow>
     rfold (insert_dependency t) (sd\<lparr>sd_store := st\<rparr>) ds = Inr (sd'\<lparr>sd_store := st\<rparr>)"
proof (induction ds arbitrary: sd)
  case Nil
  then show ?case by simp
next
  case (Cons d ds)
  then obtain sd1 where d: "insert_dependency t sd d = Inr sd1" and r: "rfold (insert_dependency t) sd1 ds = Inr sd'"
    by (auto simp: rbind_eq_Inr)
  have "insert_dependency t (sd\<lparr>sd_store := st\<rparr>) d = Inr (sd1\<lparr>sd_store := st\<rparr>)"
    using d by (auto simp: insert_dependency_def rbind_eq_Inr split: option.splits if_splits)
  then show ?case using Cons.IH [OF r] by simp
qed

definition charged :: "task \<Rightarrow> 'h sched \<Rightarrow> 'h sched \<Rightarrow> bool" where
  "charged t sd sd1 \<longleftrightarrow>
     (\<exists>p row. tk_parent_task_id t = Some p \<and> p \<noteq> [] \<and> dict_get (sd_tasks sd) p = Some row
        \<and> tk_campaign_id (tr_spec row) = tk_campaign_id t
        \<and> tr_child_allocated_usd row + tk_budget_usd t \<le> tk_budget_usd (tr_spec row)
        \<and> sd1 = sd\<lparr>sd_tasks := dict_set p
             (row\<lparr>tr_child_allocated_usd := tr_child_allocated_usd row + tk_budget_usd t\<rparr>) (sd_tasks sd)\<rparr>)
   \<or> (\<exists>row. \<not> truthy (tk_parent_task_id t) \<and> dict_get (sd_campaigns sd) (tk_campaign_id t) = Some row
        \<and> cr_allocated_usd row + tk_budget_usd t \<le> cp_usd_budget (cr_spec row)
        \<and> sd1 = sd\<lparr>sd_campaigns := dict_set (tk_campaign_id t)
             (row\<lparr>cr_allocated_usd := cr_allocated_usd row + tk_budget_usd t\<rparr>) (sd_campaigns sd)\<rparr>)"

definition fresh_row :: "task \<Rightarrow> 'h \<Rightarrow> int \<Rightarrow> 'h task_row" where
  "fresh_row t semantic now =
     \<lparr>tr_spec = t, tr_semantic_hash = semantic, tr_child_allocated_usd = 0, tr_status = Queued,
      tr_available_at = now, tr_created_at = now, tr_state_version = 1\<rparr>"

lemma enqueue_shape:
  assumes "enqueue P actor t now fr sd = Inr (i, sd')" and "dict_get (sd_tasks sd) [] = None"
  obtains (same) "sd' = sd"
  | (new) sd1 st semantic where "charged t sd sd1" "dict_get (sd_tasks sd1) (tk_task_id t) = None"
      "tk_task_id t \<noteq> []"
      "\<And>p. tk_parent_task_id t = Some p \<Longrightarrow> p \<noteq> [] \<and> dict_get (sd_tasks sd) p \<noteq> None"
      "sd' = sd1\<lparr>sd_store := st, sd_tasks := sd_tasks sd1 @ [(tk_task_id t, fresh_row t semantic now)],
                 sd_deps := sd_deps sd1 @ map (Pair (tk_task_id t)) (tk_dependencies t)\<rparr>"
      "\<And>d. d \<in> set (tk_dependencies t) \<Longrightarrow> d \<noteq> tk_task_id t \<and> dict_get (sd_tasks sd1) d \<noteq> None"
proof -
  let ?sem = "sp_semantic P (tk_handler t) (tk_inputs t) (tk_expected_artifact_schema t)"
  show thesis
  proof (cases "find_duplicate sd (tk_campaign_id t) ?sem")
    case (Some x)
    with assms(1) have "sd' = sd" by (auto simp: enqueue_def rbind_eq_Inr)
    then show ?thesis by (rule same)
  next
    case None
    with assms(1) obtain row sd1 env sd2 sd3 where c: "dict_get (sd_campaigns sd) (tk_campaign_id t) = Some row"
      and ch: "(if truthy (tk_parent_task_id t) then charge_parent t (the (tk_parent_task_id t)) sd
                    else charge_campaign t row sd) = Inr sd1"
      and tr: "sched_transition P actor ''task'' ''task'' (tk_task_id t) 0
                      (jset ''status'' (JStr ''queued'') (sp_dump_task P t)) ''TASK_QUEUED''
                      (''task:'' @ tk_task_id t) (tk_task_id t) [] (Some ''task.queued'') fr sd1 = Inr (env, sd2)"
      and ins: "insert_task t ?sem now sd2 = Inr sd3"
      and dep: "rfold (insert_dependency t) sd3 (tk_dependencies t) = Inr sd'"
      by (fastforce simp: enqueue_def rbind_eq_Inr Let_def split: option.splits)
    from tr obtain st where sd2: "sd2 = sd1\<lparr>sd_store := st\<rparr>" by (blast dest: sched_transition_frame)
    from tr have ne: "tk_task_id t \<noteq> []"
      by (auto simp: sched_transition_def rbind_eq_Inr dest: transition_authorized(3))
    have charged: "charged t sd sd1"
      using ch c unfolding charged_def
      by (auto simp: charge_parent_def charge_campaign_def truthy_def rbind_eq_Inr Let_def
          split: option.splits if_splits)
    have keys: "dict_get (sd_tasks sd1) [] = None"
      using charged assms(2) by (auto simp: charged_def dict_get_set)
    have sd3: "sd3 = sd1\<lparr>sd_store := st, sd_tasks := sd_tasks sd1 @ [(tk_task_id t, fresh_row t ?sem now)]\<rparr>"
      and free: "dict_get (sd_tasks sd1) (tk_task_id t) = None"
      and fk: "\<And>p. tk_parent_task_id t = Some p \<Longrightarrow> dict_get (sd_tasks sd1) p \<noteq> None \<or> p = tk_task_id t"
      using ins by (auto simp: insert_task_def sd2 rbind_eq_Inr fresh_row_def split: option.splits)
    have par: "p \<noteq> [] \<and> dict_get (sd_tasks sd) p \<noteq> None" if "tk_parent_task_id t = Some p" for p
    proof (cases "p = []")
      case True
      with fk [OF that] keys ne show ?thesis by simp
    next
      case False
      with that charged show ?thesis by (auto simp: charged_def truthy_def)
    qed
    have deps: "d \<noteq> tk_task_id t \<and> dict_get (sd_tasks sd1) d \<noteq> None" if "d \<in> set (tk_dependencies t)" for d
      using insert_dependencies_shape [OF dep] that by (auto simp: sd3)
    show ?thesis
      by (rule new [OF charged free ne par _ deps])
        (use insert_dependencies_shape [OF dep] in \<open>simp_all add: sd3\<close>)
  qed
qed

lemma add_dependency_shape:
  assumes "add_dependency P actor i j fr sd = Inr sd'"
  obtains st where "sd' = sd\<lparr>sd_store := st\<rparr>"
  | st where "sd' = sd\<lparr>sd_store := st, sd_deps := sd_deps sd @ [(i, j)]\<rparr>" "\<not> depends_on (sd_deps sd) j i"
      "dict_get (sd_tasks sd) i \<noteq> None" "dict_get (sd_tasks sd) j \<noteq> None"
  using assms
  by (fastforce simp: add_dependency_def rbind_eq_Inr dest!: sched_transition_frame
      split: option.splits if_splits)

lemma best_by_in: "best_by key lt x xs \<in> set (x # xs)"
  by (induction xs arbitrary: x) (simp, simp split: if_splits, blast)

lemma select_task_in:
  assumes "cands \<noteq> []"
  shows "select_task po sd now cands \<in> set cands"
proof -
  let ?pool = "if protected_tasks po sd cands \<noteq> [] then protected_tasks po sd cands else cands"
  have "?pool \<noteq> []" using assms by simp
  then have "select_task po sd now cands \<in> set ?pool"
    unfolding select_task_def Let_def by (metis best_by_in list.collapse)
  moreover have "set ?pool \<subseteq> set cands" by (auto simp: protected_tasks_def Let_def split: if_splits)
  ultimately show ?thesis by blast
qed

lemma candidates_claimable:
  assumes "row \<in> set (candidates sd cls now)"
  shows "row \<in> set (sd_tasks sd)" and "claimable sd cls now row"
  using assms in_set_takeD [of row 100] by (fastforce simp: candidates_def)+

definition started ::
  "identity \<Rightarrow> string \<Rightarrow> int \<Rightarrow> run_ids \<Rightarrow> nat \<Rightarrow> string \<times> 'h task_row \<Rightarrow> run_row" where
  "started actor cls now ids tries sel =
     \<lparr>rn_task_id = fst sel, rn_worker_id = id_principal actor, rn_task_class = cls, rn_status = RunRunning,
      rn_started_at = now, rn_heartbeat_at = now, rn_completed_at = None, rn_kill_reason = None,
      rn_expected_artifact_schema = tk_expected_artifact_schema (tr_spec (snd sel)), rn_expected_artifact_id = None,
      rn_active_lease_id = ri_lease ids, rn_priority = tk_information_value (tr_spec (snd sel)),
      rn_retry_count = int tries, rn_max_retries = tk_max_retries (tr_spec (snd sel)),
      rn_timeout_sec = tk_timeout_sec (tr_spec (snd sel))\<rparr>"

definition granted :: "identity \<Rightarrow> string \<Rightarrow> int \<Rightarrow> run_ids \<Rightarrow> string \<times> 'h task_row \<Rightarrow> lease" where
  "granted actor cls now ids sel =
     \<lparr>ls_run_id = ri_run ids, ls_worker_id = id_principal actor, ls_fencing_token = ri_fence ids,
      ls_expires_at = now + seconds (tk_timeout_sec (tr_spec (snd sel))), ls_heartbeat_at = now,
      ls_released_at = None, ls_resource_class = cls\<rparr>"

lemma claim_shape:
  assumes "claim P actor cls now ids fr sd = Inr (i', sd')"
  obtains (idle) "sd' = sd"
  | (run) sel v st al where "sel \<in> set (sd_tasks sd)" "claimable sd cls now sel"
      "live_leases sd cls now < class_limit (sp_policy P) cls"
      "dict_get (sd_runs sd) (ri_run ids) = None" "dict_get (sd_leases sd) (ri_lease ids) = None"
      "sd' = (set_task (fst sel) (\<lambda>row. row\<lparr>tr_status := Running, tr_state_version := v\<rparr>)
        (sd\<lparr>sd_store := st,
            sd_runs := sd_runs sd @ [(ri_run ids, started actor cls now ids (attempts sd (fst sel)) sel)],
            sd_leases := sd_leases sd @ [(ri_lease ids, granted actor cls now ids sel)]\<rparr>))\<lparr>sd_allocations := al\<rparr>"
proof (cases "class_limit (sp_policy P) cls \<le> live_leases sd cls now \<or> candidates sd cls now = []")
  case True
  with assms have "sd' = sd" by (auto simp: claim_def rbind_eq_Inr Let_def split: if_splits)
  then show thesis by (rule idle)
next
  case False
  let ?sel = "select_task (sp_policy P) sd now (candidates sd cls now)"
  from False assms obtain v s env sd1 sd2 al where
    tr: "sched_transition P actor ''task'' ''task'' (fst ?sel) v
           (jset ''run_id'' (JStr (ri_run ids)) (jset ''status'' (JStr ''running'') s)) ''TASK_STARTED''
           (''run:'' @ ri_run ids) (fst ?sel) [] None fr sd = Inr (env, sd1)"
    and go: "start_run actor cls now ids (attempts sd (fst ?sel)) (env_aggregate_version env) ?sel sd1 = Inr sd2"
    and sd': "sd' = sd2\<lparr>sd_allocations := al\<rparr>"
    by (auto simp: claim_def rbind_eq_Inr Let_def)
  from tr obtain st where sd1: "sd1 = sd\<lparr>sd_store := st\<rparr>" by (blast dest: sched_transition_frame)
  have sel: "?sel \<in> set (candidates sd cls now)" using False by (intro select_task_in) simp
  show thesis
  proof (rule run [OF candidates_claimable [OF sel]])
    show "live_leases sd cls now < class_limit (sp_policy P) cls" using False by simp
    show "dict_get (sd_runs sd) (ri_run ids) = None" "dict_get (sd_leases sd) (ri_lease ids) = None"
      using go by (auto simp: start_run_def rbind_eq_Inr sd1 Let_def)
    show "sd' = (set_task (fst ?sel) (\<lambda>row. row\<lparr>tr_status := Running, tr_state_version := env_aggregate_version env\<rparr>)
        (sd\<lparr>sd_store := st,
            sd_runs := sd_runs sd @ [(ri_run ids, started actor cls now ids (attempts sd (fst ?sel)) ?sel)],
            sd_leases := sd_leases sd @ [(ri_lease ids, granted actor cls now ids ?sel)]\<rparr>))\<lparr>sd_allocations := al\<rparr>"
      using go by (auto simp: start_run_def rbind_eq_Inr sd1 sd' Let_def started_def granted_def)
  qed
qed

text \<open>
  Ending a run: its task gets a new status, its row is closed and its lease released. Both
  \<open>finish\<close> and \<open>recover\<close> end runs.
\<close>

definition end_run ::
  "string \<Rightarrow> string \<Rightarrow> int \<Rightarrow> ('h task_row \<Rightarrow> 'h task_row) \<Rightarrow> (run_row \<Rightarrow> run_row) \<Rightarrow> 'h store \<Rightarrow> 'h sched \<Rightarrow> 'h sched" where
  "end_run run i now f g st sd = release_leases run now (set_run run g (set_task i f (sd\<lparr>sd_store := st\<rparr>)))"

definition ending :: "run_row \<Rightarrow> task_status \<Rightarrow> ('h task_row \<Rightarrow> 'h task_row) \<Rightarrow> (run_row \<Rightarrow> run_row) \<Rightarrow> bool" where
  "ending r status f g \<longleftrightarrow>
     status \<noteq> Running
   \<and> (status \<in> {Queued, Hibernating} \<longrightarrow> rn_retry_count r < rn_max_retries r)
   \<and> (\<forall>t. tr_spec (f t) = tr_spec t \<and> tr_status (f t) = status
        \<and> tr_child_allocated_usd (f t) = tr_child_allocated_usd t)
   \<and> (\<forall>r. rn_task_id (g r) = rn_task_id r \<and> rn_retry_count (g r) = rn_retry_count r
        \<and> rn_max_retries (g r) = rn_max_retries r \<and> rn_status (g r) \<noteq> RunRunning)"

lemma finish_shape:
  assumes "finish P actor run fence art failure now fr sd = Inr (s, sd')"
  obtains r f g st where "dict_get (sd_runs sd) run = Some r" "ending r s f g"
    "list_ex (\<lambda>(_, l). holds actor run fence now l) (sd_leases sd)"
    "sd' = end_run run (rn_task_id r) now f g st sd"
proof -
  from assms obtain r where r: "dict_get (sd_runs sd) run = Some r"
    and h: "list_ex (\<lambda>(_, l). holds actor run fence now l) (sd_leases sd)"
    by (auto simp: finish_def rbind_eq_Inr split: option.splits bool.splits)
  let ?s = "if \<not> truthy failure then Completed else if rn_max_retries r \<le> rn_retry_count r then Quarantined
            else Hibernating"
  from assms r h obtain v js env sd1 where
    tr: "sched_transition P actor ''task'' ''task'' (rn_task_id r) v js ''TASK_FINISHED''
           (''finish:'' @ run) (rn_task_id r) (if truthy art then [the art] else []) None fr sd = Inr (env, sd1)"
    and s: "s = ?s"
    and sd': "sd' = release_leases run now
             (set_run run (\<lambda>r'. r'\<lparr>rn_status := (if \<not> truthy failure then RunCompleted else RunFailed),
                                  rn_completed_at := Some now, rn_expected_artifact_id := art,
                                  rn_kill_reason := failure\<rparr>)
                (set_task (rn_task_id r) (\<lambda>t. t\<lparr>tr_status := ?s, tr_state_version := env_aggregate_version env,
                                  tr_available_at := now + seconds (rn_timeout_sec r)\<rparr>) sd1))"
    by (auto simp: finish_def rbind_eq_Inr Let_def simp del: if_split)
  from tr obtain st where sd1: "sd1 = sd\<lparr>sd_store := st\<rparr>" by (blast dest: sched_transition_frame)
  show thesis
    by (rule that [OF r _ h])
      (simp_all add: sd' sd1 end_run_def, simp add: ending_def s)
qed

lemma expire_shape:
  assumes "expire_run P actor now fr sd (run, r) = Inr sd'"
  obtains f g st s where "ending r s f g" "sd' = end_run run (rn_task_id r) now f g st sd"
proof -
  let ?s = "if rn_max_retries r \<le> rn_retry_count r then Quarantined else Queued"
  from assms obtain v js env sd1 where
    tr: "sched_transition P actor ''task'' ''task'' (rn_task_id r) v js ''LEASE_EXPIRED'' (''expire:'' @ run)
           (rn_task_id r) [] None (fr run) sd = Inr (env, sd1)"
    and sd': "sd' = release_leases run now
             (set_run run (\<lambda>r'. r'\<lparr>rn_status := RunExpired, rn_completed_at := Some now\<rparr>)
               (set_task (rn_task_id r) (\<lambda>t. t\<lparr>tr_status := ?s, tr_state_version := env_aggregate_version env\<rparr>) sd1))"
    by (auto simp: expire_run_def rbind_eq_Inr Let_def simp del: if_split)
  from tr obtain st where sd1: "sd1 = sd\<lparr>sd_store := st\<rparr>" by (blast dest: sched_transition_frame)
  show thesis
    by (rule that [of ?s]) (simp_all add: sd' sd1 end_run_def, simp add: ending_def)
qed

lemma end_run_simps [simp]:
  "sd_campaigns (end_run run i now f g st sd) = sd_campaigns sd"
  "sd_deps (end_run run i now f g st sd) = sd_deps sd"
  "sd_tasks (end_run run i now f g st sd) = map (\<lambda>(j, t). (j, if j = i then f t else t)) (sd_tasks sd)"
  "sd_runs (end_run run i now f g st sd) = map (\<lambda>(j, r). (j, if j = run then g r else r)) (sd_runs sd)"
  "sd_leases (end_run run i now f g st sd) =
     map (\<lambda>(j, l). (j, if ls_run_id l = run then l\<lparr>ls_released_at := Some now\<rparr> else l)) (sd_leases sd)"
  by (simp_all add: end_run_def release_leases_def set_run_def set_task_def)

lemma set_task_simps [simp]:
  "sd_campaigns (set_task i f sd) = sd_campaigns sd" "sd_deps (set_task i f sd) = sd_deps sd"
  "sd_runs (set_task i f sd) = sd_runs sd" "sd_leases (set_task i f sd) = sd_leases sd"
  "sd_tasks (set_task i f sd) = map (\<lambda>(j, t). (j, if j = i then f t else t)) (sd_tasks sd)"
  by (simp_all add: set_task_def)

section \<open>The abstract scheduler\<close>

text \<open>
  A step of the tables alone. Every operation of the program is a sequence of such steps,
  \<open>recover\<close> of as many as leases have expired; the store, whose transitions can only make
  an operation fail, is free.
\<close>

definition same_run :: "run_row \<Rightarrow> run_row \<Rightarrow> bool" where
  "same_run r r' \<longleftrightarrow> rn_task_id r = rn_task_id r' \<and> rn_retry_count r = rn_retry_count r'
                   \<and> rn_max_retries r = rn_max_retries r'"

lemma same_run_refl [simp]: "same_run r r"
  by (simp add: same_run_def)

definition open_lease :: "'h sched \<Rightarrow> string \<Rightarrow> bool" where
  "open_lease sd run \<longleftrightarrow> (\<exists>(j, l) \<in> set (sd_leases sd). ls_run_id l = run \<and> ls_released_at l = None)"

inductive abs_step :: "runtime_policy \<Rightarrow> int \<Rightarrow> 'h sched \<Rightarrow> 'h sched \<Rightarrow> bool" for po now where
  stored: "abs_step po now sd (sd\<lparr>sd_store := st, sd_allocations := al\<rparr>)"
| opened: "dict_get (sd_campaigns sd) (cp_campaign_id c) = None \<Longrightarrow> mk_campaign c = Inr c \<Longrightarrow>
    abs_step po now sd (sd\<lparr>sd_campaigns := sd_campaigns sd @
      [(cp_campaign_id c, \<lparr>cr_spec = c, cr_allocated_usd = 0, cr_created_by = who\<rparr>)]\<rparr>)"
| queued: "charged t sd sd1 \<Longrightarrow> dict_get (sd_tasks sd1) (tk_task_id t) = None \<Longrightarrow> tk_task_id t \<noteq> [] \<Longrightarrow>
    (\<And>p. tk_parent_task_id t = Some p \<Longrightarrow> p \<noteq> [] \<and> dict_get (sd_tasks sd) p \<noteq> None) \<Longrightarrow>
    (\<And>d. d \<in> set (tk_dependencies t) \<Longrightarrow> d \<noteq> tk_task_id t \<and> dict_get (sd_tasks sd1) d \<noteq> None) \<Longrightarrow>
    mk_task t = Inr t \<Longrightarrow>
    abs_step po now sd
      (sd1\<lparr>sd_tasks := sd_tasks sd1 @ [(tk_task_id t, fresh_row t semantic now)],
           sd_deps := sd_deps sd1 @ map (Pair (tk_task_id t)) (tk_dependencies t)\<rparr>)"
| linked: "\<not> depends_on (sd_deps sd) j i \<Longrightarrow> dict_get (sd_tasks sd) i \<noteq> None \<Longrightarrow> dict_get (sd_tasks sd) j \<noteq> None \<Longrightarrow>
    abs_step po now sd (sd\<lparr>sd_deps := sd_deps sd @ [(i, j)]\<rparr>)"
| started: "sel \<in> set (sd_tasks sd) \<Longrightarrow> claimable sd cls now sel \<Longrightarrow>
    live_leases sd cls now < class_limit po cls \<Longrightarrow>
    dict_get (sd_runs sd) (ri_run ids) = None \<Longrightarrow> dict_get (sd_leases sd) (ri_lease ids) = None \<Longrightarrow>
    abs_step po now sd (set_task (fst sel) (\<lambda>row. row\<lparr>tr_status := Running, tr_state_version := v\<rparr>)
        (sd\<lparr>sd_runs := sd_runs sd @ [(ri_run ids, started actor cls now ids (attempts sd (fst sel)) sel)],
            sd_leases := sd_leases sd @ [(ri_lease ids, granted actor cls now ids sel)]\<rparr>))"
| beaten: "(\<And>j r. \<exists>t. f j r = r\<lparr>rn_heartbeat_at := t\<rparr>) \<Longrightarrow> (\<And>l. \<exists>t. g l = l\<lparr>ls_heartbeat_at := t\<rparr>) \<Longrightarrow>
    abs_step po now sd (sd\<lparr>sd_runs := map (\<lambda>(j, r). (j, f j r)) (sd_runs sd),
                           sd_leases := map (\<lambda>(j, l). (j, g l)) (sd_leases sd)\<rparr>)"
| ended: "dict_get (sd_runs sd) run = Some r' \<Longrightarrow> same_run r r' \<Longrightarrow> open_lease sd run \<Longrightarrow> ending r s f g \<Longrightarrow>
    abs_step po now sd (end_run run (rn_task_id r) now f g st sd)"

definition known :: "('k \<times> 'v) list \<Rightarrow> 'k \<Rightarrow> bool" where
  "known d k \<longleftrightarrow> k \<in> set (dict_keys d)"

definition tables_ok :: "'h sched \<Rightarrow> bool" where
  "tables_ok sd \<longleftrightarrow>
     distinct (dict_keys (sd_campaigns sd)) \<and> distinct (dict_keys (sd_tasks sd))
   \<and> distinct (dict_keys (sd_runs sd)) \<and> distinct (dict_keys (sd_leases sd))
   \<and> \<not> known (sd_tasks sd) []
   \<and> distinct (map (\<lambda>(_, l). ls_run_id l) (sd_leases sd))
   \<and> (\<forall>(_, l) \<in> set (sd_leases sd). known (sd_runs sd) (ls_run_id l))
   \<and> (\<forall>(_, r) \<in> set (sd_runs sd). known (sd_tasks sd) (rn_task_id r))
   \<and> (\<forall>(i, t) \<in> set (sd_tasks sd). tk_task_id (tr_spec t) = i \<and> mk_task (tr_spec t) = Inr (tr_spec t))
   \<and> (\<forall>(i, c) \<in> set (sd_campaigns sd). cp_campaign_id (cr_spec c) = i)
   \<and> (\<forall>(i, j) \<in> set (sd_deps sd). known (sd_tasks sd) i \<and> known (sd_tasks sd) j)"

lemma known_None: "dict_get d k = None \<longleftrightarrow> \<not> known d k"
  by (simp add: known_def map_of_eq_None_iff)

lemma known_append [simp]: "known (d @ e) k \<longleftrightarrow> known d k \<or> known e k"
  by (simp add: known_def)

lemma known_Cons [simp]: "known ((j, v) # d) k \<longleftrightarrow> k = j \<or> known d k"
  by (auto simp: known_def)

lemma known_Nil [simp]: "\<not> known [] k"
  by (simp add: known_def)

lemma known_row: "(k, v) \<in> set d \<Longrightarrow> known d k"
  by (force simp: known_def)

lemma known_map [simp]: "known (map (\<lambda>(j, t). (j, f j t)) d) k \<longleftrightarrow> known d k"
  by (force simp: known_def)

lemma known_map1 [simp]: "known (map (\<lambda>(j, t). (j, f t)) d) k \<longleftrightarrow> known d k"
  by (force simp: known_def)

lemma distinct_snoc: "distinct (dict_keys (d @ [(k, v)])) \<longleftrightarrow> distinct (dict_keys d) \<and> \<not> known d k"
  by (auto simp: known_def)

lemma fst_comp_case [simp]: "fst \<circ> (\<lambda>(j, t). (j, f j t)) = fst"
  by (auto simp: fun_eq_iff)

lemma map_fst_case [simp]: "map fst (map (\<lambda>(j, t). (j, f j t)) xs) = map fst xs"
  by (induction xs) auto

lemma map_fst_case1 [simp]: "map fst (map (\<lambda>(j, t). (j, f t)) xs) = map fst xs"
  by (induction xs) auto

lemma snd_comp_case [simp]: "(\<lambda>(_, y). h y) \<circ> (\<lambda>(j, l). (j, g l)) = (\<lambda>(_, l). h (g l))"
  by (auto simp: fun_eq_iff)

lemma charged_frame:
  assumes "charged t sd sd1"
  shows "dict_keys (sd_tasks sd1) = dict_keys (sd_tasks sd)"
    and "dict_keys (sd_campaigns sd1) = dict_keys (sd_campaigns sd)"
    and "sd_deps sd1 = sd_deps sd" "sd_runs sd1 = sd_runs sd" "sd_leases sd1 = sd_leases sd"
  using assms by (auto simp: charged_def dict_keys_overwrite simp del: map_map)

lemma charged_tasks:
  assumes "charged t sd sd1" and "(i, row) \<in> set (sd_tasks sd1)" and "distinct (dict_keys (sd_tasks sd))"
  shows "\<exists>row0. (i, row0) \<in> set (sd_tasks sd) \<and> tr_spec row = tr_spec row0 \<and> tr_status row = tr_status row0"
  using assms unfolding charged_def
  by (elim disjE exE conjE) (auto simp: set_dict_set dest!: map_of_SomeD)

lemma charged_campaigns:
  assumes "charged t sd sd1" and "(i, row) \<in> set (sd_campaigns sd1)" and "distinct (dict_keys (sd_campaigns sd))"
  shows "\<exists>row0. (i, row0) \<in> set (sd_campaigns sd) \<and> cr_spec row = cr_spec row0"
  using assms unfolding charged_def
  by (elim disjE exE conjE) (auto simp: set_dict_set dest!: map_of_SomeD)

lemma tables_ok_step:
  assumes "tables_ok sd" and "abs_step po now sd sd'"
  shows "tables_ok sd'"
  using assms(2)
proof cases
  case (stored st al)
  with assms(1) show ?thesis by (simp add: tables_ok_def)
next
  case (opened c who)
  with assms(1) show ?thesis by (auto simp: tables_ok_def known_None distinct_snoc simp del: map_append)
next
  case (queued t sd1 semantic)
  note fr = charged_frame [OF queued(2)]
  from assms(1) have d: "distinct (dict_keys (sd_tasks sd))" "distinct (dict_keys (sd_campaigns sd))"
    by (simp_all add: tables_ok_def)
  have specs: "tk_task_id (tr_spec row) = i \<and> mk_task (tr_spec row) = Inr (tr_spec row)"
    if "(i, row) \<in> set (sd_tasks sd1)" for i row
    using charged_tasks [OF queued(2) that d(1)] assms(1) by (auto simp: tables_ok_def)
  have camps: "cp_campaign_id (cr_spec row) = i" if "(i, row) \<in> set (sd_campaigns sd1)" for i row
    using charged_campaigns [OF queued(2) that d(2)] assms(1) by (auto simp: tables_ok_def)
  have kn: "known (sd_tasks sd1) = known (sd_tasks sd)" by (simp add: fun_eq_iff known_def fr del: set_map)
  have new: "\<not> known (sd_tasks sd) (tk_task_id t)" using queued(3) by (simp add: known_None kn)
  have deps: "known (sd_tasks sd) x" if "x \<in> set (tk_dependencies t)" for x
    using queued(6) [OF that] by (simp add: known_None kn)
  from assms(1) specs camps new deps queued(4,7) show ?thesis
    unfolding queued(1) tables_ok_def
    by (simp add: fr ball_Un fresh_row_def distinct_snoc kn del: map_append) (auto simp: kn)
next
  case (linked j i)
  with assms(1) show ?thesis by (auto simp: tables_ok_def known_None)
next
  case (started sel cls ids v actor)
  have "known (sd_tasks sd) (fst sel)" using started(2) known_row [of "fst sel" "snd sel"] by simp
  moreover have "ri_run ids \<notin> (\<lambda>(_, l). ls_run_id l) ` set (sd_leases sd)"
    using assms(1) started(5) by (auto simp: tables_ok_def known_None)
  ultimately show ?thesis
    using assms(1) started(5,6) unfolding started(1) tables_ok_def
    by (simp add: known_None distinct_snoc granted_def started_def del: map_append) auto
next
  case (beaten f g)
  have [simp]: "rn_task_id (f j r) = rn_task_id r" for j r using beaten(2) [of j r] by auto
  have [simp]: "ls_run_id (g l) = ls_run_id l" for l using beaten(3) [of l] by auto
  from assms(1) show ?thesis
    unfolding beaten(1) tables_ok_def
    by simp auto
next
  case (ended run r' r s f g st)
  have [simp]: "tr_spec (f t) = tr_spec t" for t using ended(5) by (simp add: ending_def)
  have [simp]: "rn_task_id (g r) = rn_task_id r" for r using ended(5) by (simp add: ending_def)
  from assms(1) show ?thesis
    unfolding ended(1) tables_ok_def
    by (simp add: if_distrib [of ls_run_id] cong: if_cong) auto
qed

section \<open>Operations are sequences of abstract steps\<close>

lemma distinct_map_filter:
  "distinct (map f xs) \<Longrightarrow> length (List.filter (\<lambda>x. f x = k \<and> P x) xs) \<le> 1"
proof (induction xs)
  case (Cons x xs)
  then have tl: "length (List.filter (\<lambda>x. f x = k \<and> P x) xs) \<le> 1" by simp
  show ?case
  proof (cases "f x = k")
    case True
    with Cons.prems have "k \<notin> f ` set xs" by simp
    then have "List.filter (\<lambda>x. f x = k \<and> P x) xs = []" by (auto simp: filter_empty_conv)
    then show ?thesis by simp
  next
    case False
    with tl show ?thesis by simp
  qed
qed simp

lemma distinct_repeat:
  "distinct (dict_keys rs) \<Longrightarrow> (\<And>k. n k \<le> 1)
     \<Longrightarrow> distinct (concat (map (\<lambda>(k, _). replicate (n k) k) rs))"
proof (induction rs)
  case (Cons x rs)
  obtain k v where x: "x = (k, v)" by (cases x)
  have "replicate (n k) k = [] \<or> replicate (n k) k = [k]"
    using Cons.prems(2) [of k] by (cases "n k") auto
  moreover have "k \<notin> set (concat (map (\<lambda>(k, _). replicate (n k) k) rs))"
    using Cons.prems(1) by (force simp: x)
  ultimately show ?case using Cons by (auto simp: x)
qed simp

lemma expired_distinct:
  assumes "tables_ok sd"
  shows "distinct (map fst (expired_runs sd now))"
proof -
  let ?n = "\<lambda>run. length (List.filter (\<lambda>(_, l). ls_run_id l = run \<and> ls_released_at l = None \<and> ls_expires_at l \<le> now) (sd_leases sd))"
  have "?n run \<le> 1" for run
    using distinct_map_filter [of "\<lambda>(_, l). ls_run_id l" "sd_leases sd" run
        "\<lambda>(_, l). ls_released_at l = None \<and> ls_expires_at l \<le> now"] assms
    by (simp add: tables_ok_def case_prod_unfold)
  moreover have "map fst (expired_runs sd now) = concat (map (\<lambda>(run, _). replicate (?n run) run) (sd_runs sd))"
    by (auto simp: expired_runs_def map_concat comp_def case_prod_unfold map_replicate_const intro!: arg_cong [where f = concat])
  ultimately show ?thesis using assms distinct_repeat [of "sd_runs sd" ?n] by (simp add: tables_ok_def)
qed

lemma expired_open:
  assumes "tables_ok sd" and "(run, r) \<in> set (expired_runs sd now)"
  shows "dict_get (sd_runs sd) run = Some r" and "open_lease sd run"
  using assms by (auto simp: expired_runs_def open_lease_def tables_ok_def intro: map_of_is_SomeI)

lemma expire_steps:
  assumes "rfold (expire_run P actor now fr) sd rows = Inr sd'" and "distinct (map fst rows)"
    and "\<And>run r. (run, r) \<in> set rows \<Longrightarrow>
           (\<exists>r'. dict_get (sd_runs sd) run = Some r' \<and> same_run r r') \<and> open_lease sd run"
  shows "(abs_step po now)\<^sup>*\<^sup>* sd sd'"
  using assms
proof (induction rows arbitrary: sd)
  case Nil
  then show ?case by simp
next
  case (Cons x rows)
  obtain run r where x: "x = (run, r)" by (cases x)
  from Cons.prems(1) obtain sd1 where e: "expire_run P actor now fr sd (run, r) = Inr sd1"
    and rest: "rfold (expire_run P actor now fr) sd1 rows = Inr sd'"
    by (auto simp: rbind_eq_Inr x)
  from e obtain f g st s where en: "ending r s f g"
    and sd1: "sd1 = end_run run (rn_task_id r) now f g st sd" by (rule expire_shape)
  from Cons.prems(3) [of run r] obtain r' where "dict_get (sd_runs sd) run = Some r'" "same_run r r'" "open_lease sd run"
    by (auto simp: x)
  then have step: "abs_step po now sd sd1" unfolding sd1 using en by (rule abs_step.ended)
  have "(\<exists>r'. dict_get (sd_runs sd1) run2 = Some r' \<and> same_run r2 r') \<and> open_lease sd1 run2"
    if m: "(run2, r2) \<in> set rows" for run2 r2
  proof -
    from m Cons.prems(2) have ne: "run2 \<noteq> run" by (force simp: x)
    from m Cons.prems(3) [of run2 r2] obtain r' where "dict_get (sd_runs sd) run2 = Some r'" "same_run r2 r'"
      and o: "open_lease sd run2" by (auto simp: x)
    moreover obtain j l where "(j, l) \<in> set (sd_leases sd)" "ls_run_id l = run2" "ls_released_at l = None"
      using o by (auto simp: open_lease_def)
    with ne have "open_lease sd1 run2" by (force simp: open_lease_def sd1)
    ultimately show ?thesis using ne by (simp add: sd1 dict_get_map)
  qed
  then have "(abs_step po now)\<^sup>*\<^sup>* sd1 sd'" by (intro Cons.IH [OF rest]) (use Cons.prems(2) in auto)
  with step show ?case by (rule converse_rtranclp_into_rtranclp)
qed

lemma holds_open: "list_ex (\<lambda>(_, l). holds actor run fence now l) (sd_leases sd) \<Longrightarrow> open_lease sd run"
  by (auto simp: list_ex_iff holds_def open_lease_def)

lemma step_stored: "abs_step po now sd (sd\<lparr>sd_store := st\<rparr>)"
  using abs_step.stored [of po now sd "sd_allocations sd" st] by simp

lemma two_steps: "abs_step po now a b \<Longrightarrow> abs_step po now b c \<Longrightarrow> (abs_step po now)\<^sup>*\<^sup>* a c"
  by (meson converse_rtranclp_into_rtranclp r_into_rtranclp)

lemma step_then_store: "abs_step po now a b \<Longrightarrow> (abs_step po now)\<^sup>*\<^sup>* a (b\<lparr>sd_store := st\<rparr>)"
  by (rule two_steps [OF _ step_stored])

lemma sched_step_abs:
  assumes "sched_step P now sd sd'" and "tables_ok sd"
  shows "(abs_step (sp_policy P) now)\<^sup>*\<^sup>* sd sd'"
  using assms(1)
proof cases
  case (declared c actor fr i)
  let ?open = "sd\<lparr>sd_campaigns := sd_campaigns sd @
       [(cp_campaign_id c, \<lparr>cr_spec = c, cr_allocated_usd = 0, cr_created_by = id_principal actor\<rparr>)]\<rparr>"
  from declare_shape [OF declared(2)] show ?thesis
  proof (elim exE disjE conjE)
    fix st assume "sd' = sd\<lparr>sd_store := st\<rparr>"
    then show ?thesis using step_stored by blast
  next
    fix st assume none: "dict_get (sd_campaigns sd) (cp_campaign_id c) = None"
      and "sd' = sd\<lparr>sd_store := st, sd_campaigns := sd_campaigns sd @
       [(cp_campaign_id c, \<lparr>cr_spec = c, cr_allocated_usd = 0, cr_created_by = id_principal actor\<rparr>)]\<rparr>"
    then have "sd' = ?open\<lparr>sd_store := st\<rparr>" by simp
    then show ?thesis by (simp only:) (rule step_then_store [OF abs_step.opened [OF none declared(1)]])
  qed
next
  case (enqueued t actor fr i)
  from assms(2) have "dict_get (sd_tasks sd) [] = None" by (simp add: tables_ok_def known_None)
  with enqueued(2) show ?thesis
  proof (cases rule: enqueue_shape)
    case same
    then show ?thesis by simp
  next
    case (new sd1 st semantic)
    have "abs_step (sp_policy P) now sd (sd1\<lparr>sd_tasks := sd_tasks sd1 @ [(tk_task_id t, fresh_row t semantic now)],
           sd_deps := sd_deps sd1 @ map (Pair (tk_task_id t)) (tk_dependencies t)\<rparr>)"
      using new enqueued(1) by (intro abs_step.queued) auto
    moreover have "sd' = (sd1\<lparr>sd_tasks := sd_tasks sd1 @ [(tk_task_id t, fresh_row t semantic now)],
           sd_deps := sd_deps sd1 @ map (Pair (tk_task_id t)) (tk_dependencies t)\<rparr>)\<lparr>sd_store := st\<rparr>"
      using new(5) by simp
    ultimately show ?thesis by (simp only: step_then_store)
  qed
next
  case (linked actor i j fr)
  then show ?thesis
  proof (cases rule: add_dependency_shape)
    case (1 st)
    then show ?thesis using step_stored by blast
  next
    case (2 st)
    then have "sd' = (sd\<lparr>sd_deps := sd_deps sd @ [(i, j)]\<rparr>)\<lparr>sd_store := st\<rparr>" by simp
    with abs_step.linked [OF 2(2-4), of "sp_policy P" now] show ?thesis by (simp only: step_then_store)
  qed
next
  case (claimed actor cls ids fr i')
  then show ?thesis
  proof (cases rule: claim_shape)
    case idle
    then show ?thesis by simp
  next
    case (run sel v st al)
    let ?go = "set_task (fst sel) (\<lambda>row. row\<lparr>tr_status := Running, tr_state_version := v\<rparr>)
        (sd\<lparr>sd_runs := sd_runs sd @ [(ri_run ids, started actor cls now ids (attempts sd (fst sel)) sel)],
            sd_leases := sd_leases sd @ [(ri_lease ids, granted actor cls now ids sel)]\<rparr>)"
    have "abs_step (sp_policy P) now sd ?go" by (rule abs_step.started [OF run(1-5)])
    moreover have "sd' = ?go\<lparr>sd_store := st, sd_allocations := al\<rparr>" by (simp add: run(6) set_task_def)
    ultimately show ?thesis by (simp only: two_steps [OF _ abs_step.stored])
  qed
next
  case (beat actor run fence)
  let ?f = "\<lambda>j r. if j = run then (if rn_status r = RunRunning then r\<lparr>rn_heartbeat_at := now\<rparr> else r) else r"
  let ?g = "\<lambda>l. if holds actor run fence now l then l\<lparr>ls_heartbeat_at := now\<rparr> else l"
  have "abs_step (sp_policy P) now sd (sd\<lparr>sd_runs := map (\<lambda>(j, r). (j, ?f j r)) (sd_runs sd),
                           sd_leases := map (\<lambda>(j, l). (j, ?g l)) (sd_leases sd)\<rparr>)"
  proof (rule abs_step.beaten)
    show "\<exists>t. ?f j r = r\<lparr>rn_heartbeat_at := t\<rparr>" for j r
      using exI [of "\<lambda>t. ?f j r = r\<lparr>rn_heartbeat_at := t\<rparr>" "if j = run \<and> rn_status r = RunRunning then now else rn_heartbeat_at r"]
      by simp
    show "\<exists>t. ?g l = l\<lparr>ls_heartbeat_at := t\<rparr>" for l
      using exI [of "\<lambda>t. ?g l = l\<lparr>ls_heartbeat_at := t\<rparr>" "if holds actor run fence now l then now else ls_heartbeat_at l"]
      by simp
  qed
  moreover have "sd' = sd\<lparr>sd_runs := map (\<lambda>(j, r). (j, ?f j r)) (sd_runs sd),
                           sd_leases := map (\<lambda>(j, l). (j, ?g l)) (sd_leases sd)\<rparr>"
    using beat by (auto simp: heartbeat_def set_run_def split: if_splits)
  ultimately show ?thesis by blast
next
  case (finished actor run fence art failure fr s)
  from finished obtain r f g st where r: "dict_get (sd_runs sd) run = Some r" and e: "ending r s f g"
    and h: "list_ex (\<lambda>(_, l). holds actor run fence now l) (sd_leases sd)"
    and sd': "sd' = end_run run (rn_task_id r) now f g st sd"
    by (rule finish_shape)
  have "same_run r r" by (simp add: same_run_def)
  from abs_step.ended [OF r this holds_open [OF h] e] show ?thesis unfolding sd' by blast
next
  case (recovered actor frs n)
  then have "rfold (expire_run P actor now frs) sd (expired_runs sd now) = Inr sd'"
    by (auto simp: recover_def rbind_eq_Inr)
  then show ?thesis
    by (rule expire_steps)
      (use expired_distinct [OF assms(2)] expired_open [OF assms(2)] same_run_refl in blast)+
next
  case (elsewhere st)
  then show ?thesis using step_stored by blast
qed

text \<open>
  The contract of an invariant of the tables: it holds of the empty tables at any time, it
  survives the passing of time, and every abstract step keeps it. Then it holds of every
  history of the program's operations.
\<close>

locale table_invariant =
  fixes I :: "runtime_policy \<Rightarrow> int \<Rightarrow> 'h sched \<Rightarrow> bool"
  assumes initially: "I po t empty_sched"
    and later: "I po t sd \<Longrightarrow> t \<le> now \<Longrightarrow> I po now sd"
    and kept: "tables_ok sd \<Longrightarrow> I po now sd \<Longrightarrow> abs_step po now sd sd' \<Longrightarrow> I po now sd'"
begin

lemma kept_steps:
  assumes "(abs_step po now)\<^sup>*\<^sup>* sd sd'" and "tables_ok sd" and "I po now sd"
  shows "tables_ok sd' \<and> I po now sd'"
  using assms by (induction rule: rtranclp_induct) (auto intro: tables_ok_step kept)

lemma always: "sched_run P t sd \<Longrightarrow> tables_ok sd \<and> I (sp_policy P) t sd"
proof (induction rule: sched_run.induct)
  case (start t0)
  show ?case by (simp add: initially) (simp add: tables_ok_def empty_sched_def)
next
  case (step t sd now sd')
  then show ?case using kept_steps [OF sched_step_abs] later by blast
qed

end

section \<open>Concurrency limits\<close>

definition within_limits :: "runtime_policy \<Rightarrow> int \<Rightarrow> 'h sched \<Rightarrow> bool" where
  "within_limits po t sd \<longleftrightarrow> (\<forall>cls. live_leases sd cls t \<le> class_limit po cls)"

lemma filter_length_mono:
  "(\<And>x. x \<in> set xs \<Longrightarrow> P x \<Longrightarrow> Q x) \<Longrightarrow> length (List.filter P xs) \<le> length (List.filter Q xs)"
  by (induction xs) (auto simp: le_Suc_eq)

lemma live_leases_later: "t \<le> now \<Longrightarrow> live_leases sd cls now \<le> live_leases sd cls t"
  unfolding live_leases_def by (rule filter_length_mono) auto

lemma live_leases_map:
  assumes "sd_leases sd' = map (\<lambda>(j, l). (j, f l)) (sd_leases sd)"
    and "\<And>l. ls_released_at (f l) = None \<Longrightarrow> ls_released_at l = None"
    and "\<And>l. ls_expires_at (f l) = ls_expires_at l" and "\<And>l. ls_resource_class (f l) = ls_resource_class l"
  shows "live_leases sd' cls t \<le> live_leases sd cls t"
proof -
  have "live_leases sd' cls t =
      length (List.filter (\<lambda>(_, l). ls_released_at (f l) = None \<and> t < ls_expires_at l \<and> ls_resource_class l = cls) (sd_leases sd))"
    unfolding live_leases_def assms(1) filter_map by (simp add: comp_def case_prod_unfold assms(3,4))
  also have "\<dots> \<le> live_leases sd cls t"
    unfolding live_leases_def by (rule filter_length_mono) (use assms(2) in auto)
  finally show ?thesis .
qed

lemma within_limits_mono:
  "(\<And>cls. live_leases sd' cls t \<le> live_leases sd cls t) \<Longrightarrow> within_limits po t sd \<Longrightarrow> within_limits po t sd'"
  unfolding within_limits_def using le_trans by blast

lemma within_limits_kept:
  assumes "within_limits po now sd" and "abs_step po now sd sd'"
  shows "within_limits po now sd'"
  using assms(2)
proof cases
  case (started sel cls ids v actor)
  have more: "live_leases sd' c now \<le> live_leases sd c now + (if c = cls then 1 else 0)" for c
    by (simp add: started(1) live_leases_def granted_def)
  have "live_leases sd' c now \<le> class_limit po c" for c
  proof (cases "c = cls")
    case True
    with more [of c] started(4) show ?thesis by simp
  next
    case False
    with more [of c] assms(1) show ?thesis by (simp add: within_limits_def le_trans)
  qed
  then show ?thesis by (simp add: within_limits_def)
next
  case (queued t sd1 semantic)
  have "live_leases sd' cls now = live_leases sd cls now" for cls
    by (simp add: queued(1) live_leases_def charged_frame [OF queued(2)])
  with assms(1) show ?thesis by (simp add: within_limits_def)
next
  case (beaten f g)
  have s: "ls_released_at (g l) = ls_released_at l" "ls_expires_at (g l) = ls_expires_at l"
    "ls_resource_class (g l) = ls_resource_class l" for l
    using beaten(3) [of l] by auto
  show ?thesis
    by (rule within_limits_mono [OF _ assms(1)], rule live_leases_map [where f = g])
      (simp_all add: beaten(1) s)
next
  case (ended run r' r s f g st)
  show ?thesis
    by (rule within_limits_mono [OF _ assms(1)],
        rule live_leases_map [where f = "\<lambda>l. if ls_run_id l = run then l\<lparr>ls_released_at := Some now\<rparr> else l"])
      (simp_all add: ended(1) split: if_splits)
qed (use assms(1) in \<open>simp_all add: within_limits_def live_leases_def\<close>)

interpretation limits: table_invariant within_limits
proof unfold_locales
  show "within_limits po t empty_sched" for po t
    by (simp add: within_limits_def live_leases_def empty_sched_def)
  show "within_limits po now sd" if "within_limits po t sd" "t \<le> now" for po t now sd
    using that live_leases_later le_trans unfolding within_limits_def by blast
qed (rule within_limits_kept)

section \<open>Dependencies\<close>

definition dag :: "'h sched \<Rightarrow> bool" where
  "dag sd \<longleftrightarrow> acyclic (set (sd_deps sd))"

lemma depends_on_rtrancl: "depends_on deps a b \<longleftrightarrow> (a, b) \<in> (set deps)\<^sup>*"
  by (auto simp: depends_on_def rtrancl_eq_or_trancl)

lemma acyclic_new_sources:
  assumes "acyclic r" and "\<And>a b. (a, b) \<in> r \<Longrightarrow> b \<noteq> x" and "x \<notin> D"
  shows "acyclic (r \<union> Pair x ` D)"
proof (rule acyclicI, rule allI, rule notI)
  fix y assume "(y, y) \<in> (r \<union> Pair x ` D)\<^sup>+"
  moreover have "z \<noteq> x \<and> (y \<noteq> x \<longrightarrow> (y, z) \<in> r\<^sup>+)" if "(y, z) \<in> (r \<union> Pair x ` D)\<^sup>+" for z
    using that
  proof (induction rule: trancl_induct)
    case (base z)
    then show ?case using assms(2,3) by auto
  next
    case (step z w)
    then have zw: "(z, w) \<in> r" by auto
    then have "w \<noteq> x" using assms(2) by blast
    with zw step.IH show ?case by (meson trancl_into_trancl)
  qed
  ultimately have "y \<noteq> x" "(y, y) \<in> r\<^sup>+" by blast+
  with assms(1) show False by (simp add: acyclic_def)
qed

lemma dag_kept:
  assumes "tables_ok sd" and "dag sd" and "abs_step po now sd sd'"
  shows "dag sd'"
  using assms(3)
proof cases
  case (queued t sd1 semantic)
  have "known (sd_tasks sd) = known (sd_tasks sd1)"
    by (simp add: fun_eq_iff known_def charged_frame [OF queued(2)] del: set_map)
  then have "\<not> known (sd_tasks sd) (tk_task_id t)" using queued(3) by (simp add: known_None)
  then have "b \<noteq> tk_task_id t" if "(a, b) \<in> set (sd_deps sd)" for a b
    using assms(1) that by (auto simp: tables_ok_def)
  moreover have "tk_task_id t \<notin> set (tk_dependencies t)" using queued(6) by blast
  ultimately have "acyclic (set (sd_deps sd) \<union> Pair (tk_task_id t) ` set (tk_dependencies t))"
    using assms(2) unfolding dag_def by (intro acyclic_new_sources) auto
  then show ?thesis by (simp add: dag_def queued(1) charged_frame [OF queued(2)])
next
  case (linked j i)
  with assms(2) show ?thesis by (simp add: dag_def depends_on_rtrancl acyclic_insert)
qed (use assms(2) in \<open>simp_all add: dag_def\<close>)

interpretation dependencies: table_invariant "\<lambda>po t sd. dag sd"
proof unfold_locales
  show "dag empty_sched" by (simp add: dag_def empty_sched_def acyclic_def)
  show "dag sd'" if "tables_ok sd" "dag sd" "abs_step po now sd sd'" for sd po now sd'
    using that by (rule dag_kept)
qed

section \<open>Runs, leases and attempts\<close>

definition task_at :: "'h sched \<Rightarrow> string \<Rightarrow> 'h task_row option" where
  "task_at sd i = dict_get (sd_tasks sd) i"

definition run_at :: "'h sched \<Rightarrow> string \<Rightarrow> run_row option" where
  "run_at sd run = dict_get (sd_runs sd) run"

text \<open>
  A running run belongs to a running task and is its latest attempt; a task has at most one;
  an unreleased lease belongs to a running run; a task that may be claimed again has an
  attempt left.
\<close>

definition run_ok :: "'h sched \<Rightarrow> run_row \<Rightarrow> bool" where
  "run_ok sd r \<longleftrightarrow> (\<exists>t. task_at sd (rn_task_id r) = Some t \<and> rn_max_retries r = tk_max_retries (tr_spec t)
     \<and> (rn_status r = RunRunning \<longrightarrow>
          tr_status t = Running \<and> int (attempts sd (rn_task_id r)) = rn_retry_count r + 1))"

definition single_run :: "'h sched \<Rightarrow> bool" where
  "single_run sd \<longleftrightarrow> (\<forall>a ra b rb. run_at sd a = Some ra \<and> run_at sd b = Some rb
     \<and> rn_status ra = RunRunning \<and> rn_status rb = RunRunning \<and> rn_task_id ra = rn_task_id rb \<longrightarrow> a = b)"

definition leases_run :: "'h sched \<Rightarrow> bool" where
  "leases_run sd \<longleftrightarrow> (\<forall>run. open_lease sd run \<longrightarrow> (\<exists>r. run_at sd run = Some r \<and> rn_status r = RunRunning))"

definition attempts_ok :: "'h sched \<Rightarrow> bool" where
  "attempts_ok sd \<longleftrightarrow> (\<forall>i t. task_at sd i = Some t \<longrightarrow>
     int (attempts sd i) \<le> tk_max_retries (tr_spec t) + (if tr_status t \<in> {Queued, Hibernating} then 0 else 1))"

definition runs_ok :: "'h sched \<Rightarrow> bool" where
  "runs_ok sd \<longleftrightarrow> (\<forall>run r. run_at sd run = Some r \<longrightarrow> run_ok sd r) \<and> single_run sd \<and> leases_run sd \<and> attempts_ok sd"

lemma charged_task_at:
  assumes "charged t sd sd1" and "task_at sd1 i = Some row"
  shows "\<exists>row0. task_at sd i = Some row0 \<and> tr_spec row = tr_spec row0 \<and> tr_status row = tr_status row0"
  using assms by (auto simp: charged_def task_at_def dict_get_set split: if_splits)

lemma charged_task_at_back:
  assumes "charged t sd sd1" and "task_at sd i = Some row0"
  shows "\<exists>row. task_at sd1 i = Some row \<and> tr_spec row = tr_spec row0 \<and> tr_status row = tr_status row0"
  using assms by (auto simp: charged_def task_at_def dict_get_set split: if_splits)

lemma runs_ok_cong:
  assumes "sd_tasks sd' = sd_tasks sd" "sd_runs sd' = sd_runs sd" "sd_leases sd' = sd_leases sd" "runs_ok sd"
  shows "runs_ok sd'"
proof -
  have "task_at sd' = task_at sd" "run_at sd' = run_at sd" "attempts sd' = attempts sd" "open_lease sd' = open_lease sd"
    using assms(1-3) by (simp_all add: fun_eq_iff task_at_def run_at_def attempts_def open_lease_def)
  with assms(4) show ?thesis
    by (simp only: runs_ok_def run_ok_def single_run_def leases_run_def attempts_ok_def)
qed

lemma runs_ok_queued:
  assumes ok: "tables_ok sd" "runs_ok sd" and ch: "charged t sd sd1"
    and new: "dict_get (sd_tasks sd1) (tk_task_id t) = None" and t: "mk_task t = Inr t"
    and sd': "sd' = sd1\<lparr>sd_tasks := sd_tasks sd1 @ [(tk_task_id t, fresh_row t semantic now)], sd_deps := ds\<rparr>"
  shows "runs_ok sd'"
proof -
  note fr = charged_frame [OF ch]
  have at: "task_at sd' i = (if i = tk_task_id t then Some (fresh_row t semantic now) else task_at sd1 i)" for i
    using dict_get_snoc [OF new] by (simp add: task_at_def sd' del: map_of_append)
  have runs: "run_at sd' = run_at sd" "attempts sd' = attempts sd" "open_lease sd' = open_lease sd"
    by (simp_all add: fun_eq_iff run_at_def attempts_def open_lease_def sd' fr)
  have kn: "known (sd_tasks sd1) = known (sd_tasks sd)" by (simp add: fun_eq_iff known_def fr del: set_map)
  have none: "rn_task_id r \<noteq> tk_task_id t" if "(run, r) \<in> set (sd_runs sd)" for run r
    using ok(1) that new by (auto simp: tables_ok_def known_None kn)
  then have "List.filter (\<lambda>(_, r). rn_task_id r = tk_task_id t) (sd_runs sd) = []"
    by (auto simp: filter_empty_conv)
  then have zero: "attempts sd (tk_task_id t) = 0" by (simp add: attempts_def)
  have "run_ok sd' r" if "run_at sd' run = Some r" for run r
  proof -
    from that have r: "run_at sd run = Some r" by (simp add: runs)
    then have "rn_task_id r \<noteq> tk_task_id t" using none by (auto simp: run_at_def dest: map_of_SomeD)
    moreover have "run_ok sd r" using ok(2) r by (simp add: runs_ok_def)
    ultimately show ?thesis using charged_task_at_back [OF ch] by (fastforce simp: run_ok_def at runs)
  qed
  moreover have "single_run sd'" "leases_run sd'"
    using ok(2) unfolding runs_ok_def single_run_def leases_run_def runs by blast+
  moreover have "attempts_ok sd'"
    unfolding attempts_ok_def
  proof (intro allI impI)
    fix i row assume row: "task_at sd' i = Some row"
    show "int (attempts sd' i) \<le> tk_max_retries (tr_spec row) + (if tr_status row \<in> {Queued, Hibernating} then 0 else 1)"
    proof (cases "i = tk_task_id t")
      case True
      with row t show ?thesis by (auto simp: at runs zero fresh_row_def mk_task_def rbind_eq_Inr)
    next
      case False
      with row obtain row0 where "task_at sd i = Some row0" "tr_spec row = tr_spec row0" "tr_status row = tr_status row0"
        using charged_task_at [OF ch] by (auto simp: at)
      with ok(2) show ?thesis by (simp add: runs_ok_def attempts_ok_def runs)
    qed
  qed
  ultimately show ?thesis by (simp add: runs_ok_def)
qed

lemma runs_ok_beaten:
  assumes "runs_ok sd" and "\<And>j r. \<exists>t. f j r = r\<lparr>rn_heartbeat_at := t\<rparr>" and "\<And>l. \<exists>t. g l = l\<lparr>ls_heartbeat_at := t\<rparr>"
    and sd': "sd' = sd\<lparr>sd_runs := map (\<lambda>(j, r). (j, f j r)) (sd_runs sd), sd_leases := map (\<lambda>(j, l). (j, g l)) (sd_leases sd)\<rparr>"
  shows "runs_ok sd'"
proof -
  have f: "rn_task_id (f j r) = rn_task_id r" "rn_status (f j r) = rn_status r"
    "rn_retry_count (f j r) = rn_retry_count r" "rn_max_retries (f j r) = rn_max_retries r" for j r
    using assms(2) [of j r] by auto
  have g: "ls_run_id (g l) = ls_run_id l" "ls_released_at (g l) = ls_released_at l" for l
    using assms(3) [of l] by auto
  have same: "task_at sd' = task_at sd" "open_lease sd' = open_lease sd" "attempts sd' = attempts sd"
    by (simp_all add: fun_eq_iff task_at_def open_lease_def attempts_def sd' f g filter_map comp_def
        case_prod_unfold)
  have at: "run_at sd' j = map_option (f j) (run_at sd j)" for j by (simp add: run_at_def sd' dict_get_map)
  show ?thesis
    using assms(1)
    by (fastforce simp: runs_ok_def run_ok_def single_run_def leases_run_def attempts_ok_def same at f)
qed

lemma runs_ok_started:
  assumes ok: "tables_ok sd" "runs_ok sd" and sel: "sel \<in> set (sd_tasks sd)" and cl: "claimable sd cls now sel"
    and free: "dict_get (sd_runs sd) (ri_run ids) = None"
    and sd': "sd' = set_task (fst sel) (\<lambda>row. row\<lparr>tr_status := Running, tr_state_version := v\<rparr>)
        (sd\<lparr>sd_runs := sd_runs sd @ [(ri_run ids, started actor cls now ids (attempts sd (fst sel)) sel)],
            sd_leases := sd_leases sd @ [(ri_lease ids, granted actor cls now ids sel)]\<rparr>)"
  shows "runs_ok sd'"
proof -
  obtain i t where it: "sel = (i, t)" by (cases sel)
  let ?new = "started actor cls now ids (attempts sd i) sel"
  have new: "rn_task_id ?new = i" "rn_status ?new = RunRunning" "rn_retry_count ?new = int (attempts sd i)"
    "rn_max_retries ?new = tk_max_retries (tr_spec t)" by (simp_all add: started_def it)
  have t: "task_at sd i = Some t"
    using sel ok(1) by (simp add: it task_at_def tables_ok_def)
  have status: "tr_status t \<in> {Queued, Hibernating}" using cl by (simp add: claimable_def it)
  have room: "int (attempts sd i) \<le> tk_max_retries (tr_spec t)"
    using ok(2) t status by (force simp: runs_ok_def attempts_ok_def)
  have tat: "task_at sd' j = (if j = i then Some (t\<lparr>tr_status := Running, tr_state_version := v\<rparr>) else task_at sd j)" for j
    using t by (simp add: sd' task_at_def dict_get_map it option.map_ident)
  have rat: "run_at sd' j = (if j = ri_run ids then Some ?new else run_at sd j)" for j
    using dict_get_snoc [OF free] by (simp add: sd' run_at_def it del: map_of_append)
  have att: "attempts sd' j = attempts sd j + (if j = i then 1 else 0)" for j
    by (simp add: attempts_def sd' started_def it)
  have opn: "open_lease sd' j \<longleftrightarrow> j = ri_run ids \<or> open_lease sd j" for j
    by (auto simp: open_lease_def sd' granted_def)
  have idle: "rn_task_id r \<noteq> i" if "run_at sd j = Some r" "rn_status r = RunRunning" for j r
  proof
    assume "rn_task_id r = i"
    moreover have "run_ok sd r" using ok(2) that(1) by (simp add: runs_ok_def)
    ultimately show False using that(2) t status by (auto simp: run_ok_def)
  qed
  have "run_ok sd' r" if "run_at sd' j = Some r" for j r
  proof (cases "j = ri_run ids")
    case True
    with that new show ?thesis by (auto simp: rat run_ok_def tat att)
  next
    case False
    with that have r: "run_at sd j = Some r" by (simp add: rat)
    then have "run_ok sd r" using ok(2) by (simp add: runs_ok_def)
    then show ?thesis using idle [OF r] t by (auto simp: run_ok_def tat att)
  qed
  moreover have "single_run sd'"
    unfolding single_run_def rat
  proof (intro allI impI)
    fix a ra b rb
    assume *: "(if a = ri_run ids then Some ?new else run_at sd a) = Some ra \<and>
       (if b = ri_run ids then Some ?new else run_at sd b) = Some rb \<and>
       rn_status ra = RunRunning \<and> rn_status rb = RunRunning \<and> rn_task_id ra = rn_task_id rb"
    have s: "single_run sd" using ok(2) by (simp add: runs_ok_def)
    from * s idle new(1) show "a = b"
      unfolding single_run_def by (metis option.inject)
  qed
  moreover have "leases_run sd'"
    using ok(2) new(2) by (auto simp: runs_ok_def leases_run_def opn rat)
  moreover have "attempts_ok sd'"
    using ok(2) room by (auto simp: runs_ok_def attempts_ok_def tat att)
  ultimately show ?thesis by (simp add: runs_ok_def)
qed

lemma runs_ok_ended:
  assumes ok: "runs_ok sd" and r': "dict_get (sd_runs sd) run = Some r'" and same: "same_run r r'"
    and opn: "open_lease sd run" and e: "ending r s f g"
    and sd': "sd' = end_run run (rn_task_id r) now f g st sd"
  shows "runs_ok sd'"
proof -
  let ?i = "rn_task_id r"
  have ef: "tr_spec (f t) = tr_spec t" "tr_status (f t) = s" for t using e by (simp_all add: ending_def)
  have eg: "rn_task_id (g x) = rn_task_id x" "rn_retry_count (g x) = rn_retry_count x"
    "rn_max_retries (g x) = rn_max_retries x" "rn_status (g x) \<noteq> RunRunning" for x
    using e by (simp_all add: ending_def)
  have at: "run_at sd run = Some r'" using r' by (simp add: run_at_def)
  with ok opn have running: "rn_status r' = RunRunning" by (fastforce simp: runs_ok_def leases_run_def)
  have i: "rn_task_id r' = ?i" and retry: "rn_retry_count r = rn_retry_count r'" "rn_max_retries r = rn_max_retries r'"
    using same by (simp_all add: same_run_def)
  have "run_ok sd r'" using ok at by (simp add: runs_ok_def)
  then obtain t where t: "task_at sd ?i = Some t" and mx: "rn_max_retries r' = tk_max_retries (tr_spec t)"
    and att: "int (attempts sd ?i) = rn_retry_count r' + 1"
    using running i by (auto simp: run_ok_def)
  have tat: "task_at sd' j = (if j = ?i then map_option f (task_at sd j) else task_at sd j)" for j
    using dict_get_map [of "\<lambda>j t. if j = ?i then f t else t" "sd_tasks sd" j]
    by (simp add: task_at_def sd' option.map_ident)
  have rat: "run_at sd' j = (if j = run then map_option g (run_at sd j) else run_at sd j)" for j
    using dict_get_map [of "\<lambda>j t. if j = run then g t else t" "sd_runs sd" j]
    by (simp add: run_at_def sd' option.map_ident)
  have attempts: "attempts sd' = attempts sd"
    by (simp add: fun_eq_iff attempts_def sd' filter_map comp_def case_prod_unfold eg if_distrib [of rn_task_id]
        cong: if_cong)
  have opn': "open_lease sd' j \<Longrightarrow> j \<noteq> run \<and> open_lease sd j" for j
    by (auto simp: open_lease_def sd' split: if_splits)
  have other: "rn_task_id x \<noteq> ?i" if "run_at sd j = Some x" "rn_status x = RunRunning" "j \<noteq> run" for j x
    using ok that at running i unfolding runs_ok_def single_run_def by metis
  have run_ok: "run_ok sd x \<Longrightarrow> (rn_status x = RunRunning \<Longrightarrow> rn_task_id x \<noteq> ?i) \<Longrightarrow> run_ok sd' x" for x
    by (auto simp: run_ok_def tat attempts ef)
  have "run_ok sd' x" if x: "run_at sd' j = Some x" for j x
  proof (cases "j = run")
    case True
    with x at have "x = g r'" by (simp add: rat)
    moreover have "run_ok sd (g r')" using \<open>run_ok sd r'\<close> eg by (auto simp: run_ok_def)
    ultimately show ?thesis using run_ok eg(4) by blast
  next
    case False
    with x have "run_at sd j = Some x" by (simp add: rat)
    with False show ?thesis using run_ok other ok by (auto simp: runs_ok_def)
  qed
  moreover have "single_run sd'"
  proof -
    have "run_at sd a = Some x" if "run_at sd' a = Some x" "rn_status x = RunRunning" for a x
      using that eg(4) by (auto simp: rat split: if_splits)
    with ok show ?thesis unfolding runs_ok_def single_run_def by metis
  qed
  moreover have "leases_run sd'"
    using ok opn' unfolding leases_run_def runs_ok_def by (metis rat)
  moreover have "attempts_ok sd'"
    unfolding attempts_ok_def attempts
  proof (intro allI impI)
    fix j x assume x: "task_at sd' j = Some x"
    have "s \<in> {Queued, Hibernating} \<Longrightarrow> rn_retry_count r < rn_max_retries r" using e by (simp add: ending_def)
    moreover have "int (attempts sd ?i) \<le> tk_max_retries (tr_spec t) + 1"
    proof -
      have "attempts_ok sd" using ok by (simp add: runs_ok_def)
      from this [unfolded attempts_ok_def, rule_format, OF t] show ?thesis by (simp split: if_splits)
    qed
    ultimately show "int (attempts sd j) \<le> tk_max_retries (tr_spec x) + (if tr_status x \<in> {Queued, Hibernating} then 0 else 1)"
      using x t mx att retry ok
      by (cases "j = ?i") (auto simp: tat ef runs_ok_def attempts_ok_def split: if_splits)
  qed
  ultimately show ?thesis by (simp add: runs_ok_def)
qed

lemma runs_ok_kept:
  assumes "tables_ok sd" and "runs_ok sd" and "abs_step po now sd sd'"
  shows "runs_ok sd'"
  using assms(3)
proof cases
  case (stored st al)
  show ?thesis by (rule runs_ok_cong [OF _ _ _ assms(2)]) (simp_all add: stored)
next
  case (opened c who)
  show ?thesis by (rule runs_ok_cong [OF _ _ _ assms(2)]) (simp_all add: opened)
next
  case (linked j i)
  show ?thesis by (rule runs_ok_cong [OF _ _ _ assms(2)]) (simp_all add: linked)
next
  case (queued t sd1 semantic)
  from assms(1,2) queued(2,3,7,1) show ?thesis by (rule runs_ok_queued)
next
  case (started sel cls ids v actor)
  from assms(1,2) started(2,3,5,1) show ?thesis by (rule runs_ok_started)
next
  case (beaten f g)
  from assms(2) beaten(2,3,1) show ?thesis by (rule runs_ok_beaten)
next
  case (ended run r' r s f g st)
  from assms(2) ended(2-5,1) show ?thesis by (rule runs_ok_ended)
qed

interpretation runs: table_invariant "\<lambda>po t sd. runs_ok sd"
proof unfold_locales
  show "runs_ok empty_sched"
    by (simp add: runs_ok_def single_run_def leases_run_def attempts_ok_def run_at_def task_at_def open_lease_def
        empty_sched_def)
  show "runs_ok sd'" if "tables_ok sd" "runs_ok sd" "abs_step po now sd sd'" for sd po now sd'
    using that by (rule runs_ok_kept)
qed

section \<open>Budgets\<close>

definition specs :: "'h sched \<Rightarrow> task list" where
  "specs sd = map (\<lambda>(_, t). tr_spec t) (sd_tasks sd)"

definition root_total :: "'h sched \<Rightarrow> string \<Rightarrow> rat" where
  "root_total sd c = sum_list (map tk_budget_usd
     (List.filter (\<lambda>t. tk_campaign_id t = c \<and> \<not> truthy (tk_parent_task_id t)) (specs sd)))"

definition children_total :: "'h sched \<Rightarrow> string \<Rightarrow> rat" where
  "children_total sd p = sum_list (map tk_budget_usd (List.filter (\<lambda>t. tk_parent_task_id t = Some p) (specs sd)))"

definition campaign_books :: "'h sched \<Rightarrow> bool" where
  "campaign_books sd \<longleftrightarrow> (\<forall>c row. dict_get (sd_campaigns sd) c = Some row \<longrightarrow>
     cr_allocated_usd row = root_total sd c \<and> root_total sd c \<le> cp_usd_budget (cr_spec row))"

definition task_books :: "'h sched \<Rightarrow> bool" where
  "task_books sd \<longleftrightarrow> (\<forall>i t. task_at sd i = Some t \<longrightarrow>
     tr_child_allocated_usd t = children_total sd i \<and> children_total sd i \<le> tk_budget_usd (tr_spec t))"

definition owned :: "'h sched \<Rightarrow> bool" where
  "owned sd \<longleftrightarrow> (\<forall>t \<in> set (specs sd). known (sd_campaigns sd) (tk_campaign_id t)
     \<and> (\<forall>p. tk_parent_task_id t = Some p \<longrightarrow> p \<noteq> [] \<and> known (sd_tasks sd) p))"

definition budgets_ok :: "'h sched \<Rightarrow> bool" where
  "budgets_ok sd \<longleftrightarrow> campaign_books sd \<and> task_books sd \<and> owned sd"

lemma charged_specs: "charged t sd sd1 \<Longrightarrow> specs sd1 = specs sd"
  by (auto simp: charged_def specs_def map_overwrite)

lemma specs_totals:
  assumes "specs sd' = specs sd"
  shows "root_total sd' = root_total sd" "children_total sd' = children_total sd"
  using assms by (simp_all add: fun_eq_iff root_total_def children_total_def)

lemma budgets_ok_frame:
  assumes "budgets_ok sd" and "sd_campaigns sd' = sd_campaigns sd" and "specs sd' = specs sd"
    and "known (sd_tasks sd') = known (sd_tasks sd)"
    and "\<And>i t. task_at sd' i = Some t \<Longrightarrow> \<exists>t0. task_at sd i = Some t0 \<and> tr_spec t = tr_spec t0
            \<and> tr_child_allocated_usd t = tr_child_allocated_usd t0"
  shows "budgets_ok sd'"
proof -
  have "task_books sd'"
    unfolding task_books_def specs_totals(2) [OF assms(3)]
  proof (intro allI impI)
    fix i t assume "task_at sd' i = Some t"
    from assms(5) [OF this] assms(1)
    show "tr_child_allocated_usd t = children_total sd i \<and> children_total sd i \<le> tk_budget_usd (tr_spec t)"
      by (auto simp: budgets_ok_def task_books_def)
  qed
  moreover have "campaign_books sd'" "owned sd'"
    using assms(1) by (simp_all add: budgets_ok_def campaign_books_def owned_def specs_totals [OF assms(3)] assms(2-4))
  ultimately show ?thesis by (simp add: budgets_ok_def)
qed

lemma set_rows_frame:
  assumes "budgets_ok sd" and "sd_campaigns sd' = sd_campaigns sd"
    and "sd_tasks sd' = map (\<lambda>(j, t). (j, if j = i then f t else t)) (sd_tasks sd)"
    and "\<And>t. tr_spec (f t) = tr_spec t \<and> tr_child_allocated_usd (f t) = tr_child_allocated_usd t"
  shows "budgets_ok sd'"
proof (rule budgets_ok_frame [OF assms(1,2)])
  show "specs sd' = specs sd"
    using assms(4) by (auto simp: specs_def assms(3) comp_def case_prod_unfold)
  show "known (sd_tasks sd') = known (sd_tasks sd)" by (simp add: assms(3) fun_eq_iff)
  show "\<exists>t0. task_at sd j = Some t0 \<and> tr_spec t = tr_spec t0 \<and> tr_child_allocated_usd t = tr_child_allocated_usd t0"
    if "task_at sd' j = Some t" for j t
    using that assms(4) by (auto simp: task_at_def assms(3) dict_get_map split: if_splits)
qed

lemma no_tasks_yet:
  assumes "owned sd" and "dict_get (sd_campaigns sd) c = None"
  shows "root_total sd c = 0"
proof -
  have "List.filter (\<lambda>t. tk_campaign_id t = c \<and> \<not> truthy (tk_parent_task_id t)) (specs sd) = []"
    using assms by (auto simp: filter_empty_conv owned_def known_None)
  then show ?thesis by (simp add: root_total_def)
qed

lemma no_children_yet:
  assumes "owned sd" and "dict_get (sd_tasks sd) i = None"
  shows "children_total sd i = 0"
proof -
  have "List.filter (\<lambda>t. tk_parent_task_id t = Some i) (specs sd) = []"
    using assms by (auto simp: filter_empty_conv owned_def known_None)
  then show ?thesis by (simp add: children_total_def)
qed

lemma budgets_ok_queued:
  assumes ok: "budgets_ok sd" and ch: "charged t sd sd1"
    and new: "dict_get (sd_tasks sd1) (tk_task_id t) = None"
    and par: "\<And>p. tk_parent_task_id t = Some p \<Longrightarrow> p \<noteq> [] \<and> dict_get (sd_tasks sd) p \<noteq> None" and t: "mk_task t = Inr t"
    and sd': "sd' = sd1\<lparr>sd_tasks := sd_tasks sd1 @ [(tk_task_id t, fresh_row t semantic now)], sd_deps := ds\<rparr>"
  shows "budgets_ok sd'"
proof -
  let ?b = "tk_budget_usd t"
  note fr = charged_frame [OF ch]
  have kt: "known (sd_tasks sd1) = known (sd_tasks sd)" and kc: "known (sd_campaigns sd1) = known (sd_campaigns sd)"
    by (simp_all add: fun_eq_iff known_def fr del: set_map)
  have own: "owned sd" and tb: "task_books sd" and cb: "campaign_books sd" using ok by (simp_all add: budgets_ok_def)
  have none: "dict_get (sd_tasks sd) (tk_task_id t) = None" using new by (simp add: known_None kt)
  have sp: "specs sd' = specs sd @ [t]"
    using charged_specs [OF ch] by (simp add: specs_def sd' fresh_row_def)
  have roots: "root_total sd' c = root_total sd c + (if tk_campaign_id t = c \<and> \<not> truthy (tk_parent_task_id t) then ?b else 0)" for c
    by (simp add: root_total_def sp)
  have kids: "children_total sd' i = children_total sd i + (if tk_parent_task_id t = Some i then ?b else 0)" for i
    by (simp add: children_total_def sp)
  have at: "task_at sd' i = (if i = tk_task_id t then Some (fresh_row t semantic now) else task_at sd1 i)" for i
    using dict_get_snoc [OF new] by (simp add: task_at_def sd' del: map_of_append)
  have camp: "sd_campaigns sd' = sd_campaigns sd1" by (simp add: sd')
  have b0: "0 \<le> ?b" using t by (simp add: mk_task_def rbind_eq_Inr)
  have own': "owned sd'"
  proof -
    have "known (sd_campaigns sd) (tk_campaign_id t)"
      using ch unfolding charged_def
    proof (elim disjE exE conjE)
      fix p row assume "dict_get (sd_tasks sd) p = Some row" "tk_campaign_id (tr_spec row) = tk_campaign_id t"
      then have "tr_spec row \<in> set (specs sd)" by (force simp: specs_def dest: map_of_SomeD)
      with own \<open>tk_campaign_id (tr_spec row) = tk_campaign_id t\<close> show ?thesis unfolding owned_def by metis
    next
      fix row assume "dict_get (sd_campaigns sd) (tk_campaign_id t) = Some row"
      then show ?thesis by (metis known_None option.distinct(1))
    qed
    moreover have "known (sd_tasks sd') i" if "known (sd_tasks sd) i" for i using that by (simp add: sd' kt)
    moreover have "p \<noteq> [] \<and> known (sd_tasks sd) p" if "tk_parent_task_id t = Some p" for p
      using par [OF that] by (simp add: known_None)
    ultimately show ?thesis
      using own unfolding owned_def sp camp kc by auto
  qed
  have not_self: "tk_parent_task_id t \<noteq> Some (tk_task_id t)" using par none by blast
  consider (child) p row where "tk_parent_task_id t = Some p" "p \<noteq> []" "dict_get (sd_tasks sd) p = Some row"
      "tr_child_allocated_usd row + ?b \<le> tk_budget_usd (tr_spec row)"
      "sd1 = sd\<lparr>sd_tasks := dict_set p (row\<lparr>tr_child_allocated_usd := tr_child_allocated_usd row + ?b\<rparr>) (sd_tasks sd)\<rparr>"
    | (root) row where "\<not> truthy (tk_parent_task_id t)" "dict_get (sd_campaigns sd) (tk_campaign_id t) = Some row"
      "cr_allocated_usd row + ?b \<le> cp_usd_budget (cr_spec row)"
      "sd1 = sd\<lparr>sd_campaigns := dict_set (tk_campaign_id t) (row\<lparr>cr_allocated_usd := cr_allocated_usd row + ?b\<rparr>) (sd_campaigns sd)\<rparr>"
    using ch unfolding charged_def by blast
  then have "campaign_books sd' \<and> task_books sd'"
  proof cases
    case (child p row)
    have tr: "truthy (tk_parent_task_id t)" using child(1,2) by (simp add: truthy_def)
    have "campaign_books sd'"
      using cb by (simp add: campaign_books_def roots tr camp) (simp add: child(5))
    moreover have "task_books sd'"
      unfolding task_books_def
    proof (intro allI impI)
      fix i x assume x: "task_at sd' i = Some x"
      show "tr_child_allocated_usd x = children_total sd' i \<and> children_total sd' i \<le> tk_budget_usd (tr_spec x)"
      proof (cases "i = tk_task_id t")
        case True
        with x b0 not_self show ?thesis
          by (simp add: at kids no_children_yet [OF own none]) (auto simp: fresh_row_def)
      next
        case False
        have "tr_child_allocated_usd row = children_total sd p"
          using tb child(3) by (simp add: task_books_def task_at_def)
        moreover have "dict_get (sd_tasks sd1) i = Some x" using False x by (simp add: at) (simp add: task_at_def)
        ultimately show ?thesis
          using tb child by (auto simp: kids task_books_def task_at_def dict_get_set split: if_splits)
      qed
    qed
    ultimately show ?thesis by blast
  next
    case (root row)
    have nop: "tk_parent_task_id t \<noteq> Some i" for i using root(1) par [of i] by (auto simp: truthy_def)
    have "task_books sd'"
      unfolding task_books_def
    proof (intro allI impI)
      fix i x assume x: "task_at sd' i = Some x"
      show "tr_child_allocated_usd x = children_total sd' i \<and> children_total sd' i \<le> tk_budget_usd (tr_spec x)"
      proof (cases "i = tk_task_id t")
        case True
        with x b0 nop show ?thesis
          by (simp add: at kids no_children_yet [OF own none]) (auto simp: fresh_row_def)
      next
        case False
        with x have "task_at sd i = Some x" by (simp add: at) (simp add: task_at_def root(4))
        with tb nop show ?thesis by (simp add: kids task_books_def)
      qed
    qed
    moreover have "campaign_books sd'"
      unfolding campaign_books_def
    proof (intro allI impI)
      fix c x assume x: "dict_get (sd_campaigns sd') c = Some x"
      have "cr_allocated_usd row = root_total sd (tk_campaign_id t)"
        using cb root(2) by (simp add: campaign_books_def)
      with x cb root(1,3,4) show "cr_allocated_usd x = root_total sd' c \<and> root_total sd' c \<le> cp_usd_budget (cr_spec x)"
        by (auto simp: camp roots campaign_books_def dict_get_set split: if_splits)
    qed
    ultimately show ?thesis by blast
  qed
  with own' show ?thesis by (simp add: budgets_ok_def)
qed

lemma budgets_ok_opened:
  assumes ok: "budgets_ok sd" and new: "dict_get (sd_campaigns sd) (cp_campaign_id c) = None"
    and c: "mk_campaign c = Inr c"
    and sd': "sd' = sd\<lparr>sd_campaigns := sd_campaigns sd @
      [(cp_campaign_id c, \<lparr>cr_spec = c, cr_allocated_usd = 0, cr_created_by = who\<rparr>)]\<rparr>"
  shows "budgets_ok sd'"
proof -
  have sp: "specs sd' = specs sd" by (simp add: specs_def sd')
  have own: "owned sd" using ok by (simp add: budgets_ok_def)
  have b0: "0 \<le> cp_usd_budget c" using c by (simp add: mk_campaign_def rbind_eq_Inr)
  have "dict_get (sd_campaigns sd') i = (if i = cp_campaign_id c
      then Some \<lparr>cr_spec = c, cr_allocated_usd = 0, cr_created_by = who\<rparr> else dict_get (sd_campaigns sd) i)" for i
    using dict_get_snoc [OF new] by (simp add: sd' del: map_of_append)
  then have "campaign_books sd'"
    using ok b0 by (auto simp: budgets_ok_def campaign_books_def specs_totals [OF sp] no_tasks_yet [OF own new])
  moreover have "task_books sd'"
    using ok by (simp add: budgets_ok_def task_books_def specs_totals [OF sp]) (simp add: task_at_def sd')
  moreover have "owned sd'"
    using own unfolding owned_def sp by (auto simp: sd')
  ultimately show ?thesis by (simp add: budgets_ok_def)
qed

lemma budgets_ok_kept:
  assumes "budgets_ok sd" and "abs_step po now sd sd'"
  shows "budgets_ok sd'"
  using assms(2)
proof cases
  case (opened c who)
  from assms(1) opened(2,3,1) show ?thesis by (rule budgets_ok_opened)
next
  case (queued t sd1 semantic)
  from assms(1) queued(2,3,5,7,1) show ?thesis by (rule budgets_ok_queued)
next
  case (started sel cls ids v actor)
  show ?thesis
    by (rule set_rows_frame [OF assms(1), where f = "\<lambda>row. row\<lparr>tr_status := Running, tr_state_version := v\<rparr>" and i = "fst sel"])
      (simp_all add: started(1))
next
  case (ended run r' r s f g st)
  show ?thesis
    by (rule set_rows_frame [OF assms(1), where f = f and i = "rn_task_id r"])
      (use ended(5) in \<open>simp_all add: ended(1) ending_def\<close>)
next
  case (stored st al)
  show ?thesis by (rule budgets_ok_frame [OF assms(1)]) (simp_all add: stored specs_def task_at_def)
next
  case (linked j i)
  show ?thesis by (rule budgets_ok_frame [OF assms(1)]) (simp_all add: linked specs_def task_at_def)
next
  case (beaten f g)
  show ?thesis by (rule budgets_ok_frame [OF assms(1)]) (simp_all add: beaten(1) specs_def task_at_def)
qed

interpretation budgets: table_invariant "\<lambda>po t sd. budgets_ok sd"
proof unfold_locales
  show "budgets_ok empty_sched"
    by (simp add: budgets_ok_def campaign_books_def task_books_def owned_def specs_def task_at_def empty_sched_def)
  show "budgets_ok sd'" if "tables_ok sd" "budgets_ok sd" "abs_step po now sd sd'" for sd po now sd'
    using that(2,3) by (rule budgets_ok_kept)
qed

section \<open>A concrete history\<close>

definition sample_params :: "nat sched_params" where
  "sample_params = \<lparr>sp_hashing = \<lparr>h_genesis = 0, h_envelope = (\<lambda>_. 1), h_request = (\<lambda>_. 2), h_content = (\<lambda>_. 3),
       h_text = (\<lambda>_. [])\<rparr>,
     sp_semantic = (\<lambda>h i s. length h), sp_dump_campaign = (\<lambda>_. []), sp_dump_task = (\<lambda>_. []),
     sp_policy = \<lparr>po_policy_id = ''v1'', po_class_limits = [(''cheap'', 1)], po_exploration_floor = 0\<rparr>\<rparr>"

definition sample_campaign :: campaign where
  "sample_campaign = \<lparr>cp_campaign_id = ''c'', cp_purpose = ''p'', cp_start_rule = ''s'', cp_stopping_rule = ''s'',
     cp_horizon_at = Aware 100 0, cp_usd_budget = 10, cp_token_budget = 0, cp_compute_seconds_budget = 0,
     cp_statistical_budget = 0\<rparr>"

definition sample_task :: "string \<Rightarrow> string \<Rightarrow> string list \<Rightarrow> task" where
  "sample_task i h deps = \<lparr>tk_task_id = i, tk_campaign_id = ''c'', tk_parent_task_id = None, tk_purpose = ''p'',
     tk_expected_artifact_schema = ''s'', tk_task_class = ''cheap'', tk_lane_class = ''EXPLOIT'', tk_handler = h,
     tk_inputs = [], tk_budget_usd = 4, tk_voi_lower_bound = 1, tk_novelty = 0, tk_information_value = 1,
     tk_max_retries = 1, tk_timeout_sec = 1, tk_independent_if_parent_fails = False, tk_dependencies = deps\<rparr>"

definition sample_ids :: run_ids where
  "sample_ids = \<lparr>ri_run = ''r'', ri_lease = ''l'', ri_fence = ''f''\<rparr>"

text \<open>The campaign, the first task, a second that depends on it, and a run of the first.\<close>

definition sample_sched1 :: "nat sched" where
  "sample_sched1 = empty_sched\<lparr>sd_campaigns :=
     [(''c'', \<lparr>cr_spec = sample_campaign, cr_allocated_usd = 0, cr_created_by = ''p1''\<rparr>)]\<rparr>"

definition sample_sched2 :: "nat sched" where
  "sample_sched2 = empty_sched\<lparr>sd_campaigns :=
       [(''c'', \<lparr>cr_spec = sample_campaign, cr_allocated_usd = 4, cr_created_by = ''p1''\<rparr>)],
     sd_tasks := [(''a'', fresh_row (sample_task ''a'' ''h'' []) 1 1)]\<rparr>"

definition sample_sched3 :: "nat sched" where
  "sample_sched3 = empty_sched\<lparr>sd_campaigns := [(''c'', \<lparr>cr_spec = sample_campaign, cr_allocated_usd = 8, cr_created_by = ''p1''\<rparr>)],
     sd_tasks := [(''a'', fresh_row (sample_task ''a'' ''h'' []) 1 1),
                  (''b'', fresh_row (sample_task ''b'' ''hh'' [''a'']) 2 2)],
     sd_deps := [(''b'', ''a'')],
     sd_store := empty_store\<lparr>st_aggregates := [((''task'', ''a''), (1, []))]\<rparr>\<rparr>"

lemma sched_transition_ok:
  assumes "role_can (id_role actor) cap" "kind \<noteq> []" "i \<noteq> []" "key \<noteq> []" "tid \<noteq> []"
    "po_policy_id (sp_policy P) \<noteq> []" "find_operation (sd_store sd) key = None"
    "v = current_version (sd_store sd) kind i"
  shows "\<exists>env st. sched_transition P actor cap kind i v s ev key tid [] topic fr sd = Inr (env, sd\<lparr>sd_store := st\<rparr>)
           \<and> env_aggregate_id env = i"
proof -
  have "\<exists>e st. transition (sp_hashing P) actor cap
      \<lparr>rq_kind = kind, rq_id = i, rq_expected_version = v, rq_state = s, rq_event_type = ev,
       rq_actor = id_principal actor, rq_task_id = tid, rq_policy_version = po_policy_id (sp_policy P),
       rq_evidence = [], rq_artifacts = [], rq_metadata = []\<rparr> key topic fr (sd_store sd) = Inr (e, st)
      \<and> env_aggregate_id (row_envelope e) = i"
    using assms by (simp add: transition_def require_capability_def append_event_def make_envelope_def Let_def)
  then show ?thesis by (auto simp: sched_transition_def)
qed

lemma role_can_sched [simp]: "role_can ''research'' ''research''" "role_can ''scheduler'' ''task''"
  by (simp_all add: role_can_def capabilities_def)

lemma sample_policy [simp]: "sp_policy sample_params
    = \<lparr>po_policy_id = ''v1'', po_class_limits = [(''cheap'', 1)], po_exploration_floor = 0\<rparr>"
  by (simp add: sample_params_def)

lemma unused_key [simp]: "find_operation empty_store key = None" "current_version empty_store k i = 0"
  "find_operation (empty_store\<lparr>st_aggregates := ag\<rparr>) key = None"
  by (simp_all add: find_operation_def empty_store_def current_version_def)

lemma run_then_store:
  assumes "sched_run P t sd" and "sched_step P t sd (sd'\<lparr>sd_store := st\<rparr>)"
  shows "sched_run P t (sd'\<lparr>sd_store := st'\<rparr>)"
proof -
  have "sched_run P t (sd'\<lparr>sd_store := st\<rparr>)" by (rule sched_run.step [OF assms(1) _ assms(2)]) simp
  from sched_run.step [OF this _ sched_step.elsewhere [of P t _ st']] show ?thesis by simp
qed

lemma wait: "sched_run P t sd \<Longrightarrow> t \<le> now \<Longrightarrow> sched_run P now sd"
  using sched_run.step [of P t sd now] sched_step.elsewhere [of P now sd "sd_store sd"] by simp

lemma sample_run1: "sched_run sample_params 0 sample_sched1"
proof -
  obtain env st where "sched_transition sample_params (sample_actor ''research'') ''research'' ''campaign'' ''c'' 0
      (sp_dump_campaign sample_params sample_campaign) ''CAMPAIGN_DECLARED'' ''campaign:c'' ''c'' [] None sample_fresh
      empty_sched = Inr (env, empty_sched\<lparr>sd_store := st\<rparr>)"
    using sched_transition_ok [of "sample_actor ''research''" "''research''" "''campaign''" "''c''" "''campaign:c''" "''c''"
        sample_params empty_sched 0 "sp_dump_campaign sample_params sample_campaign" "''CAMPAIGN_DECLARED''" None sample_fresh]
    by (auto simp: empty_sched_def)
  then have "declare_campaign sample_params (sample_actor ''research'') sample_campaign 0 sample_fresh empty_sched
      = Inr (env_aggregate_id env, sample_sched1\<lparr>sd_store := st\<rparr>)"
    by (simp add: declare_campaign_def sample_campaign_def sample_sched1_def) (simp add: empty_sched_def)
  then have "sched_step sample_params 0 empty_sched (sample_sched1\<lparr>sd_store := st\<rparr>)"
    by (rule sched_step.declared [rotated]) (simp add: mk_campaign_def sample_campaign_def)
  from run_then_store [OF sched_run.start this, of empty_store] show ?thesis
    by (simp add: sample_sched1_def empty_sched_def)
qed

lemma sample_task_simps:
  "tk_task_id (sample_task i h deps) = i" "tk_campaign_id (sample_task i h deps) = ''c''"
  "tk_parent_task_id (sample_task i h deps) = None" "tk_task_class (sample_task i h deps) = ''cheap''"
  "tk_lane_class (sample_task i h deps) = ''EXPLOIT''" "tk_handler (sample_task i h deps) = h"
  "tk_voi_lower_bound (sample_task i h deps) = 1" "tk_dependencies (sample_task i h deps) = deps"
  by (simp_all add: sample_task_def)

lemma sample_enqueue:
  assumes "sd_store sd = empty_store" "sd_campaigns sd = [(''c'', \<lparr>cr_spec = sample_campaign, cr_allocated_usd = x, cr_created_by = w\<rparr>)]"
    and "dadd x 4 \<le> 10" "0 \<le> x" "x + 4 \<le> 10" "i \<noteq> []" "now < 100" "list_all (\<lambda>(_, t). tr_semantic_hash t \<noteq> length h) (sd_tasks sd)"
    and "dict_get (sd_tasks sd) i = None"
    and "rfold (insert_dependency (sample_task i h deps))
           (sd\<lparr>sd_store := empty_store, sd_campaigns := [(''c'', \<lparr>cr_spec = sample_campaign, cr_allocated_usd = x + 4, cr_created_by = w\<rparr>)],
               sd_tasks := sd_tasks sd @ [(i, fresh_row (sample_task i h deps) (length h) now)]\<rparr>) deps = Inr sd'"
    and "sched_run sample_params now sd"
  shows "sched_run sample_params now (sd'\<lparr>sd_store := st'\<rparr>)"
proof -
  let ?t = "sample_task i h deps"
  let ?row = "\<lparr>cr_spec = sample_campaign, cr_allocated_usd = x + 4, cr_created_by = w\<rparr>"
  have nodup: "find_duplicate sd ''c'' (length h) = None"
    using assms(8) by (auto simp: find_duplicate_def find_None_iff list_all_iff)
  have charge: "charge_campaign ?t \<lparr>cr_spec = sample_campaign, cr_allocated_usd = x, cr_created_by = w\<rparr> sd
      = Inr (sd\<lparr>sd_campaigns := [(''c'', ?row)]\<rparr>)"
    using assms(2-5) by (simp add: charge_campaign_def sample_task_def sample_campaign_def Let_def)
  obtain env st where tr: "sched_transition sample_params (sample_actor ''research'') ''task'' ''task'' i 0
      (jset ''status'' (JStr ''queued'') (sp_dump_task sample_params ?t)) ''TASK_QUEUED'' (''task:'' @ i) i []
      (Some ''task.queued'') sample_fresh (sd\<lparr>sd_campaigns := [(''c'', ?row)]\<rparr>)
      = Inr (env, sd\<lparr>sd_campaigns := [(''c'', ?row)], sd_store := st\<rparr>)"
    using sched_transition_ok [of "sample_actor ''research''" "''task''" "''task''" i "''task:'' @ i" i sample_params
        "sd\<lparr>sd_campaigns := [(''c'', ?row)]\<rparr>" 0 "jset ''status'' (JStr ''queued'') (sp_dump_task sample_params ?t)"
        "''TASK_QUEUED''" "Some ''task.queued''" sample_fresh] assms(1,6) by auto
  let ?sd0 = "sd\<lparr>sd_store := empty_store, sd_campaigns := [(''c'', ?row)],
               sd_tasks := sd_tasks sd @ [(i, fresh_row ?t (length h) now)]\<rparr>"
  have dep: "rfold (insert_dependency ?t) (?sd0\<lparr>sd_store := st\<rparr>) deps = Inr (sd'\<lparr>sd_store := st\<rparr>)"
    by (rule insert_deps_store [OF assms(10)])
  have "insert_task ?t (length h) now (sd\<lparr>sd_campaigns := [(''c'', ?row)], sd_store := st\<rparr>) = Inr (?sd0\<lparr>sd_store := st\<rparr>)"
    using assms(9) by (simp add: insert_task_def sample_task_def fresh_row_def)
  then have "enqueue sample_params (sample_actor ''research'') ?t now sample_fresh sd = Inr (i, sd'\<lparr>sd_store := st\<rparr>)"
    using assms(2,7) charge nodup tr dep
    by (simp add: enqueue_def lanes_def require_capability_def truthy_def Let_def sample_params_def
        sample_task_simps sample_campaign_def)
  then have "sched_step sample_params now sd (sd'\<lparr>sd_store := st\<rparr>)"
    by (rule sched_step.enqueued [rotated]) (simp add: mk_task_def sample_task_def)
  then show ?thesis by (rule run_then_store [OF assms(11)])
qed

lemma sample_run2: "sched_run sample_params 1 (sample_sched2\<lparr>sd_store := empty_store\<rparr>)"
proof (rule sample_enqueue [where sd = sample_sched1 and x = 0 and h = "''h''" and i = "''a''" and deps = "[]" and w = "''p1''"])
  show "sched_run sample_params 1 sample_sched1" by (rule wait [OF sample_run1]) simp
qed (simp_all add: sample_sched1_def sample_sched2_def empty_sched_def decimal_eval)

lemma sample_run3: "sched_run sample_params 2 sample_sched3"
proof -
  let ?sd = "sample_sched2\<lparr>sd_store := empty_store\<rparr>"
  have "sched_run sample_params 2 ((sample_sched3\<lparr>sd_store := empty_store\<rparr>)
      \<lparr>sd_store := empty_store\<lparr>st_aggregates := [((''task'', ''a''), (1, []))]\<rparr>\<rparr>)"
  proof (rule sample_enqueue [where sd = ?sd and x = 4 and h = "''hh''" and i = "''b''" and deps = "[''a'']" and w = "''p1''"])
    show "sched_run sample_params 2 ?sd" by (rule wait [OF sample_run2]) simp
  qed (simp_all add: sample_sched2_def sample_sched3_def empty_sched_def decimal_eval
      fresh_row_def insert_dependency_def sample_task_simps)
  then show ?thesis by (simp add: sample_sched3_def)
qed

definition sample_row :: "nat task_row" where
  "sample_row = fresh_row (sample_task ''a'' ''h'' []) 1 1"

definition sample_sched4 :: "nat sched" where
  "sample_sched4 = set_task ''a'' (\<lambda>row. row\<lparr>tr_status := Running, tr_state_version := 2\<rparr>)
     (sample_sched3\<lparr>sd_runs := [(''r'', started (sample_actor ''scheduler'') ''cheap'' 3 sample_ids 0
                                        (''a'', sample_row))],
       sd_leases := [(''l'', granted (sample_actor ''scheduler'') ''cheap'' 3 sample_ids
                                        (''a'', sample_row))]\<rparr>)"

lemma sample_candidates: "candidates sample_sched3 ''cheap'' 3 = [(''a'', sample_row)]"
  by (simp add: candidates_def claimable_def campaign_open_def dependencies_met_def parent_allows_def
      sample_sched3_def empty_sched_def fresh_row_def sample_row_def sample_task_simps sample_campaign_def)

lemma sample_selected: "select_task (sp_policy sample_params) sample_sched3 3 [row] = row" if "lane_of row = ''EXPLOIT''"
  using that by (simp add: select_task_def protected_tasks_def Let_def lane_count_def sample_sched3_def empty_sched_def)

lemma sample_claimed:
  "\<exists>st al. claim sample_params (sample_actor ''scheduler'') ''cheap'' 3 sample_ids sample_fresh sample_sched3
     = Inr (Some ''a'', (sample_sched4\<lparr>sd_allocations := al\<rparr>)\<lparr>sd_store := st\<rparr>)"
proof -
  let ?row = "(''a'', sample_row)"
  have lane: "lane_of ?row = ''EXPLOIT''" by (simp add: lane_of_def sample_row_def fresh_row_def sample_task_simps)
  have v: "env_aggregate_version env = 2" if "sched_transition sample_params (sample_actor ''scheduler'') ''task'' ''task'' ''a'' 1 s
      ''TASK_STARTED'' ''run:r'' ''a'' [] None sample_fresh sample_sched3 = Inr (env, sd)" for s env sd
    using that
    by (auto simp: sched_transition_def rbind_eq_Inr transition_def append_event_def make_envelope_def Let_def
        sample_sched3_def current_version_def)
  obtain env st where tr: "sched_transition sample_params (sample_actor ''scheduler'') ''task'' ''task'' ''a'' 1
      (jset ''run_id'' (JStr ''r'') (jset ''status'' (JStr ''running'') [])) ''TASK_STARTED'' ''run:r'' ''a'' [] None
      sample_fresh sample_sched3 = Inr (env, sample_sched3\<lparr>sd_store := st\<rparr>)"
    using sched_transition_ok [of "sample_actor ''scheduler''" "''task''" "''task''" "''a''" "''run:r''" "''a''"
        sample_params sample_sched3 1 "jset ''run_id'' (JStr ''r'') (jset ''status'' (JStr ''running'') [])"
        "''TASK_STARTED''" None sample_fresh]
    by (auto simp: sample_sched3_def current_version_def)
  have st: "task_state sample_sched3 ''a'' = Inr (1, [])"
    by (simp add: task_state_def sample_sched3_def)
  have att: "attempts sample_sched3 ''a'' = 0" "live_leases sample_sched3 ''cheap'' 3 = 0"
    by (simp_all add: attempts_def live_leases_def sample_sched3_def empty_sched_def)
  have go: "start_run (sample_actor ''scheduler'') ''cheap'' 3 sample_ids 0 2 ?row (sample_sched3\<lparr>sd_store := st\<rparr>)
      = Inr (sample_sched4\<lparr>sd_store := st\<rparr>)"
    by (simp add: start_run_def sample_ids_def sample_sched4_def sample_sched3_def empty_sched_def set_task_def
        started_def granted_def Let_def)
  have "\<exists>al. claim sample_params (sample_actor ''scheduler'') ''cheap'' 3 sample_ids sample_fresh sample_sched3
     = Inr (Some ''a'', (sample_sched4\<lparr>sd_store := st\<rparr>)\<lparr>sd_allocations := al\<rparr>)"
    using sample_selected [OF lane] tr v [OF tr] att st go
    by (simp add: claim_def require_capability_def class_limit_def sample_candidates Let_def sample_ids_def) blast
  then obtain al where "claim sample_params (sample_actor ''scheduler'') ''cheap'' 3 sample_ids sample_fresh sample_sched3
     = Inr (Some ''a'', (sample_sched4\<lparr>sd_store := st\<rparr>)\<lparr>sd_allocations := al\<rparr>)" by blast
  then show ?thesis by (intro exI [of _ st] exI [of _ al]) simp
qed

lemma sample_run4: "\<exists>st al. sched_run sample_params 3 ((sample_sched4\<lparr>sd_allocations := al\<rparr>)\<lparr>sd_store := st\<rparr>)"
proof -
  obtain st al where "claim sample_params (sample_actor ''scheduler'') ''cheap'' 3 sample_ids sample_fresh sample_sched3
     = Inr (Some ''a'', (sample_sched4\<lparr>sd_allocations := al\<rparr>)\<lparr>sd_store := st\<rparr>)"
    using sample_claimed by blast
  then have "sched_run sample_params 3 ((sample_sched4\<lparr>sd_allocations := al\<rparr>)\<lparr>sd_store := st\<rparr>)"
    by (intro sched_run.step [OF sample_run3] sched_step.claimed) simp_all
  then show ?thesis by blast
qed

section \<open>Properties\<close>

text \<open>
  C26 In every history of the scheduler's operations, under a clock that does not go back, the
  leases of a resource class that are live at the time of the last operation never exceed
  the class's configured limit.
\<close>

theorem class_limit_respected:
  assumes "sched_run P t sd"
  shows "live_leases sd cls t \<le> class_limit (sp_policy P) cls"
  using limits.always [OF assms] by (simp add: within_limits_def)

theorem class_limit_respected_witness:
  "\<exists>st al. live_leases ((sample_sched4\<lparr>sd_allocations := al\<rparr>)\<lparr>sd_store := st\<rparr>) ''cheap'' 3
     \<le> class_limit (sp_policy sample_params) ''cheap''"
  using sample_run4 class_limit_respected by blast

text \<open>
  C24 The dependency table is always an acyclic graph over known tasks: neither
  the dependencies a task is enqueued with nor the ones added later can close a cycle, so
  no set of tasks waits for itself.
\<close>

theorem dependencies_acyclic:
  assumes "sched_run P t sd"
  shows "acyclic (set (sd_deps sd)) \<and>
    (\<forall>(i, j) \<in> set (sd_deps sd). task_at sd i \<noteq> None \<and> task_at sd j \<noteq> None)"
  using dependencies.always [OF assms]
  by (auto simp: dag_def tables_ok_def task_at_def known_None)

theorem dependencies_acyclic_witness: "acyclic (set (sd_deps sample_sched3)) \<and> sd_deps sample_sched3 \<noteq> []"
  using dependencies_acyclic [OF sample_run3] by (simp add: sample_sched3_def)

text \<open>
  C27 At any moment a task has at most one unreleased lease, its run is the task's one
  running run, and the task is marked running: no two workers can ever hold the same task,
  whatever the order of claims, failures and recoveries.
\<close>

theorem single_lease:
  assumes "sched_run P t sd"
    and "(j1, l1) \<in> set (sd_leases sd)" and "ls_released_at l1 = None"
    and "(j2, l2) \<in> set (sd_leases sd)" and "ls_released_at l2 = None"
    and "run_at sd (ls_run_id l1) = Some r1" and "run_at sd (ls_run_id l2) = Some r2"
    and "rn_task_id r1 = rn_task_id r2"
  shows "(j1, l1) = (j2, l2) \<and> rn_status r1 = RunRunning
       \<and> (\<exists>row. task_at sd (rn_task_id r1) = Some row \<and> tr_status row = Running)"
proof -
  from runs.always [OF assms(1)] have ok: "tables_ok sd" "runs_ok sd" by auto
  have "open_lease sd (ls_run_id l1)" "open_lease sd (ls_run_id l2)"
    using assms(2-5) by (auto simp: open_lease_def)
  then have running: "rn_status r1 = RunRunning" "rn_status r2 = RunRunning"
    using ok(2) assms(6,7) by (fastforce simp: runs_ok_def leases_run_def)+
  with ok(2) assms(6-8) have "ls_run_id l1 = ls_run_id l2"
    unfolding runs_ok_def single_run_def by blast
  moreover have "distinct (map (\<lambda>(_, l). ls_run_id l) (sd_leases sd))" using ok(1) by (simp add: tables_ok_def)
  ultimately have "(j1, l1) = (j2, l2)" using assms(2,4) by (auto dest: eq_key_imp_eq_value simp: distinct_map inj_on_def)
  moreover have "run_ok sd r1" using ok(2) assms(6) by (auto simp: runs_ok_def)
  ultimately show ?thesis using running by (auto simp: run_ok_def)
qed

theorem single_lease_witness:
  "\<exists>st al row. let sd = (sample_sched4\<lparr>sd_allocations := al\<rparr>)\<lparr>sd_store := st\<rparr> in
     task_at sd ''a'' = Some row \<and> tr_status row = Running"
proof -
  obtain st al where run: "sched_run sample_params 3 ((sample_sched4\<lparr>sd_allocations := al\<rparr>)\<lparr>sd_store := st\<rparr>)"
    using sample_run4 by blast
  let ?l = "granted (sample_actor ''scheduler'') ''cheap'' 3 sample_ids (''a'', sample_row)"
  let ?r = "started (sample_actor ''scheduler'') ''cheap'' 3 sample_ids 0 (''a'', sample_row)"
  have m: "(''l'', ?l) \<in> set (sd_leases ((sample_sched4\<lparr>sd_allocations := al\<rparr>)\<lparr>sd_store := st\<rparr>))"
    by (simp add: sample_sched4_def)
  have rel: "ls_released_at ?l = None" by (simp add: granted_def)
  have r: "run_at ((sample_sched4\<lparr>sd_allocations := al\<rparr>)\<lparr>sd_store := st\<rparr>) (ls_run_id ?l) = Some ?r"
    by (simp add: run_at_def sample_sched4_def granted_def sample_ids_def)
  have i: "rn_task_id ?r = ''a''" by (simp add: started_def)
  from single_lease [OF run m rel m rel r r refl] show ?thesis unfolding i Let_def by blast
qed

text \<open>
  C37 The retries of a task are bounded: however its runs end, by failure or by an expired
  lease, it is started at most once more than its retry limit, and while it can still be
  claimed it has an attempt left. So no task is retried forever.
\<close>

theorem attempts_bounded:
  assumes "sched_run P t sd" and "task_at sd i = Some row"
  shows "int (attempts sd i) \<le> tk_max_retries (tr_spec row) + 1
       \<and> (tr_status row \<in> {Queued, Hibernating} \<longrightarrow> int (attempts sd i) \<le> tk_max_retries (tr_spec row))"
proof -
  from runs.always [OF assms(1)] have "attempts_ok sd" by (simp add: runs_ok_def)
  from this [unfolded attempts_ok_def, rule_format, OF assms(2)] show ?thesis by (auto split: if_splits)
qed

theorem attempts_bounded_witness:
  "\<exists>st al. int (attempts ((sample_sched4\<lparr>sd_allocations := al\<rparr>)\<lparr>sd_store := st\<rparr>) ''a'') \<le> 2"
proof -
  obtain st al where run: "sched_run sample_params 3 ((sample_sched4\<lparr>sd_allocations := al\<rparr>)\<lparr>sd_store := st\<rparr>)"
    using sample_run4 by blast
  have "task_at ((sample_sched4\<lparr>sd_allocations := al\<rparr>)\<lparr>sd_store := st\<rparr>) ''a''
      = Some ((fresh_row (sample_task ''a'' ''h'' []) 1 1)\<lparr>tr_status := Running, tr_state_version := 2\<rparr>)"
    by (simp add: task_at_def sample_sched4_def sample_sched3_def)
  from attempts_bounded [OF run this] show ?thesis
    by (intro exI [of _ st] exI [of _ al]) (simp add: fresh_row_def sample_task_def)
qed

text \<open>
  C5 Budgets are conserved: what a campaign has allocated is exactly the sum of the budgets
  of its root tasks and stays within its budget, and what a task has allocated is exactly
  the sum of the budgets of its children and stays within the task's own.
\<close>

theorem budgets_conserved:
  assumes "sched_run P t sd"
  shows "(\<forall>c row. dict_get (sd_campaigns sd) c = Some row \<longrightarrow>
            cr_allocated_usd row = root_total sd c \<and> root_total sd c \<le> cp_usd_budget (cr_spec row))
       \<and> (\<forall>i row. task_at sd i = Some row \<longrightarrow>
            tr_child_allocated_usd row = children_total sd i \<and> children_total sd i \<le> tk_budget_usd (tr_spec row))"
  using budgets.always [OF assms] unfolding budgets_ok_def campaign_books_def task_books_def by blast

theorem budgets_conserved_witness: "root_total sample_sched3 ''c'' \<le> 10 \<and> root_total sample_sched3 ''c'' = 8"
proof -
  have "dict_get (sd_campaigns sample_sched3) ''c''
      = Some \<lparr>cr_spec = sample_campaign, cr_allocated_usd = 8, cr_created_by = ''p1''\<rparr>"
    by (simp add: sample_sched3_def)
  from budgets_conserved [OF sample_run3, THEN conjunct1, rule_format, OF this] show ?thesis
    by (simp add: sample_campaign_def)
qed

end
