(* ===== verification/InferTypes.thy ===== *)
theory InferTypes
  imports Decimals GovRecords EventStore
begin

text \<open>
  The contracts of the inference broker: \<open>liki/inference/types.py\<close>. Validators are functions
  that return the record or the \<open>ValueError\<close> pydantic wraps. \<open>Draft202012Validator\<close> and
  \<open>ipaddress\<close> are parameters; a canonical hash is a parameter where one is taken. JSON
  objects are those of \<open>EventStore\<close>.
\<close>

section \<open>Floats\<close>

text \<open>
  A finite Python float is the rational it denotes. \<open>float_round\<close> rounds to 53 significant
  bits, half to even; \<open>float_repr\<close> is the decimal \<open>str(x)\<close> shows: the one with fewest
  significant digits that reads back as \<open>x\<close>. Overflow and subnormal numbers do not occur for
  the rates in the unit interval the broker combines.
\<close>

fun nbits :: "nat \<Rightarrow> nat" where
  "nbits n = (if n < 2 then 1 else Suc (nbits (n div 2)))"

declare nbits.simps [simp del]

definition binary_exponent :: "rat \<Rightarrow> int" where
  "binary_exponent x =
     (let (n, d) = quotient_of x; e = int (nbits (nat n)) - int (nbits (nat d))
      in if 2 powi e \<le> x then e else e - 1)"

definition float_round :: "rat \<Rightarrow> rat" where
  "float_round x =
     (if x = 0 then 0
      else let u = 2 powi (binary_exponent \<bar>x\<bar> - 52) in of_int (half_even (x / u)) * u)"

definition significant :: "nat \<Rightarrow> rat \<Rightarrow> rat" where
  "significant n x =
     (if x = 0 then 0
      else let u = p10 (adjusted \<bar>x\<bar> - (int n - 1)) in of_int (half_even (x / u)) * u)"

definition float_repr :: "rat \<Rightarrow> rat" where
  "float_repr x =
     (case List.find (\<lambda>n. float_round (significant n x) = x) [1..<17] of
        Some n \<Rightarrow> significant n x
      | None \<Rightarrow> significant 17 x)"

section \<open>Enumerations\<close>

datatype criticality = LowCriticality | NormalCriticality | HighCriticality | CriticalCriticality

datatype sensitivity = Public | Internal | Confidential | Secret | Sealed

fun classification_rank :: "sensitivity \<Rightarrow> nat" where
  "classification_rank Public = 0"
| "classification_rank Internal = 1"
| "classification_rank Confidential = 2"
| "classification_rank Secret = 3"
| "classification_rank Sealed = 4"

datatype completeness_status = CompleteForContract | IncompleteBlocking | IncompleteDeclared

datatype retrieval_status = Retrieved | NotRetrieved | NotRelevant | PermissionDenied | ToolTimeout | IndexLag

fun retrieval_name :: "retrieval_status \<Rightarrow> string" where
  "retrieval_name Retrieved = ''RETRIEVED''"
| "retrieval_name NotRetrieved = ''NOT_RETRIEVED''"
| "retrieval_name NotRelevant = ''NOT_RELEVANT''"
| "retrieval_name PermissionDenied = ''PERMISSION_DENIED''"
| "retrieval_name ToolTimeout = ''TOOL_TIMEOUT''"
| "retrieval_name IndexLag = ''INDEX_LAG''"

datatype provider_health =
    Healthy | Degraded | RateLimited | AuthFailed | QuotaExhausted | OpenCircuit | UnknownHealth

datatype identity_assurance = OfficialAttested | ProviderAsserted | BlackBoxOnly | UnknownIdentity

datatype attempt_status =
    Created
  | TransportSuccess
  | SchemaSuccess
  | SemanticAccepted
  | DecisionUseful
  | RetryableFailure
  | NonretryableFailure
  | Hibernated

fun attempt_name :: "attempt_status \<Rightarrow> string" where
  "attempt_name Created = ''CREATED''"
| "attempt_name TransportSuccess = ''TRANSPORT_SUCCESS''"
| "attempt_name SchemaSuccess = ''SCHEMA_SUCCESS''"
| "attempt_name SemanticAccepted = ''SEMANTIC_ACCEPTED''"
| "attempt_name DecisionUseful = ''DECISION_USEFUL''"
| "attempt_name RetryableFailure = ''RETRYABLE_FAILURE''"
| "attempt_name NonretryableFailure = ''NONRETRYABLE_FAILURE''"
| "attempt_name Hibernated = ''HIBERNATED''"

text \<open>\<open>status in {SEMANTIC_ACCEPTED, DECISION_USEFUL}\<close>.\<close>

definition accepted_status :: "attempt_status \<Rightarrow> bool" where
  "accepted_status s = (s = SemanticAccepted \<or> s = DecisionUseful)"

section \<open>Task contracts, memory and reviewers\<close>

record task_contract =
  tc_agent_run_id :: string
  tc_role :: string
  tc_question :: string
  tc_decision_authority :: "string list"
  tc_input_evidence_ids :: "string list"
  tc_required_evidence_classes :: "string list"
  tc_forbidden_evidence_classes :: "string list"
  tc_allowed_tools :: "string list"
  tc_expected_artifact_schema :: jobj
  tc_success_condition :: string
  tc_stop_condition :: string
  tc_max_inference_budget :: jobj
  tc_max_tool_budget :: jobj
  tc_independence_group_id :: "string option"
  tc_parent_run_id :: "string option"

definition at_least_one :: "string list \<Rightarrow> unit result" where
  "at_least_one xs = require (\<forall>f \<in> set xs. f \<noteq> []) (ValueError ''at least 1 character'')"

text \<open>\<open>Draft202012Validator.check_schema\<close> is the argument \<open>schema_ok\<close>.\<close>

definition mk_task_contract :: "(jobj \<Rightarrow> bool) \<Rightarrow> task_contract \<Rightarrow> task_contract result" where
  "mk_task_contract schema_ok c =
     rbind (at_least_one [tc_agent_run_id c, tc_role c, tc_question c, tc_success_condition c,
                          tc_stop_condition c]) (\<lambda>_.
     rbind (require (schema_ok (tc_expected_artifact_schema c)) (ValueError ''invalid schema'')) (\<lambda>_. Inr c))"

datatype confidence_state = Unverified | CandidateClaim | Replicated | Invalidated

record memory_item =
  mm_id :: string
  mm_claim :: string
  mm_claim_type :: string
  mm_source_evidence_ids :: "string list"
  mm_confidence_state :: confidence_state
  mm_market_scope :: "string list"
  mm_regime_scope :: "string list"
  mm_mechanism_scope :: "string list"
  mm_created_at :: datetime
  mm_last_revalidated_at :: "datetime option"
  mm_policy_version :: string
  mm_classification :: sensitivity
  mm_license_allows_external_egress :: bool
  mm_contamination_tags :: "string list"
  mm_known_counterevidence_ids :: "string list"
  mm_supersedes :: "string list"

definition mk_memory_item :: "memory_item \<Rightarrow> memory_item result" where
  "mk_memory_item m =
     rbind (at_least_one [mm_id m, mm_claim m, mm_claim_type m, mm_policy_version m]) (\<lambda>_.
     rbind (require (mm_source_evidence_ids m \<noteq> []) (ValueError ''at least 1 item'')) (\<lambda>_. Inr m))"

record reviewer_profile =
  rp_model_family :: string
  rp_model_version :: "string option"
  rp_provider_correlation_domain :: string
  rp_provider_route_id :: string
  rp_reasoning_effort :: string
  rp_reviewer_mandate :: string
  rp_prompt_template_version :: string
  rp_evidence_ordering_profile :: string
  rp_prior_verdicts_visible :: bool
  rp_shared_tools_or_retrieval_policy :: string
  rp_shared_upstream :: "string list"

record independence_assessment =
  ia_reviewer_count :: nat
  ia_distinct_model_families :: nat
  ia_distinct_correlation_domains :: nat
  ia_same_model_correlation :: bool
  ia_shared_upstream_correlation :: bool

section \<open>Requests and evidence\<close>

record inference_request =
  iq_id :: string
  iq_semantic_task_id :: string
  iq_task_class :: string
  iq_criticality :: criticality
  iq_why_llm_needed :: string
  iq_expected_artifact_schema :: jobj
  iq_expected_decision_impact :: string
  iq_preferred_reasoning_effort :: string
  iq_idempotency_key :: string
  iq_allowed_provider_classes :: "string list"
  iq_fallback_policy_id :: string
  iq_max_call_cost_usd :: "rat option"
  iq_max_total_attempt_cost_usd :: "rat option"
  iq_max_latency_sec :: "rat option"
  iq_min_semantic_acceptance :: rat
  iq_min_reliability :: rat
  iq_routing_benchmark_id :: "string option"
  iq_requires_tools :: bool
  iq_parent_run_id :: "string option"
  iq_campaign_id :: "string option"
  iq_branch_id :: "string option"
  iq_exploratory :: bool

definition in_unit :: "rat \<Rightarrow> bool" where
  "in_unit x = (0 \<le> x \<and> x \<le> 1)"

definition mk_inference_request :: "(jobj \<Rightarrow> bool) \<Rightarrow> inference_request \<Rightarrow> inference_request result" where
  "mk_inference_request schema_ok q =
     rbind (at_least_one [iq_semantic_task_id q, iq_task_class q, iq_why_llm_needed q, iq_expected_decision_impact q,
                          iq_preferred_reasoning_effort q, iq_fallback_policy_id q]) (\<lambda>_.
     rbind (require (iq_expected_artifact_schema q \<noteq> []) (ValueError ''at least 1 item'')) (\<lambda>_.
     rbind (require (16 \<le> length (iq_idempotency_key q) \<and> length (iq_idempotency_key q) \<le> 256)
              (ValueError ''idempotency key length'')) (\<lambda>_.
     rbind (require (pred_option (\<lambda>x. 0 \<le> x) (iq_max_call_cost_usd q) \<and> pred_option (\<lambda>x. 0 \<le> x) (iq_max_total_attempt_cost_usd q)
                     \<and> pred_option (\<lambda>x. 0 < x) (iq_max_latency_sec q))
              (ValueError ''out of range'')) (\<lambda>_.
     rbind (require (in_unit (iq_min_semantic_acceptance q) \<and> in_unit (iq_min_reliability q))
              (ValueError ''out of range'')) (\<lambda>_.
     rbind (require (schema_ok (iq_expected_artifact_schema q)) (ValueError ''invalid schema'')) (\<lambda>_.
     rbind (require (\<not> (iq_expected_decision_impact q = [] \<and> \<not> iq_exploratory q))
              (ValueError ''non-exploratory requests require an expected decision impact'')) (\<lambda>_. Inr q)))))))"

record evidence_item =
  ev_id :: string
  ev_class :: string
  ev_classification :: sensitivity
  ev_retrieval_status :: retrieval_status
  ev_content :: "string option"
  ev_content_hash :: "string option"
  ev_material :: bool
  ev_license_allows_external_egress :: bool
  ev_canonical_source_id :: "string option"
  ev_summary_source_ids :: "string list"
  ev_relevance_reason :: "string option"

definition mk_evidence_item :: "evidence_item \<Rightarrow> evidence_item result" where
  "mk_evidence_item e =
     rbind (at_least_one [ev_id e, ev_class e]) (\<lambda>_.
     rbind (require (\<not> (ev_retrieval_status e = Retrieved \<and> \<not> truthy (ev_content e)))
              (ValueError ''retrieved evidence requires content'')) (\<lambda>_.
     rbind (require (\<not> (ev_retrieval_status e \<noteq> Retrieved \<and> truthy (ev_content e)))
              (ValueError ''unretrieved evidence cannot be silently represented as content'')) (\<lambda>_.
     rbind (require (\<not> (ev_retrieval_status e = NotRelevant \<and> \<not> truthy (ev_relevance_reason e)))
              (ValueError ''not-relevant evidence requires an explicit relevance reason'')) (\<lambda>_. Inr e))))"

definition effective_content_hash :: "(string \<Rightarrow> string) \<Rightarrow> evidence_item \<Rightarrow> string option" where
  "effective_content_hash hash_text e =
     (if truthy (ev_content_hash e) then ev_content_hash e else map_option hash_text (ev_content e))"

datatype trust_level = Trusted | Sandboxed | ExternalUntrusted

record tool_capability =
  tl_id :: string
  tl_version :: string
  tl_purpose :: string
  tl_input_schema :: jobj
  tl_output_schema :: jobj
  tl_deterministic :: bool
  tl_cost_model :: string
  tl_latency_model :: string
  tl_trust_level :: trust_level
  tl_side_effects :: "string list"
  tl_required_capabilities :: "string list"
  tl_known_failure_modes :: "string list"

section \<open>Compiled contexts\<close>

text \<open>The dictionary \<open>egress_decision\<close> of a manifest, as \<open>compile\<close> builds it.\<close>

record egress_decision =
  eg_route_id :: string
  eg_clearance :: sensitivity
  eg_highest_rank :: nat
  eg_retention_known :: bool
  eg_may_train_on_prompts :: "bool option"
  eg_route_license_approved :: bool
  eg_excluded_count :: nat

record context_manifest =
  mf_id :: string
  mf_compiler_version :: string
  mf_retrieval_version :: string
  mf_required_evidence_classes :: "string list"
  mf_candidate_evidence_ids :: "string list"
  mf_included_evidence_ids :: "string list"
  mf_tool_addressable_evidence_ids :: "string list"
  mf_excluded_evidence :: "(string \<times> string) list"
  mf_summary_artifact_ids :: "string list"
  mf_truncation :: "(string \<times> string) list"
  mf_egress_decision :: egress_decision
  mf_completeness_status :: completeness_status
  mf_retrieval_query_fingerprint :: string
  mf_tool_expansion_ids :: "string list"
  mf_candidate_memory_ids :: "string list"
  mf_included_memory_ids :: "string list"
  mf_excluded_memory :: "(string \<times> string) list"
  mf_created_at :: datetime

record compiled_context =
  cc_system_prompt :: string
  cc_user_prompt :: string
  cc_manifest :: context_manifest
  cc_tool_capabilities :: "tool_capability list"

section \<open>Usage and pricing\<close>

record usage =
  us_input :: "nat option"
  us_output :: "nat option"
  us_reasoning :: "nat option"
  us_cache_read :: "nat option"
  us_cache_write :: "nat option"
  us_method :: string

definition default_usage :: usage where
  "default_usage = \<lparr>us_input = None, us_output = None, us_reasoning = None, us_cache_read = None,
     us_cache_write = None, us_method = ''provider_reported''\<rparr>"

record pricing_tier =
  pt_up_to_billed_tokens :: "nat option"
  pt_input :: "rat option"
  pt_output :: "rat option"
  pt_reasoning :: "rat option"
  pt_cache_read :: "rat option"
  pt_cache_write :: "rat option"

definition mk_pricing_tier :: "pricing_tier \<Rightarrow> pricing_tier result" where
  "mk_pricing_tier t =
     rbind (require (pred_option (\<lambda>n. 0 < n) (pt_up_to_billed_tokens t)) (ValueError ''greater than 0'')) (\<lambda>_.
     rbind (require (\<forall>r \<in> {pt_input t, pt_output t, pt_reasoning t, pt_cache_read t, pt_cache_write t}.
                       pred_option (\<lambda>x. 0 \<le> x) r)
              (ValueError ''greater than or equal to 0'')) (\<lambda>_. Inr t))"

record pricing_plan =
  pp_price_plan_id :: string
  pp_effective_at :: datetime
  pp_fixed_request_usd :: rat
  pp_input :: rat
  pp_output :: rat
  pp_reasoning :: rat
  pp_cache_read :: rat
  pp_cache_write :: rat
  pp_minimum_request_usd :: rat
  pp_bill_failed :: bool
  pp_bill_timeout :: bool
  pp_bill_cancelled :: bool
  pp_bill_partial :: bool
  pp_pricing_formula_id :: string
  pp_unknown_usage_reserve :: usage
  pp_tiered_rates :: "pricing_tier list"

definition billable :: "pricing_plan \<Rightarrow> attempt_status \<Rightarrow> bool" where
  "billable p outcome =
     (if outcome = RetryableFailure then pp_bill_timeout p
      else if outcome = NonretryableFailure then pp_bill_failed p else True)"

definition resolved_usage :: "pricing_plan \<Rightarrow> usage \<Rightarrow> usage" where
  "resolved_usage p u = (if us_method u = ''unknown_conservative'' then pp_unknown_usage_reserve p else u)"

definition token_counts :: "usage \<Rightarrow> nat option list" where
  "token_counts u = [us_input u, us_output u, us_reasoning u, us_cache_read u, us_cache_write u]"

definition or_zero :: "nat option \<Rightarrow> nat" where
  "or_zero n = (case n of None \<Rightarrow> 0 | Some k \<Rightarrow> k)"

definition total_tokens :: "usage \<Rightarrow> nat" where
  "total_tokens u = sum_list (map or_zero (token_counts u))"

definition select_tier :: "pricing_plan \<Rightarrow> nat \<Rightarrow> pricing_tier option" where
  "select_tier p n =
     List.find (\<lambda>t. case pt_up_to_billed_tokens t of None \<Rightarrow> True | Some k \<Rightarrow> n \<le> k) (pp_tiered_rates p)"

definition tier_rate :: "pricing_tier option \<Rightarrow> (pricing_tier \<Rightarrow> rat option) \<Rightarrow> rat \<Rightarrow> rat" where
  "tier_rate tier rate base =
     (case tier of None \<Rightarrow> base | Some t \<Rightarrow> (case rate t of None \<Rightarrow> base | Some r \<Rightarrow> r))"

definition rates :: "pricing_plan \<Rightarrow> pricing_tier option \<Rightarrow> rat list" where
  "rates p tier =
     [tier_rate tier pt_input (pp_input p), tier_rate tier pt_output (pp_output p),
      tier_rate tier pt_reasoning (pp_reasoning p), tier_rate tier pt_cache_read (pp_cache_read p),
      tier_rate tier pt_cache_write (pp_cache_write p)]"

definition add_token_cost :: "rat \<Rightarrow> nat option \<times> rat \<Rightarrow> rat" where
  "add_token_cost acc entry =
     (case entry of (None, rate) \<Rightarrow> acc
      | (Some n, rate) \<Rightarrow> dadd acc (dround (dmul (of_nat n) rate / 1000000)))"

definition cost_components :: "pricing_plan \<Rightarrow> usage \<Rightarrow> attempt_status \<Rightarrow> rat \<times> rat \<times> nat" where
  "cost_components p u outcome =
     (if \<not> billable p outcome then (0, 0, 0)
      else let v = resolved_usage p u; n = total_tokens v;
               token_cost = foldl add_token_cost 0 (zip (token_counts v) (rates p (select_tier p n)))
           in (pp_fixed_request_usd p, token_cost, n))"

definition plan_cost :: "pricing_plan \<Rightarrow> usage \<Rightarrow> attempt_status \<Rightarrow> rat result" where
  "plan_cost p u outcome =
     (case cost_components p u outcome of (fixed, tokens, _) \<Rightarrow>
        quantize_micro_up (max (dadd fixed tokens) (pp_minimum_request_usd p)))"

section \<open>Provider routes\<close>

record route_capabilities =
  rc_context_window :: int
  rc_max_output_tokens :: int
  rc_reasoning_efforts :: "string list"
  rc_tools_supported :: bool
  rc_streaming_supported :: bool
  rc_continuation_supported :: bool
  rc_timeout_seconds :: rat
  rc_rate_limit_per_minute :: "int option"

definition mk_route_capabilities :: "route_capabilities \<Rightarrow> route_capabilities result" where
  "mk_route_capabilities c =
     rbind (require (0 < rc_context_window c \<and> 0 < rc_max_output_tokens c \<and> 0 < rc_timeout_seconds c
                     \<and> pred_option (\<lambda>n. 0 < n) (rc_rate_limit_per_minute c))
              (ValueError ''greater than 0'')) (\<lambda>_. Inr c)"

record route_metrics =
  mx_task_class :: string
  mx_semantic_acceptance :: rat
  mx_reliability :: rat
  mx_correction_rate :: rat
  mx_reversal_rate :: rat
  mx_sample_count :: nat
  mx_benchmark_id :: "string option"
  mx_benchmarked_at :: "datetime option"

definition mk_route_metrics :: "route_metrics \<Rightarrow> route_metrics result" where
  "mk_route_metrics m =
     rbind (at_least_one [mx_task_class m]) (\<lambda>_.
     rbind (require (in_unit (mx_semantic_acceptance m) \<and> in_unit (mx_reliability m)
                     \<and> in_unit (mx_correction_rate m) \<and> in_unit (mx_reversal_rate m))
              (ValueError ''out of range'')) (\<lambda>_. Inr m))"

datatype adapter = AnthropicMessages | OpenAIChat

text \<open>The parts of the parsed \<open>base_url\<close> that the validators look at.\<close>

record base_url =
  url_scheme :: string
  url_host :: "string option"
  url_text :: string

record provider_route =
  pr_id :: string
  pr_provider_class :: string
  pr_provider_id :: string
  pr_endpoint_id :: string
  pr_key_pool_id :: string
  pr_adapter :: adapter
  pr_base_url :: base_url
  pr_allowed_hosts :: "string list"
  pr_model :: string
  pr_claimed_model_name :: string
  pr_model_family :: string
  pr_model_version :: "string option"
  pr_identity_assurance :: identity_assurance
  pr_upstream_correlation_domain :: string
  pr_egress_clearance :: sensitivity
  pr_retention_known :: bool
  pr_may_train_on_prompts :: "bool option"
  pr_license_approved :: bool
  pr_sealed_evaluator_approved :: bool
  pr_last_capability_benchmark_at :: "datetime option"
  pr_behavioral_drift_detected_at :: "datetime option"
  pr_health :: provider_health
  pr_capabilities :: route_capabilities
  pr_pricing :: pricing_plan
  pr_quality_floor :: rat
  pr_reliability_floor :: rat
  pr_observed_semantic_acceptance :: rat
  pr_observed_reliability :: rat
  pr_expected_rework_usd :: rat
  pr_task_metrics :: "route_metrics list"

definition host_of :: "base_url \<Rightarrow> string" where
  "host_of u = (case url_host u of None \<Rightarrow> [] | Some h \<Rightarrow> h)"

text \<open>\<open>ip_global h\<close> is \<open>ip_address(h).is_global\<close>, or \<open>None\<close> when \<open>h\<close> is no address.\<close>

definition safe_base_url :: "(string \<Rightarrow> bool option) \<Rightarrow> base_url \<Rightarrow> base_url result" where
  "safe_base_url ip_global u =
     (let host = host_of u in
      if url_scheme u \<noteq> ''https'' \<or> host = [] then Inl (ValueError ''inference provider base URL must be public HTTPS'')
      else if lower_string host = ''localhost'' \<or> ip_global host = Some False
      then Inl (ValueError ''inference provider base URL must be public HTTPS'')
      else if CHR ''@'' \<in> set (url_text u) then Inl (ValueError ''provider base URL cannot include user info'')
      else Inr u)"

definition rstrip_dot :: "string \<Rightarrow> string" where
  "rstrip_dot s = rev (dropWhile (\<lambda>c. c = CHR ''.'') (rev s))"

definition normal_host :: "string \<Rightarrow> string" where
  "normal_host h = rstrip_dot (lower_string h)"

definition configured_host_only :: "provider_route \<Rightarrow> provider_route result" where
  "configured_host_only r =
     (let hosts = map normal_host (pr_allowed_hosts r) in
      if hosts = [] \<or> normal_host (host_of (pr_base_url r)) \<notin> set hosts
      then Inl (ValueError ''base URL host must be explicitly allowlisted'')
      else if \<not> pr_license_approved r then Inl (ValueError ''provider route has not passed license and terms review'')
      else if classification_rank Confidential \<le> classification_rank (pr_egress_clearance r) \<and> \<not> pr_retention_known r
      then Inl (ValueError ''unknown retention cannot clear confidential data'')
      else if pr_egress_clearance r = Sealed \<and> \<not> pr_sealed_evaluator_approved r
      then Inl (ValueError ''SEALED egress requires isolated evaluator approval'')
      else Inr r)"

definition mk_provider_route :: "(string \<Rightarrow> bool option) \<Rightarrow> provider_route \<Rightarrow> provider_route result" where
  "mk_provider_route ip_global r =
     rbind (safe_base_url ip_global (pr_base_url r)) (\<lambda>_.
     rbind (at_least_one [pr_upstream_correlation_domain r]) (\<lambda>_.
     rbind (require (in_unit (pr_quality_floor r) \<and> in_unit (pr_reliability_floor r)
                     \<and> in_unit (pr_observed_semantic_acceptance r) \<and> in_unit (pr_observed_reliability r))
              (ValueError ''out of range'')) (\<lambda>_.
     configured_host_only r)))"

section \<open>Responses, attempts and results\<close>

record raw_response =
  rr_provider_request_id :: "string option"
  rr_text :: string
  rr_usage :: usage
  rr_model_version :: "string option"
  rr_stop_reason :: "string option"
  rr_http_status :: nat

record inference_attempt =
  ia_attempt_id :: string
  ia_request_id :: string
  ia_attempt_no :: nat
  ia_route_id :: string
  ia_provider_request_id :: "string option"
  ia_lease_fence :: nat
  ia_model_family :: string
  ia_model_version :: "string option"
  ia_correlation_domain :: "string option"
  ia_reasoning_effort :: string
  ia_prompt_manifest_hash :: string
  ia_system_prompt_hash :: "string option"
  ia_task_prompt_hash :: "string option"
  ia_tool_schema_hash :: "string option"
  ia_sampling_parameters :: jobj
  ia_started_at :: int
  ia_completed_at :: "int option"
  ia_status :: attempt_status
  ia_http_status :: "nat option"
  ia_error_class :: "string option"
  ia_usage :: usage
  ia_pricing_plan_id :: "string option"
  ia_fixed_call_cost_usd :: "rat option"
  ia_token_cost_usd :: "rat option"
  ia_billed_tokens :: "nat option"
  ia_provider_reported_model :: "string option"
  ia_provider_reported_cost_usd :: "rat option"
  ia_total_cost_usd :: rat
  ia_latency_ms :: "int option"
  ia_output_artifact :: "jobj option"
  ia_response_hash :: "string option"

text \<open>The range checks of the model, which \<open>model_validate\<close> runs on a stored attempt.\<close>

definition mk_inference_attempt :: "inference_attempt \<Rightarrow> inference_attempt result" where
  "mk_inference_attempt a =
     rbind (require (1 \<le> ia_attempt_no a \<and> pred_option (\<lambda>x. 0 \<le> x) (ia_fixed_call_cost_usd a)
                     \<and> pred_option (\<lambda>x. 0 \<le> x) (ia_token_cost_usd a)
                     \<and> pred_option (\<lambda>x. 0 \<le> x) (ia_provider_reported_cost_usd a))
              (ValueError ''out of range'')) (\<lambda>_. Inr a)"

record inference_result =
  ir_request_id :: string
  ir_status :: attempt_status
  ir_artifact :: "jobj option"
  ir_failure_reason :: "string option"
  ir_route_id :: "string option"

section \<open>The price of an attempt\<close>

text \<open>
  The reference price: in exact arithmetic, the fixed charge and every reported token count
  at the rate of the first tier that admits the total, and nothing for an outcome that is
  not billed.
\<close>

fun exact_charge :: "nat option \<times> rat \<Rightarrow> rat" where
  "exact_charge (None, rate) = 0"
| "exact_charge (Some n, rate) = of_nat n * rate / 1000000"

definition exact_price :: "pricing_plan \<Rightarrow> usage \<Rightarrow> attempt_status \<Rightarrow> rat" where
  "exact_price p u outcome =
     (if billable p outcome
      then let v = resolved_usage p u in
        pp_fixed_request_usd p +
        sum_list (map exact_charge (zip (token_counts v) (rates p (select_tier p (total_tokens v)))))
      else 0)"

definition round_up_micro :: "rat \<Rightarrow> rat" where
  "round_up_micro x = of_int \<lceil>x * 1000000\<rceil> / 1000000"

text \<open>Prices are given in whole micro-dollars.\<close>

definition micro_amount :: "int \<Rightarrow> rat \<Rightarrow> bool" where
  "micro_amount b x = (\<exists>n. x = of_int n / 1000000 \<and> 0 \<le> n \<and> n \<le> b)"

lemma micro_amountI: "0 \<le> n \<Longrightarrow> n \<le> b \<Longrightarrow> micro_amount b (of_int n / 1000000)"
  unfolding micro_amount_def by blast

definition usual_prices :: "pricing_plan \<Rightarrow> bool" where
  "usual_prices p \<longleftrightarrow>
     micro_amount (10 ^ 15) (pp_fixed_request_usd p) \<and> micro_amount (10 ^ 15) (pp_minimum_request_usd p) \<and>
     (\<forall>r \<in> {pp_input p, pp_output p, pp_reasoning p, pp_cache_read p, pp_cache_write p}. micro_amount (10 ^ 9) r) \<and>
     (\<forall>t \<in> set (pp_tiered_rates p). \<forall>r \<in> {pt_input t, pt_output t, pt_reasoning t, pt_cache_read t, pt_cache_write t}.
        pred_option (micro_amount (10 ^ 9)) r)"

definition usual_usage :: "usage \<Rightarrow> bool" where
  "usual_usage u = (\<forall>n \<in> set (token_counts u). pred_option (\<lambda>k. k \<le> 10 ^ 9) n)"

lemma select_tier_in: "select_tier p n = Some t \<Longrightarrow> t \<in> set (pp_tiered_rates p)"
  by (auto simp: select_tier_def find_Some_iff)

lemma usual_rates:
  assumes "usual_prices p" and "r \<in> set (rates p (select_tier p n))"
  shows "micro_amount (10 ^ 9) r"
proof (cases "select_tier p n")
  case None
  then show ?thesis using assms by (auto simp: usual_prices_def rates_def tier_rate_def)
next
  case (Some t)
  have "t \<in> set (pp_tiered_rates p)" by (rule select_tier_in [OF Some])
  then show ?thesis
    using assms Some by (auto simp: usual_prices_def rates_def tier_rate_def split: option.splits)
qed

text \<open>With such prices no step of the Decimal computation rounds.\<close>

lemma charge_exact:
  assumes "micro_amount (10 ^ 9) rate" and "n \<le> 10 ^ 9"
  obtains m where "dround (dmul (of_nat n) rate / 1000000) = of_int m / 10 ^ 12" "0 \<le> m" "m \<le> 10 ^ 18"
    "exact_charge (Some n, rate) = of_int m / 10 ^ 12"
proof -
  obtain k where k: "rate = of_int k / 1000000" "0 \<le> k" "k \<le> 10 ^ 9"
    using assms(1) by (auto simp: micro_amount_def)
  define m where "m = int n * k"
  have b: "0 \<le> m" "m \<le> 10 ^ 18"
  proof -
    show "0 \<le> m" using k(2) by (simp add: m_def)
    have "int n * k \<le> 10 ^ 9 * 10 ^ 9"
      using assms(2) k by (intro mult_mono) (simp_all add: of_nat_le_iff [of n "10 ^ 9", where 'a = int, simplified])
    then show "m \<le> 10 ^ 18" by (simp add: m_def)
  qed
  have prod: "of_nat n * rate = of_int m / 10 ^ 6" by (simp add: k(1) m_def)
  have "fits (of_int m / 10 ^ 6)" and scaled: "fits (of_int m / 10 ^ 12)"
    by (rule fits_scaled, use b in simp)+
  then have "dmul (of_nat n) rate = of_int m / 10 ^ 6" by (simp add: dmul_def prod dround_fits)
  then have "dmul (of_nat n) rate / 1000000 = of_int m / 10 ^ 12" by simp
  then have "dround (dmul (of_nat n) rate / 1000000) = of_int m / 10 ^ 12"
    by (simp only: dround_fits [OF scaled])
  moreover have "exact_charge (Some n, rate) = of_int m / 10 ^ 12"
    using prod by (simp add: mult.commute)
  ultimately show thesis using that [OF _ b] by blast
qed

lemma add_token_cost_exact:
  assumes "pred_option (\<lambda>k. k \<le> 10 ^ 9) (fst e)" and "micro_amount (10 ^ 9) (snd e)"
    and "acc = of_int a / 10 ^ 12" and "0 \<le> a" and "a \<le> 10 ^ 27"
  shows "\<exists>b. add_token_cost acc e = of_int b / 10 ^ 12 \<and> add_token_cost acc e = acc + exact_charge e
    \<and> a \<le> b \<and> b \<le> a + 10 ^ 18"
proof (cases e)
  case (Pair c rate)
  show ?thesis
  proof (cases c)
    case None
    then show ?thesis using Pair assms(3) by (auto simp: add_token_cost_def)
  next
    case (Some n)
    with assms Pair have "micro_amount (10 ^ 9) rate" and "n \<le> 10 ^ 9" by simp_all
    then obtain m where m: "dround (dmul (of_nat n) rate / 1000000) = of_int m / 10 ^ 12" "0 \<le> m" "m \<le> 10 ^ 18"
        "exact_charge (Some n, rate) = of_int m / 10 ^ 12"
      by (rule charge_exact)
    have sum: "acc + of_int m / 10 ^ 12 = of_int (a + m) / 10 ^ 12" by (simp add: assms(3) add_divide_distrib)
    have "fits (of_int (a + m) / 10 ^ 12)" by (rule fits_scaled) (use assms(4,5) m(2,3) in simp)
    then have "dround (acc + of_int m / 10 ^ 12) = of_int (a + m) / 10 ^ 12"
      unfolding sum by (rule dround_fits)
    then have "add_token_cost acc e = of_int (a + m) / 10 ^ 12"
      unfolding Pair Some add_token_cost_def dadd_def by (simp only: prod.case option.case m(1))
    moreover have "of_int (a + m) / 10 ^ 12 = acc + exact_charge e"
      unfolding Pair Some m(4) by (rule sum [symmetric])
    ultimately show ?thesis
      using m(2,3) by (intro exI [of _ "a + m"]) simp
  qed
qed

lemma token_cost_exact:
  assumes "\<forall>e \<in> set es. pred_option (\<lambda>k. k \<le> 10 ^ 9) (fst e) \<and> micro_amount (10 ^ 9) (snd e)"
    and "acc = of_int a / 10 ^ 12" and "0 \<le> a" and "a + int (length es) * 10 ^ 18 \<le> 10 ^ 27"
  shows "\<exists>b. foldl add_token_cost acc es = of_int b / 10 ^ 12 \<and> a \<le> b \<and> b \<le> a + int (length es) * 10 ^ 18
    \<and> foldl add_token_cost acc es = acc + sum_list (map exact_charge es)"
  using assms
proof (induction es arbitrary: acc a)
  case Nil
  then show ?case by auto
next
  case (Cons e es)
  have len: "int (length (e # es)) * 10 ^ 18 = 10 ^ 18 + int (length es) * 10 ^ 18" by simp
  have "a \<le> 10 ^ 27" using Cons.prems(4) len by simp
  with Cons.prems(1) add_token_cost_exact [of e acc a] Cons.prems(2,3)
  obtain b where b: "add_token_cost acc e = of_int b / 10 ^ 12" "add_token_cost acc e = acc + exact_charge e"
      "a \<le> b" "b \<le> a + 10 ^ 18"
    by auto
  have "b + int (length es) * 10 ^ 18 \<le> 10 ^ 27" using Cons.prems(4) len b(4) by linarith
  with Cons.IH [of "add_token_cost acc e" b] Cons.prems(1,3) b(1,3)
  obtain c where c: "foldl add_token_cost (add_token_cost acc e) es = of_int c / 10 ^ 12" "b \<le> c"
      "c \<le> b + int (length es) * 10 ^ 18"
      "foldl add_token_cost (add_token_cost acc e) es = add_token_cost acc e + sum_list (map exact_charge es)"
    by auto
  show ?case
  proof (intro exI [of _ c] conjI)
    show "foldl add_token_cost acc (e # es) = of_int c / 10 ^ 12" using c(1) by simp
    show "a \<le> c" using b(3) c(2) by linarith
    show "c \<le> a + int (length (e # es)) * 10 ^ 18" using b(4) c(3) len by linarith
    show "foldl add_token_cost acc (e # es) = acc + sum_list (map exact_charge (e # es))"
      using c(4) b(2) by simp
  qed
qed

lemma exact_price_bounds:
  assumes "usual_prices p" and "usual_usage (resolved_usage p u)"
  obtains k where "exact_price p u outcome = of_int k / 10 ^ 12" "0 \<le> k" "k \<le> 10 ^ 22"
    "plan_cost p u outcome = quantize_micro_up (max (exact_price p u outcome) (pp_minimum_request_usd p))"
proof (cases "billable p outcome")
  case False
  then show thesis using that [of 0] by (simp add: exact_price_def plan_cost_def cost_components_def)
next
  case True
  define v where "v = resolved_usage p u"
  define es where "es = zip (token_counts v) (rates p (select_tier p (total_tokens v)))"
  have len: "length es = 5" by (simp add: es_def token_counts_def rates_def)
  have "\<forall>e \<in> set es. pred_option (\<lambda>k. k \<le> 10 ^ 9) (fst e) \<and> micro_amount (10 ^ 9) (snd e)"
    using assms(2) usual_rates [OF assms(1)] unfolding es_def v_def usual_usage_def
    by (auto dest: set_zip_leftD set_zip_rightD)
  from token_cost_exact [OF this, of 0 0] len
  obtain b where b: "foldl add_token_cost 0 es = of_int b / 10 ^ 12" "0 \<le> b" "b \<le> 5 * 10 ^ 18"
      "foldl add_token_cost 0 es = sum_list (map exact_charge es)"
    by auto
  obtain f where f: "pp_fixed_request_usd p = of_int f / 1000000" "0 \<le> f" "f \<le> 10 ^ 15"
    using assms(1) by (auto simp: usual_prices_def micro_amount_def)
  have price: "exact_price p u outcome = pp_fixed_request_usd p + foldl add_token_cost 0 es"
    using True by (simp add: exact_price_def v_def [symmetric] es_def [symmetric] b(4))
  define k where "k = f * 10 ^ 6 + b"
  have k: "exact_price p u outcome = of_int k / 10 ^ 12" "0 \<le> k" "k \<le> 10 ^ 22"
    using b(1-3) f by (simp_all add: price k_def add_divide_distrib)
  have "fits (of_int k / 10 ^ 12)" by (rule fits_scaled) (use k(2,3) in simp)
  then have "dadd (pp_fixed_request_usd p) (foldl add_token_cost 0 es) = exact_price p u outcome"
    unfolding dadd_def price [symmetric] k(1) by (rule dround_fits)
  then have "plan_cost p u outcome = quantize_micro_up (max (exact_price p u outcome) (pp_minimum_request_usd p))"
    using True by (simp add: plan_cost_def cost_components_def Let_def v_def [symmetric] es_def [symmetric])
  with k show thesis by (rule that)
qed

text \<open>C40 For prices in whole micro-dollars and ordinary token counts the cost of an attempt is
  the exact price of its usage, or the minimum charge if that is more, rounded up to the next
  micro-dollar: none of the Decimal operations on the way rounds, and the result is never a
  micro-dollar more than the exact amount.\<close>

theorem plan_cost_exact:
  assumes "usual_prices p" and "usual_usage (resolved_usage p u)"
  shows "let x = max (exact_price p u outcome) (pp_minimum_request_usd p) in
    plan_cost p u outcome = Inr (round_up_micro x) \<and> x \<le> round_up_micro x \<and> round_up_micro x < x + 1 / 1000000"
proof -
  let ?x = "max (exact_price p u outcome) (pp_minimum_request_usd p)"
  obtain k where k: "exact_price p u outcome = of_int k / 10 ^ 12" "0 \<le> k" "k \<le> 10 ^ 22"
      "plan_cost p u outcome = quantize_micro_up ?x"
    by (rule exact_price_bounds [OF assms])
  obtain m where m: "pp_minimum_request_usd p = of_int m / 1000000" "0 \<le> m" "m \<le> 10 ^ 15"
    using assms(1) by (auto simp: usual_prices_def micro_amount_def)
  have x: "0 \<le> ?x" using m by simp
  have "exact_price p u outcome \<le> 10 ^ 10"
    using k(1,3) by (simp add: divide_le_eq)
  moreover have "pp_minimum_request_usd p \<le> 10 ^ 10"
    using m by (simp add: divide_le_eq)
  ultimately have small: "?x * 1000000 \<le> of_int (10 ^ 16)" by simp
  then have "\<lceil>?x * 1000000\<rceil> \<le> 10 ^ 16" unfolding ceiling_le_iff .
  moreover have "0 \<le> \<lceil>?x * 1000000\<rceil>"
    using mult_nonneg_nonneg [OF x, of 1000000] by (simp add: le_ceiling_iff)
  moreover have "\<And>c :: int. c \<le> 10 ^ 16 \<Longrightarrow> 0 \<le> c \<Longrightarrow> \<bar>c\<bar> < 10 ^ 28" by simp
  ultimately have "\<bar>\<lceil>?x * 1000000\<rceil>\<bar> < 10 ^ 28" by blast
  moreover have "to_integral_up (?x * 1000000) = \<lceil>?x * 1000000\<rceil>"
    using mult_nonneg_nonneg [OF x, of 1000000] by (simp only: to_integral_up_def if_True)
  ultimately have "quantize_micro_up ?x = Inr (round_up_micro ?x)"
    by (simp only: quantize_micro_up_def round_up_micro_def Let_def if_True)
  with quantize_micro_up_bounds [OF this x] k(4) show ?thesis by (simp add: Let_def)
qed

definition sample_usage :: usage where
  "sample_usage = \<lparr>us_input = Some 1234, us_output = Some 567, us_reasoning = None, us_cache_read = Some 0,
     us_cache_write = None, us_method = ''provider_reported''\<rparr>"

definition sample_tier :: pricing_tier where
  "sample_tier = \<lparr>pt_up_to_billed_tokens = Some 1000, pt_input = Some 1, pt_output = None, pt_reasoning = None,
     pt_cache_read = None, pt_cache_write = None\<rparr>"

definition sample_plan :: pricing_plan where
  "sample_plan = \<lparr>pp_price_plan_id = ''plan'', pp_effective_at = Aware 0 0, pp_fixed_request_usd = 0, pp_input = 3,
     pp_output = 15, pp_reasoning = 15, pp_cache_read = 1, pp_cache_write = 4, pp_minimum_request_usd = 0,
     pp_bill_failed = True, pp_bill_timeout = True, pp_bill_cancelled = True, pp_bill_partial = True,
     pp_pricing_formula_id = ''per_request_plus_tokens_v1'', pp_unknown_usage_reserve = default_usage,
     pp_tiered_rates = [sample_tier]\<rparr>"

lemma micro_amount_numeral:
  "0 \<le> n \<Longrightarrow> n * 1000000 \<le> b \<Longrightarrow> micro_amount b (of_int n)"
  using micro_amountI [of "n * 1000000" b] by simp

lemma micro_amount_values [simp]:
  "0 \<le> b \<Longrightarrow> micro_amount b 0" "1000000 \<le> b \<Longrightarrow> micro_amount b 1"
  "numeral k * 1000000 \<le> b \<Longrightarrow> micro_amount b (numeral k)"
  using micro_amount_numeral [of 0 b] micro_amount_numeral [of 1 b] micro_amount_numeral [of "numeral k" b]
  by simp_all

theorem plan_cost_exact_witness:
  "plan_cost sample_plan sample_usage SemanticAccepted = Inr (12207 / 1000000)"
proof -
  have "usual_prices sample_plan" and "usual_usage (resolved_usage sample_plan sample_usage)"
    by (simp_all add: usual_prices_def sample_plan_def sample_tier_def usual_usage_def resolved_usage_def
        sample_usage_def token_counts_def)
  note cost = plan_cost_exact [OF this, of SemanticAccepted]
  have "exact_price sample_plan sample_usage SemanticAccepted = 12207 / 1000000"
    by (simp add: exact_price_def billable_def sample_plan_def sample_tier_def sample_usage_def
        resolved_usage_def token_counts_def rates_def select_tier_def tier_rate_def total_tokens_def or_zero_def)
  then show ?thesis using cost by (simp add: sample_plan_def round_up_micro_def Let_def)
qed

end
