(* ===== verification/Contexts.thy ===== *)
theory Contexts
  imports InferTypes
begin

text \<open>
  The context compiler, the memory firewall and the reviewer independence policy:
  \<open>liki/inference/context.py\<close>. Sets that are only tested for membership are lists; a set the
  source sorts is sorted here without repetitions. \<open>json.dumps\<close> with sorted keys,
  \<open>json.loads\<close>, the pydantic dumps and the canonical hashes are the parameters
  \<open>context_params\<close>; the members of a JSON object are given in the order of their keys.
\<close>

record context_params =
  cx_manifest_hash :: "context_manifest \<Rightarrow> string"
  cx_hash_text :: "string \<Rightarrow> string"
  cx_dumps :: "jobj \<Rightarrow> string"
  cx_loads :: "string \<Rightarrow> json option"
  cx_dump_contract :: "task_contract \<Rightarrow> jobj"
  cx_dump_memory :: "memory_item \<Rightarrow> jobj"
  cx_dump_tool :: "tool_capability \<Rightarrow> jobj"
  cx_profile_hash :: "reviewer_profile \<Rightarrow> string"

definition in_prompt_rank :: "sensitivity \<Rightarrow> provider_route \<Rightarrow> bool" where
  "in_prompt_rank c route = (classification_rank c \<le> classification_rank (pr_egress_clearance route))"

section \<open>What a task may see\<close>

definition exposed_tools :: "task_contract \<Rightarrow> tool_capability list \<Rightarrow> tool_capability list" where
  "exposed_tools contract tools =
     List.filter (\<lambda>t. tl_id t \<in> set (tc_allowed_tools contract) \<and> tl_side_effects t = []) tools"

definition side_effecting :: "task_contract \<Rightarrow> tool_capability list \<Rightarrow> tool_capability list" where
  "side_effecting contract tools =
     List.filter (\<lambda>t. tl_id t \<in> set (tc_allowed_tools contract) \<and> tl_side_effects t \<noteq> []) tools"

definition check_inputs ::
  "inference_request \<Rightarrow> task_contract \<Rightarrow> provider_route \<Rightarrow> evidence_item list \<Rightarrow> tool_capability list \<Rightarrow>
   string list \<Rightarrow> int \<Rightarrow> unit result" where
  "check_inputs req contract route items tools ids budget =
     rbind (require (\<not> budget \<le> 0) (ContextRejected ''context token budget must be positive'')) (\<lambda>_.
     rbind (require (tc_expected_artifact_schema contract = iq_expected_artifact_schema req)
              (ContextRejected ''task contract and request output schemas must match'')) (\<lambda>_.
     rbind (require (pr_license_approved route)
              (ContextRejected ''route has not passed license and terms review'')) (\<lambda>_.
     rbind (require (unique (map ev_id items))
              (ContextRejected ''duplicate evidence IDs are not permitted in one context'')) (\<lambda>_.
     rbind (require (set (tc_allowed_tools contract) \<subseteq> set (map tl_id tools))
              (ContextRejected ''task contract requests unregistered tools'')) (\<lambda>_.
     rbind (require (set ids \<subseteq> set (map ev_id items))
              (ContextRejected ''tool-addressable evidence was not retrieved'')) (\<lambda>_.
     rbind (require (side_effecting contract tools = [])
              (ContextRejected ''task contract cannot expose side-effecting tools'')) (\<lambda>_.
     require (\<not> (ids \<noteq> [] \<and> exposed_tools contract tools = []))
       (ContextRejected ''tool-addressable evidence requires an exposed read-only tool''))))))))"

definition required_classes :: "inference_request \<Rightarrow> task_contract \<Rightarrow> string list \<Rightarrow> string list" where
  "required_classes req contract requested =
     sort (remdups (requested @ tc_required_evidence_classes contract @
       (if iq_criticality req = CriticalCriticality then [''adverse_facts''] else [])))"

definition of_class :: "evidence_item list \<Rightarrow> string \<Rightarrow> evidence_item list" where
  "of_class items c = List.filter (\<lambda>i. ev_class i = c) items"

definition missing_classes :: "evidence_item list \<Rightarrow> string list \<Rightarrow> string list" where
  "missing_classes items required = List.filter (\<lambda>c. of_class items c = []) required"

definition unresolved_classes :: "evidence_item list \<Rightarrow> string list \<Rightarrow> string list" where
  "unresolved_classes items required =
     List.filter (\<lambda>c. of_class items c \<noteq> [] \<and>
       list_ex (\<lambda>i. ev_retrieval_status i \<notin> {Retrieved, NotRelevant}) (of_class items c)) required"

definition missing_inputs :: "evidence_item list \<Rightarrow> task_contract \<Rightarrow> string list" where
  "missing_inputs items contract =
     List.filter (\<lambda>i. i \<notin> set (map ev_id items)) (remdups (tc_input_evidence_ids contract))"

section \<open>Selection under the token budget\<close>

record selection =
  se_included :: "evidence_item list"
  se_excluded :: "(string \<times> string) list"
  se_truncation :: "(string \<times> string) list"
  se_consumed :: int

definition estimated_tokens :: "evidence_item \<Rightarrow> int" where
  "estimated_tokens i = max 1 (int (length (case ev_content i of None \<Rightarrow> [] | Some s \<Rightarrow> s)) div 4)"

definition exclude :: "evidence_item \<Rightarrow> string \<Rightarrow> selection \<Rightarrow> selection" where
  "exclude i reason s = s\<lparr>se_excluded := dict_set (ev_id i) reason (se_excluded s)\<rparr>"

definition truncate_item :: "evidence_item \<Rightarrow> string \<Rightarrow> selection \<Rightarrow> selection" where
  "truncate_item i note_text s = s\<lparr>se_truncation := dict_set (ev_id i) note_text (se_truncation s)\<rparr>"

definition select_item ::
  "task_contract \<Rightarrow> provider_route \<Rightarrow> string list \<Rightarrow> bool \<Rightarrow> int \<Rightarrow> selection \<Rightarrow> evidence_item \<Rightarrow> selection" where
  "select_item contract route ids exposed budget s i =
     (if ev_class i \<in> set (tc_forbidden_evidence_classes contract) then exclude i ''role_forbidden_evidence_class'' s
      else if ev_retrieval_status i \<noteq> Retrieved
      then exclude i (''retrieval:'' @ retrieval_name (ev_retrieval_status i)) s
      else if ev_classification i = Secret then exclude i ''secret_never_in_prompt'' s
      else if \<not> in_prompt_rank (ev_classification i) route then exclude i ''egress_clearance'' s
      else if \<not> ev_license_allows_external_egress i then exclude i ''license_restriction'' s
      else if budget < se_consumed s + estimated_tokens i
      then (if ev_id i \<in> set ids \<and> exposed
            then truncate_item i ''tool_addressable; canonical source retained''
                   (exclude i ''tool_addressable_due_to_budget'' s)
            else truncate_item i ''not included; explicit manifest omission'' (exclude i ''token_budget'' s))
      else s\<lparr>se_included := se_included s @ [i], se_consumed := se_consumed s + estimated_tokens i\<rparr>)"

definition empty_selection :: selection where
  "empty_selection = \<lparr>se_included = [], se_excluded = [], se_truncation = [], se_consumed = 0\<rparr>"

definition select_evidence ::
  "task_contract \<Rightarrow> provider_route \<Rightarrow> string list \<Rightarrow> bool \<Rightarrow> int \<Rightarrow> evidence_item list \<Rightarrow> selection" where
  "select_evidence contract route ids exposed budget items =
     foldl (select_item contract route ids exposed budget) empty_selection items"

definition addressable_ids ::
  "task_contract \<Rightarrow> provider_route \<Rightarrow> string list \<Rightarrow> bool \<Rightarrow> evidence_item list \<Rightarrow> string list" where
  "addressable_ids contract route ids exposed items =
     map ev_id (List.filter (\<lambda>i. ev_id i \<in> set ids \<and> ev_retrieval_status i = Retrieved
       \<and> ev_class i \<notin> set (tc_forbidden_evidence_classes contract) \<and> ev_classification i \<noteq> Secret
       \<and> in_prompt_rank (ev_classification i) route \<and> ev_license_allows_external_egress i \<and> exposed) items)"

section \<open>Completeness\<close>

definition accessible_items :: "string list \<Rightarrow> evidence_item list \<Rightarrow> evidence_item list" where
  "accessible_items visible items = List.filter (\<lambda>i. ev_id i \<in> set visible) items"

definition unavailable_classes :: "string list \<Rightarrow> evidence_item list \<Rightarrow> string list \<Rightarrow> string list" where
  "unavailable_classes visible items required =
     List.filter (\<lambda>c. c \<notin> set (map ev_class (accessible_items visible items)) \<and>
       c \<notin> set (map ev_class (List.filter (\<lambda>i. ev_retrieval_status i = NotRelevant) items))) required"

definition inaccessible_material :: "string list \<Rightarrow> evidence_item list \<Rightarrow> string list \<Rightarrow> string list" where
  "inaccessible_material visible items required =
     map ev_class (List.filter (\<lambda>i. ev_class i \<in> set required \<and> ev_material i
       \<and> ev_retrieval_status i = Retrieved \<and> ev_id i \<notin> set visible) items)"

definition summary_only :: "string list \<Rightarrow> evidence_item list \<Rightarrow> string list" where
  "summary_only visible included =
     map ev_id (List.filter (\<lambda>i. ev_material i \<and> ev_summary_source_ids i \<noteq> []
       \<and> set (ev_summary_source_ids i) \<inter> set visible = {}) included)"

text \<open>Every reason for which a context is incomplete.\<close>

definition gaps ::
  "task_contract \<Rightarrow> evidence_item list \<Rightarrow> string list \<Rightarrow> string list \<Rightarrow> evidence_item list \<Rightarrow> string list" where
  "gaps contract items required visible included =
     missing_classes items required @ missing_inputs items contract @ unresolved_classes items required @
     unavailable_classes visible items required @ inaccessible_material visible items required @
     summary_only visible included"

definition completeness :: "criticality \<Rightarrow> string list \<Rightarrow> completeness_status" where
  "completeness crit missing =
     (if crit = CriticalCriticality \<and> missing \<noteq> [] then IncompleteBlocking
      else if missing \<noteq> [] then IncompleteDeclared else CompleteForContract)"

definition highest_rank :: "evidence_item list \<Rightarrow> nat" where
  "highest_rank items = foldl max 0 (map (\<lambda>i. classification_rank (ev_classification i)) items)"

section \<open>The memory firewall\<close>

definition disjoint_scope :: "string list \<Rightarrow> string list \<Rightarrow> bool" where
  "disjoint_scope requested scope = (requested \<noteq> [] \<and> scope \<noteq> [] \<and> set requested \<inter> set scope = {})"

definition memory_expired :: "int option \<Rightarrow> datetime option \<Rightarrow> memory_item \<Rightarrow> bool result" where
  "memory_expired max_age_days now m =
     (case (max_age_days, now) of
        (Some days, Some t) \<Rightarrow>
          let checked = (case mm_last_revalidated_at m of None \<Rightarrow> mm_created_at m | Some d \<Rightarrow> d) in
          if comparable t checked then Inr (days < (instant t - instant checked) div hours 24)
          else Inl mixed_datetimes
      | _ \<Rightarrow> Inr False)"

definition memory_admitted ::
  "string list \<Rightarrow> bool \<Rightarrow> string list \<Rightarrow> string list \<Rightarrow> int option \<Rightarrow> datetime option \<Rightarrow> memory_item \<Rightarrow> bool result" where
  "memory_admitted allowed fresh_review markets mechanisms max_age_days now m =
     (if mm_confidence_state m = Invalidated then Inr False
      else if fresh_review \<and> mm_contamination_tags m \<noteq> [] then Inr False
      else if \<not> set (mm_contamination_tags m) \<subseteq> set allowed then Inr False
      else if disjoint_scope markets (mm_market_scope m) then Inr False
      else if disjoint_scope mechanisms (mm_mechanism_scope m) then Inr False
      else rbind (memory_expired max_age_days now m) (\<lambda>expired. Inr (\<not> expired)))"

definition retrieve_memory ::
  "memory_item list \<Rightarrow> string \<Rightarrow> string \<Rightarrow> string list \<Rightarrow> bool \<Rightarrow> string list \<Rightarrow> string list \<Rightarrow> int option \<Rightarrow>
   datetime option \<Rightarrow> memory_item list result" where
  "retrieve_memory memories purpose role allowed fresh_review markets mechanisms max_age_days now =
     rbind (require (\<not> (purpose = [] \<or> role = [])) (ContextRejected ''memory retrieval requires purpose and role'')) (\<lambda>_.
     filter_result (memory_admitted allowed fresh_review markets mechanisms max_age_days now) memories)"

fun screen_memory ::
  "provider_route \<Rightarrow> memory_item list \<times> (string \<times> string) list \<Rightarrow> memory_item \<Rightarrow>
   memory_item list \<times> (string \<times> string) list" where
  "screen_memory route (kept, excluded) m =
     (if mm_classification m = Secret then (kept, dict_set (mm_id m) ''secret_never_in_prompt'' excluded)
      else if \<not> in_prompt_rank (mm_classification m) route then (kept, dict_set (mm_id m) ''egress_clearance'' excluded)
      else if \<not> mm_license_allows_external_egress m then (kept, dict_set (mm_id m) ''license_restriction'' excluded)
      else (kept @ [m], excluded))"

definition firewall_exclusions :: "memory_item list \<Rightarrow> memory_item list \<Rightarrow> (string \<times> string) list" where
  "firewall_exclusions candidates eligible =
     foldl (\<lambda>d m. if mm_id m \<notin> set (map mm_id eligible) then dict_set (mm_id m) ''retrieval_firewall_policy'' d else d)
       [] candidates"

section \<open>Compilation\<close>

text \<open>The keyword arguments of \<open>compile\<close>, and the identifier and time the manifest draws.\<close>

record compile_call =
  cl_evidence :: "evidence_item list"
  cl_required_classes :: "string list"
  cl_retrieval_version :: string
  cl_retrieval_query :: string
  cl_tools :: "tool_capability list"
  cl_addressable :: "string list"
  cl_memories :: "memory_item list"
  cl_token_budget :: int
  cl_manifest_id :: string
  cl_now :: datetime

definition evidence_entry :: "evidence_item \<Rightarrow> json" where
  "evidence_entry i =
     JObj [(''canonical_source_id'', json_option (ev_canonical_source_id i)),
           (''content'', json_option (ev_content i)), (''evidence_class'', JStr (ev_class i)),
           (''evidence_id'', JStr (ev_id i))]"

definition sorted_strings :: "string list \<Rightarrow> json" where
  "sorted_strings xs = JArr (map JStr (sort xs))"

definition prompt_package ::
  "context_params \<Rightarrow> inference_request \<Rightarrow> task_contract \<Rightarrow> string list \<Rightarrow> context_manifest \<Rightarrow> evidence_item list \<Rightarrow>
   memory_item list \<Rightarrow> tool_capability list \<Rightarrow> jobj" where
  "prompt_package P req contract unknown manifest included memory tools =
     [(''evidence'', JArr (map evidence_entry included)),
      (''expected_artifact_schema'', JObj (iq_expected_artifact_schema req)),
      (''forbidden_evidence_classes'', sorted_strings (tc_forbidden_evidence_classes contract)),
      (''manifest_hash'', JStr (cx_manifest_hash P manifest)),
      (''memory_claims'', JArr (map (\<lambda>m. JObj (cx_dump_memory P m)) memory)),
      (''task_contract'', JObj (cx_dump_contract P contract)),
      (''tool_capabilities'', JArr (map (\<lambda>t. JObj (cx_dump_tool P t)) tools)),
      (''unknown_evidence_classes'', sorted_strings (remdups unknown))]"

definition system_prompt :: string where
  "system_prompt = ''Return only an artifact satisfying the supplied JSON Schema. Do not claim facts without cited evidence IDs. Return an explicit unknown when evidence is insufficient.''"

definition evidence_manifest ::
  "context_params \<Rightarrow> inference_request \<Rightarrow> task_contract \<Rightarrow> provider_route \<Rightarrow> compile_call \<Rightarrow> string list \<Rightarrow> selection \<Rightarrow>
   string list \<Rightarrow> string list \<Rightarrow> context_manifest" where
  "evidence_manifest P req contract route cl required sel addressable missing =
     (let visible = map ev_id (se_included sel) @ addressable in
      \<lparr>mf_id = cl_manifest_id cl, mf_compiler_version = ''1'', mf_retrieval_version = cl_retrieval_version cl,
       mf_required_evidence_classes = required, mf_candidate_evidence_ids = map ev_id (cl_evidence cl),
       mf_included_evidence_ids = map ev_id (se_included sel),
       mf_tool_addressable_evidence_ids = sort addressable, mf_excluded_evidence = se_excluded sel,
       mf_summary_artifact_ids = concat (map ev_summary_source_ids (se_included sel)),
       mf_truncation = se_truncation sel,
       mf_egress_decision =
         \<lparr>eg_route_id = pr_id route, eg_clearance = pr_egress_clearance route,
          eg_highest_rank = highest_rank (accessible_items visible (cl_evidence cl)),
          eg_retention_known = pr_retention_known route, eg_may_train_on_prompts = pr_may_train_on_prompts route,
          eg_route_license_approved = pr_license_approved route, eg_excluded_count = length (se_excluded sel)\<rparr>,
       mf_completeness_status = completeness (iq_criticality req) missing,
       mf_retrieval_query_fingerprint = cx_hash_text P (cl_retrieval_query cl), mf_tool_expansion_ids = [],
       mf_candidate_memory_ids = [], mf_included_memory_ids = [], mf_excluded_memory = [],
       mf_created_at = cl_now cl\<rparr>)"

definition render_context ::
  "context_params \<Rightarrow> inference_request \<Rightarrow> task_contract \<Rightarrow> provider_route \<Rightarrow> compile_call \<Rightarrow> context_manifest \<Rightarrow>
   evidence_item list \<Rightarrow> string list \<Rightarrow> memory_item list \<Rightarrow> compiled_context" where
  "render_context P req contract route cl manifest included unknown memory =
     (let (kept, excluded) = foldl (screen_memory route) ([], firewall_exclusions (cl_memories cl) memory) memory;
          manifest' = manifest\<lparr>mf_included_memory_ids := map mm_id kept,
            mf_candidate_memory_ids := map mm_id (cl_memories cl), mf_excluded_memory := excluded\<rparr>;
          tools = exposed_tools contract (cl_tools cl)
      in \<lparr>cc_system_prompt = system_prompt,
          cc_user_prompt = cx_dumps P (prompt_package P req contract unknown manifest' included kept tools),
          cc_manifest = manifest', cc_tool_capabilities = tools\<rparr>)"

definition compile_context ::
  "context_params \<Rightarrow> inference_request \<Rightarrow> task_contract \<Rightarrow> provider_route \<Rightarrow> compile_call \<Rightarrow> compiled_context result" where
  "compile_context P req contract route cl =
     (let items = cl_evidence cl; exposed = (exposed_tools contract (cl_tools cl) \<noteq> []) in
      rbind (check_inputs req contract route items (cl_tools cl) (cl_addressable cl) (cl_token_budget cl)) (\<lambda>_.
      let required = required_classes req contract (cl_required_classes cl);
          sel = select_evidence contract route (cl_addressable cl) exposed (cl_token_budget cl) items;
          addressable = addressable_ids contract route (cl_addressable cl) exposed items;
          visible = map ev_id (se_included sel) @ addressable;
          missing = gaps contract items required visible (se_included sel);
          manifest = evidence_manifest P req contract route cl required sel addressable missing;
          unknown = missing_classes items required @ unresolved_classes items required @
            unavailable_classes visible items required
      in
      rbind (require (mf_completeness_status manifest \<noteq> IncompleteBlocking)
               (ContextRejected ''critical context is incomplete'')) (\<lambda>_.
      rbind (retrieve_memory (cl_memories cl) (iq_task_class req) (tc_role contract) []
               (tc_independence_group_id contract \<noteq> None) [] [] None None) (\<lambda>memory.
      Inr (render_context P req contract route cl manifest (se_included sel) unknown memory)))))"

section \<open>Tool expansions\<close>

definition record_tool_expansion ::
  "context_manifest \<Rightarrow> evidence_item \<Rightarrow> provider_route \<Rightarrow> context_manifest result" where
  "record_tool_expansion manifest e route =
     rbind (require (eg_route_id (mf_egress_decision manifest) = pr_id route)
              (ContextRejected ''tool expansion route differs from the compiled context route'')) (\<lambda>_.
     rbind (require (ev_id e \<in> set (mf_tool_addressable_evidence_ids manifest))
              (ContextRejected ''tool expansion was not declared in the manifest'')) (\<lambda>_.
     rbind (require (ev_id e \<notin> set (mf_tool_expansion_ids manifest))
              (ContextRejected ''tool expansion is already recorded'')) (\<lambda>_.
     rbind (require (ev_retrieval_status e = Retrieved)
              (ContextRejected ''unretrieved evidence cannot be added by tool expansion'')) (\<lambda>_.
     rbind (require (ev_classification e \<noteq> Secret)
              (ContextRejected ''SECRET evidence cannot be expanded into a prompt'')) (\<lambda>_.
     rbind (require (in_prompt_rank (ev_classification e) route)
              (ContextRejected ''tool expansion exceeds route egress clearance'')) (\<lambda>_.
     rbind (require (ev_license_allows_external_egress e)
              (ContextRejected ''tool expansion violates evidence license'')) (\<lambda>_.
     Inr (manifest\<lparr>mf_tool_expansion_ids := mf_tool_expansion_ids manifest @ [ev_id e]\<rparr>))))))))"

definition append_expansion :: "jobj \<Rightarrow> json \<Rightarrow> jobj result" where
  "append_expansion package entry =
     (case dict_get package ''tool_expansions'' of
        None \<Rightarrow> Inr (jset ''tool_expansions'' (JArr [entry]) package)
      | Some (JArr xs) \<Rightarrow> Inr (jset ''tool_expansions'' (JArr (xs @ [entry])) package)
      | Some _ \<Rightarrow> Inl (TypeError ''tool_expansions is not a list''))"

definition apply_tool_expansion ::
  "context_params \<Rightarrow> compiled_context \<Rightarrow> evidence_item \<Rightarrow> provider_route \<Rightarrow> compiled_context result" where
  "apply_tool_expansion P c e route =
     rbind (record_tool_expansion (cc_manifest c) e route) (\<lambda>manifest.
     case cx_loads P (cc_user_prompt c) of
       None \<Rightarrow> Inl (ContextRejected ''compiled context package is malformed'')
     | Some (JObj package) \<Rightarrow>
         rbind (append_expansion (jset ''manifest_hash'' (JStr (cx_manifest_hash P manifest)) package) (evidence_entry e))
           (\<lambda>package'. Inr (c\<lparr>cc_user_prompt := cx_dumps P package', cc_manifest := manifest\<rparr>))
     | Some _ \<Rightarrow> Inl (TypeError ''item assignment''))"

section \<open>Reviewer independence\<close>

definition separate_reviews :: "reviewer_profile list \<Rightarrow> bool" where
  "separate_reviews ps = (\<not> (1 < length ps \<and>
     (\<not> unique (map rp_reviewer_mandate ps) \<or> \<not> unique (map rp_evidence_ordering_profile ps))))"

definition shared_by_all :: "reviewer_profile list \<Rightarrow> string list" where
  "shared_by_all batch =
     (case batch of [] \<Rightarrow> []
      | p # ps \<Rightarrow> List.filter (\<lambda>c. list_all (\<lambda>q. c \<in> set (rp_shared_upstream q)) ps) (rp_shared_upstream p))"

definition assess_batch ::
  "context_params \<Rightarrow> reviewer_profile list \<Rightarrow> int \<Rightarrow> independence_assessment result" where
  "assess_batch P batch minimum =
     rbind (require (\<not> int (length batch) < minimum) (ContextRejected ''independent reviewer quorum is not met'')) (\<lambda>_.
     rbind (require (\<not> list_ex rp_prior_verdicts_visible batch)
              (ContextRejected ''blind reviewers cannot see prior verdicts'')) (\<lambda>_.
     rbind (require (unique (map (cx_profile_hash P) batch))
              (ContextRejected ''review-padding detected: duplicate independence profile'')) (\<lambda>_.
     let families = foldl (group_append rp_model_family) [] batch in
     rbind (require (list_all (\<lambda>(_, ps). separate_reviews ps) families)
              (ContextRejected ''same-model review requires distinct mandates and evidence ordering'')) (\<lambda>_.
     Inr \<lparr>ia_reviewer_count = length batch, ia_distinct_model_families = length families,
          ia_distinct_correlation_domains = length (remdups (map rp_provider_correlation_domain batch)),
          ia_same_model_correlation = list_ex (\<lambda>(_, ps). 1 < length ps) families,
          ia_shared_upstream_correlation =
            (\<not> unique (map rp_provider_correlation_domain batch) \<or> shared_by_all batch \<noteq> [])\<rparr>))))"

section \<open>What leaves the house\<close>

definition may_leave :: "task_contract \<Rightarrow> provider_route \<Rightarrow> evidence_item \<Rightarrow> bool" where
  "may_leave contract route i \<longleftrightarrow>
     ev_class i \<notin> set (tc_forbidden_evidence_classes contract) \<and> ev_retrieval_status i = Retrieved \<and>
     ev_classification i \<noteq> Secret \<and> in_prompt_rank (ev_classification i) route \<and>
     ev_license_allows_external_egress i"

definition memory_may_leave :: "provider_route \<Rightarrow> memory_item \<Rightarrow> bool" where
  "memory_may_leave route m \<longleftrightarrow>
     mm_confidence_state m \<noteq> Invalidated \<and> mm_contamination_tags m = [] \<and> mm_classification m \<noteq> Secret \<and>
     in_prompt_rank (mm_classification m) route \<and> mm_license_allows_external_egress m"

lemma select_item_cases:
  obtains (out) reason where
      "se_included (select_item contract route ids exposed budget s i) = se_included s"
      "se_consumed (select_item contract route ids exposed budget s i) = se_consumed s"
      "se_excluded (select_item contract route ids exposed budget s i) = dict_set (ev_id i) reason (se_excluded s)"
  | (inside) "may_leave contract route i" "se_consumed s + estimated_tokens i \<le> budget"
      "select_item contract route ids exposed budget s i =
         s\<lparr>se_included := se_included s @ [i], se_consumed := se_consumed s + estimated_tokens i\<rparr>"
proof (cases "may_leave contract route i \<and> se_consumed s + estimated_tokens i \<le> budget")
  case True
  then show thesis by (intro inside) (simp_all add: select_item_def may_leave_def)
next
  case False
  let ?left = "\<lambda>t. \<exists>reason. se_included t = se_included s \<and> se_consumed t = se_consumed s
    \<and> se_excluded t = dict_set (ev_id i) reason (se_excluded s)"
  have "?left (exclude i r s)" "?left (truncate_item i n (exclude i r s))" for r n
    by (auto simp: exclude_def truncate_item_def)
  then have "?left (select_item contract route ids exposed budget s i)"
    using False unfolding select_item_def may_leave_def by (simp add: not_less del: ex_simps) blast
  then show thesis using out by blast
qed

text \<open>What holds of a selection over the items seen so far.\<close>

definition selection_ok ::
  "task_contract \<Rightarrow> provider_route \<Rightarrow> int \<Rightarrow> evidence_item list \<Rightarrow> selection \<Rightarrow> bool" where
  "selection_ok contract route budget items s \<longleftrightarrow>
     set (se_included s) \<subseteq> {i \<in> set items. may_leave contract route i} \<and>
     se_consumed s = sum_list (map estimated_tokens (se_included s)) \<and> se_consumed s \<le> budget \<and>
     set (dict_keys (se_excluded s)) \<subseteq> set (map ev_id items) \<and>
     (\<forall>i \<in> set items. i \<in> set (se_included s) \<longleftrightarrow> dict_get (se_excluded s) (ev_id i) = None)"

lemma unseen_excluded: "set (dict_keys d) \<subseteq> A \<Longrightarrow> k \<notin> A \<Longrightarrow> dict_get d k = None"
  by (auto simp: map_of_eq_None_iff)

lemma selection_ok_step:
  assumes "selection_ok contract route budget items s" and "ev_id i \<notin> set (map ev_id items)"
  shows "selection_ok contract route budget (items @ [i]) (select_item contract route ids exposed budget s i)"
proof -
  have other: "ev_id j \<noteq> ev_id i" "j \<noteq> i" if "j \<in> set items" for j
    using that assms(2) by (metis image_eqI list.set_map)+
  have new: "i \<notin> set (se_included s)" "dict_get (se_excluded s) (ev_id i) = None"
    using assms other(2) unseen_excluded [of "se_excluded s" "set (map ev_id items)"]
    by (auto simp: selection_ok_def)
  show ?thesis
  proof (cases rule: select_item_cases [of contract route ids exposed budget s i])
    case (out reason)
    have "set (dict_keys (dict_set (ev_id i) reason (se_excluded s))) \<subseteq> set (map ev_id (items @ [i]))"
      unfolding dict_keys_set using assms(1) by (auto simp: selection_ok_def)
    with out show ?thesis
      using assms(1) other new unfolding selection_ok_def by (auto simp: dict_get_set simp del: list.set_map)
  next
    case inside
    then show ?thesis
      using assms(1) other new unfolding selection_ok_def by auto
  qed
qed

lemma selection_ok_run:
  "0 < budget \<Longrightarrow> distinct (map ev_id items) \<Longrightarrow>
   selection_ok contract route budget items (select_evidence contract route ids exposed budget items)"
proof (induction items rule: rev_induct)
  case Nil
  then show ?case by (simp add: selection_ok_def select_evidence_def empty_selection_def)
next
  case (snoc i items)
  then show ?case by (auto simp: select_evidence_def intro: selection_ok_step)
qed

lemma addressable_may_leave:
  assumes "ev_id i \<in> set (addressable_ids contract route ids exposed items)" and "i \<in> set items"
    and "distinct (map ev_id items)"
  shows "may_leave contract route i"
proof -
  obtain j where "j \<in> set items" "ev_id j = ev_id i" "may_leave contract route j"
    using assms(1) by (auto simp: addressable_ids_def may_leave_def)
  then show ?thesis using assms(2,3) by (metis distinct_map inj_onD)
qed

lemma screen_memory_kept:
  "set (fst (foldl (screen_memory route) (kept, excluded) ms)) \<subseteq>
   set kept \<union> {m \<in> set ms. mm_classification m \<noteq> Secret \<and> in_prompt_rank (mm_classification m) route \<and>
                   mm_license_allows_external_egress m}"
proof (induction ms arbitrary: kept excluded)
  case Nil
  then show ?case by simp
next
  case (Cons m ms)
  show ?case
    using Cons.IH [of "fst (screen_memory route (kept, excluded) m)" "snd (screen_memory route (kept, excluded) m)"]
    by (auto split: if_splits)
qed

lemma filter_result_sub:
  assumes "filter_result p xs = Inr ys"
  shows "set ys \<subseteq> {x \<in> set xs. p x = Inr True}"
  using assms by (induction xs arbitrary: ys) (fastforce simp: rbind_eq_Inr split: if_splits)+

lemma retrieved_memory:
  assumes "retrieve_memory ms purpose role [] review [] [] None None = Inr memory"
  shows "set memory \<subseteq> {m \<in> set ms. mm_confidence_state m \<noteq> Invalidated \<and> mm_contamination_tags m = []}"
proof -
  have "filter_result (memory_admitted [] review [] [] None None) ms = Inr memory"
    using assms by (simp add: retrieve_memory_def rbind_eq_Inr)
  from filter_result_sub [OF this] show ?thesis
    by (auto simp: memory_admitted_def memory_expired_def split: if_splits)
qed

text \<open>The parts of a successful compilation.\<close>

lemma compile_context_Inr:
  assumes "compile_context P req contract route cl = Inr c"
  obtains u sel addressable required memory manifest unknown where
    "check_inputs req contract route (cl_evidence cl) (cl_tools cl) (cl_addressable cl) (cl_token_budget cl) = Inr u"
    "sel = select_evidence contract route (cl_addressable cl) (exposed_tools contract (cl_tools cl) \<noteq> [])
       (cl_token_budget cl) (cl_evidence cl)"
    "addressable = addressable_ids contract route (cl_addressable cl) (exposed_tools contract (cl_tools cl) \<noteq> [])
       (cl_evidence cl)"
    "required = required_classes req contract (cl_required_classes cl)"
    "manifest = evidence_manifest P req contract route cl required sel addressable
       (gaps contract (cl_evidence cl) required (map ev_id (se_included sel) @ addressable) (se_included sel))"
    "mf_completeness_status manifest \<noteq> IncompleteBlocking"
    "retrieve_memory (cl_memories cl) (iq_task_class req) (tc_role contract) []
       (tc_independence_group_id contract \<noteq> None) [] [] None None = Inr memory"
    "c = render_context P req contract route cl manifest (se_included sel) unknown memory"
  using assms unfolding compile_context_def Let_def rbind_eq_Inr require_eq_Inr sum.inject
  by (elim exE conjE) (rule that; (assumption | rule refl | erule sym))

lemma render_context_simps:
  "cc_tool_capabilities (render_context P req contract route cl manifest included unknown memory) =
     exposed_tools contract (cl_tools cl)"
  "mf_included_evidence_ids (cc_manifest (render_context P req contract route cl manifest included unknown memory)) =
     mf_included_evidence_ids manifest"
  "mf_excluded_evidence (cc_manifest (render_context P req contract route cl manifest included unknown memory)) =
     mf_excluded_evidence manifest"
  "mf_tool_addressable_evidence_ids (cc_manifest (render_context P req contract route cl manifest included unknown memory)) =
     mf_tool_addressable_evidence_ids manifest"
  "mf_required_evidence_classes (cc_manifest (render_context P req contract route cl manifest included unknown memory)) =
     mf_required_evidence_classes manifest"
  "mf_completeness_status (cc_manifest (render_context P req contract route cl manifest included unknown memory)) =
     mf_completeness_status manifest"
  by (simp_all add: render_context_def Let_def split: prod.split)

lemma render_context_memory:
  fixes P req contract route cl manifest included unknown memory
  defines "c \<equiv> render_context P req contract route cl manifest included unknown memory"
  obtains kept where
    "cc_user_prompt c = cx_dumps P (prompt_package P req contract unknown (cc_manifest c) included kept
       (cc_tool_capabilities c))"
    "mf_included_memory_ids (cc_manifest c) = map mm_id kept"
    "set kept \<subseteq> {m \<in> set memory. mm_classification m \<noteq> Secret \<and> in_prompt_rank (mm_classification m) route \<and>
                   mm_license_allows_external_egress m}"
proof -
  obtain kept excluded where k: "foldl (screen_memory route) ([], firewall_exclusions (cl_memories cl) memory) memory
      = (kept, excluded)"
    by fastforce
  show thesis
    using screen_memory_kept [of route "[]" "firewall_exclusions (cl_memories cl) memory" memory] k
    by (intro that [of kept]) (simp_all add: c_def render_context_def Let_def)
qed

lemma check_inputs_Inr:
  assumes "check_inputs req contract route items tools ids budget = Inr u"
  shows "0 < budget" "distinct (map ev_id items)" "pr_license_approved route" "side_effecting contract tools = []"
    "ids \<noteq> [] \<longrightarrow> exposed_tools contract tools \<noteq> []"
  using assms by (auto simp: check_inputs_def rbind_eq_Inr)

text \<open>C39 A compiled prompt carries only what may leave: every evidence item in it was
  retrieved, is of a class the role may see, is not SECRET, is within the clearance of the
  route and licensed for egress, and so is every memory claim, which moreover passed the
  retrieval firewall; what the tools may later fetch satisfies the same rules. The evidence
  fits the token budget, and every candidate is either in the prompt or listed in the
  manifest with a reason, never both.\<close>

theorem compile_egress:
  assumes "compile_context P req contract route cl = Inr c"
  shows "\<exists>included memory unknown.
    cc_user_prompt c = cx_dumps P (prompt_package P req contract unknown (cc_manifest c) included memory
      (cc_tool_capabilities c)) \<and>
    mf_included_evidence_ids (cc_manifest c) = map ev_id included \<and>
    mf_included_memory_ids (cc_manifest c) = map mm_id memory \<and>
    set included \<subseteq> {i \<in> set (cl_evidence cl). may_leave contract route i} \<and>
    set memory \<subseteq> {m \<in> set (cl_memories cl). memory_may_leave route m} \<and>
    sum_list (map estimated_tokens included) \<le> cl_token_budget cl \<and>
    (\<forall>i \<in> set (cl_evidence cl).
       i \<in> set included \<longleftrightarrow> dict_get (mf_excluded_evidence (cc_manifest c)) (ev_id i) = None) \<and>
    (\<forall>i \<in> set (cl_evidence cl).
       ev_id i \<in> set (mf_tool_addressable_evidence_ids (cc_manifest c)) \<longrightarrow> may_leave contract route i) \<and>
    (\<forall>t \<in> set (cc_tool_capabilities c). tl_side_effects t = [])"
proof -
  from assms obtain u sel addressable required memory manifest unknown where
    checks: "check_inputs req contract route (cl_evidence cl) (cl_tools cl) (cl_addressable cl) (cl_token_budget cl) = Inr u"
    and sel: "sel = select_evidence contract route (cl_addressable cl) (exposed_tools contract (cl_tools cl) \<noteq> [])
       (cl_token_budget cl) (cl_evidence cl)"
    and addr: "addressable = addressable_ids contract route (cl_addressable cl) (exposed_tools contract (cl_tools cl) \<noteq> [])
       (cl_evidence cl)"
    and man: "manifest = evidence_manifest P req contract route cl required sel addressable
       (gaps contract (cl_evidence cl) required (map ev_id (se_included sel) @ addressable) (se_included sel))"
    and mem: "retrieve_memory (cl_memories cl) (iq_task_class req) (tc_role contract) []
       (tc_independence_group_id contract \<noteq> None) [] [] None None = Inr memory"
    and c: "c = render_context P req contract route cl manifest (se_included sel) unknown memory"
    by (rule compile_context_Inr) (rule that, assumption+)
  note distinct = check_inputs_Inr(2) [OF checks]
  have ok: "selection_ok contract route (cl_token_budget cl) (cl_evidence cl) sel"
    unfolding sel by (rule selection_ok_run [OF check_inputs_Inr(1,2) [OF checks]])
  obtain kept where prompt: "cc_user_prompt c = cx_dumps P (prompt_package P req contract unknown (cc_manifest c)
        (se_included sel) kept (cc_tool_capabilities c))"
    and ids: "mf_included_memory_ids (cc_manifest c) = map mm_id kept"
    and kept: "set kept \<subseteq> {m \<in> set memory. mm_classification m \<noteq> Secret \<and>
        in_prompt_rank (mm_classification m) route \<and> mm_license_allows_external_egress m}"
    unfolding c by (rule render_context_memory)
  have "set kept \<subseteq> {m \<in> set (cl_memories cl). memory_may_leave route m}"
    using kept retrieved_memory [OF mem] by (auto simp: memory_may_leave_def)
  moreover have "may_leave contract route i"
    if "i \<in> set (cl_evidence cl)" "ev_id i \<in> set (mf_tool_addressable_evidence_ids (cc_manifest c))" for i
    using that addressable_may_leave [OF _ that(1) distinct]
    by (simp add: c render_context_simps man evidence_manifest_def Let_def addr)
  moreover have "\<forall>t \<in> set (cc_tool_capabilities c). tl_side_effects t = []"
    by (simp add: c render_context_simps exposed_tools_def)
  moreover have "mf_included_evidence_ids (cc_manifest c) = map ev_id (se_included sel)"
    "mf_excluded_evidence (cc_manifest c) = se_excluded sel"
    by (simp_all add: c render_context_simps man evidence_manifest_def Let_def)
  ultimately show ?thesis
    using ok prompt ids unfolding selection_ok_def
    by (intro exI [of _ "se_included sel"] exI [of _ kept] exI [of _ unknown]) simp
qed

text \<open>A context for a critical request is complete: each required class, adverse facts among
  them, has an item the model can read or one declared not relevant, and no material item of
  such a class was left out.\<close>

theorem critical_context_complete:
  assumes "compile_context P req contract route cl = Inr c" and "iq_criticality req = CriticalCriticality"
  shows "let visible = set (mf_included_evidence_ids (cc_manifest c)) \<union>
               set (mf_tool_addressable_evidence_ids (cc_manifest c)) in
    mf_completeness_status (cc_manifest c) = CompleteForContract \<and>
    ''adverse_facts'' \<in> set (mf_required_evidence_classes (cc_manifest c)) \<and>
    set (tc_required_evidence_classes contract) \<subseteq> set (mf_required_evidence_classes (cc_manifest c)) \<and>
    (\<forall>k \<in> set (mf_required_evidence_classes (cc_manifest c)).
       (\<exists>i \<in> set (cl_evidence cl). ev_class i = k \<and> (ev_id i \<in> visible \<or> ev_retrieval_status i = NotRelevant)) \<and>
       (\<forall>i \<in> set (cl_evidence cl). ev_class i = k \<longrightarrow> ev_material i \<longrightarrow> ev_retrieval_status i = Retrieved \<longrightarrow>
          ev_id i \<in> visible))"
proof -
  from assms(1) obtain sel addressable required manifest unknown memory where
    req: "required = required_classes req contract (cl_required_classes cl)"
    and man: "manifest = evidence_manifest P req contract route cl required sel addressable
       (gaps contract (cl_evidence cl) required (map ev_id (se_included sel) @ addressable) (se_included sel))"
    and blocking: "mf_completeness_status manifest \<noteq> IncompleteBlocking"
    and c: "c = render_context P req contract route cl manifest (se_included sel) unknown memory"
    by (rule compile_context_Inr) (rule that, assumption+)
  have none: "gaps contract (cl_evidence cl) required (map ev_id (se_included sel) @ addressable) (se_included sel) = []"
    using blocking assms(2) by (simp add: man evidence_manifest_def Let_def completeness_def split: if_splits)
  let ?visible = "set (map ev_id (se_included sel) @ addressable)"
  have "\<forall>k \<in> set required. \<exists>i \<in> set (cl_evidence cl).
      ev_class i = k \<and> (ev_id i \<in> ?visible \<or> ev_retrieval_status i = NotRelevant)"
  proof
    fix k assume "k \<in> set required"
    moreover have "unavailable_classes (map ev_id (se_included sel) @ addressable) (cl_evidence cl) required = []"
      using none by (simp add: gaps_def)
    ultimately have "k \<in> set (map ev_class (accessible_items (map ev_id (se_included sel) @ addressable) (cl_evidence cl)))
        \<or> k \<in> set (map ev_class (List.filter (\<lambda>i. ev_retrieval_status i = NotRelevant) (cl_evidence cl)))"
      unfolding unavailable_classes_def filter_empty_conv by blast
    then show "\<exists>i \<in> set (cl_evidence cl). ev_class i = k \<and> (ev_id i \<in> ?visible \<or> ev_retrieval_status i = NotRelevant)"
      unfolding accessible_items_def set_map set_filter by blast
  qed
  moreover have "\<forall>i \<in> set (cl_evidence cl). ev_class i \<in> set required \<longrightarrow> ev_material i \<longrightarrow>
      ev_retrieval_status i = Retrieved \<longrightarrow> ev_id i \<in> ?visible"
    using none unfolding gaps_def inaccessible_material_def append_is_Nil_conv map_is_Nil_conv filter_empty_conv by blast
  moreover have "''adverse_facts'' \<in> set required" "set (tc_required_evidence_classes contract) \<subseteq> set required"
    using assms(2) by (auto simp: req required_classes_def)
  moreover have "set (mf_included_evidence_ids (cc_manifest c)) \<union> set (mf_tool_addressable_evidence_ids (cc_manifest c))
      = ?visible" "mf_required_evidence_classes (cc_manifest c) = required"
    "mf_completeness_status (cc_manifest c) = CompleteForContract"
    using none by (simp_all add: c render_context_simps man evidence_manifest_def Let_def completeness_def)
  ultimately show ?thesis by (simp only: Let_def) blast
qed

text \<open>A tool expansion is recorded once, for an item the manifest declares and that may leave.\<close>

lemma record_tool_expansion_Inr:
  assumes "record_tool_expansion m e route = Inr m'"
  shows "ev_id e \<in> set (mf_tool_addressable_evidence_ids m)" "ev_id e \<notin> set (mf_tool_expansion_ids m)"
    "mf_tool_expansion_ids m' = mf_tool_expansion_ids m @ [ev_id e]"
    "may_leave (contract\<lparr>tc_forbidden_evidence_classes := []\<rparr>) route e"
  using assms by (auto simp: record_tool_expansion_def rbind_eq_Inr may_leave_def)

text \<open>A batch of reviewers is accepted exactly when the quorum is met, nobody saw a verdict,
  no profile is repeated, and reviewers of one model family differ pairwise in mandate and in
  the ordering of their evidence.\<close>

lemma distinct_within_groups:
  "(\<forall>k. distinct (map f (List.filter (\<lambda>x. g x = k) xs))) \<longleftrightarrow> distinct (map (\<lambda>x. (g x, f x)) xs)"
proof (induction xs)
  case Nil
  then show ?case by simp
next
  case (Cons x xs)
  have step: "(\<forall>k. distinct (map f (List.filter (\<lambda>x. g x = k) (x # xs)))) \<longleftrightarrow>
      (\<forall>k. distinct (map f (List.filter (\<lambda>x. g x = k) xs))) \<and> f x \<notin> f ` {y \<in> set xs. g y = g x}"
  proof (intro iffI conjI allI)
    fix k assume h: "\<forall>k. distinct (map f (List.filter (\<lambda>x. g x = k) (x # xs)))"
    show "distinct (map f (List.filter (\<lambda>x. g x = k) xs))"
      using spec [OF h, of k] by (simp split: if_splits)
    show "f x \<notin> f ` {y \<in> set xs. g y = g x}"
      using spec [OF h, of "g x"] by simp
  next
    fix k assume "(\<forall>k. distinct (map f (List.filter (\<lambda>x. g x = k) xs))) \<and> f x \<notin> f ` {y \<in> set xs. g y = g x}"
    then show "distinct (map f (List.filter (\<lambda>x. g x = k) (x # xs)))" by auto
  qed
  show ?case unfolding step Cons.IH by (force simp: image_iff)
qed

lemma separate_reviews_iff:
  "separate_reviews ps \<longleftrightarrow> distinct (map rp_reviewer_mandate ps) \<and> distinct (map rp_evidence_ordering_profile ps)"
  by (cases ps rule: remdups_adj.cases) (auto simp: separate_reviews_def)

theorem independent_batch_iff:
  "(\<exists>a. assess_batch P batch minimum = Inr a) \<longleftrightarrow>
     minimum \<le> int (length batch) \<and> (\<forall>p \<in> set batch. \<not> rp_prior_verdicts_visible p) \<and>
     distinct (map (cx_profile_hash P) batch) \<and>
     distinct (map (\<lambda>p. (rp_model_family p, rp_reviewer_mandate p)) batch) \<and>
     distinct (map (\<lambda>p. (rp_model_family p, rp_evidence_ordering_profile p)) batch)"
proof -
  have "list_all (\<lambda>(_, ps). separate_reviews ps) (foldl (group_append rp_model_family) [] batch) \<longleftrightarrow>
      (\<forall>k. separate_reviews (List.filter (\<lambda>p. rp_model_family p = k) batch))"
  proof -
    have "separate_reviews (List.filter (\<lambda>p. rp_model_family p = k) batch)" if "k \<notin> rp_model_family ` set batch" for k
    proof -
      have "List.filter (\<lambda>p. rp_model_family p = k) batch = []" using that by (auto simp: filter_empty_conv)
      then show ?thesis by (simp add: separate_reviews_def)
    qed
    then show ?thesis unfolding list_all_iff grouped by blast
  qed
  also have "\<dots> \<longleftrightarrow> distinct (map (\<lambda>p. (rp_model_family p, rp_reviewer_mandate p)) batch) \<and>
      distinct (map (\<lambda>p. (rp_model_family p, rp_evidence_ordering_profile p)) batch)"
    unfolding separate_reviews_iff distinct_within_groups [symmetric] by blast
  finally show ?thesis
    by (auto simp: assess_batch_def rbind_eq_Inr Let_def list_ex_iff)
qed

section \<open>A sample compilation\<close>

definition sample_context_params :: context_params where
  "sample_context_params = \<lparr>cx_manifest_hash = mf_id, cx_hash_text = (\<lambda>s. s), cx_dumps = (\<lambda>_. ''prompt''),
     cx_loads = (\<lambda>_. None), cx_dump_contract = (\<lambda>_. []), cx_dump_memory = (\<lambda>_. []),
     cx_dump_tool = (\<lambda>_. []), cx_profile_hash = rp_reviewer_mandate\<rparr>"

definition sample_route :: "string \<Rightarrow> string \<Rightarrow> sensitivity \<Rightarrow> provider_route" where
  "sample_route i domain clearance =
     \<lparr>pr_id = i, pr_provider_class = ''api'', pr_provider_id = ''p'', pr_endpoint_id = ''e'', pr_key_pool_id = ''k'',
      pr_adapter = OpenAIChat,
      pr_base_url = \<lparr>url_scheme = ''https'', url_host = Some ''api.example'', url_text = ''https://api.example''\<rparr>,
      pr_allowed_hosts = [''api.example''], pr_model = ''m'', pr_claimed_model_name = ''m'', pr_model_family = ''f'',
      pr_model_version = None, pr_identity_assurance = UnknownIdentity, pr_upstream_correlation_domain = domain,
      pr_egress_clearance = clearance, pr_retention_known = True, pr_may_train_on_prompts = None,
      pr_license_approved = True, pr_sealed_evaluator_approved = False, pr_last_capability_benchmark_at = None,
      pr_behavioral_drift_detected_at = None, pr_health = Healthy,
      pr_capabilities = \<lparr>rc_context_window = 8000, rc_max_output_tokens = 1000, rc_reasoning_efforts = [],
        rc_tools_supported = False, rc_streaming_supported = False, rc_continuation_supported = False,
        rc_timeout_seconds = 30, rc_rate_limit_per_minute = None\<rparr>,
      pr_pricing = sample_plan, pr_quality_floor = 0, pr_reliability_floor = 0,
      pr_observed_semantic_acceptance = 1, pr_observed_reliability = 1, pr_expected_rework_usd = 0,
      pr_task_metrics = []\<rparr>"

definition sample_infer_request :: inference_request where
  "sample_infer_request =
     \<lparr>iq_id = ''q'', iq_semantic_task_id = ''task'', iq_task_class = ''review'', iq_criticality = NormalCriticality,
      iq_why_llm_needed = ''why'', iq_expected_artifact_schema = [(''type'', JStr ''object'')],
      iq_expected_decision_impact = ''impact'', iq_preferred_reasoning_effort = ''standard'',
      iq_idempotency_key = ''0123456789abcdef'', iq_allowed_provider_classes = [], iq_fallback_policy_id = ''none'',
      iq_max_call_cost_usd = None, iq_max_total_attempt_cost_usd = None, iq_max_latency_sec = None,
      iq_min_semantic_acceptance = 0, iq_min_reliability = 0, iq_routing_benchmark_id = None,
      iq_requires_tools = False, iq_parent_run_id = None, iq_campaign_id = None, iq_branch_id = None,
      iq_exploratory = False\<rparr>"

definition sample_contract :: task_contract where
  "sample_contract =
     \<lparr>tc_agent_run_id = ''run'', tc_role = ''reviewer'', tc_question = ''?'', tc_decision_authority = [],
      tc_input_evidence_ids = [], tc_required_evidence_classes = [], tc_forbidden_evidence_classes = [],
      tc_allowed_tools = [], tc_expected_artifact_schema = [(''type'', JStr ''object'')],
      tc_success_condition = ''ok'', tc_stop_condition = ''stop'', tc_max_inference_budget = [],
      tc_max_tool_budget = [], tc_independence_group_id = None, tc_parent_run_id = None\<rparr>"

definition sample_evidence :: "string \<Rightarrow> sensitivity \<Rightarrow> evidence_item" where
  "sample_evidence i c =
     \<lparr>ev_id = i, ev_class = ''price'', ev_classification = c, ev_retrieval_status = Retrieved,
      ev_content = Some ''bars'', ev_content_hash = None, ev_material = True,
      ev_license_allows_external_egress = True, ev_canonical_source_id = None, ev_summary_source_ids = [],
      ev_relevance_reason = None\<rparr>"

definition sample_memory :: "sensitivity \<Rightarrow> memory_item" where
  "sample_memory c =
     \<lparr>mm_id = ''mem'', mm_claim = ''claim'', mm_claim_type = ''fact'', mm_source_evidence_ids = [''e''],
      mm_confidence_state = Replicated, mm_market_scope = [], mm_regime_scope = [], mm_mechanism_scope = [],
      mm_created_at = Aware 0 0, mm_last_revalidated_at = None, mm_policy_version = ''1'', mm_classification = c,
      mm_license_allows_external_egress = True, mm_contamination_tags = [], mm_known_counterevidence_ids = [],
      mm_supersedes = []\<rparr>"

definition sample_call :: "evidence_item list \<Rightarrow> memory_item list \<Rightarrow> compile_call" where
  "sample_call items memories =
     \<lparr>cl_evidence = items, cl_required_classes = [], cl_retrieval_version = ''1'', cl_retrieval_query = ''query'',
      cl_tools = [], cl_addressable = [], cl_memories = memories, cl_token_budget = 12000, cl_manifest_id = ''man'',
      cl_now = Aware 0 0\<rparr>"

abbreviation sample_items :: "evidence_item list" where
  "sample_items \<equiv> [sample_evidence ''e1'' Internal, sample_evidence ''e2'' Secret]"

lemma sample_evidence_simps [simp]:
  "ev_id (sample_evidence i c) = i" "ev_class (sample_evidence i c) = ''price''"
  "ev_classification (sample_evidence i c) = c" "ev_retrieval_status (sample_evidence i c) = Retrieved"
  "ev_license_allows_external_egress (sample_evidence i c) = True" "ev_summary_source_ids (sample_evidence i c) = []"
  "estimated_tokens (sample_evidence i c) = 1"
  by (simp_all add: sample_evidence_def estimated_tokens_def)

lemma sample_screened:
  "select_evidence sample_contract (sample_route ''a'' ''d'' Confidential) [] False 12000 sample_items =
     \<lparr>se_included = [sample_evidence ''e1'' Internal], se_excluded = [(''e2'', ''secret_never_in_prompt'')],
      se_truncation = [], se_consumed = 1\<rparr>"
proof -
  have "select_item sample_contract (sample_route ''a'' ''d'' Confidential) [] False 12000 empty_selection
      (sample_evidence ''e1'' Internal) = \<lparr>se_included = [sample_evidence ''e1'' Internal], se_excluded = [],
      se_truncation = [], se_consumed = 1\<rparr>"
    by (simp add: select_item_def in_prompt_rank_def sample_contract_def sample_route_def empty_selection_def)
  moreover have "select_item sample_contract (sample_route ''a'' ''d'' Confidential) [] False 12000 s
      (sample_evidence ''e2'' Secret) = exclude (sample_evidence ''e2'' Secret) ''secret_never_in_prompt'' s" for s
    by (simp add: select_item_def sample_contract_def)
  ultimately show ?thesis by (simp add: select_evidence_def exclude_def)
qed

lemma sample_inputs_ok:
  "exposed_tools sample_contract [] = []"
  "check_inputs sample_infer_request sample_contract (sample_route i d c) sample_items [] [] 12000 = Inr ()"
  "required_classes sample_infer_request sample_contract [] = []"
  "addressable_ids sample_contract (sample_route i d c) [] False items = []"
  "gaps sample_contract sample_items [] [''e1''] [sample_evidence ''e1'' Internal] = []"
  by (simp_all add: check_inputs_def exposed_tools_def side_effecting_def sample_contract_def sample_infer_request_def
      sample_route_def required_classes_def addressable_ids_def gaps_def missing_classes_def missing_inputs_def
      unresolved_classes_def unavailable_classes_def inaccessible_material_def summary_only_def)

lemma sample_recalled:
  "retrieve_memory [sample_memory Confidential] (iq_task_class sample_infer_request) (tc_role sample_contract) []
     (tc_independence_group_id sample_contract \<noteq> None) [] [] None None = Inr [sample_memory Confidential]"
  "firewall_exclusions [sample_memory Confidential] [sample_memory Confidential] = []"
  "screen_memory (sample_route i d Confidential) ([], []) (sample_memory Confidential) = ([sample_memory Confidential], [])"
  by (simp_all add: retrieve_memory_def memory_admitted_def memory_expired_def disjoint_scope_def firewall_exclusions_def
      in_prompt_rank_def sample_memory_def sample_infer_request_def sample_contract_def sample_route_def)

definition sample_manifest :: context_manifest where
  "sample_manifest = (evidence_manifest sample_context_params sample_infer_request sample_contract
     (sample_route ''a'' ''d'' Confidential) (sample_call sample_items [sample_memory Confidential]) []
     \<lparr>se_included = [sample_evidence ''e1'' Internal], se_excluded = [(''e2'', ''secret_never_in_prompt'')],
      se_truncation = [], se_consumed = 1\<rparr> [] [])
     \<lparr>mf_included_memory_ids := [''mem''], mf_candidate_memory_ids := [''mem''], mf_excluded_memory := []\<rparr>"

lemma sample_manifest_simps:
  "mf_included_evidence_ids sample_manifest = [''e1'']" "mf_included_memory_ids sample_manifest = [''mem'']"
  "mf_egress_decision sample_manifest = \<lparr>eg_route_id = ''a'', eg_clearance = Confidential, eg_highest_rank = 1,
      eg_retention_known = True, eg_may_train_on_prompts = None, eg_route_license_approved = True,
      eg_excluded_count = 1\<rparr>"
  "mf_completeness_status sample_manifest = CompleteForContract"
  by (simp_all add: sample_manifest_def evidence_manifest_def Let_def accessible_items_def highest_rank_def
      completeness_def sample_call_def sample_route_def)

definition sample_context :: compiled_context where
  "sample_context = \<lparr>cc_system_prompt = system_prompt, cc_user_prompt = ''prompt'', cc_manifest = sample_manifest,
     cc_tool_capabilities = []\<rparr>"

lemma sample_compiled:
  "compile_context sample_context_params sample_infer_request sample_contract (sample_route ''a'' ''d'' Confidential)
     (sample_call sample_items [sample_memory Confidential]) = Inr sample_context"
proof -
  have cl: "cl_evidence (sample_call sample_items [sample_memory Confidential]) = sample_items"
    "cl_tools (sample_call sample_items [sample_memory Confidential]) = []"
    "cl_addressable (sample_call sample_items [sample_memory Confidential]) = []"
    "cl_token_budget (sample_call sample_items [sample_memory Confidential]) = 12000"
    "cl_required_classes (sample_call sample_items [sample_memory Confidential]) = []"
    "cl_memories (sample_call sample_items [sample_memory Confidential]) = [sample_memory Confidential]"
    by (simp_all add: sample_call_def)
  have prompt: "mm_id (sample_memory c) = ''mem''" "cx_dumps sample_context_params j = ''prompt''" for c j
    by (simp_all add: sample_memory_def sample_context_params_def)
  have crit: "iq_criticality sample_infer_request \<noteq> CriticalCriticality" by (simp add: sample_infer_request_def)
  show ?thesis
    using crit
    by (simp add: compile_context_def cl sample_inputs_ok sample_screened sample_recalled Let_def evidence_manifest_def
        completeness_def render_context_def sample_context_def sample_manifest_def prompt
        del: not_None_eq screen_memory.simps)
qed

theorem compile_egress_witness:
  "\<exists>(c :: compiled_context) included (memory :: memory_item list). mf_included_evidence_ids (cc_manifest c) = map ev_id included \<and>
     mf_included_memory_ids (cc_manifest c) = map mm_id memory \<and> included \<noteq> [] \<and> memory \<noteq> [] \<and>
     set included \<subseteq> {i. may_leave sample_contract (sample_route ''a'' ''d'' Confidential) i}"
proof -
  from compile_egress [OF sample_compiled] obtain included and memory :: "memory_item list" where
    ids: "mf_included_evidence_ids (cc_manifest sample_context) = map ev_id included"
      "mf_included_memory_ids (cc_manifest sample_context) = map mm_id memory"
    and leave: "set included \<subseteq> {i \<in> set (cl_evidence (sample_call sample_items [sample_memory Confidential])).
      may_leave sample_contract (sample_route ''a'' ''d'' Confidential) i}"
    by blast
  have "included \<noteq> []" "memory \<noteq> []"
    using ids sample_manifest_simps(1,2) by (auto simp: sample_context_def)
  with ids leave show ?thesis by blast
qed

end
