(* ===== verification/InferStore.thy ===== *)
theory InferStore
  imports InferTypes
begin

text \<open>
  The Postgres backend of the inference broker: \<open>PostgresInferenceBackend\<close> of
  \<open>liki/inference_service.py\<close> over the tables of \<open>migrations/006_inference.sql\<close> and the event
  store. Every operation is one transaction under the advisory lock: a function from the
  tables to an error, which rolls back, or a result with the new tables. A \<open>CHECK\<close> or key a
  statement can violate is an \<open>IntegrityError\<close>. Columns that only mirror the stored JSON of an
  attempt and that no operation reads are not kept. \<open>now\<close> is the clock, in microseconds.
\<close>

section \<open>Tables\<close>

datatype request_status = Admitted | Attempting | Accepted | Useful | Asleep

fun request_status_name :: "request_status \<Rightarrow> string" where
  "request_status_name Admitted = ''ADMITTED''"
| "request_status_name Attempting = ''ATTEMPTING''"
| "request_status_name Accepted = ''SEMANTIC_ACCEPTED''"
| "request_status_name Useful = ''DECISION_USEFUL''"
| "request_status_name Asleep = ''HIBERNATED''"

record request_row =
  rw_request :: inference_request
  rw_request_hash :: string
  rw_manifest_hash :: string
  rw_status :: request_status
  rw_completed_attempt :: "string option"
  rw_final_artifact :: "string option"
  rw_failure_reason :: "string option"
  rw_reserved :: rat
  rw_accrued :: rat
  rw_completed_at :: "int option"

record attempt_row =
  at_request :: string
  at_no :: nat
  at_fence :: nat
  at_until :: int
  at_status :: attempt_status
  at_total :: rat
  at_artifact :: "string option"
  at_json :: inference_attempt

record circuit =
  ck_failures :: int
  ck_open :: bool

record 'h idb =
  db_store :: "'h store"
  db_requests :: "(string \<times> request_row) list"
  db_manifests :: "(string \<times> string) list"
  db_attempts :: "(string \<times> attempt_row) list"
  db_circuits :: "(string \<times> circuit) list"

text \<open>
  Hashes and texts: of a request without its identifier, of a payload, of a reason, the
  decimal text of an amount, the JSON and the hash of a manifest; and the configured routes.
\<close>

record 'h infer_params =
  ip_hashing :: "'h hashing"
  ip_request_hash :: "inference_request \<Rightarrow> string"
  ip_payload_hash :: "jobj \<Rightarrow> string"
  ip_text_hash :: "string \<Rightarrow> string"
  ip_decimal :: "rat \<Rightarrow> string"
  ip_dump_manifest :: "context_manifest \<Rightarrow> jobj"
  ip_manifest_hash :: "context_manifest \<Rightarrow> string"
  ip_routes :: "(string \<times> provider_route) list"

section \<open>Events\<close>

definition request_state :: "'h infer_params \<Rightarrow> string \<Rightarrow> request_row \<Rightarrow> jobj" where
  "request_state P i row =
     [(''accrued_cost_usd'', JStr (ip_decimal P (rw_accrued row))),
      (''completed_attempt_id'', json_option (rw_completed_attempt row)),
      (''context_manifest_hash'', JStr (rw_manifest_hash row)),
      (''failure_reason'', json_option (rw_failure_reason row)),
      (''final_artifact_id'', json_option (rw_final_artifact row)),
      (''inference_request_id'', JStr i),
      (''reserved_cost_usd'', JStr (ip_decimal P (rw_reserved row))),
      (''semantic_task_id'', JStr (iq_semantic_task_id (rw_request row))),
      (''status'', JStr (request_status_name (rw_status row)))]"

definition infer_event ::
  "'h infer_params \<Rightarrow> identity \<Rightarrow> string \<Rightarrow> string \<Rightarrow> string \<Rightarrow> jobj \<Rightarrow> string \<Rightarrow> string \<Rightarrow> jobj \<Rightarrow> string list \<Rightarrow> fresh \<Rightarrow>
   'h idb \<Rightarrow> 'h idb result" where
  "infer_event P actor kind i task_id state event key metadata artifacts fr db =
     rbind (transition (ip_hashing P) actor ''inference''
              \<lparr>rq_kind = kind, rq_id = i, rq_expected_version = current_version (db_store db) kind i,
               rq_state = state, rq_event_type = event, rq_actor = id_principal actor, rq_task_id = task_id,
               rq_policy_version = ''inference-broker-v1'', rq_evidence = [], rq_artifacts = artifacts,
               rq_metadata = metadata\<rparr> key None fr (db_store db)) (\<lambda>(_, st).
     Inr (db\<lparr>db_store := st\<rparr>))"

text \<open>\<open>_transition\<close>: an event of one request.\<close>

definition request_event ::
  "'h infer_params \<Rightarrow> identity \<Rightarrow> string \<Rightarrow> request_row \<Rightarrow> jobj \<Rightarrow> string \<Rightarrow> string \<Rightarrow> jobj \<Rightarrow> string list \<Rightarrow> fresh \<Rightarrow>
   'h idb \<Rightarrow> 'h idb result" where
  "request_event P actor i row state event key metadata artifacts fr db =
     infer_event P actor ''inference_request'' i (iq_semantic_task_id (rw_request row)) state event key metadata
       artifacts fr db"

definition require_inference :: "identity \<Rightarrow> unit result" where
  "require_inference actor = require_capability actor ''inference''"

definition set_request :: "string \<Rightarrow> request_row \<Rightarrow> 'h idb \<Rightarrow> 'h idb" where
  "set_request i row db = db\<lparr>db_requests := dict_set i row (db_requests db)\<rparr>"

definition set_attempt :: "string \<Rightarrow> attempt_row \<Rightarrow> 'h idb \<Rightarrow> 'h idb" where
  "set_attempt i row db = db\<lparr>db_attempts := dict_set i row (db_attempts db)\<rparr>"

definition attempts_of :: "string \<Rightarrow> 'h idb \<Rightarrow> attempt_row list" where
  "attempts_of i db = List.filter (\<lambda>a. at_request a = i) (map snd (db_attempts db))"

text \<open>\<open>COALESCE(MAX(x), 0)\<close>.\<close>

definition max_of :: "('a \<Rightarrow> nat) \<Rightarrow> 'a list \<Rightarrow> nat" where
  "max_of f xs = foldl max 0 (map f xs)"

section \<open>Requests\<close>

definition create_or_get ::
  "'h infer_params \<Rightarrow> identity \<Rightarrow> inference_request \<Rightarrow> context_manifest \<Rightarrow> fresh \<Rightarrow> 'h idb \<Rightarrow>
   (inference_request \<times> 'h idb) result" where
  "create_or_get P actor req manifest fr db =
     rbind (require_inference actor) (\<lambda>_.
     case List.find (\<lambda>(_, r). iq_idempotency_key (rw_request r) = iq_idempotency_key req) (db_requests db) of
       Some (_, current) \<Rightarrow>
         if rw_request_hash current \<noteq> ip_request_hash P req
            \<or> rw_manifest_hash current \<noteq> ip_manifest_hash P manifest
         then Inl (IdempotencyConflict ''idempotency key is bound to different request content or context'')
         else Inr (rw_request current, db)
     | None \<Rightarrow>
         rbind (put_artifact (ip_hashing P) actor (ip_dump_manifest P manifest) ''inference/context-manifest-v1''
                  ''INTERNAL'' ''inference-broker-v1'' fr (db_store db)) (\<lambda>(artifact, st).
         let row = \<lparr>rw_request = req, rw_request_hash = ip_request_hash P req,
                    rw_manifest_hash = ip_manifest_hash P manifest, rw_status = Admitted,
                    rw_completed_attempt = None, rw_final_artifact = None, rw_failure_reason = None,
                    rw_reserved = 0, rw_accrued = 0, rw_completed_at = None\<rparr> in
         rbind (request_event P actor (iq_id req) row (request_state P (iq_id req) row) ''INFERENCE_ADMITTED''
                  (''inference-admit:'' @ iq_idempotency_key req)
                  [(''manifest_hash'', JStr (ip_manifest_hash P manifest))] [artifact] fr
                  (db\<lparr>db_store := st\<rparr>)) (\<lambda>db1.
         rbind (require (dict_get (db_requests db1) (iq_id req) = None) (IntegrityError ''inference_requests_pkey'')) (\<lambda>_.
         rbind (require (dict_get (db_manifests db1) (mf_id manifest) = None
                         \<and> iq_id req \<notin> set (map snd (db_manifests db1)))
                  (IntegrityError ''context_manifests'')) (\<lambda>_.
         Inr (req, db1\<lparr>db_requests := db_requests db1 @ [(iq_id req, row)],
                       db_manifests := db_manifests db1 @ [(mf_id manifest, iq_id req)]\<rparr>))))))"

definition completed_result ::
  "identity \<Rightarrow> string \<Rightarrow> 'h idb \<Rightarrow> inference_result option result" where
  "completed_result actor i db =
     rbind (require_inference actor) (\<lambda>_.
     case dict_get (db_requests db) i of
       None \<Rightarrow> Inr None
     | Some r \<Rightarrow>
         (case rw_completed_attempt r of
            None \<Rightarrow> Inr None
          | Some k \<Rightarrow>
              (case dict_get (db_attempts db) k of
                 None \<Rightarrow> Inr None
               | Some a \<Rightarrow>
                   rbind (mk_inference_attempt (at_json a)) (\<lambda>x.
                   Inr (Some \<lparr>ir_request_id = i, ir_status = ia_status x, ir_artifact = ia_output_artifact x,
                              ir_failure_reason = None, ir_route_id = Some (ia_route_id x)\<rparr>)))))"

definition get_request :: "string \<Rightarrow> 'h idb \<Rightarrow> request_row result" where
  "get_request i db =
     (case dict_get (db_requests db) i of None \<Rightarrow> Inl (ValueError ''unknown inference request'') | Some r \<Rightarrow> Inr r)"

text \<open>The attempt row of a request, as the queries by both identifiers find it.\<close>

definition get_both :: "string \<Rightarrow> string \<Rightarrow> 'h idb \<Rightarrow> (request_row \<times> attempt_row) option" where
  "get_both i k db =
     (case (dict_get (db_requests db) i, dict_get (db_attempts db) k) of
        (Some r, Some a) \<Rightarrow> if at_request a = i then Some (r, a) else None
      | _ \<Rightarrow> None)"

section \<open>Attempts\<close>

definition new_attempt ::
  "string \<Rightarrow> request_row \<Rightarrow> provider_route \<Rightarrow> string \<Rightarrow> nat \<Rightarrow> nat \<Rightarrow> string \<Rightarrow> int \<Rightarrow> inference_attempt" where
  "new_attempt i r route route_id no fence k started =
     \<lparr>ia_attempt_id = k, ia_request_id = i, ia_attempt_no = no, ia_route_id = route_id,
      ia_provider_request_id = None, ia_lease_fence = fence, ia_model_family = pr_model_family route,
      ia_model_version = pr_model_version route,
      ia_correlation_domain = Some (pr_upstream_correlation_domain route),
      ia_reasoning_effort = iq_preferred_reasoning_effort (rw_request r),
      ia_prompt_manifest_hash = rw_manifest_hash r, ia_system_prompt_hash = None, ia_task_prompt_hash = None,
      ia_tool_schema_hash = None, ia_sampling_parameters = [], ia_started_at = started, ia_completed_at = None,
      ia_status = Created, ia_http_status = None, ia_error_class = None, ia_usage = default_usage,
      ia_pricing_plan_id = Some (pp_price_plan_id (pr_pricing route)), ia_fixed_call_cost_usd = None,
      ia_token_cost_usd = None, ia_billed_tokens = None, ia_provider_reported_model = None,
      ia_provider_reported_cost_usd = None, ia_total_cost_usd = 0, ia_latency_ms = None,
      ia_output_artifact = None, ia_response_hash = None\<rparr>"

definition claim_attempt ::
  "'h infer_params \<Rightarrow> identity \<Rightarrow> string \<Rightarrow> string \<Rightarrow> int \<Rightarrow> string \<Rightarrow> int \<Rightarrow> fresh \<Rightarrow> 'h idb \<Rightarrow>
   (inference_attempt \<times> 'h idb) result" where
  "claim_attempt P actor i route_id lease k now fr db =
     rbind (require (\<not> lease \<le> 0) (ValueError ''attempt lease must be positive'')) (\<lambda>_.
     case dict_get (ip_routes P) route_id of
       None \<Rightarrow> Inl (ValueError ''unregistered inference route'')
     | Some route \<Rightarrow>
         rbind (require_inference actor) (\<lambda>_.
         rbind (get_request i db) (\<lambda>r.
         rbind (require (\<not> truthy (rw_completed_attempt r))
                  (ConcurrentModification ''semantic request already completed'')) (\<lambda>_.
         rbind (require (\<not> list_ex (\<lambda>a. at_status a = Created \<and> now < at_until a) (attempts_of i db))
                  (ConcurrentModification ''inference request has an active lease'')) (\<lambda>_.
         let no = max_of at_no (attempts_of i db) + 1; fence = max_of at_fence (attempts_of i db) + 1;
             attempt = new_attempt i r route route_id no fence k now;
             state = jset ''active_attempt_id'' (JStr k) (jset ''status'' (JStr ''ATTEMPTING'') (request_state P i r))
         in
         rbind (request_event P actor i r state ''INFERENCE_ATTEMPT_CLAIMED'' (''inference-claim:'' @ k)
                  [(''lease_fence'', JNum (of_nat fence)), (''route_id'', JStr route_id)] [] fr db) (\<lambda>db1.
         rbind (require (dict_get (db_attempts db1) k = None) (IntegrityError ''inference_attempts_pkey'')) (\<lambda>_.
         Inr (attempt, set_request i (r\<lparr>rw_status := Attempting\<rparr>)
           (db1\<lparr>db_attempts := db_attempts db1 @
             [(k, \<lparr>at_request = i, at_no = no, at_fence = fence, at_until = now + lease, at_status = Created,
                   at_total = 0, at_artifact = None, at_json = attempt\<rparr>)]\<rparr>)))))))))"

definition check_amounts :: "rat list \<Rightarrow> unit result" where
  "check_amounts xs = require (\<forall>x \<in> set xs. 0 \<le> x) (IntegrityError ''amount is negative'')"

definition reserve_cost ::
  "'h infer_params \<Rightarrow> identity \<Rightarrow> string \<Rightarrow> string \<Rightarrow> rat \<Rightarrow> fresh \<Rightarrow> 'h idb \<Rightarrow> (bool \<times> 'h idb) result" where
  "reserve_cost P actor i k amount fr db =
     rbind (require (\<not> amount < 0) (ValueError ''cost reservation cannot be negative'')) (\<lambda>_.
     rbind (require_inference actor) (\<lambda>_.
     case get_both i k db of
       None \<Rightarrow> Inl (ValueError ''unknown inference request or attempt'')
     | Some (r, a) \<Rightarrow>
         if at_status a \<noteq> Created then Inr (False, db)
         else
           let reserved = dadd (dsub (rw_reserved r) (at_total a)) amount in
           if (case iq_max_total_attempt_cost_usd (rw_request r) of None \<Rightarrow> False
               | Some limit \<Rightarrow> limit < dadd (rw_accrued r) reserved)
           then Inr (False, db)
           else
             rbind (request_event P actor i r
                      (jset ''reserved_cost_usd'' (JStr (ip_decimal P reserved)) (request_state P i r))
                      ''INFERENCE_COST_RESERVED'' (''inference-reserve:'' @ k)
                      [(''amount_usd'', JStr (ip_decimal P amount))] [] fr db) (\<lambda>db1.
             rbind (check_amounts [reserved, amount]) (\<lambda>_.
             Inr (True, set_attempt k (a\<lparr>at_total := amount\<rparr>)
                          (set_request i (r\<lparr>rw_reserved := reserved\<rparr>) db1))))))"

definition late_result :: "inference_attempt \<Rightarrow> inference_attempt" where
  "late_result x = x\<lparr>ia_status := Hibernated, ia_error_class := Some ''late_result_deduplicated'',
     ia_output_artifact := None\<rparr>"

definition is_stale :: "request_row \<Rightarrow> attempt_row \<Rightarrow> nat \<Rightarrow> int \<Rightarrow> inference_attempt \<Rightarrow> bool" where
  "is_stale r a newest now x \<longleftrightarrow>
     at_fence a \<noteq> ia_lease_fence x \<or> newest \<noteq> ia_lease_fence x \<or> at_until a \<le> now \<or>
     (truthy (rw_completed_attempt r) \<and> accepted_status (ia_status x))"

definition store_output ::
  "'h infer_params \<Rightarrow> identity \<Rightarrow> inference_attempt \<Rightarrow> fresh \<Rightarrow> 'h idb \<Rightarrow> (string option \<times> 'h idb) result" where
  "store_output P actor x fr db =
     (case ia_output_artifact x of
        None \<Rightarrow> Inr (None, db)
      | Some output \<Rightarrow>
          rbind (put_artifact (ip_hashing P) actor
                   [(''artifact'', JObj output), (''attempt_id'', JStr (ia_attempt_id x))]
                   ''inference/response-artifact-v1'' ''INTERNAL'' ''inference-broker-v1'' fr (db_store db))
            (\<lambda>(artifact, st). Inr (Some artifact, db\<lparr>db_store := st\<rparr>)))"

text \<open>The request after an attempt finished; \<open>x\<close> is the attempt as persisted.\<close>

definition finished_request ::
  "request_row \<Rightarrow> attempt_row \<Rightarrow> inference_attempt \<Rightarrow> string option \<Rightarrow> int \<Rightarrow> request_row" where
  "finished_request r a x artifact now =
     (let r1 = r\<lparr>rw_reserved := dsub (rw_reserved r) (at_total a),
                 rw_accrued := dadd (rw_accrued r) (ia_total_cost_usd x)\<rparr>
      in if accepted_status (ia_status x)
         then r1\<lparr>rw_status := (if ia_status x = DecisionUseful then Useful else Accepted),
                 rw_completed_attempt := Some (ia_attempt_id x), rw_final_artifact := artifact,
                 rw_completed_at := Some now\<rparr>
         else r1)"

definition finish_attempt ::
  "'h infer_params \<Rightarrow> identity \<Rightarrow> inference_attempt \<Rightarrow> int \<Rightarrow> fresh \<Rightarrow> 'h idb \<Rightarrow> (bool \<times> 'h idb) result" where
  "finish_attempt P actor x now fr db =
     rbind (require_inference actor) (\<lambda>_.
     case (dict_get (db_requests db) (ia_request_id x), dict_get (db_attempts db) (ia_attempt_id x)) of
       (Some r, Some a) \<Rightarrow>
         let i = ia_request_id x; k = ia_attempt_id x;
             stale = is_stale r a (max_of at_fence (attempts_of i db)) now x;
             persisted = (if stale then late_result x else x)
         in
         rbind (store_output P actor persisted fr db) (\<lambda>(artifact, db1).
         let r' = finished_request r a persisted artifact now in
         rbind (request_event P actor i r (request_state P i r')
                  (if stale then ''INFERENCE_LATE_RESULT_DEDUPLICATED'' else ''INFERENCE_ATTEMPT_FINISHED'')
                  (''inference-finish:'' @ k) []
                  (case artifact of None \<Rightarrow> [] | Some f \<Rightarrow> [f]) fr db1) (\<lambda>db2.
         rbind (check_amounts [rw_reserved r', rw_accrued r', ia_total_cost_usd persisted]) (\<lambda>_.
         Inr (\<not> stale, set_request i r'
           (set_attempt k (a\<lparr>at_status := ia_status persisted, at_total := ia_total_cost_usd persisted,
              at_artifact := artifact, at_json := persisted\<rparr>) db2)))))
     | _ \<Rightarrow> Inr (False, db))"

section \<open>Notes, hibernation and revival\<close>

definition note_event ::
  "'h infer_params \<Rightarrow> identity \<Rightarrow> string \<Rightarrow> string \<Rightarrow> jobj \<Rightarrow> fresh \<Rightarrow> 'h idb \<Rightarrow> 'h idb result" where
  "note_event P actor i event payload fr db =
     rbind (require_inference actor) (\<lambda>_.
     rbind (get_request i db) (\<lambda>r.
     request_event P actor i r (request_state P i r) event
       (''inference-note:'' @ i @ '':'' @ event @ '':'' @ ip_payload_hash P payload) payload [] fr db))"

definition hibernate ::
  "'h infer_params \<Rightarrow> identity \<Rightarrow> string \<Rightarrow> string \<Rightarrow> fresh \<Rightarrow> 'h idb \<Rightarrow> 'h idb result" where
  "hibernate P actor i reason fr db =
     rbind (require (strip reason \<noteq> []) (ValueError ''a hibernation reason is required'')) (\<lambda>_.
     rbind (require_inference actor) (\<lambda>_.
     rbind (get_request i db) (\<lambda>r.
     if truthy (rw_completed_attempt r) then Inr db
     else let r' = r\<lparr>rw_status := Asleep, rw_failure_reason := Some reason\<rparr> in
       rbind (request_event P actor i r (request_state P i r') ''INFERENCE_HIBERNATED''
                (''inference-hibernate:'' @ i @ '':'' @ ip_text_hash P reason) [(''reason'', JStr reason)] [] fr db) (\<lambda>db1.
       Inr (set_request i r' db1)))))"

definition revive ::
  "'h infer_params \<Rightarrow> identity \<Rightarrow> string \<Rightarrow> string \<Rightarrow> fresh \<Rightarrow> 'h idb \<Rightarrow> (bool \<times> 'h idb) result" where
  "revive P actor i reason fr db =
     rbind (require (strip reason \<noteq> []) (ValueError ''a revival reason is required'')) (\<lambda>_.
     rbind (require_inference actor) (\<lambda>_.
     rbind (get_request i db) (\<lambda>r.
     if rw_status r \<noteq> Asleep \<or> truthy (rw_completed_attempt r) then Inr (False, db)
     else let r' = r\<lparr>rw_status := Admitted, rw_failure_reason := None\<rparr> in
       rbind (request_event P actor i r (request_state P i r') ''INFERENCE_REVIVED''
                (''inference-revive:'' @ i @ '':'' @ ip_text_hash P reason) [(''reason'', JStr reason)] [] fr db) (\<lambda>db1.
       Inr (True, set_request i r' db1)))))"

section \<open>Route circuits\<close>

definition circuit_is_open :: "identity \<Rightarrow> string \<Rightarrow> 'h idb \<Rightarrow> bool result" where
  "circuit_is_open actor route_id db =
     rbind (require_inference actor) (\<lambda>_.
     Inr (case dict_get (db_circuits db) route_id of None \<Rightarrow> False | Some c \<Rightarrow> ck_open c))"

definition circuit_state :: "string \<Rightarrow> circuit \<Rightarrow> jobj" where
  "circuit_state route_id c =
     [(''consecutive_failures'', JNum (of_int (ck_failures c))), (''is_open'', JBool (ck_open c)),
      (''provider_route_id'', JStr route_id)]"

definition record_route_outcome ::
  "'h infer_params \<Rightarrow> identity \<Rightarrow> string \<Rightarrow> bool \<Rightarrow> int \<Rightarrow> fresh \<Rightarrow> 'h idb \<Rightarrow> 'h idb result" where
  "record_route_outcome P actor route_id succeeded threshold fr db =
     rbind (require (\<not> threshold \<le> 0) (ValueError ''circuit failure threshold must be positive'')) (\<lambda>_.
     rbind (require_inference actor) (\<lambda>_.
     let failures = (if succeeded then 0
                     else (case dict_get (db_circuits db) route_id of None \<Rightarrow> 0 | Some c \<Rightarrow> ck_failures c) + 1);
         c = \<lparr>ck_failures = failures, ck_open = (threshold \<le> failures)\<rparr>
     in
     rbind (infer_event P actor ''inference_route_circuit'' route_id route_id (circuit_state route_id c)
              ''INFERENCE_ROUTE_HEALTH_RECORDED''
              (''inference-circuit:'' @ route_id @ '':'' @
                 show_nat (current_version (db_store db) ''inference_route_circuit'' route_id + 1))
              [(''succeeded'', JBool succeeded)] [] fr db) (\<lambda>db1.
     Inr (db1\<lparr>db_circuits := dict_set route_id c (db_circuits db1)\<rparr>))))"

definition revive_route ::
  "'h infer_params \<Rightarrow> identity \<Rightarrow> string \<Rightarrow> string \<Rightarrow> fresh \<Rightarrow> 'h idb \<Rightarrow> (bool \<times> 'h idb) result" where
  "revive_route P actor route_id reason fr db =
     rbind (require (strip reason \<noteq> []) (ValueError ''a route revival reason is required'')) (\<lambda>_.
     rbind (require_inference actor) (\<lambda>_.
     case dict_get (db_circuits db) route_id of
       None \<Rightarrow> Inr (False, db)
     | Some c \<Rightarrow>
         if \<not> ck_open c then Inr (False, db)
         else
           rbind (require (dict_get (st_aggregates (db_store db)) (''inference_route_circuit'', route_id) \<noteq> None)
                    (DomainError ''INFERENCE_CIRCUIT_PROJECTION_MISSING'')) (\<lambda>_.
           let c' = \<lparr>ck_failures = 0, ck_open = False\<rparr> in
           rbind (infer_event P actor ''inference_route_circuit'' route_id route_id (circuit_state route_id c')
                    ''INFERENCE_ROUTE_REVIVED''
                    (''inference-circuit-revive:'' @ route_id @ '':'' @ ip_text_hash P reason)
                    [(''reason'', JStr reason)] [] fr db) (\<lambda>db1.
           Inr (True, db1\<lparr>db_circuits := dict_set route_id c' (db_circuits db1)\<rparr>)))))"

section \<open>Billing and usefulness\<close>

definition reconcile_attempt_cost ::
  "'h infer_params \<Rightarrow> identity \<Rightarrow> string \<Rightarrow> string \<Rightarrow> rat \<Rightarrow> fresh \<Rightarrow> 'h idb \<Rightarrow> (bool \<times> 'h idb) result" where
  "reconcile_attempt_cost P actor i k cost fr db =
     rbind (require (\<not> cost < 0) (ValueError ''provider cost cannot be negative'')) (\<lambda>_.
     rbind (require_inference actor) (\<lambda>_.
     case get_both i k db of
       None \<Rightarrow> Inl (ValueError ''unknown inference request or attempt'')
     | Some (r, a) \<Rightarrow>
         rbind (mk_inference_attempt (at_json a)) (\<lambda>x.
         rbind (require (ia_completed_at x \<noteq> None)
                  (ValueError ''cannot reconcile an unfinished inference attempt'')) (\<lambda>_.
         let x' = x\<lparr>ia_provider_reported_cost_usd := Some cost, ia_total_cost_usd := cost\<rparr>;
             matches = (ia_total_cost_usd x = cost);
             accrued = dadd (dsub (rw_accrued r) (ia_total_cost_usd x)) cost
         in
         rbind (request_event P actor i r
                  (jset ''accrued_cost_usd'' (JStr (ip_decimal P accrued)) (request_state P i r))
                  (if matches then ''INFERENCE_BILLING_RECONCILED'' else ''BILLING_RECONCILIATION_ERROR'')
                  (''inference-reconcile:'' @ k @ '':'' @ ip_decimal P cost)
                  [(''attempt_id'', JStr k), (''estimated_cost_usd'', JStr (ip_decimal P (ia_total_cost_usd x))),
                   (''provider_cost_usd'', JStr (ip_decimal P cost))] [] fr db) (\<lambda>db1.
         rbind (check_amounts [accrued, cost]) (\<lambda>_.
         Inr (matches, set_request i (r\<lparr>rw_accrued := accrued\<rparr>)
           (set_attempt k (a\<lparr>at_total := cost, at_json := x'\<rparr>) db1))))))))"

definition mark_decision_useful ::
  "'h infer_params \<Rightarrow> identity \<Rightarrow> string \<Rightarrow> string \<Rightarrow> string \<Rightarrow> fresh \<Rightarrow> 'h idb \<Rightarrow> (bool \<times> 'h idb) result" where
  "mark_decision_useful P actor i k reason fr db =
     rbind (require (strip reason \<noteq> []) (ValueError ''a useful-decision reason is required'')) (\<lambda>_.
     rbind (require_inference actor) (\<lambda>_.
     case get_both i k db of
       None \<Rightarrow> Inr (False, db)
     | Some (r, a) \<Rightarrow>
         if rw_completed_attempt r \<noteq> Some k then Inr (False, db)
         else
           rbind (mk_inference_attempt (at_json a)) (\<lambda>x.
           if ia_status x = DecisionUseful then Inr (True, db)
           else if ia_status x \<noteq> SemanticAccepted then Inr (False, db)
           else let r' = r\<lparr>rw_status := Useful\<rparr> in
             rbind (request_event P actor i r (request_state P i r') ''INFERENCE_DECISION_USEFUL''
                      (''inference-useful:'' @ k) [(''reason'', JStr reason)] [] fr db) (\<lambda>db1.
             Inr (True, set_request i r'
               (set_attempt k (a\<lparr>at_status := DecisionUseful, at_json := x\<lparr>ia_status := DecisionUseful\<rparr>\<rparr>) db1))))))"

section \<open>Provider credentials\<close>

definition is_alnum :: "char \<Rightarrow> bool" where
  "is_alnum c = (let n = (of_char c :: nat) in
     (48 \<le> n \<and> n \<le> 57) \<or> (65 \<le> n \<and> n \<le> 90) \<or> (97 \<le> n \<and> n \<le> 122))"

definition upper_char :: "char \<Rightarrow> char" where
  "upper_char c = (let n = (of_char c :: nat) in if 97 \<le> n \<and> n \<le> 122 then char_of (n - 32) else c)"

definition environment_key :: "string \<Rightarrow> string" where
  "environment_key pool =
     ''LIKI_INFERENCE_KEY_'' @ map (\<lambda>c. if is_alnum c then c else CHR ''_'') (map upper_char pool)"

text \<open>The \<open>ProviderTransportError\<close> of a missing secret is \<open>None\<close>.\<close>

definition resolve_credential ::
  "(string \<times> string) list \<Rightarrow> (string \<times> string) list \<Rightarrow> provider_route \<Rightarrow> string option" where
  "resolve_credential environment file route =
     (let found = dict_get environment (environment_key (pr_key_pool_id route));
          secret = (if truthy found then found else dict_get file (pr_key_pool_id route))
      in if truthy secret then secret else None)"

end
