(* ===== verification/InferProps.thy ===== *)
theory InferProps
  imports InferStore Contexts
begin

text \<open>
  Every history of the inference tables: the operations of \<open>InferStore\<close> by any number of
  brokers, interleaved in any order, together with the events other services append. The
  lemmas show that each operation is one of a few changes of the tables, that these keep the
  fences, leases, winners and amounts in order, and that what a request was answered with is
  final.
\<close>

section \<open>Histories\<close>

text \<open>
  A broker finishes a copy of an attempt it claimed, with a status that ends it. Identifiers
  are never empty. Any other service may append to the event store.
\<close>

definition ends_attempt :: "'h idb \<Rightarrow> inference_attempt \<Rightarrow> bool" where
  "ends_attempt db x \<longleftrightarrow>
     ia_status x \<in> {SemanticAccepted, RetryableFailure, NonretryableFailure, Hibernated} \<and>
     ia_completed_at x \<noteq> None \<and>
     (\<forall>a. dict_get (db_attempts db) (ia_attempt_id x) = Some a \<longrightarrow> at_request a = ia_request_id x)"

inductive infer_step :: "'h infer_params \<Rightarrow> int \<Rightarrow> 'h idb \<Rightarrow> 'h idb \<Rightarrow> bool" for P now where
  create: "create_or_get P actor q m fr db = Inr (r, db') \<Longrightarrow> infer_step P now db db'"
| claim: "claim_attempt P actor i route lease k now fr db = Inr (x, db') \<Longrightarrow> k \<noteq> [] \<Longrightarrow> infer_step P now db db'"
| reserve: "reserve_cost P actor i k amount fr db = Inr (b, db') \<Longrightarrow> infer_step P now db db'"
| finish: "finish_attempt P actor x now fr db = Inr (b, db') \<Longrightarrow> ends_attempt db x \<Longrightarrow> infer_step P now db db'"
| note_step: "note_event P actor i event payload fr db = Inr db' \<Longrightarrow> infer_step P now db db'"
| hibernate: "hibernate P actor i reason fr db = Inr db' \<Longrightarrow> infer_step P now db db'"
| revive: "revive P actor i reason fr db = Inr (b, db') \<Longrightarrow> infer_step P now db db'"
| outcome: "record_route_outcome P actor route ok threshold fr db = Inr db' \<Longrightarrow> infer_step P now db db'"
| revive_route: "revive_route P actor route reason fr db = Inr (b, db') \<Longrightarrow> infer_step P now db db'"
| reconcile: "reconcile_attempt_cost P actor i k cost fr db = Inr (b, db') \<Longrightarrow> infer_step P now db db'"
| useful: "mark_decision_useful P actor i k reason fr db = Inr (b, db') \<Longrightarrow> infer_step P now db db'"
| elsewhere: "store_step (ip_hashing P) (db_store db) st \<Longrightarrow> infer_step P now db (db\<lparr>db_store := st\<rparr>)"

text \<open>\<open>infer_run P db t db' t'\<close>: from \<open>db\<close> at time \<open>t\<close> some steps lead to \<open>db'\<close> at \<open>t'\<close>.\<close>

inductive infer_run :: "'h infer_params \<Rightarrow> 'h idb \<Rightarrow> int \<Rightarrow> 'h idb \<Rightarrow> int \<Rightarrow> bool" for P db t where
  start: "infer_run P db t db t"
| step: "infer_run P db t db1 t1 \<Longrightarrow> t1 \<le> t2 \<Longrightarrow> infer_step P t2 db1 db2 \<Longrightarrow> infer_run P db t db2 t2"

definition empty_idb :: "'h idb" where
  "empty_idb = \<lparr>db_store = empty_store, db_requests = [], db_manifests = [], db_attempts = [], db_circuits = []\<rparr>"

section \<open>Changes of the tables\<close>

text \<open>
  What a step does to requests and attempts, the event store aside. The label names the
  attempt the step finishes, if any.
\<close>

inductive table_step :: "int \<Rightarrow> string option \<Rightarrow> 'h idb \<Rightarrow> 'h idb \<Rightarrow> bool" for now where
  same: "db_requests db' = db_requests db \<Longrightarrow> db_attempts db' = db_attempts db \<Longrightarrow> table_step now None db db'"
| admit: "dict_get (db_requests db) i = None \<Longrightarrow> rw_completed_attempt r = None \<Longrightarrow> rw_status r = Admitted \<Longrightarrow>
    rw_reserved r = 0 \<Longrightarrow> rw_accrued r = 0 \<Longrightarrow> db_requests db' = db_requests db @ [(i, r)] \<Longrightarrow>
    db_attempts db' = db_attempts db \<Longrightarrow> table_step now None db db'"
| opened: "dict_get (db_requests db) i = Some r \<Longrightarrow> \<not> truthy (rw_completed_attempt r) \<Longrightarrow>
    \<forall>b \<in> set (attempts_of i db). at_status b = Created \<longrightarrow> at_until b \<le> now \<Longrightarrow>
    dict_get (db_attempts db) k = None \<Longrightarrow> k \<noteq> [] \<Longrightarrow>
    at_request a = i \<Longrightarrow> at_no a = max_of at_no (attempts_of i db) + 1 \<Longrightarrow>
    at_fence a = max_of at_fence (attempts_of i db) + 1 \<Longrightarrow> at_status a = Created \<Longrightarrow> at_total a = 0 \<Longrightarrow>
    ia_completed_at (at_json a) = None \<Longrightarrow> ia_status (at_json a) = Created \<Longrightarrow>
    db_requests db' = dict_set i (r\<lparr>rw_status := Attempting\<rparr>) (db_requests db) \<Longrightarrow>
    db_attempts db' = db_attempts db @ [(k, a)] \<Longrightarrow> table_step now None db db'"
| reserved: "dict_get (db_requests db) i = Some r \<Longrightarrow> dict_get (db_attempts db) k = Some a \<Longrightarrow>
    at_request a = i \<Longrightarrow> at_status a = Created \<Longrightarrow>
    db_requests db' = dict_set i (r\<lparr>rw_reserved := dadd (dsub (rw_reserved r) (at_total a)) amount\<rparr>) (db_requests db) \<Longrightarrow>
    db_attempts db' = dict_set k (a\<lparr>at_total := amount\<rparr>) (db_attempts db) \<Longrightarrow> table_step now None db db'"
| finished: "dict_get (db_requests db) i = Some r \<Longrightarrow> dict_get (db_attempts db) k = Some a \<Longrightarrow>
    at_request a = i \<Longrightarrow> at_status a = Created \<Longrightarrow> ia_attempt_id x = k \<Longrightarrow>
    ia_status x \<in> {SemanticAccepted, RetryableFailure, NonretryableFailure, Hibernated} \<Longrightarrow>
    ia_completed_at x \<noteq> None \<Longrightarrow>
    (accepted_status (ia_status x) \<longrightarrow> at_fence a = max_of at_fence (attempts_of i db) \<and> now < at_until a \<and>
       \<not> truthy (rw_completed_attempt r)) \<Longrightarrow>
    db_requests db' = dict_set i (finished_request r a x artifact now) (db_requests db) \<Longrightarrow>
    db_attempts db' = dict_set k (a\<lparr>at_status := ia_status x, at_total := ia_total_cost_usd x,
      at_artifact := artifact, at_json := x\<rparr>) (db_attempts db) \<Longrightarrow> table_step now (Some k) db db'"
| restated: "dict_get (db_requests db) i = Some r \<Longrightarrow> \<not> truthy (rw_completed_attempt r) \<Longrightarrow>
    status = Admitted \<or> status = Asleep \<Longrightarrow>
    db_requests db' = dict_set i (r\<lparr>rw_status := status, rw_failure_reason := reason\<rparr>) (db_requests db) \<Longrightarrow>
    db_attempts db' = db_attempts db \<Longrightarrow> table_step now None db db'"
| reconciled: "dict_get (db_requests db) i = Some r \<Longrightarrow> dict_get (db_attempts db) k = Some a \<Longrightarrow>
    at_request a = i \<Longrightarrow> ia_completed_at (at_json a) \<noteq> None \<Longrightarrow> 0 \<le> cost \<Longrightarrow>
    db_requests db' = dict_set i
      (r\<lparr>rw_accrued := dadd (dsub (rw_accrued r) (ia_total_cost_usd (at_json a))) cost\<rparr>) (db_requests db) \<Longrightarrow>
    db_attempts db' = dict_set k (a\<lparr>at_total := cost, at_json := (at_json a)
      \<lparr>ia_provider_reported_cost_usd := Some cost, ia_total_cost_usd := cost\<rparr>\<rparr>) (db_attempts db) \<Longrightarrow>
    table_step now None db db'"
| promoted: "dict_get (db_requests db) i = Some r \<Longrightarrow> dict_get (db_attempts db) k = Some a \<Longrightarrow>
    at_request a = i \<Longrightarrow> rw_completed_attempt r = Some k \<Longrightarrow> ia_status (at_json a) = SemanticAccepted \<Longrightarrow>
    db_requests db' = dict_set i (r\<lparr>rw_status := Useful\<rparr>) (db_requests db) \<Longrightarrow>
    db_attempts db' = dict_set k (a\<lparr>at_status := DecisionUseful,
      at_json := (at_json a)\<lparr>ia_status := DecisionUseful\<rparr>\<rparr>) (db_attempts db) \<Longrightarrow> table_step now None db db'"

text \<open>An event was appended to the log, and the tables are as before.\<close>

definition logged :: "'h infer_params \<Rightarrow> string \<Rightarrow> 'h idb \<Rightarrow> 'h idb \<Rightarrow> bool" where
  "logged P key db db' \<longleftrightarrow>
     (\<exists>actor kind i task state event metadata artifacts fr.
        infer_event P actor kind i task state event key metadata artifacts fr db = Inr db')"

lemma logged_infer: "infer_event P actor kind i task state event key metadata artifacts fr db = Inr db' \<Longrightarrow> logged P key db db'"
  unfolding logged_def by blast

lemma logged_request: "request_event P actor i row state event key metadata artifacts fr db = Inr db' \<Longrightarrow> logged P key db db'"
  unfolding request_event_def by (rule logged_infer)

lemma logged_transition:
  assumes "logged P key db db'"
  obtains actor rq e fr where
    "transition (ip_hashing P) actor ''inference'' rq key None fr (db_store db) = Inr (e, db_store db')"
    "rq_expected_version rq = current_version (db_store db) (rq_kind rq) (rq_id rq)"
  using assms unfolding logged_def infer_event_def by (fastforce simp: rbind_eq_Inr)

lemma logged_frame:
  assumes "logged P key db db'"
  shows "db_requests db' = db_requests db" "db_attempts db' = db_attempts db" "db_circuits db' = db_circuits db"
  using assms by (auto simp: logged_def infer_event_def rbind_eq_Inr)

lemma logged_store: "logged P key db db' \<Longrightarrow> store_step (ip_hashing P) (db_store db) (db_store db')"
  by (erule logged_transition) (rule store_step.transition)

lemma logged_key:
  assumes "logged P key db db'" and "versions_logged (ip_hashing P) (db_store db)"
    and "inj (h_request (ip_hashing P))"
  shows "find_operation (db_store db) key = None" "find_operation (db_store db') key \<noteq> None"
proof -
  obtain actor rq e fr where
      t: "transition (ip_hashing P) actor ''inference'' rq key None fr (db_store db) = Inr (e, db_store db')"
    and v: "rq_expected_version rq = current_version (db_store db) (rq_kind rq) (rq_id rq)"
    using assms(1) by (rule logged_transition)
  show "find_operation (db_store db) key = None" by (rule current_key_fresh [OF assms(2,3) t v])
  show "find_operation (db_store db') key \<noteq> None" using transition_logged [OF t] by simp
qed

text \<open>A change of the tables together with writes to the store.\<close>

definition stepped :: "'h infer_params \<Rightarrow> int \<Rightarrow> 'h idb \<Rightarrow> 'h idb \<Rightarrow> bool" where
  "stepped P now db db' \<longleftrightarrow>
     (\<exists>ended. table_step now ended db db' \<and>
        (\<forall>k. ended = Some k \<longrightarrow> find_operation (db_store db') (''inference-finish:'' @ k) \<noteq> None)) \<and>
     (store_step (ip_hashing P))\<^sup>*\<^sup>* (db_store db) (db_store db')"

lemma steppedI:
  "table_step now None db db' \<Longrightarrow> (store_step (ip_hashing P))\<^sup>*\<^sup>* (db_store db) (db_store db') \<Longrightarrow> stepped P now db db'"
  unfolding stepped_def by blast

lemma stepped_refl: "stepped P now db db"
  by (rule steppedI) (auto intro: table_step.same)

lemma stepped_note: "logged P key db db' \<Longrightarrow> stepped P now db db'"
  by (rule steppedI) (auto simp: logged_frame intro: table_step.same dest: logged_store)

lemma stepped_circuit: "logged P key db db1 \<Longrightarrow> stepped P now db (db1\<lparr>db_circuits := cs\<rparr>)"
  by (rule steppedI) (auto simp: logged_frame intro: table_step.same dest: logged_store)

lemma stepped_admitted:
  assumes "put_artifact (ip_hashing P) actor content schema cls policy fr (db_store db) = Inr (artifact, st)"
    and "logged P key (db\<lparr>db_store := st\<rparr>) db1" and "dict_get (db_requests db1) i = None"
    and "rw_completed_attempt r = None" "rw_status r = Admitted" "rw_reserved r = 0" "rw_accrued r = 0"
  shows "stepped P now db (db1\<lparr>db_requests := db_requests db1 @ [(i, r)], db_manifests := ms\<rparr>)"
proof -
  have "store_step (ip_hashing P) (db_store db) st" by (rule store_step.artifact [OF assms(1)])
  moreover have "store_step (ip_hashing P) st (db_store db1)" using logged_store [OF assms(2)] by simp
  moreover have "table_step now None db (db1\<lparr>db_requests := db_requests db1 @ [(i, r)], db_manifests := ms\<rparr>)"
    using assms(3) by (intro table_step.admit [of db i r]) (simp_all add: logged_frame [OF assms(2)] assms(4-7))
  ultimately show ?thesis by (intro steppedI) auto
qed

lemma stepped_opened:
  assumes "logged P key db db1" and "dict_get (db_requests db) i = Some r" and "\<not> truthy (rw_completed_attempt r)"
    and "\<not> list_ex (\<lambda>b. at_status b = Created \<and> now < at_until b) (attempts_of i db)"
    and "dict_get (db_attempts db1) k = None" and "k \<noteq> []"
    and "at_request a = i" "at_no a = max_of at_no (attempts_of i db) + 1"
    and "at_fence a = max_of at_fence (attempts_of i db) + 1" "at_status a = Created" "at_total a = 0"
    and "ia_completed_at (at_json a) = None" "ia_status (at_json a) = Created"
  shows "stepped P now db (set_request i (r\<lparr>rw_status := Attempting\<rparr>) (db1\<lparr>db_attempts := db_attempts db1 @ [(k, a)]\<rparr>))"
proof -
  note frame = logged_frame [OF assms(1)]
  have "table_step now None db (set_request i (r\<lparr>rw_status := Attempting\<rparr>) (db1\<lparr>db_attempts := db_attempts db1 @ [(k, a)]\<rparr>))"
    by (rule table_step.opened [OF assms(2,3) _ _ assms(6-13)])
      (use assms(4,5) in \<open>auto simp: frame set_request_def list_ex_iff not_less\<close>)
  then show ?thesis using logged_store [OF assms(1)] by (intro steppedI) (auto simp: set_request_def)
qed

lemma stepped_reserved:
  assumes "logged P key db db1" and "dict_get (db_requests db) i = Some r" and "dict_get (db_attempts db) k = Some a"
    and "at_request a = i" and "at_status a = Created"
  shows "stepped P now db (set_attempt k (a\<lparr>at_total := amount\<rparr>)
    (set_request i (r\<lparr>rw_reserved := dadd (dsub (rw_reserved r) (at_total a)) amount\<rparr>) db1))"
  using table_step.reserved [OF assms(2-5), where now = now] logged_store [OF assms(1)] logged_frame [OF assms(1)]
  by (intro steppedI) (simp_all add: set_attempt_def set_request_def r_into_rtranclp)

lemma stepped_restated:
  assumes "logged P key db db1" and "dict_get (db_requests db) i = Some r" and "\<not> truthy (rw_completed_attempt r)"
    and "status = Admitted \<or> status = Asleep"
  shows "stepped P now db (set_request i (r\<lparr>rw_status := status, rw_failure_reason := reason\<rparr>) db1)"
  using table_step.restated [OF assms(2-4), where now = now] logged_store [OF assms(1)] logged_frame [OF assms(1)]
  by (intro steppedI) (simp_all add: set_request_def r_into_rtranclp)

lemma stepped_reconciled:
  assumes "logged P key db db1" and "dict_get (db_requests db) i = Some r" and "dict_get (db_attempts db) k = Some a"
    and "at_request a = i" and "ia_completed_at (at_json a) \<noteq> None" and "0 \<le> cost"
  shows "stepped P now db
    (set_request i (r\<lparr>rw_accrued := dadd (dsub (rw_accrued r) (ia_total_cost_usd (at_json a))) cost\<rparr>)
      (set_attempt k (a\<lparr>at_total := cost, at_json := (at_json a)
         \<lparr>ia_provider_reported_cost_usd := Some cost, ia_total_cost_usd := cost\<rparr>\<rparr>) db1))"
  using table_step.reconciled [OF assms(2-6), where now = now] logged_store [OF assms(1)] logged_frame [OF assms(1)]
  by (intro steppedI) (simp_all add: set_attempt_def set_request_def r_into_rtranclp)

lemma stepped_promoted:
  assumes "logged P key db db1" and "dict_get (db_requests db) i = Some r" and "dict_get (db_attempts db) k = Some a"
    and "at_request a = i" and "rw_completed_attempt r = Some k" and "ia_status (at_json a) = SemanticAccepted"
  shows "stepped P now db (set_request i (r\<lparr>rw_status := Useful\<rparr>)
    (set_attempt k (a\<lparr>at_status := DecisionUseful, at_json := (at_json a)\<lparr>ia_status := DecisionUseful\<rparr>\<rparr>) db1))"
  using table_step.promoted [OF assms(2-6), where now = now] logged_store [OF assms(1)] logged_frame [OF assms(1)]
  by (intro steppedI) (simp_all add: set_attempt_def set_request_def r_into_rtranclp)

lemmas stepped_intros = stepped_refl
  stepped_note [OF logged_request] stepped_circuit [OF logged_infer] stepped_admitted [OF _ logged_request]
  stepped_opened [OF logged_request] stepped_reserved [OF logged_request] stepped_restated [OF logged_request]
  stepped_reconciled [OF logged_request] stepped_promoted [OF logged_request]

lemma get_both_Some:
  "get_both i k db = Some (r, a) \<longleftrightarrow>
     dict_get (db_requests db) i = Some r \<and> dict_get (db_attempts db) k = Some a \<and> at_request a = i"
  by (auto simp: get_both_def split: option.splits)

lemma get_request_Inr: "get_request i db = Inr r \<longleftrightarrow> dict_get (db_requests db) i = Some r"
  by (simp add: get_request_def split: option.splits)

lemma mk_inference_attempt_Inr: "mk_inference_attempt x = Inr y \<Longrightarrow> y = x"
  by (auto simp: mk_inference_attempt_def rbind_eq_Inr)

lemma create_stepped:
  assumes "create_or_get P actor q m fr db = Inr (out, db')"
  shows "stepped P now db db'"
proof (cases "List.find (\<lambda>(_, r). iq_idempotency_key (rw_request r) = iq_idempotency_key q) (db_requests db)")
  case None
  with assms show ?thesis unfolding create_or_get_def Let_def
    by (clarsimp simp: rbind_eq_Inr) (rule stepped_admitted [OF _ logged_request]; (assumption | simp))
next
  case (Some p)
  with assms have "db' = db"
    unfolding create_or_get_def by (cases p) (auto simp: rbind_eq_Inr split: if_splits)
  then show ?thesis by (simp add: stepped_refl)
qed

lemma claim_stepped:
  assumes "claim_attempt P actor i route lease k now fr db = Inr (x, db')" and "k \<noteq> []"
  shows "stepped P now db db'"
  using assms unfolding claim_attempt_def Let_def
  by (clarsimp simp: rbind_eq_Inr get_request_Inr split: option.splits)
    (rule stepped_opened [OF logged_request]; (assumption | simp add: new_attempt_def))

lemma reserve_stepped:
  assumes "reserve_cost P actor i k amount fr db = Inr (b, db')"
  shows "stepped P now db db'"
  using assms unfolding reserve_cost_def Let_def
  by (clarsimp simp: rbind_eq_Inr get_both_Some stepped_refl split: option.splits if_splits)
    (auto intro!: stepped_refl stepped_reserved [OF logged_request])

lemma note_stepped: "note_event P actor i event payload fr db = Inr db' \<Longrightarrow> stepped P now db db'"
  by (auto simp: note_event_def rbind_eq_Inr intro: stepped_note [OF logged_request])

lemma hibernate_stepped:
  assumes "hibernate P actor i reason fr db = Inr db'"
  shows "stepped P now db db'"
  using assms unfolding hibernate_def Let_def
  by (auto simp: rbind_eq_Inr get_request_Inr split: if_splits intro!: stepped_refl stepped_restated [OF logged_request])

lemma revive_stepped:
  assumes "revive P actor i reason fr db = Inr (b, db')"
  shows "stepped P now db db'"
  using assms unfolding revive_def Let_def
  by (auto simp: rbind_eq_Inr get_request_Inr split: if_splits intro!: stepped_refl stepped_restated [OF logged_request])

lemma outcome_stepped: "record_route_outcome P actor route ok threshold fr db = Inr db' \<Longrightarrow> stepped P now db db'"
  by (auto simp: record_route_outcome_def Let_def rbind_eq_Inr intro: stepped_circuit [OF logged_infer])

lemma revive_route_stepped:
  assumes "revive_route P actor route reason fr db = Inr (b, db')"
  shows "stepped P now db db'"
  using assms unfolding revive_route_def Let_def
  by (auto simp: rbind_eq_Inr stepped_refl split: option.splits if_splits intro: stepped_circuit [OF logged_infer])

lemma reconcile_stepped:
  assumes "reconcile_attempt_cost P actor i k cost fr db = Inr (b, db')"
  shows "stepped P now db db'"
  using assms unfolding reconcile_attempt_cost_def Let_def
  by (clarsimp simp: rbind_eq_Inr get_both_Some split: option.splits dest!: mk_inference_attempt_Inr)
    (rule stepped_reconciled [OF logged_request]; (assumption | simp))

lemma useful_stepped:
  assumes "mark_decision_useful P actor i k reason fr db = Inr (b, db')"
  shows "stepped P now db db'"
  using assms unfolding mark_decision_useful_def Let_def
  by (clarsimp simp: rbind_eq_Inr get_both_Some stepped_refl split: option.splits if_splits dest!: mk_inference_attempt_Inr)
    (auto dest!: mk_inference_attempt_Inr intro!: stepped_refl stepped_promoted [OF logged_request])

section \<open>Finishing an attempt\<close>

definition settled :: "'h idb \<Rightarrow> bool" where
  "settled db \<longleftrightarrow>
     (\<forall>k a. dict_get (db_attempts db) k = Some a \<longrightarrow> at_status a \<noteq> Created \<longrightarrow>
        find_operation (db_store db) (''inference-finish:'' @ k) \<noteq> None)"

lemma versions_logged_run:
  "(store_step h)\<^sup>*\<^sup>* st st' \<Longrightarrow> versions_logged h st \<Longrightarrow> versions_logged h st'"
  by (induction rule: rtranclp_induct) (auto intro: versions_logged_step)

lemma store_output_frame:
  assumes "store_output P actor x fr db = Inr (artifact, db')"
  shows "db_requests db' = db_requests db" "db_attempts db' = db_attempts db"
    "find_operation (db_store db') key = find_operation (db_store db) key"
    "(store_step (ip_hashing P))\<^sup>*\<^sup>* (db_store db) (db_store db')"
proof -
  have "db_requests db' = db_requests db \<and> db_attempts db' = db_attempts db \<and>
      (db_store db' = db_store db \<or> (\<exists>content schema cls policy i.
         put_artifact (ip_hashing P) actor content schema cls policy fr (db_store db) = Inr (i, db_store db')))"
    using assms by (fastforce simp: store_output_def rbind_eq_Inr split: option.splits)
  then show "db_requests db' = db_requests db" "db_attempts db' = db_attempts db"
    "find_operation (db_store db') key = find_operation (db_store db) key"
    "(store_step (ip_hashing P))\<^sup>*\<^sup>* (db_store db) (db_store db')"
    by (auto simp: find_operation_def dest: put_artifact_frame(1) intro: store_step.artifact)
qed

text \<open>The operation key of the finishing event is used once, so an attempt is finished once.\<close>

lemma finish_attempt_cases:
  assumes "finish_attempt P actor x now fr db = Inr (b, db')"
  obtains (unknown) "db' = db" "\<not> b"
  | (ended) r a y artifact db1 db2 where
    "dict_get (db_requests db) (ia_request_id x) = Some r" "dict_get (db_attempts db) (ia_attempt_id x) = Some a"
    "b = (\<not> is_stale r a (max_of at_fence (attempts_of (ia_request_id x) db)) now x)"
    "y = (if is_stale r a (max_of at_fence (attempts_of (ia_request_id x) db)) now x then late_result x else x)"
    "store_output P actor y fr db = Inr (artifact, db1)"
    "logged P (''inference-finish:'' @ ia_attempt_id x) db1 db2"
    "db' = set_request (ia_request_id x) (finished_request r a y artifact now)
       (set_attempt (ia_attempt_id x) (a\<lparr>at_status := ia_status y, at_total := ia_total_cost_usd y,
          at_artifact := artifact, at_json := y\<rparr>) db2)"
proof (cases "dict_get (db_requests db) (ia_request_id x)")
  case None
  then show thesis using assms unknown by (auto simp: finish_attempt_def rbind_eq_Inr)
next
  case (Some r)
  note r = Some
  show thesis
  proof (cases "dict_get (db_attempts db) (ia_attempt_id x)")
    case None
    then show thesis using assms unknown r by (auto simp: finish_attempt_def rbind_eq_Inr)
  next
    case (Some a)
    let ?stale = "is_stale r a (max_of at_fence (attempts_of (ia_request_id x) db)) now x"
    let ?y = "if ?stale then late_result x else x"
    from assms r Some obtain artifact db1 actor' row state event meta arts db2 where
      out: "store_output P actor ?y fr db = Inr (artifact, db1)"
      and event: "request_event P actor' (ia_request_id x) row state event (''inference-finish:'' @ ia_attempt_id x) meta arts fr db1
        = Inr db2"
      and b: "b = (\<not> ?stale)"
      and db': "db' = set_request (ia_request_id x) (finished_request r a ?y artifact now)
       (set_attempt (ia_attempt_id x) (a\<lparr>at_status := ia_status ?y, at_total := ia_total_cost_usd ?y,
          at_artifact := artifact, at_json := ?y\<rparr>) db2)"
      unfolding finish_attempt_def Let_def by (clarsimp simp only: rbind_eq_Inr option.case prod.case split: prod.splits) blast
    show thesis by (rule ended [OF r Some b refl out logged_request [OF event] db'])
  qed
qed

lemma finish_stepped:
  assumes "finish_attempt P actor x now fr db = Inr (b, db')" and "ends_attempt db x" and "settled db"
    and "versions_logged (ip_hashing P) (db_store db)" and "inj (h_request (ip_hashing P))"
  shows "stepped P now db db'"
  using assms(1)
proof (cases rule: finish_attempt_cases)
  case unknown
  then show ?thesis by (simp add: stepped_refl)
next
  case (ended r a y artifact db1 db2)
  note out = store_output_frame [OF ended(5)] and log = logged_frame [OF ended(6)]
  note key = logged_key [OF ended(6) versions_logged_run [OF out(4) assms(4)] assms(5)]
  have created: "at_status a = Created"
    using assms(3) ended(2) key(1) unfolding out(3) settled_def by blast
  have ends: "ia_status y \<in> {SemanticAccepted, RetryableFailure, NonretryableFailure, Hibernated}"
      "ia_completed_at y \<noteq> None" "ia_attempt_id y = ia_attempt_id x" "at_request a = ia_request_id x"
    using assms(2) ended(2) by (auto simp: ends_attempt_def ended(4) late_result_def)
  have winner: "accepted_status (ia_status y) \<longrightarrow>
      at_fence a = max_of at_fence (attempts_of (ia_request_id x) db) \<and> now < at_until a \<and> \<not> truthy (rw_completed_attempt r)"
    using ended(3) by (auto simp: ended(4) late_result_def accepted_status_def is_stale_def)
  have "table_step now (Some (ia_attempt_id x)) db db'"
    by (rule table_step.finished [OF ended(1,2) ends(4) created ends(3,1,2) winner])
      (simp_all add: ended(7) set_request_def set_attempt_def out log)
  moreover have "(store_step (ip_hashing P))\<^sup>*\<^sup>* (db_store db) (db_store db2)"
    using out(4) logged_store [OF ended(6)] by (rule rtranclp.rtrancl_into_rtrancl)
  ultimately show ?thesis
    using key(2) unfolding stepped_def by (auto simp: ended(7) set_request_def set_attempt_def)
qed

lemma infer_step_stepped:
  assumes "infer_step P now db db'" and "settled db"
    and "versions_logged (ip_hashing P) (db_store db)" and "inj (h_request (ip_hashing P))"
  shows "stepped P now db db'"
  using assms(1)
proof cases
  case (elsewhere st)
  then show ?thesis by (auto intro!: steppedI table_step.same)
qed (auto intro: create_stepped claim_stepped reserve_stepped finish_stepped [OF _ _ assms(2-4)] note_stepped
      hibernate_stepped revive_stepped outcome_stepped revive_route_stepped reconcile_stepped useful_stepped)

section \<open>The invariant of the tables\<close>

definition attempts_in :: "string \<Rightarrow> (string \<times> attempt_row) list \<Rightarrow> attempt_row list" where
  "attempts_in i d = List.filter (\<lambda>a. at_request a = i) (map snd d)"

lemma attempts_of_in: "attempts_of i db = attempts_in i (db_attempts db)"
  by (simp add: attempts_of_def attempts_in_def)

lemma attempts_in_snoc:
  "attempts_in i (d @ [(k, a)]) = attempts_in i d @ (if at_request a = i then [a] else [])"
  by (simp add: attempts_in_def)

lemma map_attempts_in_set:
  "dict_get d k = Some a \<Longrightarrow> at_request b = at_request a \<Longrightarrow> f b = f a \<Longrightarrow>
   map f (attempts_in i (dict_set k b d)) = map f (attempts_in i d)"
  by (induction d) (auto simp: attempts_in_def split: if_splits)

lemma length_attempts_in_set:
  "dict_get d k = Some a \<Longrightarrow> at_request b = at_request a \<Longrightarrow>
   length (attempts_in i (dict_set k b d)) = length (attempts_in i d)"
  using map_attempts_in_set [of d k a b "\<lambda>_. ()"] by (metis length_map)

lemma in_attempts_in: "dict_get d k = Some a \<Longrightarrow> a \<in> set (attempts_in (at_request a) d)"
  by (force simp: attempts_in_def dest: map_of_SomeD)

lemma attempts_in_get:
  "distinct (dict_keys d) \<Longrightarrow> a \<in> set (attempts_in i d) \<longleftrightarrow> at_request a = i \<and> (\<exists>k. dict_get d k = Some a)"
  by (force simp: attempts_in_def dest: map_of_SomeD)

text \<open>The attempts of a request are numbered from one, and their fences are these numbers.\<close>

definition numbered :: "(string \<times> attempt_row) list \<Rightarrow> bool" where
  "numbered d \<longleftrightarrow> (\<forall>i. map at_fence (attempts_in i d) = [1..<Suc (length (attempts_in i d))] \<and>
     map at_no (attempts_in i d) = [1..<Suc (length (attempts_in i d))])"

text \<open>
  A row of an attempt: its request exists, it is open exactly while its stored record has no
  completion time, a finished record mirrors the row, and the lease of an open attempt that
  another one followed has run out.
\<close>

definition row_ok ::
  "(string \<times> request_row) list \<Rightarrow> (string \<times> attempt_row) list \<Rightarrow> int \<Rightarrow> string \<Rightarrow> attempt_row \<Rightarrow> bool" where
  "row_ok reqs d t k a \<longleftrightarrow>
     k \<noteq> [] \<and> dict_get reqs (at_request a) \<noteq> None \<and>
     (at_status a = Created \<longleftrightarrow> ia_completed_at (at_json a) = None) \<and>
     ia_status (at_json a) = at_status a \<and>
     (at_status a \<noteq> Created \<longrightarrow> ia_total_cost_usd (at_json a) = at_total a) \<and>
     (at_status a = Created \<longrightarrow> at_fence a < length (attempts_in (at_request a) d) \<longrightarrow> at_until a \<le> t)"

text \<open>
  A request that was answered has exactly one accepted attempt, the last one, and its status
  says so; one that was not has none.
\<close>

definition accepted_in :: "string \<Rightarrow> (string \<times> attempt_row) list \<Rightarrow> string \<Rightarrow> attempt_row option" where
  "accepted_in i d k = (case dict_get d k of
     Some a \<Rightarrow> if at_request a = i \<and> accepted_status (at_status a) then Some a else None
   | None \<Rightarrow> None)"

definition answer_ok :: "(string \<times> attempt_row) list \<Rightarrow> string \<Rightarrow> request_row \<Rightarrow> bool" where
  "answer_ok d i r \<longleftrightarrow>
     (case rw_completed_attempt r of
        None \<Rightarrow> rw_status r \<in> {Admitted, Attempting, Asleep} \<and> (\<forall>k. accepted_in i d k = None)
      | Some w \<Rightarrow> w \<noteq> [] \<and> (\<exists>a. accepted_in i d w = Some a \<and> at_fence a = length (attempts_in i d) \<and>
          rw_status r = (if at_status a = DecisionUseful then Useful else Accepted)) \<and>
          (\<forall>k. k \<noteq> w \<longrightarrow> accepted_in i d k = None))"

definition infer_ok :: "int \<Rightarrow> 'h idb \<Rightarrow> bool" where
  "infer_ok t db \<longleftrightarrow> distinct (dict_keys (db_attempts db)) \<and> numbered (db_attempts db) \<and>
     (\<forall>k a. dict_get (db_attempts db) k = Some a \<longrightarrow> row_ok (db_requests db) (db_attempts db) t k a) \<and>
     (\<forall>i r. dict_get (db_requests db) i = Some r \<longrightarrow> answer_ok (db_attempts db) i r)"

lemma max_of_numbered: "map f xs = [1..<Suc (length xs)] \<Longrightarrow> max_of f xs = length xs"
proof -
  have "foldl max 0 [1..<Suc n] = n" for n by (induction n) auto
  then show "map f xs = [1..<Suc (length xs)] \<Longrightarrow> max_of f xs = length xs" unfolding max_of_def by metis
qed

lemma numbered_newest:
  assumes "numbered d"
  shows "max_of at_fence (attempts_in i d) = length (attempts_in i d)"
    and "max_of at_no (attempts_in i d) = length (attempts_in i d)"
  using assms by (simp_all add: numbered_def max_of_numbered)

lemma numbered_snoc:
  assumes "numbered d" and "at_fence a = Suc (length (attempts_in (at_request a) d))"
    and "at_no a = Suc (length (attempts_in (at_request a) d))"
  shows "numbered (d @ [(k, a)])"
  using assms by (simp add: numbered_def attempts_in_snoc)

lemma numbered_set:
  assumes "numbered d" and "dict_get d k = Some a" and "at_request b = at_request a"
    and "at_fence b = at_fence a" and "at_no b = at_no a"
  shows "numbered (dict_set k b d)"
  using assms
  by (simp add: numbered_def map_attempts_in_set [OF assms(2,3)] length_attempts_in_set [OF assms(2,3)])

lemma fence_bound:
  assumes "numbered d" and "dict_get d k = Some a"
  shows "at_fence a \<le> length (attempts_in (at_request a) d)"
proof -
  have "at_fence a \<in> set (map at_fence (attempts_in (at_request a) d))"
    using in_attempts_in [OF assms(2)] by simp
  also have "map at_fence (attempts_in (at_request a) d) = [1..<Suc (length (attempts_in (at_request a) d))]"
    using assms(1) by (simp only: numbered_def)
  finally show ?thesis by auto
qed

lemma row_ok_later: "row_ok reqs d t k a \<Longrightarrow> t \<le> t' \<Longrightarrow> row_ok reqs d t' k a"
  by (auto simp: row_ok_def)

lemma row_ok_frame:
  assumes "row_ok reqs d t k a" and "\<And>i. dict_get reqs i \<noteq> None \<Longrightarrow> dict_get reqs' i \<noteq> None"
    and "length (attempts_in (at_request a) d') = length (attempts_in (at_request a) d)"
  shows "row_ok reqs' d' t k a"
  using assms unfolding row_ok_def by simp

lemma table_step_numbered:
  assumes "table_step now ended db db'" and "numbered (db_attempts db)"
  shows "numbered (db_attempts db')"
  using assms(1)
proof cases
  case (opened i r k a)
  then show ?thesis
    using numbered_snoc [OF assms(2), of a k] numbered_newest [OF assms(2)] by (simp add: attempts_of_in)
qed (simp_all add: assms(2) numbered_set)

lemma table_step_distinct:
  assumes "table_step now ended db db'" and "distinct (dict_keys (db_attempts db))"
  shows "distinct (dict_keys (db_attempts db'))"
  using assms by cases (auto simp: distinct_dict_set map_of_eq_None_iff)

lemma table_step_requests:
  assumes "table_step now ended db db'" and "dict_get (db_requests db) i \<noteq> None"
  shows "dict_get (db_requests db') i \<noteq> None"
  using assms by cases (auto simp: dict_get_set dict_get_snoc)

lemma table_step_rows:
  assumes "table_step now ended db db'" and "numbered (db_attempts db)" and "t \<le> now"
    and ok: "\<And>k a. dict_get (db_attempts db) k = Some a \<Longrightarrow> row_ok (db_requests db) (db_attempts db) t k a"
    and row: "dict_get (db_attempts db') k = Some a"
  shows "row_ok (db_requests db') (db_attempts db') now k a"
proof -
  note old = row_ok_later [OF ok assms(3)]
  note kept = table_step_requests [OF assms(1)]
  show ?thesis
    using assms(1)
  proof cases
    case same
    then show ?thesis using old row by simp
  next
    case (admit i r)
    then show ?thesis using row by (intro row_ok_frame [OF old kept]) simp_all
  next
    case (opened i r j b)
    have get_new: "dict_get (db_attempts db') l = (if l = j then Some b else dict_get (db_attempts db) l)" for l
      unfolding opened(15) by (rule dict_get_snoc [OF opened(5)])
    show ?thesis
    proof (cases "k = j")
      case True
      then have a: "a = b" using row get_new by simp
      have "length (attempts_in i (db_attempts db')) = at_fence b"
        using opened numbered_newest(1) [OF assms(2), of i] by (simp add: attempts_in_snoc attempts_of_in)
      then show ?thesis
        using opened a True by (auto simp: row_ok_def dict_get_set)
    next
      case False
      then have get: "dict_get (db_attempts db) k = Some a" using row get_new by simp
      have "at_status a = Created \<Longrightarrow> at_until a \<le> now" if "at_request a = i"
        using opened(4) in_attempts_in [OF get] that by (simp add: attempts_of_in)
      then show ?thesis
        using old [OF get] kept opened unfolding row_ok_def
        by (cases "at_request a = i") (auto simp: attempts_in_snoc)
    qed
  next
    case (reserved i r j b amount)
    show ?thesis
    proof (cases "k = j")
      case True
      then have a: "a = b\<lparr>at_total := amount\<rparr>" using row reserved by (simp add: dict_get_set)
      then show ?thesis
        using old [OF reserved(3)] kept reserved True unfolding row_ok_def
        by (simp add: length_attempts_in_set)
    next
      case False
      then have "dict_get (db_attempts db) k = Some a" using row reserved by (simp add: dict_get_set)
      then show ?thesis using reserved by (intro row_ok_frame [OF old kept]) (simp_all add: length_attempts_in_set)
    qed
  next
    case (finished i r j b x artifact)
    show ?thesis
    proof (cases "k = j")
      case True
      then have a: "a = b\<lparr>at_status := ia_status x, at_total := ia_total_cost_usd x, at_artifact := artifact, at_json := x\<rparr>"
        using row finished by (simp add: dict_get_set)
      then show ?thesis
        using old [OF finished(3)] kept finished(4-9) True unfolding row_ok_def by auto
    next
      case False
      then have "dict_get (db_attempts db) k = Some a" using row finished by (simp add: dict_get_set)
      then show ?thesis using finished by (intro row_ok_frame [OF old kept]) (simp_all add: length_attempts_in_set)
    qed
  next
    case (restated i r status reason)
    then show ?thesis using row by (intro row_ok_frame [OF old kept]) simp_all
  next
    case (reconciled i r j b cost)
    show ?thesis
    proof (cases "k = j")
      case True
      then have a: "a = b\<lparr>at_total := cost, at_json := (at_json b)
          \<lparr>ia_provider_reported_cost_usd := Some cost, ia_total_cost_usd := cost\<rparr>\<rparr>"
        using row reconciled by (simp add: dict_get_set)
      then show ?thesis
        using old [OF reconciled(3)] kept reconciled(4,5) True unfolding row_ok_def by auto
    next
      case False
      then have "dict_get (db_attempts db) k = Some a" using row reconciled by (simp add: dict_get_set)
      then show ?thesis using reconciled by (intro row_ok_frame [OF old kept]) (simp_all add: length_attempts_in_set)
    qed
  next
    case (promoted i r j b)
    show ?thesis
    proof (cases "k = j")
      case True
      then have a: "a = b\<lparr>at_status := DecisionUseful, at_json := (at_json b)\<lparr>ia_status := DecisionUseful\<rparr>\<rparr>"
        using row promoted by (simp add: dict_get_set)
      show ?thesis
        using old [OF promoted(3)] kept promoted(4,6) True unfolding row_ok_def a by auto
    next
      case False
      then have "dict_get (db_attempts db) k = Some a" using row promoted by (simp add: dict_get_set)
      then show ?thesis using promoted by (intro row_ok_frame [OF old kept]) (simp_all add: length_attempts_in_set)
    qed
  qed
qed

lemma accepted_in_set:
  "dict_get d j = Some b \<Longrightarrow> at_request b' = at_request b \<Longrightarrow> \<not> accepted_status (at_status b') \<Longrightarrow>
   \<not> accepted_status (at_status b) \<Longrightarrow> accepted_in i (dict_set j b' d) = accepted_in i d"
  by (rule ext) (auto simp: accepted_in_def dict_get_set)

lemma answer_frame:
  assumes "answer_ok d i r" and "rw_completed_attempt r' = rw_completed_attempt r"
    and "rw_status r' = rw_status r \<or> rw_completed_attempt r = None \<and> rw_status r' \<in> {Admitted, Attempting, Asleep}"
    and "length (attempts_in i d') = length (attempts_in i d) \<or> rw_completed_attempt r = None"
    and view: "\<And>k. map_option (\<lambda>a. (at_status a, at_fence a)) (accepted_in i d' k) =
         map_option (\<lambda>a. (at_status a, at_fence a)) (accepted_in i d k)"
  shows "answer_ok d' i r'"
proof -
  have none: "accepted_in i d' k = None \<longleftrightarrow> accepted_in i d k = None" for k
    using view [of k] by (metis option.map_disc_iff)
  show ?thesis
  proof (cases "rw_completed_attempt r")
    case None
    then show ?thesis using assms(1-3) by (auto simp: answer_ok_def none)
  next
    case (Some w)
    then obtain a where a: "accepted_in i d w = Some a" "at_fence a = length (attempts_in i d)"
        "rw_status r = (if at_status a = DecisionUseful then Useful else Accepted)"
        "w \<noteq> []" "\<forall>k. k \<noteq> w \<longrightarrow> accepted_in i d k = None"
      using assms(1) by (auto simp: answer_ok_def)
    obtain a' where a': "accepted_in i d' w = Some a'" "at_status a' = at_status a" "at_fence a' = at_fence a"
      using view [of w] a(1) by auto
    show ?thesis
      using Some assms(2-4) a a' by (auto simp: answer_ok_def none)
  qed
qed

lemma not_answered: "answer_ok d i r \<Longrightarrow> \<not> truthy (rw_completed_attempt r) \<Longrightarrow> rw_completed_attempt r = None"
  by (auto simp: answer_ok_def truthy_def split: option.splits)

lemma table_step_answers:
  assumes "table_step now ended db db'" and "numbered (db_attempts db)"
    and rows: "\<And>k a. dict_get (db_attempts db) k = Some a \<Longrightarrow> row_ok (db_requests db) (db_attempts db) t k a"
    and old: "\<And>i r. dict_get (db_requests db) i = Some r \<Longrightarrow> answer_ok (db_attempts db) i r"
    and new: "dict_get (db_requests db') i = Some r"
  shows "answer_ok (db_attempts db') i r"
  using assms(1)
proof cases
  case same
  then show ?thesis using old new by simp
next
  case (admit j q)
  have get_new: "dict_get (db_requests db') l = (if l = j then Some q else dict_get (db_requests db) l)" for l
    unfolding admit(7) by (rule dict_get_snoc [OF admit(2)])
  show ?thesis
  proof (cases "i = j")
    case True
    then have "r = q" using new get_new by simp
    moreover have "accepted_in j (db_attempts db) k = None" for k
      using rows [of k] admit(2) by (fastforce simp: accepted_in_def row_ok_def split: option.splits)
    ultimately show ?thesis using admit True by (simp add: answer_ok_def)
  next
    case False
    then show ?thesis using admit(8) old new get_new by simp
  qed
next
  case (opened j q k a)
  have get_new: "dict_get (db_attempts db') l = (if l = k then Some a else dict_get (db_attempts db) l)" for l
    unfolding opened(15) by (rule dict_get_snoc [OF opened(5)])
  have view: "accepted_in i (db_attempts db') l = accepted_in i (db_attempts db) l" for l
    using opened(5,10) by (auto simp: accepted_in_def get_new accepted_status_def)
  show ?thesis
  proof (cases "i = j")
    case True
    then have "r = q\<lparr>rw_status := Attempting\<rparr>" using opened new by (simp add: dict_get_set)
    then show ?thesis
      using not_answered [OF old [OF opened(2)] opened(3)]
      by (intro answer_frame [OF old [OF opened(2), folded True]]) (simp_all add: view)
  next
    case False
    then have "dict_get (db_requests db) i = Some r" using opened new by (simp add: dict_get_set)
    moreover have "length (attempts_in i (db_attempts db')) = length (attempts_in i (db_attempts db))"
      unfolding opened(15) using False opened(7) by (simp add: attempts_in_snoc)
    ultimately show ?thesis by (intro answer_frame [OF old [of i r]]) (simp_all add: view)
  qed
next
  case (reserved j q k b amount)
  have view: "map_option (\<lambda>a. (at_status a, at_fence a)) (accepted_in i (db_attempts db') l) =
      map_option (\<lambda>a. (at_status a, at_fence a)) (accepted_in i (db_attempts db) l)" for l
    using reserved(3,5,7) by (auto simp: accepted_in_def dict_get_set)
  have len: "length (attempts_in i (db_attempts db')) = length (attempts_in i (db_attempts db))"
    unfolding reserved(7) by (rule length_attempts_in_set [OF reserved(3)]) simp
  have q: "\<exists>q. dict_get (db_requests db) i = Some q \<and> rw_completed_attempt r = rw_completed_attempt q \<and> rw_status r = rw_status q"
    using reserved(2,6) new by (auto simp: dict_get_set split: if_splits)
  then show ?thesis
    using len by (elim exE conjE) (rule answer_frame [OF old], auto simp: view)
next
  case (restated j q status reason)
  show ?thesis
  proof (cases "i = j")
    case True
    then have "r = q\<lparr>rw_status := status, rw_failure_reason := reason\<rparr>" using restated new by (simp add: dict_get_set)
    then show ?thesis
      using not_answered [OF old [OF restated(2)] restated(3)] restated(4)
      by (intro answer_frame [OF old [OF restated(2), folded True]]) (auto simp: restated(6))
  next
    case False
    then show ?thesis using old new restated(5,6) by (simp add: dict_get_set)
  qed
next
  case (reconciled j q k b cost)
  have view: "map_option (\<lambda>a. (at_status a, at_fence a)) (accepted_in i (db_attempts db') l) =
      map_option (\<lambda>a. (at_status a, at_fence a)) (accepted_in i (db_attempts db) l)" for l
    using reconciled(3,8) by (auto simp: accepted_in_def dict_get_set)
  have len: "length (attempts_in i (db_attempts db')) = length (attempts_in i (db_attempts db))"
    unfolding reconciled(8) by (rule length_attempts_in_set [OF reconciled(3)]) simp
  have q: "\<exists>q. dict_get (db_requests db) i = Some q \<and> rw_completed_attempt r = rw_completed_attempt q \<and> rw_status r = rw_status q"
    using reconciled(2,7) new by (auto simp: dict_get_set split: if_splits)
  then show ?thesis
    using len by (elim exE conjE) (rule answer_frame [OF old], auto simp: view)
next
  case (finished j q k b x artifact)
  let ?b = "b\<lparr>at_status := ia_status x, at_total := ia_total_cost_usd x, at_artifact := artifact, at_json := x\<rparr>"
  have len: "length (attempts_in i (db_attempts db')) = length (attempts_in i (db_attempts db))"
    unfolding finished(11) by (rule length_attempts_in_set [OF finished(3)]) simp
  have view: "accepted_in i (db_attempts db') l = accepted_in i (db_attempts db) l"
    if "l \<noteq> k \<or> i \<noteq> j \<or> \<not> accepted_status (ia_status x)" for l
    using that finished(3,4,5,11) by (auto simp: accepted_in_def dict_get_set accepted_status_def)
  show ?thesis
  proof (cases "i = j")
    case False
    then have "dict_get (db_requests db) i = Some r" using finished(10) new by (simp add: dict_get_set)
    then show ?thesis using False by (intro answer_frame [OF old [of i r]]) (simp_all add: view len)
  next
    case True
    then have r: "r = finished_request q b x artifact now" using finished(10) new by (simp add: dict_get_set)
    show ?thesis
    proof (cases "accepted_status (ia_status x)")
      case False
      then show ?thesis unfolding r
        by (intro answer_frame [OF old [OF finished(2), folded True]]) (simp_all add: view len finished_request_def Let_def)
    next
      case acc: True
      then have x: "ia_status x = SemanticAccepted" using finished(7) by (auto simp: accepted_status_def)
      have q: "rw_completed_attempt q = None" "at_fence b = length (attempts_in i (db_attempts db))"
        using acc finished(9) not_answered [OF old [OF finished(2)]] numbered_newest(1) [OF assms(2)] True
        by (simp_all add: attempts_of_in)
      have "accepted_in i (db_attempts db') l = None" if "l \<noteq> k" for l
        using q(1) old [OF finished(2)] that view [of l] True by (simp add: answer_ok_def)
      moreover have "accepted_in i (db_attempts db') k = Some ?b"
        using finished(4,11) acc True by (simp add: accepted_in_def dict_get_set)
      ultimately show ?thesis
        using rows [OF finished(3)] acc x finished(6) q(2)
        by (simp add: answer_ok_def r finished_request_def Let_def len row_ok_def)
    qed
  qed
next
  case (promoted j q k b)
  let ?b = "b\<lparr>at_status := DecisionUseful, at_json := (at_json b)\<lparr>ia_status := DecisionUseful\<rparr>\<rparr>"
  have len: "length (attempts_in i (db_attempts db')) = length (attempts_in i (db_attempts db))"
    unfolding promoted(8) by (rule length_attempts_in_set [OF promoted(3)]) simp
  have view: "accepted_in i (db_attempts db') l = accepted_in i (db_attempts db) l" if "l \<noteq> k \<or> i \<noteq> j" for l
    using that promoted(3,4,8) by (auto simp: accepted_in_def dict_get_set)
  show ?thesis
  proof (cases "i = j")
    case False
    then have "dict_get (db_requests db) i = Some r" using promoted(7) new by (simp add: dict_get_set)
    then show ?thesis using False by (intro answer_frame [OF old [of i r]]) (simp_all add: view len)
  next
    case True
    then have r: "r = q\<lparr>rw_status := Useful\<rparr>" using promoted(7) new by (simp add: dict_get_set)
    have q: "k \<noteq> []" "\<forall>l. l \<noteq> k \<longrightarrow> accepted_in i (db_attempts db) l = None" "at_fence b = length (attempts_in i (db_attempts db))"
      using old [OF promoted(2)] promoted(3,4,5) True by (auto simp: answer_ok_def accepted_in_def split: if_splits)
    moreover have "accepted_in i (db_attempts db') k = Some ?b"
      using promoted(4,8) True by (simp add: accepted_in_def dict_get_set accepted_status_def)
    ultimately show ?thesis using promoted(5) view by (simp add: answer_ok_def r len)
  qed
qed

section \<open>Invariants of a history\<close>

definition infer_inv :: "'h infer_params \<Rightarrow> int \<Rightarrow> 'h idb \<Rightarrow> bool" where
  "infer_inv P t db \<longleftrightarrow> infer_ok t db \<and> settled db \<and> versions_logged (ip_hashing P) (db_store db)"

lemma infer_inv_empty: "infer_inv P t empty_idb"
  by (simp add: infer_inv_def infer_ok_def settled_def empty_idb_def numbered_def attempts_in_def versions_logged_empty)

lemma table_step_settled:
  assumes "table_step now ended db db'" and "settled db" and "extends (db_store db) (db_store db')"
    and "\<And>k. ended = Some k \<Longrightarrow> find_operation (db_store db') (''inference-finish:'' @ k) \<noteq> None"
    and status: "\<And>k a. dict_get (db_attempts db) k = Some a \<Longrightarrow> ia_status (at_json a) = at_status a"
  shows "settled db'"
proof -
  have kept: "find_operation (db_store db') (''inference-finish:'' @ k) \<noteq> None"
    if "dict_get (db_attempts db) k = Some a" "at_status a \<noteq> Created" for k a
  proof -
    have "find_operation (db_store db) (''inference-finish:'' @ k) \<noteq> None"
      using assms(2) that unfolding settled_def by blast
    then obtain e where "find_operation (db_store db) (''inference-finish:'' @ k) = Some e"
      unfolding not_None_eq by (rule exE)
    from find_operation_extends [OF this assms(3)] show ?thesis by (rule ssubst) (rule option.distinct(2))
  qed
  show ?thesis
    unfolding settled_def
  proof (intro allI impI)
    fix k a
    assume row: "dict_get (db_attempts db') k = Some a" "at_status a \<noteq> Created"
    have "ended = Some k \<or> (\<exists>b. dict_get (db_attempts db) k = Some b \<and> at_status b \<noteq> Created)"
      using assms(1)
    proof cases
      case (opened i r j b)
      have "dict_get (db_attempts db') k = (if k = j then Some b else dict_get (db_attempts db) k)"
        unfolding opened(15) by (rule dict_get_snoc [OF opened(5)])
      then have "dict_get (db_attempts db) k = Some a" using row opened(10) by (cases "k = j") simp_all
      then show ?thesis using row(2) by blast
    next
      case (promoted i r j b)
      then show ?thesis using row status [OF promoted(3)] by (cases "k = j") (simp_all add: dict_get_set)
    next
      case (finished i r j b x artifact)
      then show ?thesis using row by (cases "k = j") (simp_all add: dict_get_set)
    next
      case (reserved i r j b amount)
      show ?thesis using row reserved(3,5,7) by (cases "k = j") (auto simp: dict_get_set)
    next
      case (reconciled i r j b cost)
      show ?thesis using row reconciled(3,8) by (cases "k = j") (auto simp: dict_get_set)
    qed (use row in simp_all)
    then show "find_operation (db_store db') (''inference-finish:'' @ k) \<noteq> None"
      using assms(4) kept by blast
  qed
qed

lemma infer_inv_step:
  assumes "infer_step P t' db db'" and "t \<le> t'" and "infer_inv P t db" and "inj (h_request (ip_hashing P))"
  shows "infer_inv P t' db'"
proof -
  have inv: "infer_ok t db" "settled db" "versions_logged (ip_hashing P) (db_store db)"
    using assms(3) by (auto simp: infer_inv_def)
  note ok = inv(1) [unfolded infer_ok_def]
  obtain ended where step: "table_step t' ended db db'"
    and ends: "\<And>k. ended = Some k \<Longrightarrow> find_operation (db_store db') (''inference-finish:'' @ k) \<noteq> None"
    and run: "(store_step (ip_hashing P))\<^sup>*\<^sup>* (db_store db) (db_store db')"
    using infer_step_stepped [OF assms(1) inv(2,3) assms(4)] unfolding stepped_def by blast
  have rows: "row_ok (db_requests db) (db_attempts db) t k a" if "dict_get (db_attempts db) k = Some a" for k a
    using ok that by blast
  have status: "ia_status (at_json a) = at_status a" if "dict_get (db_attempts db) k = Some a" for k a
    using rows [OF that] by (simp add: row_ok_def)
  have "infer_ok t' db'"
    unfolding infer_ok_def
    using table_step_distinct [OF step] table_step_numbered [OF step] table_step_rows [OF step _ assms(2) rows]
      table_step_answers [OF step _ rows] ok by blast
  moreover have "settled db'"
    by (rule table_step_settled [OF step inv(2) extends_reachable [OF run] ends status])
  ultimately show ?thesis
    using versions_logged_run [OF run inv(3)] by (simp add: infer_inv_def)
qed

lemma infer_run_time: "infer_run P db t db' t' \<Longrightarrow> t \<le> t'"
  by (induction rule: infer_run.induct) auto

lemma infer_inv_run:
  assumes "infer_run P db t db' t'" and "infer_inv P t db" and "inj (h_request (ip_hashing P))"
  shows "infer_inv P t' db'"
  using assms(1) by (induction rule: infer_run.induct) (auto intro: assms(2) infer_inv_step [OF _ _ _ assms(3)])

lemma newest_only:
  assumes "numbered d" and "\<And>a. a \<in> set (attempts_in i d) \<Longrightarrow> Q a \<Longrightarrow> at_fence a = length (attempts_in i d)"
  shows "length (List.filter Q (attempts_in i d)) \<le> 1"
proof -
  let ?ys = "List.filter Q (attempts_in i d)"
  have "set (map at_fence ?ys) \<subseteq> {length (attempts_in i d)}" using assms(2) by auto
  moreover have "distinct (map at_fence (attempts_in i d))"
    using assms(1) by (simp only: numbered_def distinct_upt)
  then have "distinct (map at_fence ?ys)" by (rule distinct_map_filter)
  then have "card (set (map at_fence ?ys)) = length ?ys" using distinct_card by fastforce
  moreover have "card (set (map at_fence ?ys)) \<le> card {length (attempts_in i d)}"
    using calculation(1) by (rule card_mono [rotated]) simp
  ultimately show ?thesis by simp
qed

lemma newest_last:
  assumes "numbered d" and "a \<in> set (attempts_in i d)" and "at_fence a = length (attempts_in i d)"
  shows "last (attempts_in i d) = a"
proof -
  let ?xs = "attempts_in i d"
  obtain j where j: "j < length ?xs" "?xs ! j = a" using assms(2) by (auto simp: in_set_conv_nth)
  have "map at_fence ?xs ! j = [1..<Suc (length ?xs)] ! j" using assms(1) by (simp only: numbered_def)
  then have "Suc j = length ?xs" using j assms(3) by (simp del: upt_Suc)
  then show ?thesis using j by (metis diff_Suc_1 last_conv_nth list.size(3) not_less_zero)
qed

lemma infer_inv_rows:
  assumes "infer_inv P t db"
  shows "numbered (db_attempts db)"
    and "a \<in> set (attempts_in i (db_attempts db)) \<Longrightarrow>
      \<exists>k. dict_get (db_attempts db) k = Some a \<and> at_request a = i \<and> row_ok (db_requests db) (db_attempts db) t k a"
    and "dict_get (db_requests db) i = Some r \<Longrightarrow> answer_ok (db_attempts db) i r"
proof -
  have ok: "numbered (db_attempts db)" "distinct (dict_keys (db_attempts db))"
      "\<And>k a. dict_get (db_attempts db) k = Some a \<Longrightarrow> row_ok (db_requests db) (db_attempts db) t k a"
      "\<And>i r. dict_get (db_requests db) i = Some r \<Longrightarrow> answer_ok (db_attempts db) i r"
    using assms unfolding infer_inv_def infer_ok_def by blast+
  show "numbered (db_attempts db)" by (rule ok(1))
  show "a \<in> set (attempts_in i (db_attempts db)) \<Longrightarrow>
      \<exists>k. dict_get (db_attempts db) k = Some a \<and> at_request a = i \<and> row_ok (db_requests db) (db_attempts db) t k a"
    unfolding attempts_in_get [OF ok(2)] using ok(3) by blast
  show "dict_get (db_requests db) i = Some r \<Longrightarrow> answer_ok (db_attempts db) i r" by (rule ok(4))
qed

lemma one_open_lease:
  assumes "infer_inv P t db"
  shows "length (List.filter (\<lambda>a. at_status a = Created \<and> t < at_until a) (attempts_of i db)) \<le> 1"
  unfolding attempts_of_in
proof (rule newest_only [OF infer_inv_rows(1) [OF assms]])
  fix a
  assume a: "a \<in> set (attempts_in i (db_attempts db))" "at_status a = Created \<and> t < at_until a"
  then obtain k where "dict_get (db_attempts db) k = Some a" "at_request a = i"
      "row_ok (db_requests db) (db_attempts db) t k a"
    using infer_inv_rows(2) [OF assms] by blast
  then show "at_fence a = length (attempts_in i (db_attempts db))"
    using a(2) fence_bound [OF infer_inv_rows(1) [OF assms], of k a] by (auto simp: row_ok_def)
qed

lemma answered_once:
  assumes "infer_inv P t db" and "dict_get (db_requests db) i = Some r"
  shows "case rw_completed_attempt r of
      None \<Rightarrow> rw_status r \<in> {Admitted, Attempting, Asleep} \<and>
        List.filter (\<lambda>a. accepted_status (at_status a)) (attempts_of i db) = []
    | Some w \<Rightarrow> \<exists>a. dict_get (db_attempts db) w = Some a \<and> accepted_status (at_status a) \<and>
        rw_status r = (if at_status a = DecisionUseful then Useful else Accepted) \<and>
        last (attempts_of i db) = a \<and>
        length (List.filter (\<lambda>a. accepted_status (at_status a)) (attempts_of i db)) = 1"
proof -
  note inv = infer_inv_rows [OF assms(1)]
  have ok: "answer_ok (db_attempts db) i r" by (rule inv(3) [OF assms(2)])
  have accepted: "\<exists>k. accepted_in i (db_attempts db) k = Some a"
    if "a \<in> set (attempts_in i (db_attempts db))" "accepted_status (at_status a)" for a
  proof -
    from inv(2) [OF that(1)] obtain k where "dict_get (db_attempts db) k = Some a" "at_request a = i" by blast
    then show ?thesis using that(2) by (intro exI [of _ k]) (simp add: accepted_in_def)
  qed
  show ?thesis
  proof (cases "rw_completed_attempt r")
    case None
    then show ?thesis using ok accepted by (force simp: answer_ok_def attempts_of_in filter_empty_conv)
  next
    case (Some w)
    then obtain a where a: "accepted_in i (db_attempts db) w = Some a"
        "at_fence a = length (attempts_in i (db_attempts db))"
        "rw_status r = (if at_status a = DecisionUseful then Useful else Accepted)"
        "\<And>k. k \<noteq> w \<Longrightarrow> accepted_in i (db_attempts db) k = None"
      using ok by (auto simp: answer_ok_def)
    have row: "dict_get (db_attempts db) w = Some a" "at_request a = i" "accepted_status (at_status a)"
      using a(1) by (auto simp: accepted_in_def split: option.splits if_splits)
    have mem: "a \<in> set (attempts_in i (db_attempts db))" using in_attempts_in [OF row(1)] row(2) by simp
    have only: "b = a" if "b \<in> set (attempts_in i (db_attempts db))" "accepted_status (at_status b)" for b
      using accepted [OF that] a(1,4) by (metis option.distinct(1) option.inject)
    have "length (List.filter (\<lambda>a. accepted_status (at_status a)) (attempts_in i (db_attempts db))) \<le> 1"
      by (rule newest_only [OF inv(1)]) (use only a(2) in blast)
    moreover have "List.filter (\<lambda>a. accepted_status (at_status a)) (attempts_in i (db_attempts db)) \<noteq> []"
      using mem row(3) by (auto simp: filter_empty_conv)
    then have "0 < length (List.filter (\<lambda>a. accepted_status (at_status a)) (attempts_in i (db_attempts db)))"
      by (rule length_greater_0_conv [THEN iffD2])
    ultimately have "length (List.filter (\<lambda>a. accepted_status (at_status a)) (attempts_in i (db_attempts db))) = 1"
      by linarith
    then show ?thesis
      using Some row a(3) newest_last [OF inv(1) mem a(2)] by (simp add: attempts_of_in)
  qed
qed

text \<open>The answer of a request: its row and the row of the attempt that answered it.\<close>

definition winner_of :: "string \<Rightarrow> 'h idb \<Rightarrow> (request_row \<times> attempt_row) option" where
  "winner_of i db =
     (case dict_get (db_requests db) i of
        None \<Rightarrow> None
      | Some r \<Rightarrow> (case rw_completed_attempt r of
            None \<Rightarrow> None
          | Some w \<Rightarrow> map_option (Pair r) (dict_get (db_attempts db) w)))"

definition same_answer :: "(request_row \<times> attempt_row) \<Rightarrow> (request_row \<times> attempt_row) \<Rightarrow> bool" where
  "same_answer p q \<longleftrightarrow>
     rw_completed_attempt (fst q) = rw_completed_attempt (fst p) \<and>
     rw_final_artifact (fst q) = rw_final_artifact (fst p) \<and>
     ia_output_artifact (at_json (snd q)) = ia_output_artifact (at_json (snd p)) \<and>
     ia_route_id (at_json (snd q)) = ia_route_id (at_json (snd p)) \<and>
     (isl (mk_inference_attempt (at_json (snd q))) \<longrightarrow> isl (mk_inference_attempt (at_json (snd p))))"

lemma same_answer_refl: "same_answer p p"
  by (simp add: same_answer_def)

lemma same_answer_trans: "same_answer p q \<Longrightarrow> same_answer q s \<Longrightarrow> same_answer p s"
  by (auto simp: same_answer_def)

lemma winner_of_Some:
  "winner_of i db = Some (r, a) \<longleftrightarrow> dict_get (db_requests db) i = Some r \<and>
     (\<exists>w. rw_completed_attempt r = Some w \<and> dict_get (db_attempts db) w = Some a)"
  by (auto simp: winner_of_def split: option.splits)

lemma winner_kept:
  assumes "dict_get (db_requests db') i = Some r'" and "dict_get (db_attempts db') w = Some a'"
    and "rw_completed_attempt r' = Some w" and "same_answer (r, a) (r', a')"
    and "length (attempts_in i (db_attempts db')) = length (attempts_in i (db_attempts db))"
  shows "\<exists>q. winner_of i db' = Some q \<and> same_answer (r, a) q \<and> length (attempts_of i db') = length (attempts_of i db)"
  by (rule exI [of _ "(r', a')"]) (use assms in \<open>simp add: winner_of_Some attempts_of_in\<close>)

lemma mk_inference_attempt_cost:
  "0 \<le> c \<Longrightarrow> isl (mk_inference_attempt (x\<lparr>ia_provider_reported_cost_usd := Some c, ia_total_cost_usd := c\<rparr>)) \<Longrightarrow>
   isl (mk_inference_attempt x)"
  "isl (mk_inference_attempt (x\<lparr>ia_status := s\<rparr>)) = isl (mk_inference_attempt x)"
  by (auto simp: mk_inference_attempt_def require_def split: if_splits)

lemma table_step_final:
  assumes step: "table_step now ended db db'" and inv: "infer_inv P t db" and win: "winner_of i db = Some (r, a)"
  shows "\<exists>q. winner_of i db' = Some q \<and> same_answer (r, a) q \<and> length (attempts_of i db') = length (attempts_of i db)"
proof -
  obtain w where r: "dict_get (db_requests db) i = Some r" "rw_completed_attempt r = Some w"
    and a: "dict_get (db_attempts db) w = Some a"
    using win by (auto simp: winner_of_Some)
  have w: "w \<noteq> []" "accepted_status (at_status a)" "at_request a = i"
    using infer_inv_rows(3) [OF inv r(1)] r(2) a by (auto simp: answer_ok_def accepted_in_def split: if_splits)
  then have truthy: "truthy (rw_completed_attempt r)" using r(2) by (simp add: truthy_def)
  show ?thesis
    using step
  proof cases
    case same
    then show ?thesis using r a by (intro winner_kept [of _ _ r w a]) (simp_all add: same_answer_refl)
  next
    case (admit j q)
    have "dict_get (db_requests db') i = Some r"
      unfolding admit(7) using r(1) admit(2) by (subst dict_get_snoc [OF admit(2)]) auto
    then show ?thesis using admit(8) r a by (intro winner_kept [of _ _ r w a]) (simp_all add: same_answer_refl)
  next
    case (opened j q k b)
    then have "i \<noteq> j" using truthy r(1) by auto
    moreover have "dict_get (db_attempts db') w = Some a"
      unfolding opened(15) using a opened(5) by (subst dict_get_snoc [OF opened(5)]) auto
    ultimately show ?thesis
      using opened(7,14,15) r by (intro winner_kept [of _ _ r w a]) (simp_all add: dict_get_set same_answer_refl attempts_in_snoc)
  next
    case (reserved j q k b amount)
    let ?r = "if i = j then q\<lparr>rw_reserved := dadd (dsub (rw_reserved q) (at_total b)) amount\<rparr> else r"
    let ?a = "if w = k then b\<lparr>at_total := amount\<rparr> else a"
    show ?thesis
      by (rule winner_kept [of _ _ ?r w ?a])
        (use reserved(2,3,6,7) r a in \<open>auto simp: dict_get_set same_answer_def length_attempts_in_set\<close>)
  next
    case (finished j q k b x artifact)
    then have "k \<noteq> w" using a w(2) by (auto simp: accepted_status_def)
    moreover have "i = j \<Longrightarrow> \<not> accepted_status (ia_status x)" using finished(2,9) truthy r(1) by auto
    ultimately show ?thesis
      by (intro winner_kept [of _ _ "if i = j then finished_request q b x artifact now else r" w a])
        (use finished(2-4,10,11) r a in
          \<open>auto simp: dict_get_set same_answer_def length_attempts_in_set finished_request_def Let_def\<close>)
  next
    case (restated j q status reason)
    then have "i \<noteq> j" using truthy r(1) by auto
    then show ?thesis
      using restated(5,6) r a by (intro winner_kept [of _ _ r w a]) (simp_all add: dict_get_set same_answer_refl)
  next
    case (reconciled j q k b cost)
    let ?r = "if i = j then q\<lparr>rw_accrued := dadd (dsub (rw_accrued q) (ia_total_cost_usd (at_json b))) cost\<rparr> else r"
    let ?a = "if w = k then b\<lparr>at_total := cost, at_json := (at_json b)
         \<lparr>ia_provider_reported_cost_usd := Some cost, ia_total_cost_usd := cost\<rparr>\<rparr> else a"
    show ?thesis
      by (rule winner_kept [of _ _ ?r w ?a])
        (use reconciled(2,3,6-8) r a in
          \<open>auto simp: dict_get_set same_answer_def length_attempts_in_set intro: mk_inference_attempt_cost\<close>)
  next
    case (promoted j q k b)
    let ?r = "if i = j then q\<lparr>rw_status := Useful\<rparr> else r"
    let ?a = "if w = k then b\<lparr>at_status := DecisionUseful, at_json := (at_json b)\<lparr>ia_status := DecisionUseful\<rparr>\<rparr> else a"
    show ?thesis
      by (rule winner_kept [of _ _ ?r w ?a])
        (use promoted(2,3,7,8) r a in
          \<open>auto simp: dict_get_set same_answer_def length_attempts_in_set mk_inference_attempt_cost(2)\<close>)
  qed
qed

lemma infer_step_table:
  assumes "infer_step P t' db db'" and "infer_inv P t db" and "inj (h_request (ip_hashing P))"
  obtains ended where "table_step t' ended db db'"
  using infer_step_stepped [OF assms(1) _ _ assms(3)] assms(2) unfolding stepped_def infer_inv_def by blast

lemma winner_run:
  assumes "infer_run P db t db' t'" and "infer_inv P t db" and "inj (h_request (ip_hashing P))"
    and "winner_of i db = Some p"
  shows "\<exists>q. winner_of i db' = Some q \<and> same_answer p q \<and> length (attempts_of i db') = length (attempts_of i db)"
  using assms(1)
proof (induction rule: infer_run.induct)
  case start
  then show ?case using assms(4) by (simp add: same_answer_refl)
next
  case (step db1 t1 t2 db2)
  from step.IH obtain r a where 1: "winner_of i db1 = Some (r, a)" "same_answer p (r, a)"
      "length (attempts_of i db1) = length (attempts_of i db)" by auto
  have inv: "infer_inv P t1 db1" by (rule infer_inv_run [OF step.hyps(1) assms(2,3)])
  obtain ended where "table_step t2 ended db1 db2" by (rule infer_step_table [OF step.hyps(3) inv assms(3)])
  from table_step_final [OF this inv 1(1)] show ?case using 1(2,3) same_answer_trans by fastforce
qed

lemma completed_result_winner:
  "completed_result actor i db = Inr (Some res) \<longleftrightarrow> require_inference actor = Inr () \<and>
     (\<exists>r a. winner_of i db = Some (r, a) \<and> \<not> isl (mk_inference_attempt (at_json a)) \<and>
        res = \<lparr>ir_request_id = i, ir_status = ia_status (at_json a), ir_artifact = ia_output_artifact (at_json a),
               ir_failure_reason = None, ir_route_id = Some (ia_route_id (at_json a))\<rparr>)"
  by (auto simp: completed_result_def winner_of_def rbind_eq_Inr mk_inference_attempt_def require_def
      split: option.splits if_splits)

section \<open>Amounts\<close>

definition open_amount :: "attempt_row \<Rightarrow> rat" where
  "open_amount a = (if at_status a = Created then at_total a else 0)"

definition ended_amount :: "attempt_row \<Rightarrow> rat" where
  "ended_amount a = (if at_status a \<noteq> Created then at_total a else 0)"

text \<open>
  Amounts in whole micro-dollars, of less than \<open>10 ^ 21\<close> dollars together for a request: they
  fit into the 28 digits of a \<open>Decimal\<close>.
\<close>

definition micro :: "rat \<Rightarrow> bool" where
  "micro x \<longleftrightarrow> (\<exists>n. x = of_int n / 10 ^ 6)"

definition priced :: "'h idb \<Rightarrow> bool" where
  "priced db \<longleftrightarrow> (\<forall>i. (\<forall>a \<in> set (attempts_of i db). 0 \<le> at_total a \<and> micro (at_total a)) \<and>
     (\<Sum>a\<leftarrow>attempts_of i db. at_total a) \<le> 10 ^ 21)"

inductive priced_run :: "'h infer_params \<Rightarrow> 'h idb \<Rightarrow> int \<Rightarrow> 'h idb \<Rightarrow> int \<Rightarrow> bool" for P db t where
  start: "priced db \<Longrightarrow> priced_run P db t db t"
| step: "priced_run P db t db1 t1 \<Longrightarrow> t1 \<le> t2 \<Longrightarrow> infer_step P t2 db1 db2 \<Longrightarrow> priced db2 \<Longrightarrow> priced_run P db t db2 t2"

definition summed :: "'h idb \<Rightarrow> bool" where
  "summed db \<longleftrightarrow> (\<forall>i r. dict_get (db_requests db) i = Some r \<longrightarrow>
     rw_reserved r = (\<Sum>a\<leftarrow>attempts_of i db. open_amount a) \<and>
     rw_accrued r = (\<Sum>a\<leftarrow>attempts_of i db. ended_amount a))"

lemma micro_diff: "micro x \<Longrightarrow> micro y \<Longrightarrow> micro (x - y)"
  unfolding micro_def by (metis diff_divide_distrib of_int_diff)

lemma micro_sum: "(\<And>x. x \<in> set xs \<Longrightarrow> micro (f x)) \<Longrightarrow> micro (\<Sum>x\<leftarrow>xs. f x)"
proof (induction xs)
  case Nil
  show ?case by (auto simp: micro_def intro: exI [of _ 0])
next
  case (Cons x xs)
  then have "micro (f x)" "micro (\<Sum>x\<leftarrow>xs. f x)" by auto
  then show ?case unfolding micro_def by (metis add_divide_distrib list.simps(9) of_int_add sum_list.Cons)
qed

lemma micro_fits: "micro x \<Longrightarrow> 0 \<le> x \<Longrightarrow> x \<le> 10 ^ 21 \<Longrightarrow> fits x"
  unfolding micro_def
proof (elim exE)
  fix n
  assume x: "0 \<le> x" "x \<le> 10 ^ 21" "x = of_int n / 10 ^ 6"
  then have "0 \<le> (of_int n :: rat)" "of_int n \<le> (10 ^ 27 :: rat)" by (auto simp: field_simps)
  then have "0 \<le> n" "n \<le> 10 ^ 27" by (metis of_int_0_le_iff, metis of_int_le_iff of_int_numeral of_int_power)
  then show "fits x" unfolding x(3) by (intro fits_scaled) simp
qed

lemma sum_attempts_set:
  fixes f :: "attempt_row \<Rightarrow> rat"
  assumes "dict_get d k = Some b" and "at_request b' = at_request b"
  shows "(\<Sum>a\<leftarrow>attempts_in i (dict_set k b' d). f a) =
    (\<Sum>a\<leftarrow>attempts_in i d. f a) + (if at_request b = i then f b' - f b else 0)"
  using assms by (induction d) (auto simp: attempts_in_def split: if_splits)

lemma member_le_amounts:
  "x \<in> set xs \<Longrightarrow> (\<And>y. y \<in> set xs \<Longrightarrow> 0 \<le> f y) \<Longrightarrow> f x \<le> (\<Sum>y\<leftarrow>xs. f y :: rat)"
proof (induction xs)
  case (Cons y ys)
  have "0 \<le> (\<Sum>y\<leftarrow>ys. f y)" by (rule sum_list_nonneg) (use Cons.prems in auto)
  then show ?case using Cons by (fastforce intro: add_increasing)
qed simp

lemma priced_sums:
  assumes "priced db"
  shows "fits (\<Sum>a\<leftarrow>attempts_of i db. open_amount a)" "fits (\<Sum>a\<leftarrow>attempts_of i db. ended_amount a)"
    "b \<in> set (attempts_of i db) \<Longrightarrow> fits ((\<Sum>a\<leftarrow>attempts_of i db. open_amount a) - open_amount b)"
    "b \<in> set (attempts_of i db) \<Longrightarrow> fits ((\<Sum>a\<leftarrow>attempts_of i db. ended_amount a) - ended_amount b)"
proof -
  have *: "fits (\<Sum>a\<leftarrow>attempts_of i db. f a)"
      "b \<in> set (attempts_of i db) \<Longrightarrow> fits ((\<Sum>a\<leftarrow>attempts_of i db. f a) - f b)"
    if f: "\<And>a. f a = at_total a \<or> f a = 0" for f
  proof -
    have each: "0 \<le> f a \<and> micro (f a) \<and> f a \<le> at_total a" if "a \<in> set (attempts_of i db)" for a
      using assms that f [of a] unfolding priced_def micro_def by (metis div_0 of_int_0 order_refl)
    have "(\<Sum>a\<leftarrow>attempts_of i db. f a) \<le> (\<Sum>a\<leftarrow>attempts_of i db. at_total a)"
      by (rule sum_list_mono) (use each in blast)
    also have "\<dots> \<le> 10 ^ 21" using assms by (simp add: priced_def)
    finally have le: "(\<Sum>a\<leftarrow>attempts_of i db. f a) \<le> 10 ^ 21" .
    have m: "micro (\<Sum>a\<leftarrow>attempts_of i db. f a)" by (rule micro_sum) (use each in blast)
    have "0 \<le> (\<Sum>a\<leftarrow>attempts_of i db. f a)" by (rule sum_list_nonneg) (use each in auto)
    then show "fits (\<Sum>a\<leftarrow>attempts_of i db. f a)" by (rule micro_fits [OF m _ le])
    show "fits ((\<Sum>a\<leftarrow>attempts_of i db. f a) - f b)" if b: "b \<in> set (attempts_of i db)"
    proof (rule micro_fits [OF micro_diff [OF m]])
      show "micro (f b)" using each [OF b] by blast
      have "f b \<le> (\<Sum>a\<leftarrow>attempts_of i db. f a)"
        using b each by (intro member_le_amounts) auto
      then show "0 \<le> (\<Sum>a\<leftarrow>attempts_of i db. f a) - f b" by simp
      show "(\<Sum>a\<leftarrow>attempts_of i db. f a) - f b \<le> 10 ^ 21" using le each [OF b] by linarith
    qed
  qed
  show "fits (\<Sum>a\<leftarrow>attempts_of i db. open_amount a)" "fits (\<Sum>a\<leftarrow>attempts_of i db. ended_amount a)"
    "b \<in> set (attempts_of i db) \<Longrightarrow> fits ((\<Sum>a\<leftarrow>attempts_of i db. open_amount a) - open_amount b)"
    "b \<in> set (attempts_of i db) \<Longrightarrow> fits ((\<Sum>a\<leftarrow>attempts_of i db. ended_amount a) - ended_amount b)"
    by (rule *; simp add: open_amount_def ended_amount_def)+
qed

lemma table_step_summed:
  assumes step: "table_step now ended db db'" and inv: "infer_inv P t db" and sums: "summed db"
    and priced: "priced db" "priced db'"
  shows "summed db'"
  unfolding summed_def
proof (intro allI impI)
  fix i r
  assume new: "dict_get (db_requests db') i = Some r"
  let ?open = "\<lambda>db. \<Sum>a\<leftarrow>attempts_of i db. open_amount a" and ?ended = "\<lambda>db. \<Sum>a\<leftarrow>attempts_of i db. ended_amount a"
  have old: "rw_reserved r = ?open db \<and> rw_accrued r = ?ended db" if "dict_get (db_requests db) i = Some r" for r
    using sums that by (simp add: summed_def)
  have mem: "a \<in> set (attempts_of i db)" if "dict_get (db_attempts db) k = Some a" "at_request a = i" for k a
    using in_attempts_in [OF that(1)] that(2) by (simp add: attempts_of_in)
  have row: "row_ok (db_requests db) (db_attempts db) t k a" if "dict_get (db_attempts db) k = Some a" for k a
    using inv that unfolding infer_inv_def infer_ok_def by blast
  note fit = priced_sums(3,4) [OF priced(1), of _ i] priced_sums(1,2) [OF priced(2), of i]
  show "rw_reserved r = ?open db' \<and> rw_accrued r = ?ended db'"
    using step
  proof cases
    case same
    then show ?thesis using old new by (simp add: attempts_of_in)
  next
    case (admit j q)
    have get: "dict_get (db_requests db') i = (if i = j then Some q else dict_get (db_requests db) i)"
      unfolding admit(7) by (rule dict_get_snoc [OF admit(2)])
    have none: "attempts_of j db = []"
    proof (rule ccontr)
      assume "attempts_of j db \<noteq> []"
      then have "hd (attempts_of j db) \<in> set (attempts_in j (db_attempts db))" by (simp add: attempts_of_in)
      from infer_inv_rows(2) [OF inv this] admit(2) show False by (auto simp: row_ok_def)
    qed
    show ?thesis
    proof (cases "i = j")
      case True
      then have "r = q" using get new by simp
      then show ?thesis using admit(5,6,8) none True by (simp add: attempts_of_in)
    next
      case False
      then show ?thesis using get new old admit(8) by (simp add: attempts_of_in)
    qed
  next
    case (opened j q k a)
    have "rw_reserved r = ?open db \<and> rw_accrued r = ?ended db"
      using opened(2,14) new old by (cases "i = j") (auto simp: dict_get_set)
    then show ?thesis
      by (simp add: attempts_of_in opened(10,11,15) attempts_in_snoc open_amount_def ended_amount_def)
  next
    case (restated j q status reason)
    then show ?thesis using old new by (cases "i = j") (auto simp: attempts_of_in dict_get_set)
  next
    case (reserved j q k b amount)
    note change = sum_attempts_set [OF reserved(3), of "b\<lparr>at_total := amount\<rparr>" _ i, folded reserved(7), folded attempts_of_in]
    show ?thesis
    proof (cases "i = j")
      case True
      then have b: "b \<in> set (attempts_of i db)" using mem reserved(3,4) by blast
      have open': "?open db' = ?open db - at_total b + amount" "?ended db' = ?ended db"
        using change [of open_amount] change [of ended_amount] reserved(4,5) True
        by (simp_all add: open_amount_def ended_amount_def)
      have "dsub (?open db) (at_total b) = ?open db - at_total b"
        using fit(1) [OF b] reserved(5) by (intro dsub_exact) (simp add: open_amount_def)
      moreover have "dadd (?open db - at_total b) amount = ?open db - at_total b + amount"
        using fit(3) open'(1) by (intro dadd_exact) simp
      ultimately show ?thesis
        using old [of q] reserved(2,6) new True open' by (auto simp: dict_get_set)
    next
      case False
      then show ?thesis using old new reserved(4,6) change by (simp add: dict_get_set)
    qed
  next
    case (finished j q k b x artifact)
    note change = sum_attempts_set [OF finished(3), of "b\<lparr>at_status := ia_status x, at_total := ia_total_cost_usd x,
      at_artifact := artifact, at_json := x\<rparr>" _ i, folded finished(11), folded attempts_of_in]
    have ended: "ia_status x \<noteq> Created" using finished(7) by auto
    show ?thesis
    proof (cases "i = j")
      case True
      then have b: "b \<in> set (attempts_of i db)" using mem finished(3,4) by blast
      have sums': "?open db' = ?open db - at_total b" "?ended db' = ?ended db + ia_total_cost_usd x"
        using change [of open_amount] change [of ended_amount] finished(4,5) True ended
        by (simp_all add: open_amount_def ended_amount_def)
      have "dsub (?open db) (at_total b) = ?open db - at_total b"
        using fit(3) sums'(1) by (intro dsub_exact) simp
      moreover have "dadd (?ended db) (ia_total_cost_usd x) = ?ended db + ia_total_cost_usd x"
        using fit(4) sums'(2) by (intro dadd_exact) simp
      ultimately show ?thesis
        using old [of q] finished(2,10) new True sums' by (auto simp: dict_get_set finished_request_def Let_def)
    next
      case False
      then show ?thesis using old new finished(4,10) change by (simp add: dict_get_set)
    qed
  next
    case (reconciled j q k b cost)
    note change = sum_attempts_set [OF reconciled(3), of "b\<lparr>at_total := cost, at_json := (at_json b)
      \<lparr>ia_provider_reported_cost_usd := Some cost, ia_total_cost_usd := cost\<rparr>\<rparr>" _ i,
      folded reconciled(8), folded attempts_of_in]
    have ended: "at_status b \<noteq> Created" "ia_total_cost_usd (at_json b) = at_total b"
      using row [OF reconciled(3)] reconciled(5) by (auto simp: row_ok_def)
    show ?thesis
    proof (cases "i = j")
      case True
      then have b: "b \<in> set (attempts_of i db)" using mem reconciled(3,4) by blast
      have sums': "?open db' = ?open db" "?ended db' = ?ended db - at_total b + cost"
        using change [of open_amount] change [of ended_amount] reconciled(4) True ended
        by (simp_all add: open_amount_def ended_amount_def)
      have "dsub (?ended db) (at_total b) = ?ended db - at_total b"
        using fit(2) [OF b] ended by (intro dsub_exact) (simp add: ended_amount_def)
      moreover have "dadd (?ended db - at_total b) cost = ?ended db - at_total b + cost"
        using fit(4) sums'(2) by (intro dadd_exact) simp
      ultimately show ?thesis
        using old [of q] reconciled(2,7) new True sums' ended(2) by (auto simp: dict_get_set)
    next
      case False
      then show ?thesis using old new reconciled(4,7) change by (simp add: dict_get_set)
    qed
  next
    case (promoted j q k b)
    note change = sum_attempts_set [OF promoted(3), of "b\<lparr>at_status := DecisionUseful,
      at_json := (at_json b)\<lparr>ia_status := DecisionUseful\<rparr>\<rparr>" _ i, folded promoted(8), folded attempts_of_in]
    have "at_status b \<noteq> Created" using row [OF promoted(3)] promoted(6) by (auto simp: row_ok_def)
    then have sums': "?open db' = ?open db" "?ended db' = ?ended db"
      using change [of open_amount] change [of ended_amount] by (simp_all add: open_amount_def ended_amount_def)
    show ?thesis using old promoted(2,7) new unfolding sums' by (cases "i = j") (auto simp: dict_get_set)
  qed
qed

lemma priced_run_infer: "priced_run P db t db' t' \<Longrightarrow> infer_run P db t db' t' \<and> priced db'"
  by (induction rule: priced_run.induct) (auto intro: infer_run.intros)

lemma summed_run:
  assumes "priced_run P db t db' t'" and "infer_inv P t db" and "inj (h_request (ip_hashing P))" and "summed db"
  shows "summed db'"
  using assms(1)
proof (induction rule: priced_run.induct)
  case start
  show ?case by (rule assms(4))
next
  case (step db1 t1 t2 db2)
  have run: "infer_run P db t db1 t1" and priced: "priced db1" using priced_run_infer [OF step.hyps(1)] by auto
  have inv: "infer_inv P t1 db1" by (rule infer_inv_run [OF run assms(2,3)])
  obtain ended where "table_step t2 ended db1 db2" by (rule infer_step_table [OF step.hyps(3) inv assms(3)])
  from table_step_summed [OF this inv step.IH priced step.hyps(4)] show ?case .
qed

section \<open>Repeated notes\<close>

text \<open>
  The operation key of a note and of a hibernation holds what is noted, not when: the second
  one meets the event of the first, whose expected version was another.
\<close>

lemma request_kept:
  assumes "table_step now ended db db'" and "dict_get (db_requests db) i = Some r"
  shows "\<exists>r'. dict_get (db_requests db') i = Some r' \<and> rw_request r' = rw_request r"
  using assms(1)
proof cases
  case (admit j q)
  then show ?thesis using assms(2) by (auto simp: dict_get_snoc [OF admit(2)])
qed (use assms(2) in \<open>auto simp: dict_get_set finished_request_def Let_def\<close>)

lemma extends_trans: "extends st st1 \<Longrightarrow> extends st1 st2 \<Longrightarrow> extends st st2"
  unfolding extends_def by (metis append.assoc order_trans)

lemma later_state:
  assumes "infer_run P db t db' t'" and "infer_inv P t db" and "inj (h_request (ip_hashing P))"
  shows "extends (db_store db) (db_store db')"
    and "dict_get (db_requests db) i = Some r \<Longrightarrow> \<exists>r'. dict_get (db_requests db') i = Some r' \<and> rw_request r' = rw_request r"
proof -
  have "extends (db_store db) (db_store db') \<and>
      (dict_get (db_requests db) i = Some r \<longrightarrow> (\<exists>r'. dict_get (db_requests db') i = Some r' \<and> rw_request r' = rw_request r))"
    using assms(1)
  proof (induction rule: infer_run.induct)
    case start
    show ?case by (simp add: extends_reachable)
  next
    case (step db1 t1 t2 db2)
    have inv: "infer_inv P t1 db1" by (rule infer_inv_run [OF step.hyps(1) assms(2,3)])
    have run: "(store_step (ip_hashing P))\<^sup>*\<^sup>* (db_store db1) (db_store db2)"
      using infer_step_stepped [OF step.hyps(3) _ _ assms(3)] inv unfolding stepped_def infer_inv_def by blast
    obtain ended where tab: "table_step t2 ended db1 db2" by (rule infer_step_table [OF step.hyps(3) inv assms(3)])
    show ?case
      using step.IH extends_trans [OF _ extends_reachable [OF run]] request_kept [OF tab, of i] by fastforce
  qed
  then show "extends (db_store db) (db_store db')"
    and "dict_get (db_requests db) i = Some r \<Longrightarrow> \<exists>r'. dict_get (db_requests db') i = Some r' \<and> rw_request r' = rw_request r"
    by simp_all
qed

lemma used_key_refused:
  assumes "infer_inv P t db" and "inj (h_request (ip_hashing P))" and "find_operation (db_store db) key = Some e"
    and "role_can (id_role actor) ''inference''" and "i \<noteq> []" "key \<noteq> []" "iq_semantic_task_id (rw_request r) \<noteq> []"
  shows "request_event P actor i r state event key metadata artifacts fr db = Inl (DomainError ''IDEMPOTENCY_CONFLICT'')"
  unfolding request_event_def infer_event_def
  by (subst used_key_conflicts [OF _ assms(2,3)]) (use assms in \<open>simp_all add: infer_inv_def\<close>)

lemma repeated_note:
  assumes "infer_inv P t db" and "note_event P actor i event payload fr db = Inr db1"
    and "infer_run P db1 t1 db2 t2" and "t \<le> t1"
    and "role_can (id_role actor') ''inference''" and "inj (h_request (ip_hashing P))"
  shows "note_event P actor' i event payload fr' db2 = Inl (DomainError ''IDEMPOTENCY_CONFLICT'')"
proof -
  let ?key = "''inference-note:'' @ i @ '':'' @ event @ '':'' @ ip_payload_hash P payload"
  have inv: "infer_inv P t1 db1"
    by (rule infer_inv_step [OF infer_step.note_step [OF assms(2)] assms(4,1,6)])
  have inv2: "infer_inv P t2 db2" by (rule infer_inv_run [OF assms(3) inv assms(6)])
  obtain r where r: "dict_get (db_requests db) i = Some r"
    and ev: "request_event P actor i r (request_state P i r) event ?key payload [] fr db = Inr db1"
    using assms(2) by (auto simp: note_event_def rbind_eq_Inr get_request_Inr)
  have names: "i \<noteq> []"
    using ev by (auto simp: request_event_def infer_event_def rbind_eq_Inr dest!: transition_authorized(3))
  have task: "iq_semantic_task_id (rw_request r) \<noteq> []"
    using ev by (auto simp: request_event_def infer_event_def rbind_eq_Inr dest!: transition_authorized(5))
  have "dict_get (db_requests db1) i = Some r" using r logged_frame(1) [OF logged_request [OF ev]] by simp
  from later_state(2) [OF assms(3) inv assms(6) this] obtain r2 where
    r2: "dict_get (db_requests db2) i = Some r2" "rw_request r2 = rw_request r" by blast
  have "find_operation (db_store db1) ?key \<noteq> None"
    by (rule logged_transition [OF logged_request [OF ev]]) (simp add: transition_logged)
  then obtain e where "find_operation (db_store db2) ?key = Some e"
    using find_operation_extends [OF _ later_state(1) [OF assms(3) inv assms(6)]] by blast
  from used_key_refused [OF inv2 assms(6) this assms(5) names _ task [folded r2(2)]] show ?thesis
    using assms(5) by (simp add: note_event_def require_inference_def require_capability_def get_request_def r2)
qed

section \<open>A sample history\<close>

definition sample_infer_hashing :: "nat hashing" where
  "sample_infer_hashing = sample_hashing
     \<lparr>h_request := (\<lambda>r. to_nat ((rq_kind r, rq_id r, rq_expected_version r, rq_state r, rq_event_type r),
        (rq_actor r, rq_task_id r, rq_policy_version r), (rq_evidence r, rq_artifacts r, rq_metadata r)))\<rparr>"

definition sample_infer_params :: "nat infer_params" where
  "sample_infer_params =
     \<lparr>ip_hashing = sample_infer_hashing, ip_request_hash = (\<lambda>_. ''h''), ip_payload_hash = (\<lambda>_. ''h''),
      ip_text_hash = id, ip_decimal = (\<lambda>_. ''0''), ip_dump_manifest = (\<lambda>_. []), ip_manifest_hash = (\<lambda>_. ''h''),
      ip_routes = [(''r'', sample_route ''r'' ''d'' Public)]\<rparr>"

definition sample_broker :: identity where
  "sample_broker = sample_actor ''inference''"

lemma sample_infer_inj: "inj (h_request (ip_hashing sample_infer_params))"
  by (auto simp: inj_def sample_infer_params_def sample_infer_hashing_def)

lemma broker_can: "role_can (id_role sample_broker) ''inference''" "role_can (id_role sample_broker) ''artifact''"
  by (simp_all add: sample_broker_def role_can_def capabilities_def)

lemma broker_allowed: "require_inference sample_broker = Inr ()"
  by (simp add: require_inference_def require_capability_def broker_can)

text \<open>An event of a request with a fresh key is written.\<close>

definition unused :: "string \<Rightarrow> 'h idb \<Rightarrow> bool" where
  "unused key db \<longleftrightarrow> find_operation (db_store db) key = None"

lemma infer_event_written:
  assumes "unused key db" and "kind \<noteq> []" "i \<noteq> []" "key \<noteq> []" "task \<noteq> []"
    and "set artifacts \<subseteq> set (map art_id (st_artifacts (db_store db)))"
  shows "\<exists>st. infer_event P sample_broker kind i task state event key metadata artifacts fr db = Inr (db\<lparr>db_store := st\<rparr>) \<and>
    (\<forall>key'. key' \<noteq> key \<longrightarrow> unused key' db \<longrightarrow> unused key' (db\<lparr>db_store := st\<rparr>))"
proof -
  let ?rq = "\<lparr>rq_kind = kind, rq_id = i,
     rq_expected_version = current_version (db_store db) kind i, rq_state = state, rq_event_type = event,
     rq_actor = id_principal sample_broker, rq_task_id = task,
     rq_policy_version = ''inference-broker-v1'', rq_evidence = [], rq_artifacts = artifacts, rq_metadata = metadata\<rparr>"
  let ?out = "append_event (ip_hashing P) ?rq None fr
    (make_envelope (ip_hashing P) sample_broker ?rq key fr (db_store db)) (db_store db)"
  have "transition (ip_hashing P) sample_broker ''inference'' ?rq key None fr (db_store db) = Inr ?out"
    using assms by (simp add: transition_def require_capability_def broker_can unused_def subset_iff Let_def)
  then have "infer_event P sample_broker kind i task state event key metadata artifacts fr db = Inr (db\<lparr>db_store := snd ?out\<rparr>)"
    by (simp add: infer_event_def split_beta)
  moreover have "unused key' (db\<lparr>db_store := snd ?out\<rparr>)" if "key' \<noteq> key" "unused key' db" for key'
    using that by (auto simp: unused_def append_event_def find_operation_def Let_def find_None_iff)
  ultimately show ?thesis by blast
qed

lemma event_written:
  assumes "unused key db" and "i \<noteq> []" "key \<noteq> []" "iq_semantic_task_id (rw_request r) \<noteq> []"
    and "set artifacts \<subseteq> set (map art_id (st_artifacts (db_store db)))"
  shows "\<exists>st. request_event P sample_broker i r state event key metadata artifacts fr db = Inr (db\<lparr>db_store := st\<rparr>) \<and>
    (\<forall>key'. key' \<noteq> key \<longrightarrow> unused key' db \<longrightarrow> unused key' (db\<lparr>db_store := st\<rparr>))"
  unfolding request_event_def by (rule infer_event_written) (use assms in simp_all)

lemma sample_created:
  "\<exists>db r. create_or_get sample_infer_params sample_broker sample_infer_request sample_manifest sample_fresh empty_idb
       = Inr (sample_infer_request, db) \<and>
     db_requests db = [(''q'', r)] \<and> rw_request r = sample_infer_request \<and> rw_completed_attempt r = None \<and>
     rw_reserved r = 0 \<and> rw_accrued r = 0 \<and> db_attempts db = [] \<and>
     (\<forall>key. key \<noteq> ''inference-admit:0123456789abcdef'' \<longrightarrow> unused key db)"
proof -
  let ?P = sample_infer_params and ?q = sample_infer_request and ?m = sample_manifest
  let ?row = "\<lparr>rw_request = ?q, rw_request_hash = ''h'', rw_manifest_hash = ''h'', rw_status = Admitted,
     rw_completed_attempt = None, rw_final_artifact = None, rw_failure_reason = None, rw_reserved = 0, rw_accrued = 0,
     rw_completed_at = None\<rparr>"
  obtain artifact st where put: "put_artifact (ip_hashing ?P) sample_broker (ip_dump_manifest ?P ?m)
      ''inference/context-manifest-v1'' ''INTERNAL'' ''inference-broker-v1'' sample_fresh empty_store = Inr (artifact, st)"
    and st: "artifact \<in> set (map art_id (st_artifacts st))" "st_events st = []"
    by (simp add: put_artifact_def require_capability_def broker_can empty_store_def)
  let ?key = "''inference-admit:0123456789abcdef''"
  have free: "unused key (empty_idb\<lparr>db_store := st\<rparr>)" for key
    by (simp add: unused_def find_operation_def st(2))
  obtain st' where ev: "request_event ?P sample_broker ''q'' ?row (request_state ?P ''q'' ?row) ''INFERENCE_ADMITTED'' ?key
      [(''manifest_hash'', JStr ''h'')] [artifact] sample_fresh (empty_idb\<lparr>db_store := st\<rparr>) = Inr (empty_idb\<lparr>db_store := st'\<rparr>)"
    and other: "\<forall>key. key \<noteq> ?key \<longrightarrow> unused key (empty_idb\<lparr>db_store := st'\<rparr>)"
    using event_written [OF free [of ?key], of "''q''" ?row "[artifact]" ?P "request_state ?P ''q'' ?row" "''INFERENCE_ADMITTED''"
        "[(''manifest_hash'', JStr ''h'')]" sample_fresh] st(1) free
    by (auto simp: sample_infer_request_def)
  let ?db = "empty_idb\<lparr>db_store := st', db_requests := [(''q'', ?row)], db_manifests := [(mf_id ?m, ''q'')]\<rparr>"
  have "create_or_get ?P sample_broker ?q ?m sample_fresh empty_idb = Inr (?q, ?db)"
    using put ev
    by (simp add: create_or_get_def broker_allowed empty_idb_def sample_infer_params_def sample_infer_request_def)
  moreover have "\<forall>key. key \<noteq> ?key \<longrightarrow> unused key ?db" using other by (simp add: unused_def)
  ultimately show ?thesis by (intro exI [of _ ?db] exI [of _ ?row]) (simp add: empty_idb_def)
qed

definition sample_attempt :: "request_row \<Rightarrow> inference_attempt" where
  "sample_attempt r = new_attempt ''q'' r (sample_route ''r'' ''d'' Public) ''r'' 1 1 ''k'' 1"

definition sample_open :: "int \<Rightarrow> request_row \<Rightarrow> attempt_row" where
  "sample_open lease r = \<lparr>at_request = ''q'', at_no = 1, at_fence = 1, at_until = 1 + lease, at_status = Created, at_total = 0,
     at_artifact = None, at_json = sample_attempt r\<rparr>"

definition sample_answer :: "request_row \<Rightarrow> inference_attempt" where
  "sample_answer r = (sample_attempt r)\<lparr>ia_status := SemanticAccepted, ia_completed_at := Some 5, ia_total_cost_usd := 1 / 2\<rparr>"

lemma sample_request_claimed:
  assumes "db_requests db = [(''q'', r)]" and "rw_request r = sample_infer_request" and "rw_completed_attempt r = None"
    and "db_attempts db = []" and "0 < lease" and free: "\<forall>key. key \<noteq> ''inference-admit:0123456789abcdef'' \<longrightarrow> unused key db"
  shows "\<exists>db'. claim_attempt sample_infer_params sample_broker ''q'' ''r'' lease ''k'' 1 sample_fresh db = Inr (sample_attempt r, db') \<and>
    db_requests db' = [(''q'', r\<lparr>rw_status := Attempting\<rparr>)] \<and> db_attempts db' = [(''k'', sample_open lease r)] \<and>
    (\<forall>key. key \<noteq> ''inference-claim:k'' \<longrightarrow> key \<noteq> ''inference-admit:0123456789abcdef'' \<longrightarrow> unused key db')"
proof -
  let ?P = sample_infer_params
  let ?state = "jset ''active_attempt_id'' (JStr ''k'') (jset ''status'' (JStr ''ATTEMPTING'') (request_state ?P ''q'' r))"
  let ?meta = "[(''lease_fence'', JNum (of_nat 1)), (''route_id'', JStr ''r'')]"
  have "unused ''inference-claim:k'' db" using free by simp
  from event_written [OF this, of "''q''" r "[]" ?P ?state "''INFERENCE_ATTEMPT_CLAIMED''" ?meta sample_fresh]
  obtain st where ev: "request_event ?P sample_broker ''q'' r ?state ''INFERENCE_ATTEMPT_CLAIMED'' ''inference-claim:k'' ?meta []
      sample_fresh db = Inr (db\<lparr>db_store := st\<rparr>)"
    and other: "\<And>key. key \<noteq> ''inference-claim:k'' \<Longrightarrow> unused key db \<Longrightarrow> unused key (db\<lparr>db_store := st\<rparr>)"
    by (auto simp: assms(2) sample_infer_request_def)
  let ?db = "set_request ''q'' (r\<lparr>rw_status := Attempting\<rparr>) (db\<lparr>db_store := st, db_attempts := [(''k'', sample_open lease r)]\<rparr>)"
  have "claim_attempt ?P sample_broker ''q'' ''r'' lease ''k'' 1 sample_fresh db = Inr (sample_attempt r, ?db)"
    using ev assms
    by (simp add: claim_attempt_def broker_allowed get_request_def attempts_of_def max_of_def truthy_def
        sample_open_def sample_attempt_def sample_infer_params_def Let_def)
  moreover have "unused key ?db" if "key \<noteq> ''inference-claim:k''" "key \<noteq> ''inference-admit:0123456789abcdef''" for key
    using other [OF that(1)] free that(2) by (simp add: unused_def set_request_def)
  ultimately show ?thesis by (intro exI [of _ ?db]) (simp add: set_request_def assms(1))
qed

lemma sample_finished:
  assumes "db_requests db = [(''q'', r\<lparr>rw_status := Attempting\<rparr>)]" and "rw_request r = sample_infer_request"
    and "rw_completed_attempt r = None" "rw_reserved r = 0" "rw_accrued r = 0"
    and "db_attempts db = [(''k'', sample_open 60 r)]" and "unused ''inference-finish:k'' db" "unused ''inference-note:q:e:h'' db"
  shows "\<exists>db' r'. finish_attempt sample_infer_params sample_broker (sample_answer r) 5 sample_fresh db = Inr (True, db') \<and>
    db_requests db' = [(''q'', r')] \<and> rw_request r' = sample_infer_request \<and> rw_completed_attempt r' = Some ''k'' \<and>
    db_attempts db' = [(''k'', (sample_open 60 r)\<lparr>at_status := SemanticAccepted, at_total := 1 / 2, at_json := sample_answer r\<rparr>)] \<and>
    unused ''inference-note:q:e:h'' db'"
proof -
  let ?P = sample_infer_params and ?r = "r\<lparr>rw_status := Attempting\<rparr>"
  let ?r' = "finished_request ?r (sample_open 60 r) (sample_answer r) None 5"
  from event_written [OF assms(7), of "''q''" ?r "[]" ?P "request_state ?P ''q'' ?r'" "''INFERENCE_ATTEMPT_FINISHED''" "[]" sample_fresh]
  obtain st where ev: "request_event ?P sample_broker ''q'' ?r (request_state ?P ''q'' ?r') ''INFERENCE_ATTEMPT_FINISHED''
      ''inference-finish:k'' [] [] sample_fresh db = Inr (db\<lparr>db_store := st\<rparr>)"
    and other: "\<And>key. key \<noteq> ''inference-finish:k'' \<Longrightarrow> unused key db \<Longrightarrow> unused key (db\<lparr>db_store := st\<rparr>)"
    by (auto simp: assms(2) sample_infer_request_def)
  let ?a = "(sample_open 60 r)\<lparr>at_status := SemanticAccepted, at_total := 1 / 2, at_json := sample_answer r\<rparr>"
  let ?db = "set_request ''q'' ?r' (set_attempt ''k'' ?a (db\<lparr>db_store := st\<rparr>))"
  have ids: "ia_request_id (sample_answer r) = ''q''" "ia_attempt_id (sample_answer r) = ''k''"
      "ia_output_artifact (sample_answer r) = None" "ia_status (sample_answer r) = SemanticAccepted"
      "ia_total_cost_usd (sample_answer r) = 1 / 2" "ia_lease_fence (sample_answer r) = 1"
    by (simp_all add: sample_answer_def sample_attempt_def new_attempt_def)
  have fresh: "\<not> is_stale ?r (sample_open 60 r) (max_of at_fence (attempts_of ''q'' db)) 5 (sample_answer r)"
    using assms by (simp add: is_stale_def attempts_of_def max_of_def truthy_def sample_open_def ids)
  have "0 \<le> rw_reserved ?r' \<and> 0 \<le> rw_accrued ?r'"
    using assms by (simp add: finished_request_def Let_def sample_open_def ids dsub_def dadd_def accepted_status_def dround_nonneg)
  then have "finish_attempt ?P sample_broker (sample_answer r) 5 sample_fresh db = Inr (True, ?db)"
    using ev assms fresh
    by (simp add: finish_attempt_def broker_allowed ids store_output_def check_amounts_def Let_def) (simp add: sample_open_def)
  moreover have "unused ''inference-note:q:e:h'' ?db"
    using other [of "''inference-note:q:e:h''"] assms(8) by (simp add: unused_def set_request_def set_attempt_def)
  moreover have "rw_request ?r' = sample_infer_request \<and> rw_completed_attempt ?r' = Some ''k''"
    using assms(2) by (simp add: finished_request_def Let_def accepted_status_def ids)
  ultimately show ?thesis
    by (intro exI [of _ ?db] exI [of _ ?r']) (simp add: set_request_def set_attempt_def assms(1,6))
qed

lemma sample_noted:
  assumes "dict_get (db_requests db) ''q'' = Some r" and "rw_request r = sample_infer_request" and "unused ''inference-note:q:e:h'' db"
  shows "\<exists>db'. note_event sample_infer_params sample_broker ''q'' ''e'' [] sample_fresh db = Inr db' \<and>
    db_requests db' = db_requests db \<and> db_attempts db' = db_attempts db"
proof -
  from event_written [OF assms(3), of "''q''" r "[]" sample_infer_params "request_state sample_infer_params ''q'' r" "''e''" "[]" sample_fresh]
  obtain st where "request_event sample_infer_params sample_broker ''q'' r (request_state sample_infer_params ''q'' r) ''e''
      ''inference-note:q:e:h'' [] [] sample_fresh db = Inr (db\<lparr>db_store := st\<rparr>)"
    by (auto simp: assms(2) sample_infer_request_def)
  then show ?thesis
    by (intro exI [of _ "db\<lparr>db_store := st\<rparr>"])
      (simp add: note_event_def broker_allowed get_request_def assms(1) sample_infer_params_def)
qed

text \<open>A request created at 0, claimed at 1 and answered at 5.\<close>

lemma sample_answered:
  "\<exists>db r r'. priced_run sample_infer_params empty_idb 0 db 5 \<and> db_requests db = [(''q'', r')] \<and>
     rw_request r' = sample_infer_request \<and> rw_completed_attempt r' = Some ''k'' \<and>
     db_attempts db = [(''k'', (sample_open 60 r)\<lparr>at_status := SemanticAccepted, at_total := 1 / 2, at_json := sample_answer r\<rparr>)] \<and>
     unused ''inference-note:q:e:h'' db"
proof -
  obtain db r where 1: "create_or_get sample_infer_params sample_broker sample_infer_request sample_manifest sample_fresh empty_idb
        = Inr (sample_infer_request, db)" "db_requests db = [(''q'', r)]" "rw_request r = sample_infer_request"
      "rw_completed_attempt r = None" "rw_reserved r = 0" "rw_accrued r = 0" "db_attempts db = []"
      "\<forall>key. key \<noteq> ''inference-admit:0123456789abcdef'' \<longrightarrow> unused key db"
    using sample_created by blast
  obtain db2 where 2: "claim_attempt sample_infer_params sample_broker ''q'' ''r'' 60 ''k'' 1 sample_fresh db = Inr (sample_attempt r, db2)"
      "db_requests db2 = [(''q'', r\<lparr>rw_status := Attempting\<rparr>)]" "db_attempts db2 = [(''k'', sample_open 60 r)]"
    and free: "\<forall>key. key \<noteq> ''inference-claim:k'' \<longrightarrow> key \<noteq> ''inference-admit:0123456789abcdef'' \<longrightarrow> unused key db2"
    using sample_request_claimed [OF 1(2,3,4,7) zero_less_numeral 1(8)] by blast
  have keys: "unused ''inference-finish:k'' db2" "unused ''inference-note:q:e:h'' db2" using free by simp_all
  obtain db3 r' where 3: "finish_attempt sample_infer_params sample_broker (sample_answer r) 5 sample_fresh db2 = Inr (True, db3)"
      "db_requests db3 = [(''q'', r')]" "rw_request r' = sample_infer_request" "rw_completed_attempt r' = Some ''k''"
      "db_attempts db3 = [(''k'', (sample_open 60 r)\<lparr>at_status := SemanticAccepted, at_total := 1 / 2, at_json := sample_answer r\<rparr>)]"
      "unused ''inference-note:q:e:h'' db3"
    using sample_finished [OF 2(2) 1(3-6) 2(3) keys] by blast
  have half: "micro 0" "micro (1 / 2)"
    unfolding micro_def by (rule exI [of _ 0], simp) (rule exI [of _ 500000], simp)
  have priced: "priced empty_idb" "priced db" "priced db2" "priced db3"
    using half by (simp_all add: priced_def attempts_of_def empty_idb_def 1(7) 2(3) 3(5) sample_open_def)
  have ends: "ends_attempt db2 (sample_answer r)"
    by (simp add: ends_attempt_def sample_answer_def 2(3) sample_attempt_def new_attempt_def sample_open_def)
  have run: "priced_run sample_infer_params empty_idb 0 db 0"
    by (rule priced_run.step [OF priced_run.start [OF priced(1)] _ infer_step.create [OF 1(1)] priced(2)]) simp
  have "priced_run sample_infer_params empty_idb 0 db2 1"
    by (rule priced_run.step [OF run _ infer_step.claim [OF 2(1)] priced(3)]) simp_all
  then have "priced_run sample_infer_params empty_idb 0 db3 5"
    by (rule priced_run.step [OF _ _ infer_step.finish [OF 3(1) ends] priced(4)]) simp
  then show ?thesis using 3 by blast
qed

section \<open>Properties\<close>

text \<open>C7 A request is answered at most once, under a lease held alone: in every interleaving of
  the operations by any brokers, the fences of a request's attempts are 1, 2, 3 and so on in
  the order they were claimed; at most one attempt is open under an unexpired lease; a request
  that is not answered has no accepted attempt and an open status; and one that is answered
  has exactly one accepted attempt, its last, with the status saying whether it was useful.\<close>

theorem single_winner:
  assumes "infer_run P empty_idb t0 db t" and "inj (h_request (ip_hashing P))"
  shows "map at_fence (attempts_of i db) = [1..<Suc (length (attempts_of i db))] \<and>
    length (List.filter (\<lambda>a. at_status a = Created \<and> t < at_until a) (attempts_of i db)) \<le> 1 \<and>
    (case dict_get (db_requests db) i of
       None \<Rightarrow> attempts_of i db = []
     | Some r \<Rightarrow> (case rw_completed_attempt r of
           None \<Rightarrow> rw_status r \<in> {Admitted, Attempting, Asleep} \<and>
             List.filter (\<lambda>a. accepted_status (at_status a)) (attempts_of i db) = []
         | Some w \<Rightarrow> \<exists>a. dict_get (db_attempts db) w = Some a \<and> accepted_status (at_status a) \<and>
             rw_status r = (if at_status a = DecisionUseful then Useful else Accepted) \<and>
             last (attempts_of i db) = a \<and>
             length (List.filter (\<lambda>a. accepted_status (at_status a)) (attempts_of i db)) = 1))"
proof -
  have inv: "infer_inv P t db" by (rule infer_inv_run [OF assms(1) infer_inv_empty assms(2)])
  have unknown: "attempts_of i db = []" if "dict_get (db_requests db) i = None"
  proof (rule ccontr)
    assume "attempts_of i db \<noteq> []"
    then have "hd (attempts_of i db) \<in> set (attempts_in i (db_attempts db))" by (simp add: attempts_of_in)
    from infer_inv_rows(2) [OF inv this] that show False by (auto simp: row_ok_def)
  qed
  show ?thesis
  proof (intro conjI one_open_lease [OF inv])
    show "map at_fence (attempts_of i db) = [1..<Suc (length (attempts_of i db))]"
      using infer_inv_rows(1) [OF inv] by (simp only: numbered_def attempts_of_in)
  next
    show "case dict_get (db_requests db) i of
       None \<Rightarrow> attempts_of i db = []
     | Some r \<Rightarrow> (case rw_completed_attempt r of
           None \<Rightarrow> rw_status r \<in> {Admitted, Attempting, Asleep} \<and>
             List.filter (\<lambda>a. accepted_status (at_status a)) (attempts_of i db) = []
         | Some w \<Rightarrow> \<exists>a. dict_get (db_attempts db) w = Some a \<and> accepted_status (at_status a) \<and>
             rw_status r = (if at_status a = DecisionUseful then Useful else Accepted) \<and>
             last (attempts_of i db) = a \<and>
             length (List.filter (\<lambda>a. accepted_status (at_status a)) (attempts_of i db)) = 1)"
    proof (cases "dict_get (db_requests db) i")
      case None
      then show ?thesis using unknown by simp
    next
      case (Some r)
      show ?thesis unfolding Some option.case by (rule answered_once [OF inv Some])
    qed
  qed
qed

text \<open>C13 An answer is final: whatever any broker does after a request was answered, the result
  it is answered with keeps its route and its artifact, stays accepted, and no further attempt
  is made.\<close>

theorem winner_is_final:
  assumes "infer_run P empty_idb t0 db t" and "completed_result actor i db = Inr (Some res)"
    and "infer_run P db t db' t'" and "inj (h_request (ip_hashing P))"
  shows "\<exists>res'. completed_result actor i db' = Inr (Some res') \<and> ir_artifact res' = ir_artifact res \<and>
    ir_route_id res' = ir_route_id res \<and> accepted_status (ir_status res') \<and>
    attempts_of i db' \<noteq> [] \<and> length (attempts_of i db') = length (attempts_of i db)"
proof -
  have inv: "infer_inv P t db" by (rule infer_inv_run [OF assms(1) infer_inv_empty assms(4)])
  have inv': "infer_inv P t' db'" by (rule infer_inv_run [OF assms(3) inv assms(4)])
  obtain r a where win: "winner_of i db = Some (r, a)" and a: "\<not> isl (mk_inference_attempt (at_json a))"
    and res: "res = \<lparr>ir_request_id = i, ir_status = ia_status (at_json a), ir_artifact = ia_output_artifact (at_json a),
               ir_failure_reason = None, ir_route_id = Some (ia_route_id (at_json a))\<rparr>"
    using assms(2) unfolding completed_result_winner by blast
  obtain r' a' where win': "winner_of i db' = Some (r', a')" and same: "same_answer (r, a) (r', a')"
    and len: "length (attempts_of i db') = length (attempts_of i db)"
    using winner_run [OF assms(3) inv assms(4) win] by (metis surj_pair)
  obtain w where w: "dict_get (db_requests db') i = Some r'" "rw_completed_attempt r' = Some w"
      "dict_get (db_attempts db') w = Some a'"
    using win' by (auto simp: winner_of_Some)
  from answered_once [OF inv' w(1)] w have "accepted_status (at_status a')" "attempts_of i db' \<noteq> []" by auto
  moreover have "ia_status (at_json a') = at_status a'"
    using infer_inv_rows(2) [OF inv'] in_attempts_in [OF w(3)] by (metis row_ok_def)
  ultimately show ?thesis
    using assms(2) same a res len win' unfolding completed_result_winner same_answer_def by auto
qed

text \<open>C15 The amounts of a request are those of its attempts: as long as attempts are priced in
  whole micro-dollars that fit into a decimal, the reserved amount is the sum over the attempts
  still open and the accrued cost the sum over the finished ones, through reservations,
  completions, late results and billing corrections.\<close>

theorem costs_add_up:
  assumes "priced_run P empty_idb t0 db t" and "inj (h_request (ip_hashing P))"
    and "dict_get (db_requests db) i = Some r"
  shows "rw_reserved r = (\<Sum>a\<leftarrow>List.filter (\<lambda>a. at_status a = Created) (attempts_of i db). at_total a) \<and>
    rw_accrued r = (\<Sum>a\<leftarrow>List.filter (\<lambda>a. at_status a \<noteq> Created) (attempts_of i db). at_total a)"
proof -
  have "summed db"
    by (rule summed_run [OF assms(1) infer_inv_empty assms(2)]) (simp add: summed_def empty_idb_def)
  then show ?thesis
    using assms(3) by (simp add: summed_def open_amount_def ended_amount_def sum_list_map_filter')
qed

text \<open>A note cannot be written twice: once an event with a payload has been noted for a request,
  noting the same again at any later time is refused as an idempotency conflict, whoever does
  it. The operation key names the note, while the expected version in the hashed request has
  moved on.\<close>

theorem repeated_note_conflicts:
  assumes "infer_run P empty_idb t0 db t" and "note_event P actor i event payload fr db = Inr db1"
    and "infer_run P db1 t1 db2 t2" and "t \<le> t1"
    and "role_can (id_role actor') ''inference''" and "inj (h_request (ip_hashing P))"
  shows "note_event P actor' i event payload fr' db2 = Inl (DomainError ''IDEMPOTENCY_CONFLICT'')"
  by (rule repeated_note [OF infer_inv_run [OF assms(1) infer_inv_empty assms(6)] assms(2-6)])

section \<open>Witnesses\<close>

lemma priced_infer: "priced_run P db t db' t' \<Longrightarrow> infer_run P db t db' t'"
  using priced_run_infer by blast

theorem single_winner_witness:
  "\<exists>(db :: nat idb) r. dict_get (db_requests db) ''q'' = Some r \<and> rw_completed_attempt r = Some ''k'' \<and>
     length (List.filter (\<lambda>a. accepted_status (at_status a)) (attempts_of ''q'' db)) = 1"
proof -
  obtain db r r' where db: "priced_run sample_infer_params empty_idb 0 db 5" "db_requests db = [(''q'', r')]"
      "rw_completed_attempt r' = Some ''k''"
    using sample_answered by blast
  have get: "dict_get (db_requests db) ''q'' = Some r'" by (simp add: db(2))
  from single_winner [OF priced_infer [OF db(1)] sample_infer_inj, of "''q''"]
  have "length (List.filter (\<lambda>a. accepted_status (at_status a)) (attempts_of ''q'' db)) = 1"
    unfolding get option.case db(3) by blast
  then show ?thesis using get db(3) by blast
qed

theorem winner_is_final_witness:
  "\<exists>(db :: nat idb) (db' :: nat idb) res. completed_result sample_broker ''q'' db = Inr (Some res) \<and>
     (\<exists>res'. completed_result sample_broker ''q'' db' = Inr (Some res') \<and> ir_artifact res' = ir_artifact res)"
proof -
  obtain db r r' where db: "priced_run sample_infer_params empty_idb 0 db 5" "db_requests db = [(''q'', r')]"
      "rw_request r' = sample_infer_request" "rw_completed_attempt r' = Some ''k''"
      "db_attempts db = [(''k'', (sample_open 60 r)\<lparr>at_status := SemanticAccepted, at_total := 1 / 2, at_json := sample_answer r\<rparr>)]"
      "unused ''inference-note:q:e:h'' db"
    using sample_answered by blast
  have "\<exists>res. completed_result sample_broker ''q'' db = Inr (Some res)"
    by (simp add: completed_result_def broker_allowed db(2,4,5) mk_inference_attempt_def sample_answer_def
        sample_attempt_def new_attempt_def)
  then obtain res where res: "completed_result sample_broker ''q'' db = Inr (Some res)" by blast
  have "dict_get (db_requests db) ''q'' = Some r'" by (simp add: db(2))
  from sample_noted [OF this db(3,6)] obtain db' where
    "note_event sample_infer_params sample_broker ''q'' ''e'' [] sample_fresh db = Inr db'" by blast
  then have "infer_run sample_infer_params db 5 db' 6"
    by (intro infer_run.step [OF infer_run.start _ infer_step.note_step]) simp_all
  from winner_is_final [OF priced_infer [OF db(1)] res this sample_infer_inj] res show ?thesis by blast
qed

theorem costs_add_up_witness:
  "\<exists>(db :: nat idb) r. dict_get (db_requests db) ''q'' = Some r \<and> rw_accrued r = 1 / 2 \<and> rw_reserved r = 0"
proof -
  obtain db r r' where db: "priced_run sample_infer_params empty_idb 0 db 5" "db_requests db = [(''q'', r')]"
      "db_attempts db = [(''k'', (sample_open 60 r)\<lparr>at_status := SemanticAccepted, at_total := 1 / 2, at_json := sample_answer r\<rparr>)]"
    using sample_answered by blast
  have get: "dict_get (db_requests db) ''q'' = Some r'" by (simp add: db(2))
  have "attempts_of ''q'' db = [(sample_open 60 r)\<lparr>at_status := SemanticAccepted, at_total := 1 / 2, at_json := sample_answer r\<rparr>]"
    by (simp add: attempts_of_def db(3) sample_open_def)
  with costs_add_up [OF db(1) sample_infer_inj get] get show ?thesis by auto
qed

theorem repeated_note_conflicts_witness:
  "\<exists>(db :: nat idb) (db1 :: nat idb). note_event sample_infer_params sample_broker ''q'' ''e'' [] sample_fresh db = Inr db1 \<and>
     note_event sample_infer_params sample_broker ''q'' ''e'' [] sample_fresh db1 = Inl (DomainError ''IDEMPOTENCY_CONFLICT'')"
proof -
  obtain db r' where db: "priced_run sample_infer_params empty_idb 0 db 5" "db_requests db = [(''q'', r')]"
      "rw_request r' = sample_infer_request" "unused ''inference-note:q:e:h'' db"
    using sample_answered by blast
  have "dict_get (db_requests db) ''q'' = Some r'" by (simp add: db(2))
  from sample_noted [OF this db(3,4)] obtain db1 where
    n: "note_event sample_infer_params sample_broker ''q'' ''e'' [] sample_fresh db = Inr db1" by blast
  from repeated_note_conflicts [OF priced_infer [OF db(1)] n infer_run.start [of _ _ 5] _ broker_can(1) sample_infer_inj] n
  show ?thesis by blast
qed

end
