(* ===== verification/Broker.thy ===== *)
theory Broker
  imports InferStore Contexts
begin

text \<open>
  The broker of \<open>liki/inference/broker.py\<close> on the tables of \<open>InferStore\<close>: route selection,
  conservative pricing, validation of a response, one attempt and the whole run. A step of the
  broker is a function from the database to a value or an exception together with the database
  as it is then: what an earlier transaction committed stays when a later one raises. The
  provider, the clock, fresh identifiers and what other processes commit in the meantime are
  the environment of an attempt. \<open>json.loads\<close> and \<open>raw_decode\<close> on a provider's text, the schema
  validator and the hashes are parameters.
\<close>

section \<open>Retry policy\<close>

record retry_policy =
  rp_same_route_retries :: nat
  rp_circuit_failure_threshold :: int
  rp_base_backoff :: rat
  rp_max_backoff :: rat
  rp_jitter_fraction :: rat

definition default_policy :: retry_policy where
  "default_policy = \<lparr>rp_same_route_retries = 1, rp_circuit_failure_threshold = 3,
     rp_base_backoff = float_round (5 / 100), rp_max_backoff = 1, rp_jitter_fraction = 1 / 4\<rparr>"

definition delay :: "retry_policy \<Rightarrow> nat \<Rightarrow> rat \<Rightarrow> rat" where
  "delay p retry_number random_fraction =
     (let exponential = min (rp_max_backoff p) (float_round (rp_base_backoff p * 2 ^ retry_number));
          centred = float_round (float_round (2 * random_fraction) - 1);
          factor = float_round (1 + float_round (rp_jitter_fraction p * centred))
      in max 0 (float_round (exponential * factor)))"

section \<open>Prices\<close>

definition known_or :: "nat option \<Rightarrow> nat option \<Rightarrow> nat option" where
  "known_or reserve value = (case value of None \<Rightarrow> reserve | Some n \<Rightarrow> Some n)"

definition conservative_usage :: "provider_route \<Rightarrow> usage \<Rightarrow> usage" where
  "conservative_usage route u =
     (let reserve = pp_unknown_usage_reserve (pr_pricing route)
      in if None \<in> set (token_counts u)
         then \<lparr>us_input = known_or (us_input reserve) (us_input u), us_output = known_or (us_output reserve) (us_output u),
               us_reasoning = known_or (us_reasoning reserve) (us_reasoning u),
               us_cache_read = known_or (us_cache_read reserve) (us_cache_read u),
               us_cache_write = known_or (us_cache_write reserve) (us_cache_write u),
               us_method = ''estimated_with_conservative_defaults''\<rparr>
         else u)"

definition conservative_cost :: "provider_route \<Rightarrow> usage \<Rightarrow> attempt_status \<Rightarrow> rat result" where
  "conservative_cost route u status = plan_cost (pr_pricing route) (conservative_usage route u) status"

definition broker_cost_components :: "provider_route \<Rightarrow> usage \<Rightarrow> attempt_status \<Rightarrow> rat \<times> rat \<times> nat" where
  "broker_cost_components route u status = cost_components (pr_pricing route) (conservative_usage route u) status"

definition response_cost :: "provider_route \<Rightarrow> usage \<Rightarrow> attempt_status \<Rightarrow> rat \<Rightarrow> rat result" where
  "response_cost route u status reservation =
     (if None \<notin> set (token_counts u) then plan_cost (pr_pricing route) u status
      else rbind (conservative_cost route u status) (\<lambda>c. Inr (max reservation c)))"

section \<open>Route selection\<close>

definition metrics_for :: "provider_route \<Rightarrow> string \<Rightarrow> route_metrics" where
  "metrics_for route task_class =
     (case List.find (\<lambda>m. mx_task_class m = task_class) (pr_task_metrics route) of
        Some m \<Rightarrow> m
      | None \<Rightarrow> \<lparr>mx_task_class = task_class, mx_semantic_acceptance = pr_observed_semantic_acceptance route,
                 mx_reliability = pr_observed_reliability route, mx_correction_rate = 0, mx_reversal_rate = 0,
                 mx_sample_count = 0, mx_benchmark_id = None, mx_benchmarked_at = None\<rparr>)"

definition has_required_benchmark :: "provider_route \<Rightarrow> string \<Rightarrow> string option \<Rightarrow> bool" where
  "has_required_benchmark route task_class required =
     (case required of
        None \<Rightarrow> True
      | Some b \<Rightarrow> list_ex (\<lambda>m. mx_task_class m = task_class \<and> mx_benchmark_id m = Some b \<and> 0 < mx_sample_count m)
                   (pr_task_metrics route))"

definition expected_cost :: "provider_route \<Rightarrow> usage \<Rightarrow> string \<Rightarrow> rat result" where
  "expected_cost route u task_class =
     rbind (conservative_cost route u SemanticAccepted) (\<lambda>direct.
     let m = metrics_for route task_class;
         accepted = max (float_round (mx_semantic_acceptance m * mx_reliability m)) (float_round (1 / 100));
         rework = dmul (pr_expected_rework_usd route)
           (float_repr (float_round (float_round (1 + mx_correction_rate m) + mx_reversal_rate m)))
     in rbind (ddiv direct (float_repr accepted)) (\<lambda>c. Inr (dadd c rework)))"

text \<open>\<open>_context_safe_for_route\<close>.\<close>

definition context_safe_for_route :: "compiled_context \<Rightarrow> provider_route \<Rightarrow> bool" where
  "context_safe_for_route c route =
     (let decision = mf_egress_decision (cc_manifest c); required = eg_highest_rank decision
      in if classification_rank (pr_egress_clearance route) < required then False
         else if classification_rank Confidential \<le> required
         then pr_retention_known route \<and> pr_may_train_on_prompts route = Some False
         else eg_may_train_on_prompts decision \<noteq> Some False \<or> pr_may_train_on_prompts route = Some False)"

definition prompt_tokens :: "compiled_context \<Rightarrow> nat" where
  "prompt_tokens c = max 1 ((length (cc_system_prompt c) + length (cc_user_prompt c)) div 4)"

text \<open>The filters of \<open>select_routes\<close>; an exception of the backend or of a price ends the selection.\<close>

definition admissible_before :: "inference_request \<Rightarrow> compiled_context \<Rightarrow> provider_route \<Rightarrow> bool" where
  "admissible_before q c r \<longleftrightarrow>
     \<not> (iq_allowed_provider_classes q \<noteq> [] \<and> pr_provider_class r \<notin> set (iq_allowed_provider_classes q)) \<and>
     has_required_benchmark r (iq_task_class q) (iq_routing_benchmark_id q) \<and>
     context_safe_for_route c r \<and> pr_license_approved r \<and>
     (pr_health r = Healthy \<or> pr_health r = Degraded)"

definition admissible_after :: "inference_request \<Rightarrow> compiled_context \<Rightarrow> provider_route \<Rightarrow> bool" where
  "admissible_after q c r \<longleftrightarrow>
     (let m = metrics_for r (iq_task_class q) in
      int (prompt_tokens c) + rc_max_output_tokens (pr_capabilities r) \<le> rc_context_window (pr_capabilities r) \<and>
      iq_preferred_reasoning_effort q \<in> set (''standard'' # rc_reasoning_efforts (pr_capabilities r)) \<and>
      \<not> ((iq_requires_tools q \<or> cc_tool_capabilities c \<noteq> []) \<and> \<not> rc_tools_supported (pr_capabilities r)) \<and>
      max (pr_quality_floor r) (iq_min_semantic_acceptance q) \<le> mx_semantic_acceptance m \<and>
      max (pr_reliability_floor r) (iq_min_reliability q) \<le> mx_reliability m)"

definition suitable ::
  "inference_request \<Rightarrow> compiled_context \<Rightarrow> usage \<Rightarrow> identity \<Rightarrow> 'h idb \<Rightarrow> provider_route \<Rightarrow> bool result" where
  "suitable q c u actor db r =
     (if \<not> admissible_before q c r then Inr False
      else rbind (circuit_is_open actor (pr_id r) db) (\<lambda>circuit_open.
        if circuit_open \<or> \<not> admissible_after q c r then Inr False
        else rbind (conservative_cost r u SemanticAccepted) (\<lambda>direct.
          Inr (pred_option (\<lambda>limit. direct \<le> limit) (iq_max_call_cost_usd q)))))"

text \<open>The routes of the broker: a dictionary by identifier.\<close>

definition route_table :: "provider_route list \<Rightarrow> (string \<times> provider_route) list" where
  "route_table routes = foldl (\<lambda>d r. dict_set (pr_id r) r d) [] routes"

fun with_costs :: "usage \<Rightarrow> string \<Rightarrow> provider_route list \<Rightarrow> ((rat \<times> string) \<times> provider_route) list result" where
  "with_costs u task_class [] = Inr []"
| "with_costs u task_class (r # rs) =
     rbind (expected_cost r u task_class) (\<lambda>c.
     rbind (with_costs u task_class rs) (\<lambda>xs. Inr (((c, pr_id r), r) # xs)))"

fun diverse :: "string list \<Rightarrow> provider_route list \<Rightarrow> provider_route list" where
  "diverse seen [] = []"
| "diverse seen (r # rs) =
     (if pr_upstream_correlation_domain r \<in> set seen then diverse seen rs
      else r # diverse (pr_upstream_correlation_domain r # seen) rs)"

definition select_routes ::
  "(string \<times> provider_route) list \<Rightarrow> identity \<Rightarrow> inference_request \<Rightarrow> compiled_context \<Rightarrow> usage \<Rightarrow> 'h idb \<Rightarrow>
   provider_route list result" where
  "select_routes table actor q c u db =
     rbind (filter_result (suitable q c u actor db) (map snd table)) (\<lambda>routes.
     rbind (with_costs u (iq_task_class q) routes) (\<lambda>priced_routes.
     let ordered = map snd (sort_key fst priced_routes); leaders = diverse [] ordered
     in Inr (leaders @ List.filter (\<lambda>r. r \<notin> set leaders) ordered)))"

section \<open>Validation of a response\<close>

definition bare_prefix :: "string \<Rightarrow> string \<Rightarrow> bool" where
  "bare_prefix p s \<longleftrightarrow> take (length p) s = p"

definition refusals :: "string list" where
  "refusals = [''i cannot'', ''i can'' @ [CHR 0x27] @ ''t'', ''i'' @ [CHR 0x27] @ ''m unable'', ''i am unable'']"

text \<open>\<open>str.splitlines\<close> on the characters it knows below 256; a carriage return takes a following line feed.\<close>

definition line_break :: "char \<Rightarrow> bool" where
  "line_break ch = (ch \<in> {CHR 0x0A, CHR 0x0B, CHR 0x0C, CHR 0x0D, CHR 0x1C, CHR 0x1D, CHR 0x1E, CHR 0x85})"

fun split_lines :: "string \<Rightarrow> string \<Rightarrow> string list" where
  "split_lines line [] = (if line = [] then [] else [rev line])"
| "split_lines line (ch # s) =
     (if ch = CHR 0x0D \<and> s \<noteq> [] \<and> hd s = CHR 0x0A then split_lines (CHR 0x0D # line) s
      else if ch = CHR 0x0A \<and> line \<noteq> [] \<and> hd line = CHR 0x0D then rev (tl line) # split_lines [] s
      else if line_break ch then rev line # split_lines [] s
      else split_lines (ch # line) s)"

fun join_lines :: "string list \<Rightarrow> string" where
  "join_lines [] = []"
| "join_lines [l] = l"
| "join_lines (l # ls) = l @ CHR 0x0A # join_lines ls"

text \<open>Equality of decoded values: \<open>dict\<close> ignores the order of keys, and \<open>True == 1\<close>.\<close>

fun num_of :: "json \<Rightarrow> rat option" where
  "num_of (JNum x) = Some x"
| "num_of (JBool b) = Some (if b then 1 else 0)"
| "num_of _ = None"

lemma json_member_size: "(k, x) \<in> set d \<Longrightarrow> size x < size (JObj d)"
  by (induction d) auto

lemma json_element_size: "(x, y) \<in> set (zip xs ys) \<Longrightarrow> size x < Suc (size_list size xs)"
  by (induction xs ys rule: list_induct2') auto

function json_same :: "json \<Rightarrow> json \<Rightarrow> bool" where
  "json_same v w =
     (case v of
        JNull \<Rightarrow> w = JNull
      | JStr s \<Rightarrow> w = JStr s
      | JArr xs \<Rightarrow> (case w of JArr ys \<Rightarrow> length xs = length ys \<and> (\<forall>(x, y) \<in> set (zip xs ys). json_same x y) | _ \<Rightarrow> False)
      | JObj d \<Rightarrow> (case w of
            JObj e \<Rightarrow> length d = length e \<and>
              (\<forall>(k, x) \<in> set d. case dict_get e k of None \<Rightarrow> False | Some y \<Rightarrow> json_same x y)
          | _ \<Rightarrow> False)
      | _ \<Rightarrow> num_of w = num_of v)"
  by pat_completeness auto

termination
  by (relation "measure (size \<circ> fst)") (use json_member_size in \<open>auto intro: json_element_size\<close>)

declare json_same.simps [simp del]

record 'h broker =
  br_params :: "'h infer_params"
  br_actor :: identity
  br_routes :: "(string \<times> provider_route) list"
  br_adapters :: "adapter list"
  br_policy :: retry_policy
  br_loads :: "string \<Rightarrow> json option"
  br_raw_decode :: "string \<Rightarrow> json option"
  br_schema_valid :: "jobj \<Rightarrow> jobj \<Rightarrow> bool"
  br_hash_text :: "string \<Rightarrow> string"
  br_hash_tools :: "tool_capability list \<Rightarrow> string"

definition json_candidates :: "string \<Rightarrow> string list" where
  "json_candidates text =
     (let fence = [CHR 0x60, CHR 0x60, CHR 0x60] in
      if bare_prefix fence text \<and> bare_prefix fence (rev text)
      then [text, strip (join_lines (butlast (tl (split_lines [] text))))] else [text])"

fun first_object :: "(string \<Rightarrow> json option) \<Rightarrow> string list \<Rightarrow> jobj option" where
  "first_object loads [] = None"
| "first_object loads (s # ss) = (case loads s of Some (JObj d) \<Rightarrow> Some d | _ \<Rightarrow> first_object loads ss)"

fun embedded_objects :: "(string \<Rightarrow> json option) \<Rightarrow> jobj list \<Rightarrow> string \<Rightarrow> jobj list" where
  "embedded_objects decode found [] = found"
| "embedded_objects decode found (ch # s) =
     (let value = (if ch = CHR ''{'' then decode (ch # s) else None)
      in embedded_objects decode
           (case value of
              Some (JObj d) \<Rightarrow> if list_ex (\<lambda>e. json_same (JObj e) (JObj d)) found then found else found @ [d]
            | _ \<Rightarrow> found) s)"

definition recover_json_object :: "'h broker \<Rightarrow> string \<Rightarrow> jobj option" where
  "recover_json_object B text =
     (case first_object (br_loads B) (json_candidates text) of
        Some d \<Rightarrow> Some d
      | None \<Rightarrow> (case embedded_objects (br_raw_decode B) [] text of [d] \<Rightarrow> Some d | _ \<Rightarrow> None))"

text \<open>A semantic validator returns a verdict or raises (\<open>None\<close>).\<close>

type_synonym semantic_validator = "jobj \<Rightarrow> inference_request \<Rightarrow> bool option"

definition validate_response ::
  "'h broker \<Rightarrow> semantic_validator option \<Rightarrow> inference_request \<Rightarrow> raw_response \<Rightarrow>
   (attempt_status \<times> jobj option \<times> string option) option" where
  "validate_response B validator q response =
     (let text = strip (rr_text response) in
      if rr_stop_reason response = Some ''max_tokens'' \<or> rr_stop_reason response = Some ''length''
      then Some (RetryableFailure, None, Some ''truncated_response'')
      else if text = [] then Some (NonretryableFailure, None, Some ''empty_response'')
      else if list_ex (\<lambda>p. bare_prefix p (lower_string text)) refusals
      then Some (NonretryableFailure, None, Some ''provider_refusal'')
      else (case recover_json_object B text of
          None \<Rightarrow> Some (NonretryableFailure, None, Some ''malformed_structured_output'')
        | Some artifact \<Rightarrow>
            if \<not> br_schema_valid B (iq_expected_artifact_schema q) artifact
            then Some (NonretryableFailure, None, Some ''schema_validation_failed'')
            else (case validator of
                None \<Rightarrow> Some (SemanticAccepted, Some artifact, None)
              | Some f \<Rightarrow> (case f artifact q of
                    None \<Rightarrow> None
                  | Some True \<Rightarrow> Some (SemanticAccepted, Some artifact, None)
                  | Some False \<Rightarrow> Some (NonretryableFailure, Some artifact, Some ''semantic_validation_failed'')))))"

section \<open>Steps that commit and may raise later\<close>

type_synonym ('h, 'a) step = "'h idb \<Rightarrow> 'a result \<times> 'h idb"

definition sreturn :: "'a \<Rightarrow> ('h, 'a) step" where
  "sreturn x db = (Inr x, db)"

definition sbind :: "('h, 'a) step \<Rightarrow> ('a \<Rightarrow> ('h, 'b) step) \<Rightarrow> ('h, 'b) step" where
  "sbind m f db = (case m db of (Inl e, db1) \<Rightarrow> (Inl e, db1) | (Inr x, db1) \<Rightarrow> f x db1)"

text \<open>A pure computation that may raise, and a transaction of the backend.\<close>

definition slift :: "'a result \<Rightarrow> ('h, 'a) step" where
  "slift r db = (r, db)"

definition commit :: "('h idb \<Rightarrow> ('a \<times> 'h idb) result) \<Rightarrow> ('h, 'a) step" where
  "commit operation db = (case operation db of Inl e \<Rightarrow> (Inl e, db) | Inr (x, db1) \<Rightarrow> (Inr x, db1))"

definition commit_only :: "('h idb \<Rightarrow> 'h idb result) \<Rightarrow> ('h, unit) step" where
  "commit_only operation = commit (\<lambda>db. rbind (operation db) (\<lambda>db1. Inr ((), db1)))"

text \<open>What the outside answers while an attempt runs.\<close>

datatype provider_outcome =
    Replied raw_response
  | TimedOut
  | TransportFailed string bool
  | Crashed

record 'h attempt_env =
  ae_before :: "'h idb \<Rightarrow> 'h idb"
  ae_attempt_id :: string
  ae_claimed_at :: int
  ae_meanwhile :: "'h idb \<Rightarrow> 'h idb"
  ae_outcome :: provider_outcome
  ae_completed_at :: int
  ae_latency_ms :: int
  ae_fresh :: "nat \<Rightarrow> fresh"

definition hibernated :: "inference_request \<Rightarrow> string \<Rightarrow> inference_result" where
  "hibernated q reason = \<lparr>ir_request_id = iq_id q, ir_status = Hibernated, ir_artifact = None,
     ir_failure_reason = Some reason, ir_route_id = None\<rparr>"

definition late_answer ::
  "'h broker \<Rightarrow> inference_request \<Rightarrow> inference_attempt \<Rightarrow> fresh \<Rightarrow> ('h, inference_result) step" where
  "late_answer B q x fr =
     sbind (commit_only (note_event (br_params B) (br_actor B) (iq_id q) ''late_result_deduplicated''
             [(''attempt_id'', JStr (ia_attempt_id x))] fr)) (\<lambda>_.
     sreturn (hibernated q ''late_result_deduplicated''))"

section \<open>One attempt\<close>

definition unknown_usage :: usage where
  "unknown_usage = default_usage\<lparr>us_method := ''unknown_conservative''\<rparr>"

text \<open>The attempt a transport failure is recorded with.\<close>

definition failed_attempt ::
  "provider_route \<Rightarrow> inference_attempt \<Rightarrow> rat \<Rightarrow> rat \<Rightarrow> string \<Rightarrow> attempt_status \<Rightarrow> int \<Rightarrow> inference_attempt" where
  "failed_attempt route x reservation cost error_class status completed_at =
     (case broker_cost_components route unknown_usage status of (fixed, token, billed) \<Rightarrow>
      x\<lparr>ia_completed_at := Some completed_at, ia_status := status, ia_error_class := Some error_class,
        ia_total_cost_usd := max reservation cost, ia_pricing_plan_id := Some (pp_price_plan_id (pr_pricing route)),
        ia_fixed_call_cost_usd := Some fixed, ia_token_cost_usd := Some token, ia_billed_tokens := Some billed\<rparr>)"

definition record_failure ::
  "'h broker \<Rightarrow> inference_request \<Rightarrow> provider_route \<Rightarrow> inference_attempt \<Rightarrow> string \<Rightarrow> 'h attempt_env \<Rightarrow>
   ('h, inference_result) step" where
  "record_failure B q route x error_class e =
     sbind (commit (finish_attempt (br_params B) (br_actor B) x (ae_completed_at e) (ae_fresh e 10))) (\<lambda>accepted.
     if \<not> accepted then late_answer B q x (ae_fresh e 11)
     else
       sbind (commit_only (record_route_outcome (br_params B) (br_actor B) (pr_id route) False
                (rp_circuit_failure_threshold (br_policy B)) (ae_fresh e 12))) (\<lambda>_.
       sbind (commit_only (note_event (br_params B) (br_actor B) (iq_id q) ''inference_attempt_failed''
                [(''error_class'', JStr error_class), (''route_id'', JStr (pr_id route))] (ae_fresh e 13))) (\<lambda>_.
       sreturn \<lparr>ir_request_id = iq_id q, ir_status = ia_status x, ir_artifact = None,
                ir_failure_reason = Some error_class, ir_route_id = Some (pr_id route)\<rparr>)))"

definition finish_transport_failure ::
  "'h broker \<Rightarrow> inference_request \<Rightarrow> provider_route \<Rightarrow> inference_attempt \<Rightarrow> rat \<Rightarrow> string \<Rightarrow> bool \<Rightarrow> 'h attempt_env \<Rightarrow>
   ('h, inference_result) step" where
  "finish_transport_failure B q route attempt reservation error_class retryable e =
     (let status = (if retryable then RetryableFailure else NonretryableFailure) in
      sbind (slift (conservative_cost route unknown_usage status)) (\<lambda>cost.
      record_failure B q route (failed_attempt route attempt reservation cost error_class status (ae_completed_at e))
        error_class e))"

text \<open>The attempt as the broker fills it in after the claim, and after a response.\<close>

definition claimed_attempt ::
  "'h broker \<Rightarrow> compiled_context \<Rightarrow> provider_route \<Rightarrow> inference_attempt \<Rightarrow> inference_attempt" where
  "claimed_attempt B c route x =
     x\<lparr>ia_model_family := pr_model_family route, ia_model_version := pr_model_version route,
       ia_correlation_domain := Some (pr_upstream_correlation_domain route),
       ia_system_prompt_hash := Some (br_hash_text B (cc_system_prompt c)),
       ia_task_prompt_hash := Some (br_hash_text B (cc_user_prompt c)),
       ia_tool_schema_hash := Some (br_hash_tools B (cc_tool_capabilities c)),
       ia_pricing_plan_id := Some (pp_price_plan_id (pr_pricing route))\<rparr>"

definition answered_attempt ::
  "'h broker \<Rightarrow> provider_route \<Rightarrow> inference_attempt \<Rightarrow> rat \<Rightarrow> raw_response \<Rightarrow>
   attempt_status \<times> jobj option \<times> string option \<Rightarrow> 'h attempt_env \<Rightarrow> inference_attempt result" where
  "answered_attempt B route x reservation response verdict e =
     (case verdict of (status, artifact, error_class) \<Rightarrow>
      case broker_cost_components route (rr_usage response) status of (fixed, token, billed) \<Rightarrow>
      rbind (response_cost route (rr_usage response) status reservation) (\<lambda>total.
      Inr (x\<lparr>ia_completed_at := Some (ae_completed_at e), ia_status := status,
             ia_provider_request_id := rr_provider_request_id response, ia_http_status := Some (rr_http_status response),
             ia_error_class := error_class, ia_usage := rr_usage response, ia_total_cost_usd := total,
             ia_fixed_call_cost_usd := Some fixed, ia_token_cost_usd := Some token, ia_billed_tokens := Some billed,
             ia_provider_reported_model := rr_model_version response,
             ia_model_version := (if truthy (rr_model_version response) then rr_model_version response
                                  else pr_model_version route),
             ia_latency_ms := Some (ae_latency_ms e), ia_output_artifact := artifact,
             ia_response_hash := Some (br_hash_text B (rr_text response))\<rparr>)))"

definition record_answer ::
  "'h broker \<Rightarrow> inference_request \<Rightarrow> provider_route \<Rightarrow> inference_attempt \<Rightarrow> 'h attempt_env \<Rightarrow>
   ('h, inference_result) step" where
  "record_answer B q route x e =
     sbind (commit (finish_attempt (br_params B) (br_actor B) x (ae_completed_at e) (ae_fresh e 3))) (\<lambda>accepted.
     if \<not> accepted then late_answer B q x (ae_fresh e 4)
     else
       sbind (commit_only (record_route_outcome (br_params B) (br_actor B) (pr_id route) (accepted_status (ia_status x))
                (rp_circuit_failure_threshold (br_policy B)) (ae_fresh e 5))) (\<lambda>_.
       sbind (commit_only (note_event (br_params B) (br_actor B) (iq_id q) ''inference_attempt_completed''
                [(''attempt_id'', JStr (ia_attempt_id x)), (''final_status'', JStr (attempt_name (ia_status x))),
                 (''layers'', JArr (if ia_output_artifact x \<noteq> None \<and> ia_output_artifact x \<noteq> Some []
                    then [JStr ''TRANSPORT_SUCCESS'', JStr ''SCHEMA_SUCCESS''] else [JStr ''TRANSPORT_SUCCESS'']))]
                (ae_fresh e 6))) (\<lambda>_.
       sreturn \<lparr>ir_request_id = iq_id q, ir_status = ia_status x, ir_artifact = ia_output_artifact x,
                ir_failure_reason = ia_error_class x, ir_route_id = Some (pr_id route)\<rparr>)))"

text \<open>
  The \<open>try\<close> block and its handlers: a failure after the response was read is handled with
  the attempt as it was filled in by then.
\<close>

definition handle_failure ::
  "'h broker \<Rightarrow> inference_request \<Rightarrow> provider_route \<Rightarrow> inference_attempt \<Rightarrow> rat \<Rightarrow> 'h attempt_env \<Rightarrow>
   ('h, inference_result) step" where
  "handle_failure B q route x reservation e =
     finish_transport_failure B q route x reservation ''adapter_or_validator_failure'' False e"

definition await_answer ::
  "'h broker \<Rightarrow> semantic_validator option \<Rightarrow> inference_request \<Rightarrow> provider_route \<Rightarrow> inference_attempt \<Rightarrow> rat \<Rightarrow>
   'h attempt_env \<Rightarrow> ('h, inference_result) step" where
  "await_answer B validator q route x reservation e db =
     (case ae_outcome e of
        TimedOut \<Rightarrow> finish_transport_failure B q route x reservation ''caller_timeout'' True e db
      | TransportFailed error_class retryable \<Rightarrow>
          finish_transport_failure B q route x reservation error_class retryable e db
      | Crashed \<Rightarrow> handle_failure B q route x reservation e db
      | Replied response \<Rightarrow>
          (case validate_response B validator q response of
             None \<Rightarrow> handle_failure B q route x reservation e db
           | Some verdict \<Rightarrow>
               (case answered_attempt B route x reservation response verdict e of
                  Inl _ \<Rightarrow> handle_failure B q route x reservation e db
                | Inr y \<Rightarrow>
                    (case record_answer B q route y e db of
                       (Inl _, db1) \<Rightarrow> handle_failure B q route y reservation e db1
                     | (Inr res, db1) \<Rightarrow> (Inr res, db1)))))"

text \<open>The lease in microseconds.\<close>

definition lease_micros :: "inference_request \<Rightarrow> provider_route \<Rightarrow> int" where
  "lease_micros q route =
     half_even (float_round (max (case iq_max_latency_sec q of None \<Rightarrow> 0 | Some t \<Rightarrow> t)
       (rc_timeout_seconds (pr_capabilities route)) + 5) * 1000000)"

definition attempt ::
  "'h broker \<Rightarrow> semantic_validator option \<Rightarrow> inference_request \<Rightarrow> compiled_context \<Rightarrow> usage \<Rightarrow> provider_route \<Rightarrow>
   'h attempt_env \<Rightarrow> ('h, inference_result) step" where
  "attempt B validator q c u route e =
     sbind (slift (conservative_cost route u SemanticAccepted)) (\<lambda>reservation db.
     case commit (claim_attempt (br_params B) (br_actor B) (iq_id q) (pr_id route) (lease_micros q route)
            (ae_attempt_id e) (ae_claimed_at e) (ae_fresh e 0)) db of
       (Inl (ConcurrentModification m), db1) \<Rightarrow> (Inr (hibernated q ''lease_superseded''), db1)
     | (Inl err, db1) \<Rightarrow> (Inl err, db1)
     | (Inr claimed, db1) \<Rightarrow>
         let x = claimed_attempt B c route claimed in
         sbind (commit (reserve_cost (br_params B) (br_actor B) (iq_id q) (ia_attempt_id x) reservation (ae_fresh e 1)))
           (\<lambda>reserved.
            if \<not> reserved then
              sbind (commit (finish_attempt (br_params B) (br_actor B)
                       (x\<lparr>ia_completed_at := Some (ae_completed_at e), ia_status := Hibernated,
                          ia_error_class := Some ''budget_exhausted''\<rparr>) (ae_claimed_at e) (ae_fresh e 2))) (\<lambda>_.
              sbind (commit_only (note_event (br_params B) (br_actor B) (iq_id q) ''inference_budget_denied''
                       [(''route_id'', JStr (pr_id route))] (ae_fresh e 3))) (\<lambda>_.
              sreturn (hibernated q ''budget_exhausted'')))
            else (\<lambda>db2. await_answer B validator q route x reservation e (ae_meanwhile e db2))) db1)"

section \<open>A run\<close>

datatype attempt_loop = Answer inference_result | NextRoute

text \<open>
  \<open>retry_route\<close> is the loop over \<open>range(same_route_retries + 1)\<close> on one route: \<open>left\<close> more tries,
  the next of which is number \<open>k\<close>.
\<close>

fun retry_route ::
  "'h broker \<Rightarrow> semantic_validator option \<Rightarrow> inference_request \<Rightarrow> compiled_context \<Rightarrow> usage \<Rightarrow> provider_route \<Rightarrow>
   (nat \<Rightarrow> 'h attempt_env) \<Rightarrow> nat \<Rightarrow> nat \<Rightarrow> ('h, attempt_loop) step" where
  "retry_route B validator q c u route env k 0 = sreturn NextRoute"
| "retry_route B validator q c u route env k (Suc left) =
     (\<lambda>db. sbind (attempt B validator q c u route (env k)) (\<lambda>res.
        if accepted_status (ir_status res) then sreturn (Answer res)
        else if ir_status res = Hibernated then
          sbind (commit_only (hibernate (br_params B) (br_actor B) (iq_id q)
                   (if truthy (ir_failure_reason res) then the (ir_failure_reason res) else ''attempt_hibernated'')
                   (ae_fresh (env k) 20))) (\<lambda>_. sreturn (Answer res))
        else if ir_status res \<noteq> RetryableFailure \<or> k = rp_same_route_retries (br_policy B) then sreturn NextRoute
        else retry_route B validator q c u route env (Suc k) left) (ae_before (env k) db))"

fun try_routes ::
  "'h broker \<Rightarrow> semantic_validator option \<Rightarrow> inference_request \<Rightarrow> compiled_context \<Rightarrow> usage \<Rightarrow>
   (string \<Rightarrow> nat \<Rightarrow> 'h attempt_env) \<Rightarrow> string list \<Rightarrow> provider_route list \<Rightarrow> ('h, attempt_loop) step" where
  "try_routes B validator q c u env used [] = sreturn NextRoute"
| "try_routes B validator q c u env used (route # routes) =
     (if pr_upstream_correlation_domain route \<in> set used then try_routes B validator q c u env used routes
      else sbind (retry_route B validator q c u route (env (pr_id route)) 0 (Suc (rp_same_route_retries (br_policy B))))
        (\<lambda>out. case out of
           Answer res \<Rightarrow> sreturn (Answer res)
         | NextRoute \<Rightarrow> try_routes B validator q c u env (pr_upstream_correlation_domain route # used) routes))"

definition give_up :: "'h broker \<Rightarrow> inference_request \<Rightarrow> string \<Rightarrow> fresh \<Rightarrow> ('h, inference_result) step" where
  "give_up B q reason fr =
     sbind (commit_only (hibernate (br_params B) (br_actor B) (iq_id q) reason fr)) (\<lambda>_. sreturn (hibernated q reason))"

definition run_request ::
  "'h broker \<Rightarrow> semantic_validator option \<Rightarrow> inference_request \<Rightarrow> compiled_context \<Rightarrow> usage \<Rightarrow>
   (string \<Rightarrow> nat \<Rightarrow> 'h attempt_env) \<Rightarrow> fresh \<Rightarrow> ('h, inference_result) step" where
  "run_request B validator q c u env fr =
     sbind (slift (require (mf_completeness_status (cc_manifest c) \<noteq> IncompleteBlocking)
              (ContextRejected ''blocking context cannot be sent to a provider''))) (\<lambda>_.
     sbind (commit (create_or_get (br_params B) (br_actor B) q (cc_manifest c) fr)) (\<lambda>stored.
     if iq_id stored \<noteq> iq_id q then
       (\<lambda>db. case completed_result (br_actor B) (iq_id stored) db of
          Inl err \<Rightarrow> (Inl err, db)
        | Inr (Some res) \<Rightarrow> (Inr res, db)
        | Inr None \<Rightarrow> (Inr (hibernated stored ''semantic_request_already_in_progress_or_hibernated''), db))
     else
       (\<lambda>db. sbind (slift (select_routes (br_routes B) (br_actor B) stored c u db)) (\<lambda>selected.
        let routes = List.filter (\<lambda>r. pr_adapter r \<in> set (br_adapters B)) selected in
        if routes = [] then give_up B stored ''no_eligible_route'' fr
        else sbind (try_routes B validator stored c u env [] routes) (\<lambda>out.
          case out of
            Answer res \<Rightarrow> sreturn res
          | NextRoute \<Rightarrow> give_up B stored ''all_independent_routes_failed'' fr)) db)))"

section \<open>Recovery, billing and usefulness\<close>

definition broker_revive :: "'h broker \<Rightarrow> string \<Rightarrow> string \<Rightarrow> fresh \<Rightarrow> ('h, bool) step" where
  "broker_revive B i reason fr = commit (revive (br_params B) (br_actor B) i reason fr)"

definition broker_revive_route :: "'h broker \<Rightarrow> string \<Rightarrow> string \<Rightarrow> fresh \<Rightarrow> ('h, bool) step" where
  "broker_revive_route B route_id reason fr =
     sbind (slift (require (route_id \<in> set (dict_keys (br_routes B))) (ValueError ''unknown inference route''))) (\<lambda>_.
     commit (revive_route (br_params B) (br_actor B) route_id reason fr))"

definition reconcile_provider_cost :: "'h broker \<Rightarrow> string \<Rightarrow> string \<Rightarrow> rat \<Rightarrow> fresh \<Rightarrow> ('h, bool) step" where
  "reconcile_provider_cost B i k cost fr = commit (reconcile_attempt_cost (br_params B) (br_actor B) i k cost fr)"

definition broker_mark_useful :: "'h broker \<Rightarrow> string \<Rightarrow> string \<Rightarrow> string \<Rightarrow> fresh \<Rightarrow> ('h, bool) step" where
  "broker_mark_useful B i k reason fr =
     sbind (slift (require (strip reason \<noteq> []) (ValueError ''a useful-decision reason is required''))) (\<lambda>_.
     commit (mark_decision_useful (br_params B) (br_actor B) i k reason fr))"

end
