(* ===== verification/BrokerProps.thy ===== *)
theory BrokerProps
  imports Broker InferProps "HOL-Library.Multiset"
begin

text \<open>
  What the broker promises: the routes it selects and their order, that a run ends with a
  recorded answer or a sleeping request, and what a repeated transport failure does.
\<close>

section \<open>Selected routes\<close>

lemma filter_result_exact:
  "filter_result p xs = Inr ys \<Longrightarrow> ys = List.filter (\<lambda>x. p x = Inr True) xs \<and> (\<forall>x \<in> set xs. \<not> isl (p x))"
  by (induction xs arbitrary: ys) (auto simp: rbind_eq_Inr)

definition route_key :: "usage \<Rightarrow> string \<Rightarrow> provider_route \<Rightarrow> rat \<times> string" where
  "route_key u task_class r = ((case expected_cost r u task_class of Inr c \<Rightarrow> c | Inl e \<Rightarrow> 0), pr_id r)"

lemma with_costs_Inr:
  "with_costs u task_class rs = Inr xs \<Longrightarrow>
   xs = map (\<lambda>r. (route_key u task_class r, r)) rs \<and> (\<forall>r \<in> set rs. \<not> isl (expected_cost r u task_class))"
  by (induction rs arbitrary: xs) (auto simp: rbind_eq_Inr route_key_def)

lemma insort_key_map: "insort_key f (g x) (map g xs) = map g (insort_key (\<lambda>y. f (g y)) x xs)"
  by (induction xs) auto

lemma sort_key_map: "sort_key f (map g xs) = map g (sort_key (\<lambda>y. f (g y)) xs)"
  by (induction xs) (simp_all add: insort_key_map)

lemma diverse_set: "set (diverse seen rs) \<subseteq> set rs"
  by (induction rs arbitrary: seen) auto

lemma diverse_distinct:
  "distinct (map pr_upstream_correlation_domain (diverse seen rs)) \<and>
   (\<forall>r \<in> set (diverse seen rs). pr_upstream_correlation_domain r \<notin> set seen)"
  by (induction rs arbitrary: seen) (simp, force)

lemma diverse_leads:
  assumes "sorted (map key rs)" and "r \<in> set rs" and "pr_upstream_correlation_domain r \<notin> set seen"
  shows "\<exists>l \<in> set (diverse seen rs). pr_upstream_correlation_domain l = pr_upstream_correlation_domain r \<and> key l \<le> key r"
  using assms
proof (induction rs arbitrary: seen)
  case (Cons x rs)
  show ?case
  proof (cases "pr_upstream_correlation_domain x \<in> set seen")
    case True
    then show ?thesis using Cons by auto
  next
    case new: False
    show ?thesis
    proof (cases "pr_upstream_correlation_domain r = pr_upstream_correlation_domain x")
      case True
      then show ?thesis using new Cons.prems by auto
    next
      case False
      then have "r \<in> set rs" using Cons.prems(2) by auto
      then show ?thesis using new False Cons.IH [of "pr_upstream_correlation_domain x # seen"] Cons.prems by auto
    qed
  qed
qed simp

lemma select_routes_Inr:
  assumes "select_routes table actor q c u db = Inr rs"
  obtains ordered where "ordered = sort_key (route_key u (iq_task_class q))
      (List.filter (\<lambda>r. suitable q c u actor db r = Inr True) (map snd table))"
    "rs = diverse [] ordered @ List.filter (\<lambda>r. r \<notin> set (diverse [] ordered)) ordered"
    "\<forall>r \<in> set ordered. \<not> isl (expected_cost r u (iq_task_class q))"
proof -
  obtain routes xs where f: "filter_result (suitable q c u actor db) (map snd table) = Inr routes"
    and w: "with_costs u (iq_task_class q) routes = Inr xs"
    and rs: "rs = (let ordered = map snd (sort_key fst xs); leaders = diverse [] ordered
       in leaders @ List.filter (\<lambda>r. r \<notin> set leaders) ordered)"
    using assms unfolding select_routes_def Let_def by (auto simp: rbind_eq_Inr)
  have "map snd (sort_key fst xs) = sort_key (route_key u (iq_task_class q)) routes"
    using with_costs_Inr [OF w] by (simp add: sort_key_map o_def)
  then show thesis
    using that [of "sort_key (route_key u (iq_task_class q)) routes"] rs filter_result_exact [OF f] with_costs_Inr [OF w]
    by (simp add: Let_def)
qed

lemma route_table_get: "dict_get (route_table rs) k = List.find (\<lambda>r. pr_id r = k) (rev rs)"
proof -
  have "dict_get (foldl (\<lambda>d r. dict_set (pr_id r) r d) d rs) k =
      (case List.find (\<lambda>r. pr_id r = k) (rev rs) of None \<Rightarrow> dict_get d k | Some r \<Rightarrow> Some r)" for d
    by (induction rs arbitrary: d rule: rev_induct) (auto simp: dict_get_set)
  then show ?thesis by (simp add: route_table_def split: option.splits)
qed

lemma route_table_ids: "distinct (dict_keys (route_table rs)) \<and> (\<forall>(k, r) \<in> set (route_table rs). k = pr_id r)"
proof -
  have *: "distinct (dict_keys (foldl (\<lambda>d r. dict_set (pr_id r) r d) d rs)) \<and>
      (\<forall>(k, r) \<in> set (foldl (\<lambda>d r. dict_set (pr_id r) r d) d rs). k = pr_id r)"
    if "distinct (dict_keys d)" "\<forall>(k, r) \<in> set d. k = pr_id r" for d
    using that
  proof (induction rs arbitrary: d)
    case (Cons x rs)
    have "set (dict_set (pr_id x) x d) \<subseteq> insert (pr_id x, x) (set d)" by (induction d) auto
    then have "\<forall>(k, r) \<in> set (dict_set (pr_id x) x d). k = pr_id r" using Cons.prems(2) by auto
    then show ?case using Cons.IH [OF distinct_dict_set [OF Cons.prems(1)]] by simp
  qed simp
  show ?thesis using * [of "[]"] by (simp add: route_table_def)
qed

lemma route_table_distinct: "distinct (map snd (route_table rs))"
proof -
  have "dict_keys (route_table rs) = map pr_id (map snd (route_table rs))"
    using route_table_ids [of rs] by (auto simp: case_prod_beta)
  then show ?thesis using route_table_ids [of rs] by (metis distinct_map)
qed

section \<open>Steps\<close>













section \<open>The outcome of an attempt\<close>

















section \<open>The outcome of a run\<close>







section \<open>Repeated timeouts\<close>








definition zero_usage :: usage where
  "zero_usage = \<lparr>us_input = Some 0, us_output = Some 0, us_reasoning = Some 0, us_cache_read = Some 0,
     us_cache_write = Some 0, us_method = ''provider_reported''\<rparr>"

lemma zero_cost: "conservative_cost (sample_route i d clearance) zero_usage status = Inr 0"
  by (cases status) (simp_all add: conservative_cost_def conservative_usage_def zero_usage_def sample_route_def token_counts_def
      plan_cost_def cost_components_def resolved_usage_def billable_def sample_plan_def total_tokens_def or_zero_def
      rates_def select_tier_def sample_tier_def tier_rate_def add_token_cost_def quantize_micro_up_def to_integral_up_def Let_def)

lemma float_facts: "float_round 1 = 1" "float_repr 1 = 1" "float_round (1 / 100) \<le> 1"
  by code_simp+

lemma zero_expected: "expected_cost (sample_route i d clearance) zero_usage cls = Inr 0"
  by (simp add: expected_cost_def zero_cost [unfolded sample_route_def] metrics_for_def sample_route_def [of i d clearance] float_facts max_absorb1 ddiv_def)
     
lemma zero_suitable:
  "suitable sample_infer_request sample_context zero_usage sample_broker empty_idb (sample_route i d Internal) = Inr True"
  by (simp add: suitable_def zero_cost [unfolded sample_route_def] admissible_before_def admissible_after_def metrics_for_def circuit_is_open_def
    broker_allowed empty_idb_def sample_infer_request_def sample_route_def [of i d Internal] has_required_benchmark_def
    context_safe_for_route_def sample_context_def sample_manifest_simps prompt_tokens_def system_prompt_def)

definition sample_routes :: "provider_route list" where
  "sample_routes = [sample_route ''b'' ''d'' Internal, sample_route ''c'' ''e'' Internal, sample_route ''a'' ''d'' Internal]"

lemma sample_table: "map snd (route_table sample_routes) = sample_routes"
  by (simp add: route_table_def sample_routes_def sample_route_def)

section \<open>Properties\<close>

text \<open>C16 The selected routes are exactly the suitable ones: each may receive the compiled evidence,
  is licensed and priced within the call limit. They start with one leader for every
  correlation domain, the cheapest of its domain by expected cost and then by identifier, so
  the independent routes are tried before any second route of a domain.\<close>

theorem select_routes_sound:
  assumes "select_routes (route_table routes) actor q c u db = Inr rs"
  shows "mset rs = mset (List.filter (\<lambda>r. suitable q c u actor db r = Inr True) (map snd (route_table routes))) \<and>
    (\<forall>r \<in> set rs. eg_highest_rank (mf_egress_decision (cc_manifest c)) \<le> classification_rank (pr_egress_clearance r) \<and>
       pr_license_approved r \<and> circuit_is_open actor (pr_id r) db = Inr False \<and>
       (\<exists>direct. conservative_cost r u SemanticAccepted = Inr direct \<and>
          pred_option (\<lambda>limit. direct \<le> limit) (iq_max_call_cost_usd q))) \<and>
    (\<exists>leaders others. rs = leaders @ others \<and> distinct (map pr_upstream_correlation_domain leaders) \<and>
       (\<forall>r \<in> set rs. \<exists>l \<in> set leaders. pr_upstream_correlation_domain l = pr_upstream_correlation_domain r \<and>
          (\<exists>x y. expected_cost l u (iq_task_class q) = Inr x \<and> expected_cost r u (iq_task_class q) = Inr y \<and>
             (x < y \<or> x = y \<and> pr_id l \<le> pr_id r))))"
proof -
  let ?good = "List.filter (\<lambda>r. suitable q c u actor db r = Inr True) (map snd (route_table routes))"
  let ?key = "route_key u (iq_task_class q)"
  obtain ordered where ordered: "ordered = sort_key ?key ?good"
    and rs: "rs = diverse [] ordered @ List.filter (\<lambda>r. r \<notin> set (diverse [] ordered)) ordered"
    and priced: "\<forall>r \<in> set ordered. \<not> isl (expected_cost r u (iq_task_class q))"
    by (rule select_routes_Inr [OF assms])
  have "distinct ordered" using distinct_filter [OF route_table_distinct] by (simp add: ordered)
  have set_rs: "set rs = set ordered" using diverse_set [of "[]" ordered] by (auto simp: rs)
  have "distinct rs"
    using \<open>distinct ordered\<close> diverse_distinct [of "[]" ordered] by (auto simp: rs distinct_map)
  then have "mset rs = mset ordered"
    using set_rs \<open>distinct ordered\<close> by (simp add: set_eq_iff_mset_eq_distinct)
  then have perm: "mset rs = mset ?good" by (simp add: ordered)
  have suit: "suitable q c u actor db r = Inr True" if "r \<in> set rs" for r
    using that by (simp add: set_rs ordered)
  have safe: "eg_highest_rank (mf_egress_decision (cc_manifest c)) \<le> classification_rank (pr_egress_clearance r) \<and>
       pr_license_approved r \<and> circuit_is_open actor (pr_id r) db = Inr False \<and>
       (\<exists>direct. conservative_cost r u SemanticAccepted = Inr direct \<and>
          pred_option (\<lambda>limit. direct \<le> limit) (iq_max_call_cost_usd q))" if "r \<in> set rs" for r
    using suit [OF that]
    by (auto simp: suitable_def rbind_eq_Inr admissible_before_def context_safe_for_route_def Let_def split: if_splits)
  have leads: "\<exists>l \<in> set (diverse [] ordered). pr_upstream_correlation_domain l = pr_upstream_correlation_domain r \<and>
      ?key l \<le> ?key r" if "r \<in> set rs" for r
    by (rule diverse_leads) (use that in \<open>simp_all add: set_rs ordered\<close>)
  have order: "\<exists>x y. expected_cost l u (iq_task_class q) = Inr x \<and> expected_cost r u (iq_task_class q) = Inr y \<and>
      (x < y \<or> x = y \<and> pr_id l \<le> pr_id r)" if "l \<in> set ordered" "r \<in> set ordered" "?key l \<le> ?key r" for l r
    using that priced by (auto simp: route_key_def isl_def less_eq_prod_def split: sum.splits)
  have front: "\<exists>l \<in> set (diverse [] ordered). pr_upstream_correlation_domain l = pr_upstream_correlation_domain r \<and>
      (\<exists>x y. expected_cost l u (iq_task_class q) = Inr x \<and> expected_cost r u (iq_task_class q) = Inr y \<and>
         (x < y \<or> x = y \<and> pr_id l \<le> pr_id r))" if r: "r \<in> set rs" for r
  proof -
    obtain l where l: "l \<in> set (diverse [] ordered)" "pr_upstream_correlation_domain l = pr_upstream_correlation_domain r"
        "?key l \<le> ?key r"
      using leads [OF r] by blast
    have "l \<in> set ordered" "r \<in> set ordered" using l(1) r diverse_set [of "[]" ordered] set_rs by blast+
    from order [OF this l(3)] l(1,2) show ?thesis by (intro bexI [of _ l] conjI)
  qed
  show ?thesis
    using perm safe front rs diverse_distinct [of "[]" ordered]
    by (intro conjI exI [of _ "diverse [] ordered"] exI [of _ "List.filter (\<lambda>r. r \<notin> set (diverse [] ordered)) ordered"])
      (simp_all only: simp_thms ball_simps | blast)+
qed



text \<open>
  Whether a route is safe for a compiled context is decided from the evidence alone: memory
  that was compiled in under a higher clearance is sent to a fallback route without it.
\<close>

theorem memory_reaches_lower_clearance:
  "compile_context sample_context_params sample_infer_request sample_contract (sample_route ''a'' ''d'' Confidential)
     (sample_call sample_items [sample_memory Confidential]) = Inr sample_context \<and>
   mf_included_memory_ids (cc_manifest sample_context) = [mm_id (sample_memory Confidential)] \<and>
   mm_classification (sample_memory Confidential) = Confidential \<and>
   context_safe_for_route sample_context (sample_route ''b'' ''e'' Internal)"
  using sample_compiled
  by (simp add: sample_context_def sample_manifest_simps sample_memory_def context_safe_for_route_def sample_route_def)

section \<open>Witnesses\<close>

theorem select_routes_sound_witness:
  "\<exists>rs leaders others. select_routes (route_table sample_routes) sample_broker sample_infer_request sample_context zero_usage (empty_idb :: nat idb)
       = Inr rs \<and> length rs = 3 \<and> rs = leaders @ others \<and> leaders \<noteq> [] \<and>
     distinct (map pr_upstream_correlation_domain leaders)"
proof -
  have kept: "filter_result (suitable sample_infer_request sample_context zero_usage sample_broker (empty_idb :: nat idb)) sample_routes = Inr sample_routes"
    by (simp add: sample_routes_def zero_suitable)
  have "\<exists>xs. with_costs zero_usage cls sample_routes = Inr xs" for cls
    by (simp add: sample_routes_def zero_expected)
  then obtain xs where "with_costs zero_usage (iq_task_class sample_infer_request) sample_routes = Inr xs" by blast
  with kept have "\<exists>rs. select_routes (route_table sample_routes) sample_broker sample_infer_request sample_context zero_usage (empty_idb :: nat idb)
       = Inr rs"
    by (simp add: select_routes_def sample_table Let_def)
  then obtain rs where rs: "select_routes (route_table sample_routes) sample_broker sample_infer_request sample_context zero_usage (empty_idb :: nat idb)
       = Inr rs" by blast
  note sound = select_routes_sound [OF rs]
  have "length rs = length (List.filter (\<lambda>r. suitable sample_infer_request sample_context zero_usage sample_broker (empty_idb :: nat idb) r = Inr True)
      (map snd (route_table sample_routes)))"
    using sound by (metis size_mset)
  then have three: "length rs = 3" unfolding sample_table by (simp add: sample_routes_def zero_suitable)
  obtain leaders others where split: "rs = leaders @ others" "distinct (map pr_upstream_correlation_domain leaders)"
      "\<forall>r \<in> set rs. \<exists>l \<in> set leaders. pr_upstream_correlation_domain l = pr_upstream_correlation_domain r"
    using sound by blast
  have "leaders \<noteq> []" using split(3) three by (cases rs) auto
  then show ?thesis using rs three split(1,2) by blast
qed

definition quiet_broker :: "nat broker" where
  "quiet_broker = \<lparr>br_params = sample_infer_params, br_actor = sample_broker, br_routes = [], br_adapters = [OpenAIChat],
     br_policy = default_policy, br_loads = (\<lambda>_. None), br_raw_decode = (\<lambda>_. None), br_schema_valid = (\<lambda>_ _. True),
     br_hash_text = id, br_hash_tools = (\<lambda>_. [])\<rparr>"

lemma quiet_broker_simps [simp]:
  "br_params quiet_broker = sample_infer_params" "br_actor quiet_broker = sample_broker" "br_routes quiet_broker = []"
  "br_policy quiet_broker = default_policy"
  by (simp_all add: quiet_broker_def)

definition quiet_env :: "string \<Rightarrow> provider_outcome \<Rightarrow> nat attempt_env" where
  "quiet_env k out = \<lparr>ae_before = id, ae_attempt_id = k, ae_claimed_at = 1, ae_meanwhile = id, ae_outcome = out,
     ae_completed_at = 5, ae_latency_ms = 1, ae_fresh = (\<lambda>_. sample_fresh)\<rparr>"

lemma quiet_env_simps [simp]:
  "ae_attempt_id (quiet_env k out) = k" "ae_claimed_at (quiet_env k out) = 1" "ae_meanwhile (quiet_env k out) = id"
  "ae_outcome (quiet_env k out) = out" "ae_completed_at (quiet_env k out) = 5" "ae_fresh (quiet_env k out) i = sample_fresh"
  by (simp_all add: quiet_env_def)


text \<open>A request whose first attempt on the route \<open>r\<close> times out.\<close>

abbreviation "timeout_route \<equiv> sample_route ''r'' ''d'' Public"

definition free_but :: "string list \<Rightarrow> 'h idb \<Rightarrow> bool" where
  "free_but used db \<longleftrightarrow> (\<forall>key. key \<notin> set used \<longrightarrow> unused key db)"


lemma free_but_frame: "db_store db' = db_store db \<Longrightarrow> free_but used db' = free_but used db"
  by (simp add: free_but_def unused_def)








end
