(* ===== verification/PaperStore.thy ===== *)
theory PaperStore
  imports Accounting Execution EventStore "HOL-Library.Product_Lexorder"
begin

text \<open>
  The paper execution service \<open>liki/paper_service.py\<close> over the tables of
  \<open>migrations/004_paper.sql\<close>, \<open>007\<close> and \<open>008\<close> and the event store. Every operation is one
  transaction, and the advisory lock serialises them: a function from the tables to an
  error, which rolls back, or a result with the new tables. A \<open>CHECK\<close> or a key a statement
  can violate is an \<open>IntegrityError\<close>. A query without an order returns rows as they were
  inserted. Columns no operation reads are not kept.
\<close>

section \<open>Contracts of the service\<close>

datatype run_status = Run_Reconcile_Only | Run_Active | Run_Stopped | Run_Failed

fun run_status_name :: "run_status \<Rightarrow> string" where
  "run_status_name Run_Reconcile_Only = ''RECONCILE_ONLY''"
| "run_status_name Run_Active = ''ACTIVE''"
| "run_status_name Run_Stopped = ''STOPPED''"
| "run_status_name Run_Failed = ''FAILED''"

definition run_status_of :: "json \<Rightarrow> run_status result" where
  "run_status_of v =
     (case List.find (\<lambda>s. v = JStr (run_status_name s)) [Run_Reconcile_Only, Run_Active, Run_Stopped, Run_Failed] of
        Some s \<Rightarrow> Inr s
      | None \<Rightarrow> Inl (ValueError ''is not a valid PaperRunStatus''))"

datatype paper_scope = Scope_Global | Scope_Venue | Scope_Strategy

fun scope_name :: "paper_scope \<Rightarrow> string" where
  "scope_name Scope_Global = ''GLOBAL''"
| "scope_name Scope_Venue = ''VENUE''"
| "scope_name Scope_Strategy = ''STRATEGY''"

fun order_state_name :: "order_state \<Rightarrow> string" where
  "order_state_name INTENT = ''INTENT''"
| "order_state_name PRETRADE_VALIDATED = ''PRETRADE_VALIDATED''"
| "order_state_name SUBMITTED = ''SUBMITTED''"
| "order_state_name ACKNOWLEDGED = ''ACKNOWLEDGED''"
| "order_state_name UNKNOWN_RECONCILING = ''UNKNOWN_RECONCILING''"
| "order_state_name PARTIALLY_FILLED = ''PARTIALLY_FILLED''"
| "order_state_name AMENDED = ''AMENDED''"
| "order_state_name CANCEL_PENDING = ''CANCEL_PENDING''"
| "order_state_name FILLED = ''FILLED''"
| "order_state_name CANCELLED = ''CANCELLED''"
| "order_state_name REJECTED = ''REJECTED''"
| "order_state_name EXPIRED = ''EXPIRED''"

text \<open>\<open>PinnedFillModel\<close> holds the fields of a fill model; its latency counts microseconds.\<close>

definition pin_fill_model :: "fill_model \<Rightarrow> fill_model result" where
  "pin_fill_model m =
     rbind (require (fm_version m \<noteq> []) (ValueError ''String should have at least 1 character'')) (\<lambda>_.
     rbind (require (0 \<le> fm_latency m) (ValueError ''Input should be greater than or equal to 0'')) (\<lambda>_.
     mk_fill_model m))"

record execution_config =
  xc_fill_model :: fill_model
  xc_instruments :: "instrument_spec list"
  xc_fee_schedules :: "fee_schedule list"
  xc_fee_account_tier :: string

record run_spec =
  rn_run_id :: string
  rn_policy_version :: string
  rn_reporting_currency :: string
  rn_envelope :: risk_envelope
  rn_execution :: execution_config

definition mk_run_spec :: "run_spec \<Rightarrow> run_spec result" where
  "mk_run_spec s =
     rbind (require (rn_run_id s \<noteq> [] \<and> rn_policy_version s \<noteq> [] \<and> rn_reporting_currency s \<noteq> [] \<and>
                     xc_fee_account_tier (rn_execution s) \<noteq> [])
              (ValueError ''String should have at least 1 character'')) (\<lambda>_.
     rbind (require (xc_instruments (rn_execution s) \<noteq> [] \<and> xc_fee_schedules (rn_execution s) \<noteq> [])
              (ValueError ''Tuple should have at least 1 item'')) (\<lambda>_. Inr s))"

record stop_request =
  sq_scope :: paper_scope
  sq_scope_id :: "string option"
  sq_reason_code :: string
  sq_automatic :: bool
  sq_policy_version :: string

definition mk_stop_request :: "stop_request \<Rightarrow> stop_request result" where
  "mk_stop_request s =
     rbind (require (sq_reason_code s \<noteq> [] \<and> sq_policy_version s \<noteq> [])
              (ValueError ''String should have at least 1 character'')) (\<lambda>_.
     rbind (require ((sq_scope s = Scope_Global) = (sq_scope_id s = None))
              (ValueError ''GLOBAL stop has no scope id; scoped stops require one'')) (\<lambda>_. Inr s))"

text \<open>\<open>model_dump(mode="json")\<close> of a stop request.\<close>

definition stop_json :: "stop_request \<Rightarrow> jobj" where
  "stop_json s =
     [(''automatic'', JBool (sq_automatic s)), (''policy_version'', JStr (sq_policy_version s)),
      (''reason_code'', JStr (sq_reason_code s)), (''scope'', JStr (scope_name (sq_scope s))),
      (''scope_id'', json_option (sq_scope_id s))]"

record paper_fill =
  pf_external_fill_key :: string
  pf_fill_time :: datetime
  pf_price :: rat
  pf_quantity :: rat
  pf_fee_amount :: rat
  pf_liquidity_role :: liquidity_role
  pf_model_version :: string

definition mk_paper_fill :: "paper_fill \<Rightarrow> paper_fill result" where
  "mk_paper_fill f =
     rbind (require (is_aware (pf_fill_time f)) (ValueError ''fill timestamp must be timezone-aware'')) (\<lambda>_.
     rbind (require (\<not> (pf_price f \<le> 0 \<or> pf_quantity f \<le> 0 \<or> pf_external_fill_key f = [] \<or> pf_model_version f = []))
              (ValueError ''invalid paper fill'')) (\<lambda>_. Inr f))"

section \<open>Tables\<close>

record run_row =
  run_status :: run_status
  run_policy :: string
  run_risk_artifact :: string
  run_execution_artifact :: string
  run_currency :: string

record order_row =
  ord_client_id :: string
  ord_run :: string
  ord_strategy :: string
  ord_instrument :: string
  ord_venue :: string
  ord_side :: side
  ord_type :: order_type
  ord_price :: "rat option"
  ord_quantity :: rat
  ord_reduce_only :: bool
  ord_state :: order_state
  ord_filled :: rat
  ord_raw :: jobj
  ord_intent :: order_intent
  ord_reservation :: string

record fill_row =
  fw_order :: string
  fw_sequence :: nat
  fw_fill :: paper_fill
  fw_asset :: string

datatype hold_state = Hold_Held | Hold_Converted | Hold_Released | Hold_Unreconciled

record hold_row =
  res_run :: string
  res_order :: "string option"
  res_pool :: string
  res_envelope_version :: string
  res_original :: rat
  res_working :: rat
  res_position :: rat
  res_released :: rat
  res_state :: hold_state
  res_expires :: datetime

record position_row =
  pn_quantity :: rat
  pn_currency :: string
  pn_realized :: rat

text \<open>\<open>created_at\<close> is \<open>now()\<close>, the start of the inserting transaction.\<close>

record cash_row =
  ch_id :: string
  ch_run :: string
  ch_fill :: string
  ch_currency :: string
  ch_delta :: rat
  ch_balance :: rat
  ch_created :: int

record stop_row =
  sp_run :: string
  sp_scope :: paper_scope
  sp_scope_id :: "string option"
  sp_reason :: string
  sp_automatic :: bool
  sp_active :: bool
  sp_event :: string

record latch_row =
  lt_scope :: paper_scope
  lt_scope_id :: "string option"
  lt_active :: bool
  lt_reason :: string
  lt_automatic :: bool
  lt_event :: string

record 'h pdb =
  pd_store :: "'h store"
  pd_runs :: "(string \<times> run_row) list"
  pd_orders :: "(string \<times> order_row) list"
  pd_fills :: "(string \<times> fill_row) list"
  pd_holds :: "(string \<times> hold_row) list"
  pd_positions :: "((string \<times> string \<times> string) \<times> position_row) list"
  pd_cash :: "cash_row list"
  pd_stops :: "(string \<times> stop_row) list"
  pd_latches :: "(string \<times> latch_row) list"

text \<open>
  The texts and hashes of the libraries: the digests of the event store, the text of a
  Decimal and of a timestamp, the JSON of the two pinned configurations and what pydantic
  reads back from the parts of the second one.
\<close>

record 'h paper_params =
  pk_hashing :: "'h hashing"
  pk_decimal :: "rat \<Rightarrow> string"
  pk_isoformat :: "datetime \<Rightarrow> string"
  pk_risk_json :: "risk_envelope \<Rightarrow> jobj"
  pk_execution_json :: "execution_config \<Rightarrow> jobj"
  pk_parse_model :: "jobj \<Rightarrow> fill_model option"
  pk_parse_instruments :: "jobj \<Rightarrow> instrument_spec list option"
  pk_parse_fees :: "jobj \<Rightarrow> (fee_schedule list \<times> string) option"

text \<open>
  What a transaction draws from outside: its start, the clock, identifiers of the rows it
  inserts, and the fresh values of the event store.
\<close>

record paper_env =
  pe_started :: int
  pe_now :: datetime
  pe_id :: string
  pe_cash_id :: string
  pe_fresh :: "nat \<Rightarrow> fresh"

section \<open>Constraints and helpers\<close>

definition insert_row :: "string \<Rightarrow> 'r \<Rightarrow> (string \<times> 'r) list \<Rightarrow> (string \<times> 'r) list result" where
  "insert_row k r table =
     (if dict_get table k = None then Inr (table @ [(k, r)])
      else Inl (IntegrityError ''duplicate key value violates unique constraint''))"

definition hold_ok :: "hold_row \<Rightarrow> bool" where
  "hold_ok r \<longleftrightarrow> 0 < res_original r \<and> 0 \<le> res_working r \<and> 0 \<le> res_position r \<and> 0 \<le> res_released r \<and>
     res_working r + res_position r + res_released r = res_original r"

definition order_row_ok :: "order_row \<Rightarrow> bool" where
  "order_row_ok x \<longleftrightarrow> 0 < ord_quantity x \<and> 0 \<le> ord_filled x \<and> ord_filled x \<le> ord_quantity x \<and>
     (ord_type x = LIMIT) = (ord_price x \<noteq> None)"

text \<open>\<open>x % increment != 0\<close>: a quotient of 29 digits raises.\<close>

definition off_increment :: "rat \<Rightarrow> rat \<Rightarrow> bool result" where
  "off_increment x inc =
     (if inc = 0 then Inl (DecimalError ''division by zero'')
      else if 10 ^ 28 \<le> \<bar>to_integral_down (x / inc)\<bar> then Inl (DecimalError ''DivisionImpossible'')
      else Inr (of_int (to_integral_down (x / inc)) * inc \<noteq> x))"

definition save_run :: "string \<Rightarrow> run_row \<Rightarrow> 'h pdb \<Rightarrow> 'h pdb" where
  "save_run i r db = db\<lparr>pd_runs := dict_set i r (pd_runs db)\<rparr>"

text \<open>An update of a hold or an order, with the row's \<open>CHECK\<close>.\<close>

definition save_hold :: "string \<Rightarrow> hold_row \<Rightarrow> 'h pdb \<Rightarrow> 'h pdb result" where
  "save_hold i r db =
     rbind (require (hold_ok r) (IntegrityError ''risk_reservations'')) (\<lambda>_.
     Inr (db\<lparr>pd_holds := dict_set i r (pd_holds db)\<rparr>))"

definition save_order :: "string \<Rightarrow> order_row \<Rightarrow> 'h pdb \<Rightarrow> 'h pdb result" where
  "save_order i r db =
     rbind (require (order_row_ok r) (IntegrityError ''paper_orders'')) (\<lambda>_.
     Inr (db\<lparr>pd_orders := dict_set i r (pd_orders db)\<rparr>))"

definition paper_event ::
  "'h paper_params \<Rightarrow> identity \<Rightarrow> string \<Rightarrow> string \<Rightarrow> string \<Rightarrow> nat \<Rightarrow> jobj \<Rightarrow> string \<Rightarrow> string \<Rightarrow> string \<Rightarrow> string \<Rightarrow>
   string list \<Rightarrow> string \<Rightarrow> fresh \<Rightarrow> 'h pdb \<Rightarrow> ('h event \<times> 'h pdb) result" where
  "paper_event P actor capability kind i expected state event key task_id policy artifacts topic fr db =
     rbind (transition (pk_hashing P) actor capability
              \<lparr>rq_kind = kind, rq_id = i, rq_expected_version = expected, rq_state = state, rq_event_type = event,
               rq_actor = id_principal actor, rq_task_id = task_id, rq_policy_version = policy, rq_evidence = [],
               rq_artifacts = artifacts, rq_metadata = []\<rparr> key (Some topic) fr (pd_store db)) (\<lambda>(e, st).
     Inr (e, db\<lparr>pd_store := st\<rparr>))"

text \<open>\<open>_prior_operation\<close>, \<open>_aggregate\<close> and \<open>_run_policy\<close>.\<close>

definition prior_operation :: "'h pdb \<Rightarrow> string \<Rightarrow> string list \<Rightarrow> string \<Rightarrow> 'h event option result" where
  "prior_operation db key types i =
     (case find_operation (pd_store db) key of
        None \<Rightarrow> Inr None
      | Some e \<Rightarrow>
          if env_event_type (row_envelope e) \<notin> set types \<or> env_aggregate_id (row_envelope e) \<noteq> i
          then Inl (DomainError ''IDEMPOTENCY_CONFLICT'') else Inr (Some e))"

definition aggregate_of :: "'h pdb \<Rightarrow> string \<Rightarrow> string \<Rightarrow> (nat \<times> jobj) result" where
  "aggregate_of db kind i =
     (case dict_get (st_aggregates (pd_store db)) (kind, i) of
        None \<Rightarrow> Inl (DomainError ''PAPER_PROJECTION_MISSING'')
      | Some a \<Rightarrow> Inr a)"

definition run_policy_of :: "'h pdb \<Rightarrow> string \<Rightarrow> string result" where
  "run_policy_of db run =
     (case dict_get (pd_runs db) run of
        None \<Rightarrow> Inl (DomainError ''PAPER_RUN_PROJECTION_MISSING'')
      | Some r \<Rightarrow> Inr (run_policy r))"

definition artifact_content :: "'h pdb \<Rightarrow> string \<Rightarrow> jobj option" where
  "artifact_content db i = map_option art_content (List.find (\<lambda>a. art_id a = i) (st_artifacts (pd_store db)))"

text \<open>A run joined with its execution configuration.\<close>

definition configured_run :: "'h pdb \<Rightarrow> string \<Rightarrow> (run_row \<times> jobj) option" where
  "configured_run db i =
     (case dict_get (pd_runs db) i of
        None \<Rightarrow> None
      | Some r \<Rightarrow> map_option (\<lambda>c. (r, c)) (artifact_content db (run_execution_artifact r)))"

text \<open>The handlers of \<open>_configured_model\<close>, \<open>_instrument\<close> and \<open>_fee_schedule\<close>.\<close>

fun is_config_error :: "exn \<Rightarrow> bool" where
  "is_config_error (TypeError m) = True"
| "is_config_error e = is_value_error e"

definition configured :: "string \<Rightarrow> 'a result \<Rightarrow> 'a result" where
  "configured code r = (case r of Inl e \<Rightarrow> Inl (if is_config_error e then DomainError code else e) | Inr x \<Rightarrow> Inr x)"

definition parsed :: "'a option \<Rightarrow> 'a result" where
  "parsed v = (case v of None \<Rightarrow> Inl (ValueError ''validation error'') | Some x \<Rightarrow> Inr x)"

definition configured_model :: "'h paper_params \<Rightarrow> jobj \<Rightarrow> fill_model result" where
  "configured_model P config = configured ''PAPER_EXECUTION_CONFIG_INVALID'' (parsed (pk_parse_model P config))"

definition configured_instrument ::
  "'h paper_params \<Rightarrow> jobj \<Rightarrow> string \<Rightarrow> string \<Rightarrow> datetime \<Rightarrow> instrument_spec result" where
  "configured_instrument P config venue instrument when =
     configured ''INSTRUMENT_CONFIG_NOT_PINNED''
       (rbind (parsed (pk_parse_instruments P config)) (\<lambda>specs.
        spec_effective_at
          (List.filter (\<lambda>s. spec_venue s = venue \<and> spec_instrument_id s = instrument) specs) when))"

definition configured_fee :: "'h paper_params \<Rightarrow> jobj \<Rightarrow> order_row \<Rightarrow> paper_fill \<Rightarrow> fee_schedule result" where
  "configured_fee P config order f =
     configured ''FEE_CONFIG_NOT_PINNED''
       (rbind (parsed (pk_parse_fees P config)) (\<lambda>(schedules, tier).
        select_fee schedules (ord_venue order) (ord_instrument order) tier (pf_liquidity_role f) (pf_fill_time f)))"

text \<open>The stored order as an intent, and as a record of its life cycle.\<close>

definition stored_intent :: "order_row \<Rightarrow> order_intent" where
  "stored_intent x = (ord_intent x)\<lparr>oi_quantity := ord_quantity x, oi_limit_price := ord_price x\<rparr>"

definition stored_record :: "order_row \<Rightarrow> order_record" where
  "stored_record x = \<lparr>or_intent = stored_intent x, or_state = ord_state x, or_filled_quantity = ord_filled x,
     or_raw_venue_status = None\<rparr>"

section \<open>Runs\<close>

definition contract_supported :: "run_spec \<Rightarrow> instrument_spec \<Rightarrow> bool" where
  "contract_supported spec s \<longleftrightarrow> \<not> (spec_contract_kind s \<noteq> SPOT \<or> spec_multiplier s \<noteq> 1 \<or>
     spec_settlement_currency s \<noteq> spec_quote_currency s \<or> spec_quote_currency s \<noteq> rn_reporting_currency spec)"

definition run_state_json :: "string \<Rightarrow> run_row \<Rightarrow> jobj" where
  "run_state_json i r =
     [(''execution_config_artifact_id'', JStr (run_execution_artifact r)), (''paper_run_id'', JStr i),
      (''risk_config_artifact_id'', JStr (run_risk_artifact r)),
      (''status'', JStr (run_status_name (run_status r)))]"

definition retried_run :: "'h paper_params \<Rightarrow> run_spec \<Rightarrow> run_row \<Rightarrow> 'h pdb \<Rightarrow> (string \<times> 'h pdb) result" where
  "retried_run P spec existing db =
     (case (artifact_content db (run_risk_artifact existing), artifact_content db (run_execution_artifact existing)) of
        (Some risk, Some execution) \<Rightarrow>
          if run_policy existing = rn_policy_version spec \<and> run_currency existing = rn_reporting_currency spec \<and>
             risk = pk_risk_json P (rn_envelope spec) \<and> execution = pk_execution_json P (rn_execution spec)
          then Inr (rn_run_id spec, db) else Inl (DomainError ''IDEMPOTENCY_CONFLICT'')
      | _ \<Rightarrow> Inl (DomainError ''PAPER_CONFIG_PROJECTION_MISSING''))"

definition start_run ::
  "'h paper_params \<Rightarrow> identity \<Rightarrow> run_spec \<Rightarrow> string \<Rightarrow> paper_env \<Rightarrow> 'h pdb \<Rightarrow> (string \<times> 'h pdb) result" where
  "start_run P actor spec key env db =
     rbind (require_capability actor ''paper'') (\<lambda>_.
     rbind (require (list_all (contract_supported spec) (xc_instruments (rn_execution spec)))
              (DomainError ''PAPER_CONTRACT_NOT_SUPPORTED'')) (\<lambda>_.
     case dict_get (pd_runs db) (rn_run_id spec) of
       Some existing \<Rightarrow>
         rbind (prior_operation db key [''PAPER_RUN_STARTED_RECONCILE_ONLY''] (rn_run_id spec)) (\<lambda>prior.
         if prior = None then Inl (DomainError ''PAPER_RUN_EXISTS'') else retried_run P spec existing db)
     | None \<Rightarrow>
         rbind (put_artifact (pk_hashing P) actor (pk_risk_json P (rn_envelope spec)) ''paper/risk-envelope-v1''
                  ''INTERNAL'' (rn_policy_version spec) (pe_fresh env 0) (pd_store db)) (\<lambda>(risk, st1).
         rbind (put_artifact (pk_hashing P) actor (pk_execution_json P (rn_execution spec))
                  ''paper/execution-config-v1'' ''INTERNAL'' (rn_policy_version spec) (pe_fresh env 1) st1)
           (\<lambda>(execution, st2).
         let row = \<lparr>run_status = Run_Reconcile_Only, run_policy = rn_policy_version spec, run_risk_artifact = risk,
                    run_execution_artifact = execution, run_currency = rn_reporting_currency spec\<rparr>
         in rbind (paper_event P actor ''paper'' ''paper_run'' (rn_run_id spec) 0 (run_state_json (rn_run_id spec) row)
                     ''PAPER_RUN_STARTED_RECONCILE_ONLY'' key (rn_run_id spec) (rn_policy_version spec)
                     [risk, execution] ''paper.run'' (pe_fresh env 2) (db\<lparr>pd_store := st2\<rparr>)) (\<lambda>(_, db1).
            Inr (rn_run_id spec, db1\<lparr>pd_runs := pd_runs db1 @ [(rn_run_id spec, row)]\<rparr>))))))"

definition unresolved_orders :: "'h pdb \<Rightarrow> string \<Rightarrow> bool" where
  "unresolved_orders db run =
     list_ex (\<lambda>(_, x). ord_run x = run \<and> ord_state x = UNKNOWN_RECONCILING) (pd_orders db)"

definition global_latch :: "'h pdb \<Rightarrow> string option" where
  "global_latch db =
     map_option fst (List.find (\<lambda>(_, l). lt_active l \<and> lt_scope l = Scope_Global) (pd_latches db))"

definition reconciled_status :: "bool \<Rightarrow> 'h pdb \<Rightarrow> string \<Rightarrow> run_status" where
  "reconciled_status market_data_valid db run =
     (if market_data_valid \<and> \<not> unresolved_orders db run \<and> global_latch db = None
      then Run_Active else Run_Reconcile_Only)"

definition reconcile_run ::
  "'h paper_params \<Rightarrow> identity \<Rightarrow> string \<Rightarrow> string \<Rightarrow> bool \<Rightarrow> paper_env \<Rightarrow> 'h pdb \<Rightarrow> (run_status \<times> 'h pdb) result" where
  "reconcile_run P actor run key market_data_valid env db =
     rbind (require_capability actor ''paper'') (\<lambda>_.
     case dict_get (pd_runs db) run of
       None \<Rightarrow> Inl (DomainError ''PAPER_RUN_NOT_FOUND'')
     | Some row \<Rightarrow>
         rbind (prior_operation db key [''PAPER_RECONCILIATION_COMPLETE'', ''PAPER_RECONCILIATION_BLOCKED''] run) (\<lambda>prior.
         case prior of
           Some e \<Rightarrow>
             let recorded = state_after (row_envelope e) in
             rbind (require (jget recorded ''market_data_valid'' = JBool market_data_valid)
                      (DomainError ''IDEMPOTENCY_CONFLICT'')) (\<lambda>_.
             rbind (run_status_of (jget recorded ''status'')) (\<lambda>status. Inr (status, db)))
         | None \<Rightarrow>
             let status = reconciled_status market_data_valid db run in
             rbind (aggregate_of db ''paper_run'' run) (\<lambda>(version, state).
             rbind (paper_event P actor ''paper'' ''paper_run'' run version
                      (jset ''status'' (JStr (run_status_name status))
                        (jset ''market_data_valid'' (JBool market_data_valid)
                          (jset ''unresolved_orders'' (JBool (unresolved_orders db run))
                            (jset ''global_safety_latch_id'' (json_option (global_latch db)) state))))
                      (if status = Run_Active then ''PAPER_RECONCILIATION_COMPLETE'' else ''PAPER_RECONCILIATION_BLOCKED'')
                      key run (run_policy row) [] ''paper.reconcile'' (pe_fresh env 0) db) (\<lambda>(_, db1).
             Inr (status, save_run run (row\<lparr>run_status := status\<rparr>) db1)))))"

definition restart_run ::
  "'h paper_params \<Rightarrow> identity \<Rightarrow> string \<Rightarrow> string \<Rightarrow> paper_env \<Rightarrow> 'h pdb \<Rightarrow> (run_status \<times> 'h pdb) result" where
  "restart_run P actor run key env db =
     rbind (require_capability actor ''paper'') (\<lambda>_.
     case configured_run db run of
       None \<Rightarrow> Inl (DomainError ''PAPER_RUN_NOT_FOUND'')
     | Some (row, _) \<Rightarrow>
         rbind (prior_operation db key [''PAPER_RESTART_RECONCILE_ONLY''] run) (\<lambda>prior.
         if prior \<noteq> None then Inr (Run_Reconcile_Only, db)
         else
           rbind (aggregate_of db ''paper_run'' run) (\<lambda>(version, state).
           rbind (paper_event P actor ''paper'' ''paper_run'' run version
                    (jset ''status'' (JStr (run_status_name Run_Reconcile_Only)) state)
                    ''PAPER_RESTART_RECONCILE_ONLY'' key run (run_policy row) [] ''paper.reconcile''
                    (pe_fresh env 0) db) (\<lambda>(_, db1).
           Inr (Run_Reconcile_Only, save_run run (row\<lparr>run_status := Run_Reconcile_Only\<rparr>) db1)))))"

section \<open>Submission\<close>

text \<open>\<open>_ensure_not_stopped\<close>.\<close>

definition stop_covers :: "string \<Rightarrow> order_intent \<Rightarrow> stop_row \<Rightarrow> bool" where
  "stop_covers run i s \<longleftrightarrow> sp_run s = run \<and> sp_active s \<and>
     (sp_scope s = Scope_Global \<or> (sp_scope s = Scope_Venue \<and> sp_scope_id s = Some (oi_venue i)) \<or>
      (sp_scope s = Scope_Strategy \<and> sp_scope_id s = Some (oi_strategy_id i)))"

definition latch_covers :: "string \<Rightarrow> latch_row \<Rightarrow> bool" where
  "latch_covers venue l \<longleftrightarrow> lt_active l \<and>
     (lt_scope l = Scope_Global \<or> (lt_scope l = Scope_Venue \<and> lt_scope_id l = Some venue))"

definition ensure_not_stopped :: "'h pdb \<Rightarrow> string \<Rightarrow> order_intent \<Rightarrow> unit result" where
  "ensure_not_stopped db run i =
     require (\<not> (list_ex (\<lambda>(_, s). stop_covers run i s) (pd_stops db) \<or>
                 list_ex (\<lambda>(_, l). latch_covers (oi_venue i) l) (pd_latches db)))
       (DomainError ''PAPER_STOP_ACTIVE'')"

text \<open>What a pool holds: the live reservations of a run, and their total.\<close>

definition pool_rows :: "'h pdb \<Rightarrow> string \<Rightarrow> string \<Rightarrow> hold_row list" where
  "pool_rows db run pool =
     List.filter (\<lambda>r. res_run r = run \<and> res_pool r = pool \<and>
                      res_state r \<in> {Hold_Held, Hold_Converted, Hold_Unreconciled}) (map snd (pd_holds db))"

definition live_amount :: "hold_row \<Rightarrow> rat" where
  "live_amount r = dadd (res_working r) (res_position r)"

definition pool_exposure :: "'h pdb \<Rightarrow> string \<Rightarrow> string \<Rightarrow> rat" where
  "pool_exposure db run pool = Decimals.dsum (map live_amount (pool_rows db run pool))"

definition position_of :: "'h pdb \<Rightarrow> string \<Rightarrow> string \<Rightarrow> string \<Rightarrow> rat" where
  "position_of db run venue instrument =
     (case dict_get (pd_positions db) (run, venue, instrument) of None \<Rightarrow> 0 | Some p \<Rightarrow> pn_quantity p)"

definition checked_reservation ::
  "order_intent \<Rightarrow> instrument_spec \<Rightarrow> market_snapshot \<Rightarrow> risk_envelope \<Rightarrow> rat \<Rightarrow> rat \<Rightarrow> datetime \<Rightarrow> reservation result" where
  "checked_reservation i spec snap envelope held active_risk now =
     (case pretrade_check i spec snap envelope held active_risk now of
        Inl e \<Rightarrow> Inl (if is_value_error e then DomainError ''PRETRADE_REJECTED'' else e)
      | Inr rv \<Rightarrow> Inr rv)"

definition new_hold :: "string \<Rightarrow> string \<Rightarrow> reservation \<Rightarrow> hold_row" where
  "new_hold run pool rv = \<lparr>res_run = run, res_order = None, res_pool = pool,
     res_envelope_version = rv_envelope_version rv, res_original = rv_amount rv, res_working = rv_amount rv,
     res_position = 0, res_released = 0, res_state = Hold_Held, res_expires = rv_expires_at rv\<rparr>"

definition new_paper_order :: "string \<Rightarrow> order_intent \<Rightarrow> reservation \<Rightarrow> order_row" where
  "new_paper_order run i rv = \<lparr>ord_client_id = oi_client_order_id i, ord_run = run, ord_strategy = oi_strategy_id i,
     ord_instrument = oi_instrument_id i, ord_venue = oi_venue i, ord_side = oi_side i, ord_type = oi_order_type i,
     ord_price = rv_normalized_limit_price rv, ord_quantity = rv_normalized_quantity rv,
     ord_reduce_only = oi_reduce_only i, ord_state = ACKNOWLEDGED, ord_filled = 0,
     ord_raw = [(''adapter'', JStr ''deterministic-paper-simulator-v1''),
                (''state_path'', JArr [JStr ''INTENT'', JStr ''PRETRADE_VALIDATED'', JStr ''SUBMITTED'', JStr ''ACKNOWLEDGED''])],
     ord_intent = i, ord_reservation = rv_reservation_id rv\<rparr>"

text \<open>The inserts of an accepted order.\<close>

definition book_order ::
  "'h paper_params \<Rightarrow> identity \<Rightarrow> string \<Rightarrow> run_row \<Rightarrow> order_intent \<Rightarrow> string \<Rightarrow> reservation \<Rightarrow> paper_env \<Rightarrow> 'h pdb \<Rightarrow>
   (string \<times> 'h pdb) result" where
  "book_order P actor run row i pool rv env db =
     (let hold = new_hold run pool rv; order = new_paper_order run i rv in
      rbind (require (hold_ok hold) (IntegrityError ''risk_reservations'')) (\<lambda>_.
      rbind (insert_row (rv_reservation_id rv) hold (pd_holds db)) (\<lambda>holds.
      rbind (require (order_row_ok order) (IntegrityError ''paper_orders'')) (\<lambda>_.
      rbind (insert_row (pe_id env) order (pd_orders db)) (\<lambda>orders.
      rbind (paper_event P actor ''paper'' ''paper_order'' (pe_id env) 0
               [(''client_order_id'', JStr (oi_client_order_id i)),
                (''normalized_quantity'', JStr (pk_decimal P (rv_normalized_quantity rv))),
                (''paper_order_id'', JStr (pe_id env)), (''paper_run_id'', JStr run),
                (''reservation_id'', JStr (rv_reservation_id rv)), (''state'', JStr ''ACKNOWLEDGED'')]
               ''PAPER_ORDER_ACKNOWLEDGED'' (''paper-order:'' @ oi_client_order_id i) run (run_policy row) []
               ''paper.order'' (pe_fresh env 0)
               (db\<lparr>pd_holds := dict_set (rv_reservation_id rv) (hold\<lparr>res_order := Some (pe_id env)\<rparr>) holds,
                   pd_orders := orders\<rparr>)) (\<lambda>(_, db1).
      Inr (pe_id env, db1)))))))"

definition submit ::
  "'h paper_params \<Rightarrow> identity \<Rightarrow> string \<Rightarrow> order_intent \<Rightarrow> instrument_spec \<Rightarrow> market_snapshot \<Rightarrow> risk_envelope \<Rightarrow> string \<Rightarrow>
   paper_env \<Rightarrow> 'h pdb \<Rightarrow> (string \<times> 'h pdb) result" where
  "submit P actor run i spec snap envelope pool env db =
     rbind (require_capability actor ''paper'') (\<lambda>_.
     case List.find (\<lambda>(_, x). ord_client_id x = oi_client_order_id i) (pd_orders db) of
       Some (order_id, x) \<Rightarrow>
         if ord_intent x \<noteq> i then Inl (DomainError ''IDEMPOTENCY_CONFLICT'') else Inr (order_id, db)
     | None \<Rightarrow>
         (case configured_run db run of
            None \<Rightarrow> Inl (DomainError ''PAPER_RECONCILIATION_REQUIRED'')
          | Some (row, config) \<Rightarrow>
              rbind (require (run_status row = Run_Active) (DomainError ''PAPER_RECONCILIATION_REQUIRED'')) (\<lambda>_.
              rbind (ensure_not_stopped db run i) (\<lambda>_.
              case artifact_content db (run_risk_artifact row) of
                None \<Rightarrow> Inl (DomainError ''PAPER_CONFIG_PROJECTION_MISSING'')
              | Some risk \<Rightarrow>
                  rbind (require (risk = pk_risk_json P envelope) (DomainError ''RISK_CONFIG_NOT_PINNED'')) (\<lambda>_.
                  rbind (configured_instrument P config (oi_venue i) (oi_instrument_id i) (oi_submission_time i))
                    (\<lambda>pinned_spec.
                  rbind (require (pinned_spec = spec) (DomainError ''INSTRUMENT_CONTRACT_MISMATCH'')) (\<lambda>_.
                  rbind (checked_reservation i spec snap envelope
                           (position_of db run (oi_venue i) (oi_instrument_id i)) (pool_exposure db run pool)
                           (pe_now env)) (\<lambda>rv.
                  book_order P actor run row i pool rv env db))))))))"

section \<open>Fills\<close>

text \<open>The fills of one book, in the order of their time and then of their sequence.\<close>

definition book_fills :: "'h pdb \<Rightarrow> string \<Rightarrow> string \<Rightarrow> string \<Rightarrow> (string \<times> fill_row \<times> order_row) list" where
  "book_fills db run venue instrument =
     sort_key (\<lambda>(_, f, _). (instant (pf_fill_time (fw_fill f)), fw_sequence f))
       (List.filter (\<lambda>(_, _, x). ord_run x = run \<and> ord_venue x = venue \<and> ord_instrument x = instrument)
         (List.map_filter (\<lambda>(i, f). map_option (\<lambda>x. (i, f, x)) (dict_get (pd_orders db) (fw_order f))) (pd_fills db)))"

definition same_fill :: "fill_row \<Rightarrow> string \<Rightarrow> paper_fill \<Rightarrow> string \<Rightarrow> bool" where
  "same_fill e order f currency \<longleftrightarrow>
     pf_price (fw_fill e) = pf_price f \<and> pf_quantity (fw_fill e) = pf_quantity f \<and>
     pf_fee_amount (fw_fill e) = pf_fee_amount f \<and> fw_order e = order \<and>
     instant (pf_fill_time (fw_fill e)) = instant (pf_fill_time f) \<and> fw_asset e = currency \<and>
     pf_liquidity_role (fw_fill e) = pf_liquidity_role f \<and> pf_model_version (fw_fill e) = pf_model_version f"

text \<open>The checks of a fill against the pinned configuration.\<close>

definition fill_fee :: "paper_fill \<Rightarrow> instrument_spec \<Rightarrow> fee_schedule \<Rightarrow> rat" where
  "fill_fee f spec schedule =
     dmul (dmul (dmul (pf_quantity f) (pf_price f)) (spec_multiplier spec)) (fs_rate schedule)"

definition check_fill ::
  "'h paper_params \<Rightarrow> jobj \<Rightarrow> order_row \<Rightarrow> paper_fill \<Rightarrow> string \<Rightarrow> unit result" where
  "check_fill P config x f currency =
     rbind (configured_model P config) (\<lambda>model.
     rbind (require (pf_model_version f = fm_version model) (DomainError ''EXECUTION_CONFIG_NOT_PINNED'')) (\<lambda>_.
     rbind (configured_instrument P config (ord_venue x) (ord_instrument x) (pf_fill_time f)) (\<lambda>spec.
     rbind (require (currency = spec_quote_currency spec) (DomainError ''FILL_QUOTE_CURRENCY_MISMATCH'')) (\<lambda>_.
     rbind (off_increment (pf_quantity f) (spec_lot_size spec)) (\<lambda>off_lot.
     rbind (if off_lot then Inr True else off_increment (pf_price f) (spec_tick_size spec)) (\<lambda>off.
     rbind (require (\<not> off) (DomainError ''FILL_VENUE_INCREMENT_MISMATCH'')) (\<lambda>_.
     rbind (configured_fee P config x f) (\<lambda>schedule.
     require (pf_fee_amount f = fill_fee f spec schedule) (DomainError ''FEE_CONFIG_NOT_PINNED'')))))))))"

definition fill_causal :: "'h pdb \<Rightarrow> order_row \<Rightarrow> paper_fill \<Rightarrow> unit result" where
  "fill_causal db x f =
     (let earlier = book_fills db (ord_run x) (ord_venue x) (ord_instrument x) in
      rbind (require (\<not> (earlier \<noteq> [] \<and> instant (pf_fill_time f) < instant (pf_fill_time (fw_fill (fst (snd (last earlier)))))))
               (DomainError ''FILL_TIME_REGRESSION'')) (\<lambda>_.
      require (\<not> instant (pf_fill_time f) < instant (oi_submission_time (ord_intent x)))
        (DomainError ''FILL_CAUSALITY_VIOLATION'')))"

definition filled_record :: "order_row \<Rightarrow> rat \<Rightarrow> order_record result" where
  "filled_record x q =
     order_transition (stored_record x)
       (if dadd (ord_filled x) q = ord_quantity x then FILLED else PARTIALLY_FILLED) None q"

text \<open>The ledger of the book with the new fill, checked against the independent reconciliation.\<close>

definition stored_fill :: "string \<times> fill_row \<times> order_row \<Rightarrow> fill result" where
  "stored_fill = (\<lambda>(i, f, x).
     mk_fill i (ord_client_id x) (pf_fill_time (fw_fill f)) (ord_side x) (DecFinite (pf_quantity (fw_fill f)))
       (DecFinite (pf_price (fw_fill f))) (pf_liquidity_role (fw_fill f)) (DecFinite (pf_fee_amount (fw_fill f))) [])"

definition incoming_fill :: "order_row \<Rightarrow> paper_fill \<Rightarrow> fill result" where
  "incoming_fill x f =
     mk_fill (pf_external_fill_key f) (ord_client_id x) (pf_fill_time f) (ord_side x) (DecFinite (pf_quantity f))
       (DecFinite (pf_price f)) (pf_liquidity_role f) (DecFinite (pf_fee_amount f)) []"

definition book_ledger :: "'h pdb \<Rightarrow> order_row \<Rightarrow> paper_fill \<Rightarrow> ledger result" where
  "book_ledger db x f =
     rbind (rfold (\<lambda>l row. rbind (stored_fill row) (ledger_apply dround l)) (ledger_init 0)
              (book_fills db (ord_run x) (ord_venue x) (ord_instrument x))) (\<lambda>l.
     rbind (incoming_fill x f) (\<lambda>new.
     rbind (ledger_apply dround l new) (\<lambda>l1.
     rbind (independently_reconcile dround 0 (fills l1) (pf_price f)) (\<lambda>reference.
     rbind (require (\<not> (position l1 \<noteq> rec_position reference \<or> equity dround l1 (pf_price f) \<noteq> rec_equity reference))
              (DomainError ''ACCOUNTING_DISAGREEMENT'')) (\<lambda>_. Inr l1)))))"

text \<open>The latest entry of a run's cash in a currency: \<open>ORDER BY created_at DESC LIMIT 1\<close>.\<close>

definition cash_entries :: "cash_row list \<Rightarrow> string \<Rightarrow> string \<Rightarrow> cash_row list" where
  "cash_entries rows run currency = List.filter (\<lambda>c. ch_run c = run \<and> ch_currency c = currency) rows"

definition cash_balance :: "cash_row list \<Rightarrow> string \<Rightarrow> string \<Rightarrow> rat" where
  "cash_balance rows run currency =
     (let entries = sort_key ch_created (cash_entries rows run currency)
      in if entries = [] then 0 else ch_balance (last entries))"

definition post_cash :: "string \<Rightarrow> string \<Rightarrow> string \<Rightarrow> string \<Rightarrow> rat \<Rightarrow> int \<Rightarrow> cash_row list \<Rightarrow> cash_row list" where
  "post_cash i run fid currency delta started rows =
     rows @ [\<lparr>ch_id = i, ch_run = run, ch_fill = fid, ch_currency = currency, ch_delta = delta,
              ch_balance = dadd (cash_balance rows run currency) delta, ch_created = started\<rparr>]"

definition cash_delta :: "order_row \<Rightarrow> paper_fill \<Rightarrow> rat" where
  "cash_delta x f =
     dsub (dmul (dmul (dneg (side_sign (ord_side x))) (pf_quantity f)) (pf_price f)) (pf_fee_amount f)"

definition converted_hold :: "hold_row \<Rightarrow> rat \<Rightarrow> hold_row" where
  "converted_hold r amount = r\<lparr>res_working := dsub (res_original r) amount, res_position := amount,
     res_state := (if amount \<noteq> 0 then Hold_Converted else Hold_Held)\<rparr>"

definition convert_hold :: "order_row \<Rightarrow> order_record \<Rightarrow> 'h pdb \<Rightarrow> 'h pdb result" where
  "convert_hold x record db =
     (case dict_get (pd_holds db) (ord_reservation x) of
        None \<Rightarrow> Inl (DomainError ''PAPER_RESERVATION_PROJECTION_MISSING'')
      | Some r \<Rightarrow>
          rbind (ddiv (or_filled_quantity record) (ord_quantity x)) (\<lambda>fraction.
          save_hold (ord_reservation x) (converted_hold r (dmul (res_original r) fraction)) db))"

definition write_fill ::
  "string \<Rightarrow> order_row \<Rightarrow> paper_fill \<Rightarrow> string \<Rightarrow> ledger \<Rightarrow> paper_env \<Rightarrow> 'h pdb \<Rightarrow> 'h pdb result" where
  "write_fill order x f currency l env db =
     rbind (insert_row (pe_id env)
              \<lparr>fw_order = order,
               fw_sequence = length (List.filter (\<lambda>(_, e). fw_order e = order) (pd_fills db)) + 1,
               fw_fill = f, fw_asset = currency\<rparr> (pd_fills db)) (\<lambda>rows.
     Inr (db\<lparr>pd_fills := rows,
             pd_positions := dict_set (ord_run x, ord_venue x, ord_instrument x)
               \<lparr>pn_quantity = position l, pn_currency = currency, pn_realized = realized_pnl l\<rparr> (pd_positions db),
             pd_cash := post_cash (pe_cash_id env) (ord_run x) (pe_id env) currency (cash_delta x f)
               (pe_started env) (pd_cash db)\<rparr>))"

definition fill_event ::
  "'h paper_params \<Rightarrow> identity \<Rightarrow> string \<Rightarrow> order_row \<Rightarrow> run_row \<Rightarrow> order_record \<Rightarrow> paper_fill \<Rightarrow> paper_env \<Rightarrow> 'h pdb \<Rightarrow>
   ('h event \<times> 'h pdb) result" where
  "fill_event P actor order x row record f env db =
     rbind (aggregate_of db ''paper_order'' order) (\<lambda>(version, state).
     paper_event P actor ''paper'' ''paper_order'' order version
       (jset ''state'' (JStr (order_state_name (or_state record)))
         (jset ''filled_quantity'' (JStr (pk_decimal P (or_filled_quantity record)))
           (jset ''accounting_check'' (JStr ''PASS'') state)))
       ''PAPER_FILL_RECORDED'' (''paper-fill:'' @ pf_external_fill_key f) (ord_run x) (run_policy row) []
       ''paper.fill'' (pe_fresh env 0) db)"

definition record_fill ::
  "'h paper_params \<Rightarrow> identity \<Rightarrow> string \<Rightarrow> paper_fill \<Rightarrow> string \<Rightarrow> paper_env \<Rightarrow> 'h pdb \<Rightarrow> (string \<times> 'h pdb) result" where
  "record_fill P actor order f currency env db =
     rbind (require_capability actor ''paper'') (\<lambda>_.
     case List.find (\<lambda>(_, e). pf_external_fill_key (fw_fill e) = pf_external_fill_key f) (pd_fills db) of
       Some (fid, e) \<Rightarrow>
         if same_fill e order f currency then Inr (fid, db) else Inl (DomainError ''IDEMPOTENCY_CONFLICT'')
     | None \<Rightarrow>
         (case dict_get (pd_orders db) order of
            None \<Rightarrow> Inl (DomainError ''PAPER_ORDER_NOT_FOUND'')
          | Some x \<Rightarrow>
              (case configured_run db (ord_run x) of
                 None \<Rightarrow> Inl (DomainError ''PAPER_EXECUTION_CONFIG_MISSING'')
               | Some (row, config) \<Rightarrow>
                   rbind (check_fill P config x f currency) (\<lambda>_.
                   rbind (fill_causal db x f) (\<lambda>_.
                   rbind (filled_record x (pf_quantity f)) (\<lambda>record.
                   rbind (book_ledger db x f) (\<lambda>l.
                   rbind (write_fill order x f currency l env db) (\<lambda>db1.
                   rbind (convert_hold x record db1) (\<lambda>db2.
                   rbind (save_order order (x\<lparr>ord_state := or_state record, ord_filled := or_filled_quantity record\<rparr>) db2)
                     (\<lambda>db3.
                   rbind (fill_event P actor order x row record f env db3) (\<lambda>(_, db4).
                   Inr (pe_id env, db4))))))))))))"

text \<open>
  \<open>simulate_order\<close> computes the fill in one transaction and records it in another;
  \<open>meanwhile\<close> is what other transactions commit in between.
\<close>

definition adapter_fill ::
  "'h paper_params \<Rightarrow> order_intent \<Rightarrow> market_snapshot \<Rightarrow> fill_model \<Rightarrow> paper_fill option result" where
  "adapter_fill P i snap model =
     rbind (simulate model i snap) (\<lambda>r.
     case r of
       None \<Rightarrow> Inr None
     | Some s \<Rightarrow>
         rbind (mk_paper_fill
                  \<lparr>pf_external_fill_key = ''SIM:'' @ oi_client_order_id i @ '':'' @ pk_isoformat P (ms_timestamp snap),
                   pf_fill_time = ms_timestamp snap, pf_price = sf_price s, pf_quantity = sf_quantity s,
                   pf_fee_amount = 0, pf_liquidity_role = sf_role s, pf_model_version = fm_version model\<rparr>)
           (\<lambda>f. Inr (Some f)))"

definition planned_fill ::
  "'h paper_params \<Rightarrow> identity \<Rightarrow> string \<Rightarrow> market_snapshot \<Rightarrow> fill_model \<Rightarrow> fee_schedule \<Rightarrow> 'h pdb \<Rightarrow>
   paper_fill option result" where
  "planned_fill P actor order snap model schedule db =
     rbind (require_capability actor ''paper'') (\<lambda>_.
     case dict_get (pd_orders db) order of
       None \<Rightarrow> Inl (DomainError ''PAPER_ORDER_NOT_FOUND'')
     | Some x \<Rightarrow>
         (case configured_run db (ord_run x) of
            None \<Rightarrow> Inl (DomainError ''PAPER_EXECUTION_CONFIG_MISSING'')
          | Some (row, config) \<Rightarrow>
              rbind (configured_model P config) (\<lambda>pinned.
              rbind (pin_fill_model model) (\<lambda>offered.
              rbind (require (pinned = offered) (DomainError ''EXECUTION_CONFIG_NOT_PINNED'')) (\<lambda>_.
              if ord_state x \<in> set terminal_states then Inr None
              else
                rbind (adapter_fill P (stored_intent x) snap model) (\<lambda>r.
                case r of
                  None \<Rightarrow> Inr None
                | Some f \<Rightarrow>
                    rbind (configured_instrument P config (ord_venue x) (ord_instrument x) (pf_fill_time f)) (\<lambda>spec.
                    rbind (configured_fee P config x f) (\<lambda>pinned_fee.
                    rbind (require (schedule = pinned_fee) (DomainError ''FEE_CONFIG_NOT_PINNED'')) (\<lambda>_.
                    Inr (Some (f\<lparr>pf_fee_amount := fill_fee f spec schedule\<rparr>)))))))))))"

definition simulate_order ::
  "'h paper_params \<Rightarrow> identity \<Rightarrow> string \<Rightarrow> market_snapshot \<Rightarrow> fill_model \<Rightarrow> fee_schedule \<Rightarrow> string \<Rightarrow>
   ('h pdb \<Rightarrow> 'h pdb) \<Rightarrow> paper_env \<Rightarrow> 'h pdb \<Rightarrow> (string option \<times> 'h pdb) result" where
  "simulate_order P actor order snap model schedule currency meanwhile env db =
     rbind (planned_fill P actor order snap model schedule db) (\<lambda>plan.
     case plan of
       None \<Rightarrow> Inr (None, db)
     | Some f \<Rightarrow>
         rbind (record_fill P actor order f currency env (meanwhile db)) (\<lambda>(i, db1). Inr (Some i, db1)))"

section \<open>Unknown and cancelled orders\<close>

definition mark_unknown ::
  "'h paper_params \<Rightarrow> identity \<Rightarrow> string \<Rightarrow> string \<Rightarrow> string \<Rightarrow> paper_env \<Rightarrow> 'h pdb \<Rightarrow> 'h pdb result" where
  "mark_unknown P actor order reason key env db =
     rbind (require_capability actor ''paper'') (\<lambda>_.
     case dict_get (pd_orders db) order of
       None \<Rightarrow> Inl (DomainError ''PAPER_ORDER_NOT_FOUND'')
     | Some x \<Rightarrow>
         rbind (prior_operation db key [''PAPER_ORDER_UNKNOWN_RECONCILING''] order) (\<lambda>prior.
         if prior \<noteq> None then
           rbind (aggregate_of db ''paper_order'' order) (\<lambda>(_, state).
           rbind (require (jget state ''reconciliation_reason'' = JStr reason) (DomainError ''IDEMPOTENCY_CONFLICT''))
             (\<lambda>_. Inr db))
         else
           rbind (order_transition (stored_record x) UNKNOWN_RECONCILING (Some reason) 0) (\<lambda>record.
           rbind (save_order order (x\<lparr>ord_state := or_state record,
                    ord_raw := jset ''reconciliation_reason'' (JStr reason) (ord_raw x)\<rparr>) db) (\<lambda>db1.
           rbind (case dict_get (pd_holds db1) (ord_reservation x) of
                    None \<Rightarrow> Inr db1
                  | Some r \<Rightarrow> save_hold (ord_reservation x) (r\<lparr>res_state := Hold_Unreconciled\<rparr>) db1) (\<lambda>db2.
           rbind (aggregate_of db2 ''paper_order'' order) (\<lambda>(version, state).
           rbind (run_policy_of db2 (ord_run x)) (\<lambda>policy.
           rbind (paper_event P actor ''paper'' ''paper_order'' order version
                    (jset ''state'' (JStr (order_state_name (or_state record)))
                      (jset ''reconciliation_reason'' (JStr reason) state))
                    ''PAPER_ORDER_UNKNOWN_RECONCILING'' key (ord_run x) policy [] ''paper.incident''
                    (pe_fresh env 0) db2) (\<lambda>(_, db3). Inr db3))))))))"

text \<open>What cancelling frees: the part of the reservation that no fill has used.\<close>

definition released_hold :: "hold_row \<Rightarrow> hold_row" where
  "released_hold r = r\<lparr>res_working := 0, res_released := dsub (res_original r) (res_position r),
     res_state := (if 0 < res_position r then Hold_Converted else Hold_Released)\<rparr>"

definition release_hold :: "string \<Rightarrow> 'h pdb \<Rightarrow> 'h pdb result" where
  "release_hold i db =
     (case dict_get (pd_holds db) i of
        None \<Rightarrow> Inl (DomainError ''PAPER_RESERVATION_PROJECTION_MISSING'')
      | Some r \<Rightarrow> save_hold i (released_hold r) db)"

definition cancel ::
  "'h paper_params \<Rightarrow> identity \<Rightarrow> string \<Rightarrow> string \<Rightarrow> paper_env \<Rightarrow> 'h pdb \<Rightarrow> 'h pdb result" where
  "cancel P actor order key env db =
     rbind (require_capability actor ''paper'') (\<lambda>_.
     case dict_get (pd_orders db) order of
       None \<Rightarrow> Inl (DomainError ''PAPER_ORDER_NOT_FOUND'')
     | Some x \<Rightarrow>
         rbind (prior_operation db key [''PAPER_ORDER_CANCELLED''] order) (\<lambda>prior.
         if prior \<noteq> None then Inr db
         else if ord_state x = CANCELLED then Inl (DomainError ''ORDER_ALREADY_CANCELLED'')
         else if ord_state x = UNKNOWN_RECONCILING then Inl (DomainError ''UNKNOWN_ORDER_REQUIRES_RECONCILIATION'')
         else
           rbind (order_transition (stored_record x) CANCEL_PENDING None 0) (\<lambda>pending.
           rbind (order_transition pending CANCELLED None 0) (\<lambda>record.
           rbind (release_hold (ord_reservation x) db) (\<lambda>db1.
           rbind (save_order order (x\<lparr>ord_state := or_state record\<rparr>) db1) (\<lambda>db2.
           rbind (aggregate_of db2 ''paper_order'' order) (\<lambda>(version, state).
           rbind (run_policy_of db2 (ord_run x)) (\<lambda>policy.
           rbind (paper_event P actor ''paper'' ''paper_order'' order version
                    (jset ''state'' (JStr (order_state_name (or_state record))) state)
                    ''PAPER_ORDER_CANCELLED'' key (ord_run x) policy [] ''paper.order''
                    (pe_fresh env 0) db2) (\<lambda>(_, db3). Inr db3)))))))))"

text \<open>\<open>_cancel_for_safety_latch\<close>; \<open>safety_state\<close> is the state the event carries.\<close>

definition safety_state :: "string \<Rightarrow> jobj \<Rightarrow> jobj" where
  "safety_state latch state =
     jset ''state'' (JStr ''CANCELLED'') (jset ''cancel_reason'' (JStr ''EMERGENCY_STOP'')
       (jset ''safety_latch_id'' (JStr latch) state))"

definition cancel_for_safety_latch ::
  "'h paper_params \<Rightarrow> identity \<Rightarrow> string \<Rightarrow> paper_env \<Rightarrow> 'h pdb \<Rightarrow> nat \<times> string \<times> order_row \<Rightarrow> 'h pdb result" where
  "cancel_for_safety_latch P actor latch env db = (\<lambda>(n, order, x).
     rbind (release_hold (ord_reservation x) db) (\<lambda>db1.
     rbind (save_order order (x\<lparr>ord_state := CANCELLED,
              ord_raw := jset ''cancel_reason'' (JStr ''EMERGENCY_STOP'')
                           (jset ''safety_latch_id'' (JStr latch) (ord_raw x))\<rparr>) db1) (\<lambda>db2.
     rbind (aggregate_of db2 ''paper_order'' order) (\<lambda>(version, state).
     rbind (run_policy_of db2 (ord_run x)) (\<lambda>policy.
     rbind (paper_event P actor ''stop'' ''paper_order'' order version (safety_state latch state)
              ''PAPER_ORDER_CANCELLED_FOR_SAFETY_LATCH'' (''safety-latch-cancel:'' @ latch @ '':'' @ order)
              (ord_run x) policy [] ''paper.order'' (pe_fresh env n) db2) (\<lambda>(_, db3). Inr db3))))))"

section \<open>Stops\<close>

text \<open>Who may stop: a paper worker automatically, an owner or an operator by hand.\<close>

definition may_stop :: "identity \<Rightarrow> stop_request \<Rightarrow> unit result" where
  "may_stop actor q =
     rbind (require (\<not> (id_role actor = ''paper'' \<and> \<not> sq_automatic q)) (DomainError ''MANUAL_STOP_REQUIRES_OWNER'')) (\<lambda>_.
     require (id_role actor \<in> {''paper'', ''owner'', ''operator''}) (DomainError ''FORBIDDEN''))"

definition stop_run ::
  "'h paper_params \<Rightarrow> identity \<Rightarrow> string \<Rightarrow> stop_request \<Rightarrow> string \<Rightarrow> paper_env \<Rightarrow> 'h pdb \<Rightarrow> (string \<times> 'h pdb) result" where
  "stop_run P actor run q key env db =
     rbind (may_stop actor q) (\<lambda>_.
     case dict_get (pd_runs db) run of
       None \<Rightarrow> Inl (DomainError ''PAPER_RUN_NOT_FOUND'')
     | Some row \<Rightarrow>
         rbind (prior_operation db key [''PAPER_EMERGENCY_STOP''] run) (\<lambda>prior.
         case prior of
           Some e \<Rightarrow>
             rbind (require (jget (state_after (row_envelope e)) ''last_stop'' = JObj (stop_json q))
                      (DomainError ''IDEMPOTENCY_CONFLICT'')) (\<lambda>_.
             case List.find (\<lambda>(_, s). sp_event s = env_event_id (row_envelope e)) (pd_stops db) of
               None \<Rightarrow> Inl (DomainError ''PAPER_STOP_PROJECTION_MISSING'')
             | Some (i, _) \<Rightarrow> Inr (i, db))
         | None \<Rightarrow>
             rbind (aggregate_of db ''paper_run'' run) (\<lambda>(version, state).
             rbind (paper_event P actor ''stop'' ''paper_run'' run version
                      (jset ''last_stop'' (JObj (stop_json q)) state) ''PAPER_EMERGENCY_STOP'' key run (run_policy row)
                      [] ''paper.stop'' (pe_fresh env 0) db) (\<lambda>(e, db1).
             rbind (insert_row (pe_id env)
                      \<lparr>sp_run = run, sp_scope = sq_scope q, sp_scope_id = sq_scope_id q, sp_reason = sq_reason_code q,
                       sp_automatic = sq_automatic q, sp_active = True, sp_event = env_event_id (row_envelope e)\<rparr>
                      (pd_stops db1)) (\<lambda>stops.
             Inr (pe_id env, db1\<lparr>pd_stops := stops\<rparr>))))))"

definition latch_aggregate :: "paper_scope \<Rightarrow> string option \<Rightarrow> string" where
  "latch_aggregate scope scope_id =
     (if scope = Scope_Global then scope_name scope
      else ''VENUE:'' @ (case scope_id of None \<Rightarrow> ''None'' | Some v \<Rightarrow> v))"

definition working_states :: "order_state list" where
  "working_states = [ACKNOWLEDGED, PARTIALLY_FILLED, AMENDED, CANCEL_PENDING]"

text \<open>The orders a latch cancels: those that work and can increase risk.\<close>

definition latched_orders :: "stop_request \<Rightarrow> (string \<times> order_row) list \<Rightarrow> (string \<times> order_row) list" where
  "latched_orders q orders =
     List.filter (\<lambda>(_, x). ord_state x \<in> set working_states \<and> \<not> ord_reduce_only x \<and>
                          (sq_scope q = Scope_Global \<or> Some (ord_venue x) = sq_scope_id q)) orders"

definition fence_run ::
  "'h paper_params \<Rightarrow> identity \<Rightarrow> string \<Rightarrow> paper_env \<Rightarrow> 'h pdb \<Rightarrow> nat \<times> string \<times> run_row \<Rightarrow> 'h pdb result" where
  "fence_run P actor latch env db = (\<lambda>(n, run, row).
     rbind (aggregate_of db ''paper_run'' run) (\<lambda>(version, state).
     rbind (paper_event P actor ''stop'' ''paper_run'' run version
              (jset ''status'' (JStr (run_status_name Run_Reconcile_Only))
                (jset ''global_safety_latch_id'' (JStr latch) state))
              ''PAPER_GLOBAL_SAFETY_LATCH_RECONCILIATION_REQUIRED'' (''safety-latch-fence:'' @ latch @ '':'' @ run)
              run (run_policy row) [] ''paper.reconcile'' (pe_fresh env n) db) (\<lambda>(_, db1).
     Inr (save_run run (row\<lparr>run_status := Run_Reconcile_Only\<rparr>) db1))))"

definition active_runs :: "'h pdb \<Rightarrow> (string \<times> run_row) list" where
  "active_runs db = List.filter (\<lambda>(_, r). run_status r = Run_Active) (pd_runs db)"

definition latch_row_of :: "stop_request \<Rightarrow> 'h event \<Rightarrow> latch_row" where
  "latch_row_of q e = \<lparr>lt_scope = sq_scope q, lt_scope_id = sq_scope_id q, lt_active = True,
     lt_reason = sq_reason_code q, lt_automatic = sq_automatic q, lt_event = env_event_id (row_envelope e)\<rparr>"

definition fence ::
  "'h paper_params \<Rightarrow> identity \<Rightarrow> stop_request \<Rightarrow> paper_env \<Rightarrow> 'h pdb \<Rightarrow> 'h pdb result" where
  "fence P actor q env db =
     (let orders = latched_orders q (pd_orders db) in
      rbind (rfold (cancel_for_safety_latch P actor (pe_id env) env) db (List.enumerate 1 orders)) (\<lambda>db1.
      if sq_scope q = Scope_Global
      then rfold (fence_run P actor (pe_id env) env) db1 (List.enumerate (length orders + 1) (active_runs db1))
      else Inr db1))"

definition emergency_latch ::
  "'h paper_params \<Rightarrow> identity \<Rightarrow> stop_request \<Rightarrow> string \<Rightarrow> paper_env \<Rightarrow> 'h pdb \<Rightarrow> (string \<times> 'h pdb) result" where
  "emergency_latch P actor q key env db =
     rbind (require (sq_scope q = Scope_Global \<or> sq_scope q = Scope_Venue) (DomainError ''GLOBAL_STOP_SCOPE_REQUIRED'')) (\<lambda>_.
     rbind (may_stop actor q) (\<lambda>_.
     let i = latch_aggregate (sq_scope q) (sq_scope_id q) in
     rbind (prior_operation db key [''PAPER_GLOBAL_EMERGENCY_STOP''] i) (\<lambda>prior.
     case prior of
       Some e \<Rightarrow>
         let state = state_after (row_envelope e) in
         rbind (require (jget state ''request'' = JObj (stop_json q)) (DomainError ''IDEMPOTENCY_CONFLICT'')) (\<lambda>_.
         case jget state ''safety_latch_id'' of JStr latch \<Rightarrow> Inr (latch, db) | _ \<Rightarrow> Inl (LookupError ''safety_latch_id''))
     | None \<Rightarrow>
         rbind (require (\<not> list_ex (\<lambda>(_, l). lt_active l \<and> lt_scope l = sq_scope q \<and> lt_scope_id l = sq_scope_id q)
                          (pd_latches db)) (DomainError ''PAPER_STOP_ALREADY_ACTIVE'')) (\<lambda>_.
         rbind (paper_event P actor ''stop'' ''paper_safety_latch'' i
                  (current_version (pd_store db) ''paper_safety_latch'' i)
                  [(''active'', JBool True), (''request'', JObj (stop_json q)), (''safety_latch_id'', JStr (pe_id env))]
                  ''PAPER_GLOBAL_EMERGENCY_STOP'' key (pe_id env) (sq_policy_version q) [] ''paper.stop''
                  (pe_fresh env 0) db) (\<lambda>(e, db1).
         rbind (insert_row (pe_id env) (latch_row_of q e) (pd_latches db1)) (\<lambda>latches.
         rbind (fence P actor q env (db1\<lparr>pd_latches := latches\<rparr>)) (\<lambda>db2.
         Inr (pe_id env, db2))))))))"

definition release_latch ::
  "'h paper_params \<Rightarrow> identity \<Rightarrow> string \<Rightarrow> string \<Rightarrow> string \<Rightarrow> paper_env \<Rightarrow> 'h pdb \<Rightarrow> 'h pdb result" where
  "release_latch P actor latch reason key env db =
     rbind (require (id_role actor = ''owner'') (DomainError ''STOP_RELEASE_REQUIRES_OWNER'')) (\<lambda>_.
     case dict_get (pd_latches db) latch of
       None \<Rightarrow> Inl (DomainError ''PAPER_SAFETY_LATCH_NOT_FOUND'')
     | Some l \<Rightarrow>
         let i = latch_aggregate (lt_scope l) (lt_scope_id l) in
         rbind (prior_operation db key [''PAPER_GLOBAL_EMERGENCY_STOP_RELEASED''] i) (\<lambda>prior.
         case prior of
           Some e \<Rightarrow>
             rbind (require (jget (state_after (row_envelope e)) ''safety_latch_id'' = JStr latch)
                      (DomainError ''IDEMPOTENCY_CONFLICT'')) (\<lambda>_. Inr db)
         | None \<Rightarrow>
             rbind (require (lt_active l) (DomainError ''PAPER_STOP_NOT_ACTIVE'')) (\<lambda>_.
             rbind (aggregate_of db ''paper_safety_latch'' i) (\<lambda>(version, _).
             rbind (paper_event P actor ''stop'' ''paper_safety_latch'' i version
                      [(''active'', JBool False), (''release_reason_code'', JStr reason), (''safety_latch_id'', JStr latch)]
                      ''PAPER_GLOBAL_EMERGENCY_STOP_RELEASED'' key latch ''emergency-stop-v1'' [] ''paper.stop''
                      (pe_fresh env 0) db) (\<lambda>(_, db1).
             Inr (db1\<lparr>pd_latches := dict_set latch (l\<lparr>lt_active := False\<rparr>) (pd_latches db1)\<rparr>))))))"

end
