(* ===== verification/PaperProps.thy ===== *)
theory PaperProps
  imports PaperStore
begin

text \<open>
  Histories of the paper service: the effect of each operation on its tables, the loops of an
  emergency stop over rows fetched before them, the invariant that ties every order to
  the reservation behind it, and the locale the other invariants instantiate.
\<close>

section \<open>Histories\<close>

definition empty_pdb :: "'h pdb" where
  "empty_pdb = \<lparr>pd_store = empty_store, pd_runs = [], pd_orders = [], pd_fills = [], pd_holds = [], pd_positions = [],
     pd_cash = [], pd_stops = [], pd_latches = []\<rparr>"

inductive paper_step :: "'h paper_params \<Rightarrow> 'h pdb \<Rightarrow> 'h pdb \<Rightarrow> bool" for P where
  run: "start_run P actor spec key env db = Inr (i, db') \<Longrightarrow> paper_step P db db'"
| reconcile: "reconcile_run P actor run key m env db = Inr (s, db') \<Longrightarrow> paper_step P db db'"
| restart: "restart_run P actor run key env db = Inr (s, db') \<Longrightarrow> paper_step P db db'"
| submit: "submit P actor run i spec snap e pool env db = Inr (k, db') \<Longrightarrow> paper_step P db db'"
| fill: "record_fill P actor order f currency env db = Inr (k, db') \<Longrightarrow> paper_step P db db'"
| unknown: "mark_unknown P actor order reason key env db = Inr db' \<Longrightarrow> paper_step P db db'"
| cancel: "cancel P actor order key env db = Inr db' \<Longrightarrow> paper_step P db db'"
| stop: "stop_run P actor run q key env db = Inr (k, db') \<Longrightarrow> paper_step P db db'"
| latch: "emergency_latch P actor q key env db = Inr (k, db') \<Longrightarrow> paper_step P db db'"
| release: "release_latch P actor l reason key env db = Inr db' \<Longrightarrow> paper_step P db db'"
| store: "store_step (pk_hashing P) (pd_store db) st \<Longrightarrow> paper_step P db (db\<lparr>pd_store := st\<rparr>)"

section \<open>Effects\<close>

lemma paper_event_frame:
  assumes "paper_event P actor cap kind i v state event key task policy arts topic fr db = Inr (e, db')"
  shows "\<exists>st. db' = db\<lparr>pd_store := st\<rparr> \<and> st_artifacts st = st_artifacts (pd_store db)"
proof -
  obtain st where t: "transition (pk_hashing P) actor cap
              \<lparr>rq_kind = kind, rq_id = i, rq_expected_version = v, rq_state = state, rq_event_type = event,
               rq_actor = id_principal actor, rq_task_id = task, rq_policy_version = policy, rq_evidence = [],
               rq_artifacts = arts, rq_metadata = []\<rparr> key (Some topic) fr (pd_store db) = Inr (e, st)"
      and db': "db' = db\<lparr>pd_store := st\<rparr>"
    using assms by (auto simp: paper_event_def rbind_eq_Inr)
  from t have "st_artifacts st = st_artifacts (pd_store db)"
    by (cases rule: transition_cases) (auto dest: append_event_Inr)
  with db' show ?thesis by blast
qed

lemma put_artifact_appends:
  "put_artifact h actor content schema cls policy fr st = Inr (i, st') \<Longrightarrow>
   (\<exists>xs. st_artifacts st' = st_artifacts st @ xs) \<and> i \<in> art_id ` set (st_artifacts st')"
  by (auto simp: put_artifact_def rbind_eq_Inr Let_def find_Some_iff split: option.splits)

lemma store_step_appends: "store_step h st st' \<Longrightarrow> \<exists>xs. st_artifacts st' = st_artifacts st @ xs"
proof (erule store_stepE)
  fix actor cap rq key topic fr e
  assume "transition h actor cap rq key topic fr st = Inr (e, st')"
  then show ?thesis by (cases rule: transition_cases) (auto dest: append_event_Inr)
qed (auto dest: put_artifact_appends)

text \<open>The tables after a step that only touches the event store and one table.\<close>

lemma start_run_effect:
  assumes "start_run P actor spec key env db = Inr (i, db')"
  shows "db' = db \<or> (\<exists>st row xs. dict_get (pd_runs db) i = None \<and> run_status row = Run_Reconcile_Only \<and>
    st_artifacts st = st_artifacts (pd_store db) @ xs \<and> run_risk_artifact row \<in> art_id ` set (st_artifacts st) \<and>
    db' = db\<lparr>pd_store := st, pd_runs := pd_runs db @ [(i, row)]\<rparr>)"
proof (cases "dict_get (pd_runs db) (rn_run_id spec)")
  case (Some existing)
  with assms show ?thesis
    by (auto simp: start_run_def retried_run_def rbind_eq_Inr split: if_splits option.splits)
next
  case None
  obtain a1 a2 a3 a4 a5 a6 a7 a8 a9 a10 risk st1 execution st2 e db1 row k0 k1 k2 k3 k4 k5 k6 k7 k8 k9 k10 where
      a: "put_artifact (pk_hashing P) actor a1 a2 a3 a4 a5 (pd_store db) = Inr (risk, st1)"
      "put_artifact (pk_hashing P) actor a6 a7 a8 a9 a10 st1 = Inr (execution, st2)"
    and row: "row = \<lparr>run_status = Run_Reconcile_Only, run_policy = rn_policy_version spec, run_risk_artifact = risk,
        run_execution_artifact = execution, run_currency = rn_reporting_currency spec\<rparr>"
    and e: "paper_event P actor k0 k1 k2 k3 k4 k5 k6 k7 k8 k9 k10 (pe_fresh env 2) (db\<lparr>pd_store := st2\<rparr>) = Inr (e, db1)"
    and db': "i = rn_run_id spec" "db' = db1\<lparr>pd_runs := pd_runs db1 @ [(rn_run_id spec, row)]\<rparr>"
    using assms None unfolding start_run_def
    by (clarsimp simp: rbind_eq_Inr Let_def simp del: One_nat_def)
  obtain st where st: "db1 = db\<lparr>pd_store := st\<rparr>" "st_artifacts st = st_artifacts st2"
    using paper_event_frame [OF e] by auto
  obtain xs ys where "st_artifacts st1 = st_artifacts (pd_store db) @ xs" "st_artifacts st2 = st_artifacts st1 @ ys"
      "risk \<in> art_id ` set (st_artifacts st1)"
    using a [THEN put_artifact_appends] by blast
  with None row st db' show ?thesis by (intro disjI2 exI [of _ st] exI [of _ row] exI [of _ "xs @ ys"]) auto
qed

definition set_status :: "string \<Rightarrow> run_status \<Rightarrow> 'h pdb \<Rightarrow> 'h pdb \<Rightarrow> bool" where
  "set_status run s db db' \<longleftrightarrow> (\<exists>st row. dict_get (pd_runs db) run = Some row \<and>
     st_artifacts st = st_artifacts (pd_store db) \<and>
     db' = db\<lparr>pd_store := st, pd_runs := dict_set run (row\<lparr>run_status := s\<rparr>) (pd_runs db)\<rparr>)"

lemma reconcile_run_effect:
  assumes "reconcile_run P actor run key m env db = Inr (s, db')"
  shows "db' = db \<or> set_status run (reconciled_status m db run) db db'"
proof -
  obtain row prior where row: "dict_get (pd_runs db) run = Some row"
    and prior: "prior_operation db key [''PAPER_RECONCILIATION_COMPLETE'', ''PAPER_RECONCILIATION_BLOCKED''] run = Inr prior"
    using assms by (auto simp: reconcile_run_def rbind_eq_Inr split: option.splits)
  show ?thesis
  proof (cases prior)
    case (Some e)
    with assms row prior show ?thesis by (auto simp: reconcile_run_def rbind_eq_Inr Let_def)
  next
    case None
    with assms row prior obtain k0 k1 k2 k3 k4 k5 k6 k7 k8 k9 k10 k11 e db1 where
        e: "paper_event P actor k0 k1 k2 k3 k4 k5 k6 k7 k8 k9 k10 k11 db = Inr (e, db1)"
      and db': "db' = save_run run (row\<lparr>run_status := reconciled_status m db run\<rparr>) db1"
      unfolding reconcile_run_def by (clarsimp simp: rbind_eq_Inr Let_def)
    from paper_event_frame [OF e] db' row show ?thesis by (auto simp: set_status_def save_run_def)
  qed
qed

lemma restart_run_effect:
  assumes "restart_run P actor run key env db = Inr (s, db')"
  shows "db' = db \<or> set_status run Run_Reconcile_Only db db'"
proof -
  obtain row config prior where row: "configured_run db run = Some (row, config)"
    and prior: "prior_operation db key [''PAPER_RESTART_RECONCILE_ONLY''] run = Inr prior"
    using assms by (auto simp: restart_run_def rbind_eq_Inr split: option.splits)
  then have get: "dict_get (pd_runs db) run = Some row" by (auto simp: configured_run_def split: option.splits)
  show ?thesis
  proof (cases prior)
    case (Some e)
    with assms row prior show ?thesis by (auto simp: restart_run_def rbind_eq_Inr)
  next
    case None
    with assms row prior obtain k0 k1 k2 k3 k4 k5 k6 k7 k8 k9 k10 k11 e db1 where
        e: "paper_event P actor k0 k1 k2 k3 k4 k5 k6 k7 k8 k9 k10 k11 db = Inr (e, db1)"
      and db': "db' = save_run run (row\<lparr>run_status := Run_Reconcile_Only\<rparr>) db1"
      unfolding restart_run_def by (clarsimp simp: rbind_eq_Inr Let_def)
    from paper_event_frame [OF e] db' get show ?thesis by (auto simp: set_status_def save_run_def)
  qed
qed

text \<open>A new order: what was checked, and the two rows that were inserted.\<close>

definition placed_order ::
  "'h paper_params \<Rightarrow> string \<Rightarrow> order_intent \<Rightarrow> string \<Rightarrow> string \<Rightarrow> 'h pdb \<Rightarrow> 'h pdb \<Rightarrow> bool" where
  "placed_order P run i pool k db db' \<longleftrightarrow> (\<exists>st row envelope spec snap now rv.
     dict_get (pd_runs db) run = Some row \<and> run_status row = Run_Active \<and> ensure_not_stopped db run i = Inr () \<and>
     artifact_content db (run_risk_artifact row) = Some (pk_risk_json P envelope) \<and>
     pretrade_check i spec snap envelope (position_of db run (oi_venue i) (oi_instrument_id i))
       (pool_exposure db run pool) now = Inr rv \<and>
     hold_ok (new_hold run pool rv) \<and> order_row_ok (new_paper_order run i rv) \<and>
     dict_get (pd_holds db) (rv_reservation_id rv) = None \<and> dict_get (pd_orders db) k = None \<and>
     List.find (\<lambda>(_, x). ord_client_id x = oi_client_order_id i) (pd_orders db) = None \<and>
     st_artifacts st = st_artifacts (pd_store db) \<and>
     db' = db\<lparr>pd_store := st,
              pd_holds := pd_holds db @ [(rv_reservation_id rv, (new_hold run pool rv)\<lparr>res_order := Some k\<rparr>)],
              pd_orders := pd_orders db @ [(k, new_paper_order run i rv)]\<rparr>)"

lemma dict_set_snoc: "dict_get d k = None \<Longrightarrow> dict_set k w (d @ [(k, v)]) = d @ [(k, w)]"
  by (induction d) (auto split: if_splits)

lemma book_order_effect:
  assumes "book_order P actor run row i pool rv env db = Inr (k, db')"
  shows "hold_ok (new_hold run pool rv) \<and> order_row_ok (new_paper_order run i rv) \<and>
     dict_get (pd_holds db) (rv_reservation_id rv) = None \<and> dict_get (pd_orders db) k = None \<and>
     (\<exists>st. st_artifacts st = st_artifacts (pd_store db) \<and>
     db' = db\<lparr>pd_store := st,
              pd_holds := pd_holds db @ [(rv_reservation_id rv, (new_hold run pool rv)\<lparr>res_order := Some k\<rparr>)],
              pd_orders := pd_orders db @ [(k, new_paper_order run i rv)]\<rparr>)"
proof -
  let ?k = "pe_id env"
  let ?h = "(new_hold run pool rv)\<lparr>res_order := Some ?k\<rparr>"
  have ok: "hold_ok (new_hold run pool rv)" "order_row_ok (new_paper_order run i rv)"
      "dict_get (pd_holds db) (rv_reservation_id rv) = None" "dict_get (pd_orders db) ?k = None"
    using assms by (auto simp: book_order_def rbind_eq_Inr insert_row_def Let_def split: if_splits)
  then obtain k0 k1 k2 k3 k4 k5 k6 k7 k8 k9 k10 k11 e where "k = ?k"
    and e: "paper_event P actor k0 k1 k2 k3 k4 k5 k6 k7 k8 k9 k10 k11
      (db\<lparr>pd_holds := dict_set (rv_reservation_id rv) ?h (pd_holds db @ [(rv_reservation_id rv, new_hold run pool rv)]),
          pd_orders := pd_orders db @ [(?k, new_paper_order run i rv)]\<rparr>) = Inr (e, db')"
    using assms unfolding book_order_def by (clarsimp simp: rbind_eq_Inr insert_row_def Let_def)
  with paper_event_frame [OF e] ok show ?thesis by (auto simp: dict_set_snoc)
qed

lemma submit_replay:
  assumes "List.find (\<lambda>(_, x). ord_client_id x = oi_client_order_id i) (pd_orders db) = Some (k, x)"
    and "submit P actor run i spec snap e pool env db = Inr (j, db')"
  shows "j = k \<and> db' = db \<and> ord_intent x = i"
  using assms by (auto simp: submit_def rbind_eq_Inr split: if_splits)

lemma submit_new:
  assumes None: "List.find (\<lambda>(_, x). ord_client_id x = oi_client_order_id i) (pd_orders db) = None"
    and "submit P actor run i spec snap envelope pool env db = Inr (k, db')"
  shows "placed_order P run i pool k db db'"
proof -
  from assms obtain row config where r: "configured_run db run = Some (row, config)"
    by (auto simp: submit_def rbind_eq_Inr split: option.splits)
  with assms None obtain risk where risk: "artifact_content db (run_risk_artifact row) = Some risk"
    by (auto simp: submit_def rbind_eq_Inr split: option.splits)
  from assms None r risk obtain rv where c: "run_status row = Run_Active" "ensure_not_stopped db run i = Inr ()"
      "risk = pk_risk_json P envelope"
      "checked_reservation i spec snap envelope (position_of db run (oi_venue i) (oi_instrument_id i))
         (pool_exposure db run pool) (pe_now env) = Inr rv"
      and b: "book_order P actor run row i pool rv env db = Inr (k, db')"
    by (auto simp: submit_def rbind_eq_Inr)
  from c(4) have "pretrade_check i spec snap envelope (position_of db run (oi_venue i) (oi_instrument_id i))
      (pool_exposure db run pool) (pe_now env) = Inr rv"
    by (simp add: checked_reservation_def split: sum.splits)
  moreover have "dict_get (pd_runs db) run = Some row" using r by (auto simp: configured_run_def split: option.splits)
  ultimately show ?thesis using book_order_effect [OF b] c risk None unfolding placed_order_def by blast
qed

lemma submit_effect:
  assumes "submit P actor run i spec snap envelope pool env db = Inr (k, db')"
  shows "db' = db \<or> placed_order P run i pool k db db'"
proof (cases "List.find (\<lambda>(_, x). ord_client_id x = oi_client_order_id i) (pd_orders db)")
  case (Some p)
  with submit_replay [OF _ assms] show ?thesis by (cases p) auto
qed (use submit_new [OF _ assms] in simp)

text \<open>A recorded fill: the order's new rcd, the converted hold and the appended rows.\<close>

definition applied_fill ::
  "string \<Rightarrow> paper_fill \<Rightarrow> string \<Rightarrow> int \<Rightarrow> 'h pdb \<Rightarrow> 'h pdb \<Rightarrow> bool" where
  "applied_fill order f currency started db db' \<longleftrightarrow> (\<exists>st x rcd r fraction row cash positions.
     dict_get (pd_orders db) order = Some x \<and> filled_record x (pf_quantity f) = Inr rcd \<and>
     dict_get (pd_holds db) (ord_reservation x) = Some r \<and>
     ddiv (or_filled_quantity rcd) (ord_quantity x) = Inr fraction \<and>
     hold_ok (converted_hold r (dmul (res_original r) fraction)) \<and>
     order_row_ok (x\<lparr>ord_state := or_state rcd, ord_filled := or_filled_quantity rcd\<rparr>) \<and>
     st_artifacts st = st_artifacts (pd_store db) \<and> fw_order (snd row) = order \<and> fw_fill (snd row) = f \<and> fw_asset (snd row) = currency \<and>
     (\<exists>i. cash = post_cash i (ord_run x) (fst row) currency (cash_delta x f) started (pd_cash db)) \<and>
     db' = db\<lparr>pd_store := st, pd_fills := pd_fills db @ [row], pd_positions := positions, pd_cash := cash,
              pd_holds := dict_set (ord_reservation x) (converted_hold r (dmul (res_original r) fraction)) (pd_holds db),
              pd_orders := dict_set order (x\<lparr>ord_state := or_state rcd, ord_filled := or_filled_quantity rcd\<rparr>)
                (pd_orders db)\<rparr>)"

lemma applied_fillE:
  assumes "applied_fill order f currency started db db'"
  obtains x rcd r fraction row i where
    "dict_get (pd_orders db) order = Some x" "filled_record x (pf_quantity f) = Inr rcd"
    "dict_get (pd_holds db) (ord_reservation x) = Some r"
    "ddiv (or_filled_quantity rcd) (ord_quantity x) = Inr fraction"
    "hold_ok (converted_hold r (dmul (res_original r) fraction))"
    "order_row_ok (x\<lparr>ord_state := or_state rcd, ord_filled := or_filled_quantity rcd\<rparr>)"
    "fw_order (snd row) = order" "fw_fill (snd row) = f" "fw_asset (snd row) = currency"
    "pd_fills db' = pd_fills db @ [row]" "pd_runs db' = pd_runs db" "pd_latches db' = pd_latches db"
    "pd_cash db' = post_cash i (ord_run x) (fst row) currency (cash_delta x f) started (pd_cash db)"
    "pd_holds db' = dict_set (ord_reservation x) (converted_hold r (dmul (res_original r) fraction)) (pd_holds db)"
    "pd_orders db' = dict_set order (x\<lparr>ord_state := or_state rcd, ord_filled := or_filled_quantity rcd\<rparr>) (pd_orders db)"
    "st_artifacts (pd_store db') = st_artifacts (pd_store db)"
proof -
  obtain st x rcd r fraction row cash positions i where a:
     "dict_get (pd_orders db) order = Some x" "filled_record x (pf_quantity f) = Inr rcd"
     "dict_get (pd_holds db) (ord_reservation x) = Some r"
     "ddiv (or_filled_quantity rcd) (ord_quantity x) = Inr fraction"
     "hold_ok (converted_hold r (dmul (res_original r) fraction))"
     "order_row_ok (x\<lparr>ord_state := or_state rcd, ord_filled := or_filled_quantity rcd\<rparr>)"
     "st_artifacts st = st_artifacts (pd_store db)" "fw_order (snd row) = order" "fw_fill (snd row) = f"
     "fw_asset (snd row) = currency"
     "cash = post_cash i (ord_run x) (fst row) currency (cash_delta x f) started (pd_cash db)"
    and db': "db' = db\<lparr>pd_store := st, pd_fills := pd_fills db @ [row], pd_positions := positions, pd_cash := cash,
              pd_holds := dict_set (ord_reservation x) (converted_hold r (dmul (res_original r) fraction)) (pd_holds db),
              pd_orders := dict_set order (x\<lparr>ord_state := or_state rcd, ord_filled := or_filled_quantity rcd\<rparr>)
                (pd_orders db)\<rparr>"
    using assms unfolding applied_fill_def by (elim exE conjE)
  show ?thesis by (rule that [OF a(1-6,8-10)]) (simp_all add: db' a(7,11))
qed

lemma write_fill_effect:
  assumes "write_fill order x f currency l env db = Inr db'"
  shows "\<exists>row positions i. fw_order (snd row) = order \<and> fw_fill (snd row) = f \<and> fw_asset (snd row) = currency \<and>
    db' = db\<lparr>pd_fills := pd_fills db @ [row], pd_positions := positions,
      pd_cash := post_cash i (ord_run x) (fst row) currency (cash_delta x f) (pe_started env) (pd_cash db)\<rparr>"
proof -
  let ?row = "(pe_id env, \<lparr>fw_order = order,
      fw_sequence = length (List.filter (\<lambda>(_, e). fw_order e = order) (pd_fills db)) + 1,
      fw_fill = f, fw_asset = currency\<rparr>)"
  from assms have "db' = db\<lparr>pd_fills := pd_fills db @ [?row],
      pd_positions := dict_set (ord_run x, ord_venue x, ord_instrument x)
               \<lparr>pn_quantity = position l, pn_currency = currency, pn_realized = realized_pnl l\<rparr> (pd_positions db),
      pd_cash := post_cash (pe_cash_id env) (ord_run x) (fst ?row) currency (cash_delta x f) (pe_started env) (pd_cash db)\<rparr>"
    by (auto simp: write_fill_def rbind_eq_Inr insert_row_def split: if_splits)
  then show ?thesis by (intro exI [of _ ?row] exI) simp
qed

lemma record_fill_replay:
  assumes "List.find (\<lambda>(_, e). pf_external_fill_key (fw_fill e) = pf_external_fill_key f) (pd_fills db) = Some (k, e)"
    and "record_fill P actor order f currency env db = Inr (j, db')"
  shows "j = k \<and> db' = db \<and> same_fill e order f currency"
  using assms by (auto simp: record_fill_def rbind_eq_Inr split: if_splits)

lemma convert_hold_effect:
  assumes "convert_hold x rcd db = Inr db'"
  shows "\<exists>r fraction. dict_get (pd_holds db) (ord_reservation x) = Some r \<and>
    ddiv (or_filled_quantity rcd) (ord_quantity x) = Inr fraction \<and>
    hold_ok (converted_hold r (dmul (res_original r) fraction)) \<and>
    db' = db\<lparr>pd_holds := dict_set (ord_reservation x) (converted_hold r (dmul (res_original r) fraction)) (pd_holds db)\<rparr>"
  using assms by (auto simp: convert_hold_def save_hold_def rbind_eq_Inr split: option.splits)

lemma record_fill_new:
  assumes "List.find (\<lambda>(_, e). pf_external_fill_key (fw_fill e) = pf_external_fill_key f) (pd_fills db) = None"
    and "record_fill P actor order f currency env db = Inr (k, db')"
  shows "applied_fill order f currency (pe_started env) db db'"
proof -
  obtain x row config where x: "dict_get (pd_orders db) order = Some x" "configured_run db (ord_run x) = Some (row, config)"
    using assms by (auto simp: record_fill_def rbind_eq_Inr split: option.splits)
  with assms obtain rcd l db1 db2 db3 e where
      rcd: "filled_record x (pf_quantity f) = Inr rcd"
    and w: "write_fill order x f currency l env db = Inr db1" and c: "convert_hold x rcd db1 = Inr db2"
    and s: "save_order order (x\<lparr>ord_state := or_state rcd, ord_filled := or_filled_quantity rcd\<rparr>) db2 = Inr db3"
    and e: "fill_event P actor order x row rcd f env db3 = Inr (e, db')"
    by (auto simp: record_fill_def rbind_eq_Inr)
  obtain k0 k1 k2 k3 k4 k5 k6 k7 k8 k9 k10 k11 where
      "paper_event P actor k0 k1 k2 k3 k4 k5 k6 k7 k8 k9 k10 k11 db3 = Inr (e, db')"
    using e unfolding fill_event_def by (clarsimp simp: rbind_eq_Inr)
  from paper_event_frame [OF this] obtain st where st: "db' = db3\<lparr>pd_store := st\<rparr>"
      "st_artifacts st = st_artifacts (pd_store db3)" by blast
  obtain frow positions i where f: "fw_order (snd frow) = order" "fw_fill (snd frow) = f" "fw_asset (snd frow) = currency"
      "db1 = db\<lparr>pd_fills := pd_fills db @ [frow], pd_positions := positions,
      pd_cash := post_cash i (ord_run x) (fst frow) currency (cash_delta x f) (pe_started env) (pd_cash db)\<rparr>"
    using write_fill_effect [OF w] by blast
  obtain r fraction where r: "dict_get (pd_holds db) (ord_reservation x) = Some r"
      "ddiv (or_filled_quantity rcd) (ord_quantity x) = Inr fraction"
      "hold_ok (converted_hold r (dmul (res_original r) fraction))"
      "db2 = db1\<lparr>pd_holds := dict_set (ord_reservation x) (converted_hold r (dmul (res_original r) fraction)) (pd_holds db1)\<rparr>"
    using convert_hold_effect [OF c] f(4) by auto
  show ?thesis unfolding applied_fill_def
    by (rule exI [of _ st], rule exI [of _ x], rule exI [of _ rcd], rule exI [of _ r], rule exI [of _ fraction],
        rule exI [of _ frow],
        rule exI [of _ "post_cash i (ord_run x) (fst frow) currency (cash_delta x f) (pe_started env) (pd_cash db)"],
        rule exI [of _ positions]) (use x rcd r f s st in \<open>auto simp: save_order_def rbind_eq_Inr\<close>)
qed

lemma record_fill_effect:
  assumes "record_fill P actor order f currency env db = Inr (k, db')"
  shows "db' = db \<or> applied_fill order f currency (pe_started env) db db'"
  using record_fill_new [OF _ assms] record_fill_replay [OF _ assms]
  by (cases "List.find (\<lambda>(_, e). pf_external_fill_key (fw_fill e) = pf_external_fill_key f) (pd_fills db)") auto

text \<open>An order closed by a cancellation, and one marked unknown.\<close>

definition closed_order :: "string \<Rightarrow> order_row \<Rightarrow> 'h pdb \<Rightarrow> 'h pdb \<Rightarrow> bool" where
  "closed_order order x db db' \<longleftrightarrow> (\<exists>st r raw.
     dict_get (pd_holds db) (ord_reservation x) = Some r \<and> hold_ok (released_hold r) \<and>
     order_row_ok x \<and> st_artifacts st = st_artifacts (pd_store db) \<and>
     db' = db\<lparr>pd_store := st, pd_holds := dict_set (ord_reservation x) (released_hold r) (pd_holds db),
              pd_orders := dict_set order (x\<lparr>ord_state := CANCELLED, ord_raw := raw\<rparr>) (pd_orders db)\<rparr>)"

definition unknown_order :: "string \<Rightarrow> 'h pdb \<Rightarrow> 'h pdb \<Rightarrow> bool" where
  "unknown_order order db db' \<longleftrightarrow> (\<exists>st x raw holds.
     dict_get (pd_orders db) order = Some x \<and> UNKNOWN_RECONCILING \<in> set (transitions (ord_state x)) \<and>
     order_row_ok x \<and> st_artifacts st = st_artifacts (pd_store db) \<and>
     holds = (case dict_get (pd_holds db) (ord_reservation x) of
        None \<Rightarrow> pd_holds db
      | Some r \<Rightarrow> dict_set (ord_reservation x) (r\<lparr>res_state := Hold_Unreconciled\<rparr>) (pd_holds db)) \<and>
     db' = db\<lparr>pd_store := st, pd_holds := holds,
              pd_orders := dict_set order (x\<lparr>ord_state := UNKNOWN_RECONCILING, ord_raw := raw\<rparr>) (pd_orders db)\<rparr>)"

lemma order_row_ok_state [simp]:
  "order_row_ok (x\<lparr>ord_state := s\<rparr>) = order_row_ok x" "order_row_ok (x\<lparr>ord_state := s, ord_raw := raw\<rparr>) = order_row_ok x"
  by (simp_all add: order_row_ok_def)

lemma mark_unknown_effect:
  assumes "mark_unknown P actor order reason key env db = Inr db'"
  shows "db' = db \<or> unknown_order order db db'"
proof -
  obtain x prior where x: "dict_get (pd_orders db) order = Some x"
    and prior: "prior_operation db key [''PAPER_ORDER_UNKNOWN_RECONCILING''] order = Inr prior"
    using assms by (auto simp: mark_unknown_def rbind_eq_Inr split: option.splits)
  show ?thesis
  proof (cases prior)
    case (Some e)
    with assms x prior show ?thesis by (auto simp: mark_unknown_def rbind_eq_Inr)
  next
    case None
    with assms x prior obtain rcd db1 db2 k0 k1 k2 k3 k4 k5 k6 k7 k8 k9 k10 k11 e where
        t: "order_transition (stored_record x) UNKNOWN_RECONCILING (Some reason) 0 = Inr rcd"
      and s: "save_order order (x\<lparr>ord_state := or_state rcd,
                ord_raw := jset ''reconciliation_reason'' (JStr reason) (ord_raw x)\<rparr>) db = Inr db1"
      and h: "(case dict_get (pd_holds db1) (ord_reservation x) of None \<Rightarrow> Inr db1
               | Some r \<Rightarrow> save_hold (ord_reservation x) (r\<lparr>res_state := Hold_Unreconciled\<rparr>) db1) = Inr db2"
      and e: "paper_event P actor k0 k1 k2 k3 k4 k5 k6 k7 k8 k9 k10 k11 db2 = Inr (e, db')"
      unfolding mark_unknown_def by (clarsimp simp: rbind_eq_Inr)
    have st: "UNKNOWN_RECONCILING \<in> set (transitions (ord_state x))" "or_state rcd = UNKNOWN_RECONCILING"
      using order_transition_Inr [OF t] by (simp_all add: stored_record_def)
    define raw where "raw = jset ''reconciliation_reason'' (JStr reason) (ord_raw x)"
    from s st have db1: "order_row_ok x" "db1 = db\<lparr>pd_orders := dict_set order
        (x\<lparr>ord_state := UNKNOWN_RECONCILING, ord_raw := raw\<rparr>) (pd_orders db)\<rparr>"
      by (simp_all add: save_order_def rbind_eq_Inr raw_def)
    define holds where "holds = (case dict_get (pd_holds db) (ord_reservation x) of None \<Rightarrow> pd_holds db
      | Some r \<Rightarrow> dict_set (ord_reservation x) (r\<lparr>res_state := Hold_Unreconciled\<rparr>) (pd_holds db))"
    from h db1 have db2: "db2 = db1\<lparr>pd_holds := holds\<rparr>"
      by (auto simp: holds_def save_hold_def rbind_eq_Inr split: option.splits)
    obtain s0 where "db' = db2\<lparr>pd_store := s0\<rparr>" "st_artifacts s0 = st_artifacts (pd_store db2)"
      using paper_event_frame [OF e] by blast
    with x st db1 db2 show ?thesis unfolding unknown_order_def holds_def [symmetric]
      by (intro disjI2 exI [of _ s0] exI [of _ x] exI [of _ raw] exI [of _ holds]) (simp add: holds_def)
  qed
qed

lemma release_hold_effect:
  assumes "release_hold i db = Inr db'"
  shows "\<exists>r. dict_get (pd_holds db) i = Some r \<and> hold_ok (released_hold r) \<and>
    db' = db\<lparr>pd_holds := dict_set i (released_hold r) (pd_holds db)\<rparr>"
  using assms by (auto simp: release_hold_def save_hold_def rbind_eq_Inr split: option.splits)

lemma closed_orderI:
  assumes "release_hold (ord_reservation x) db = Inr db1"
    and "save_order order (x\<lparr>ord_state := CANCELLED, ord_raw := raw\<rparr>) db1 = Inr db2"
    and "paper_event P actor k0 k1 k2 k3 k4 k5 k6 k7 k8 k9 k10 k11 db2 = Inr (e, db')"
  shows "closed_order order x db db'"
proof -
  obtain r where r: "dict_get (pd_holds db) (ord_reservation x) = Some r" "hold_ok (released_hold r)"
      "db1 = db\<lparr>pd_holds := dict_set (ord_reservation x) (released_hold r) (pd_holds db)\<rparr>"
    using release_hold_effect [OF assms(1)] by blast
  from assms(2) r have db2: "order_row_ok x"
      "db2 = db1\<lparr>pd_orders := dict_set order (x\<lparr>ord_state := CANCELLED, ord_raw := raw\<rparr>) (pd_orders db)\<rparr>"
    by (simp_all add: save_order_def rbind_eq_Inr)
  obtain s0 where "db' = db2\<lparr>pd_store := s0\<rparr>" "st_artifacts s0 = st_artifacts (pd_store db2)"
    using paper_event_frame [OF assms(3)] by blast
  with r db2 show ?thesis unfolding closed_order_def
    by (intro exI [of _ s0] exI [of _ r] exI [of _ raw]) simp
qed

lemma cancel_effect:
  assumes "cancel P actor order key env db = Inr db'"
  shows "db' = db \<or> (\<exists>x. dict_get (pd_orders db) order = Some x \<and>
    CANCEL_PENDING \<in> set (transitions (ord_state x)) \<and> closed_order order x db db')"
proof -
  obtain x prior where x: "dict_get (pd_orders db) order = Some x"
    and prior: "prior_operation db key [''PAPER_ORDER_CANCELLED''] order = Inr prior"
    using assms by (auto simp: cancel_def rbind_eq_Inr split: option.splits)
  show ?thesis
  proof (cases prior)
    case (Some e)
    with assms x prior show ?thesis by (auto simp: cancel_def rbind_eq_Inr)
  next
    case None
    with assms x prior have "ord_state x \<noteq> CANCELLED" "ord_state x \<noteq> UNKNOWN_RECONCILING"
      by (auto simp: cancel_def rbind_eq_Inr split: if_splits)
    with assms x prior None obtain pending rcd db1 db2 k0 k1 k2 k3 k4 k5 k6 k7 k8 k9 k10 k11 e where
        t: "order_transition (stored_record x) CANCEL_PENDING None 0 = Inr pending"
        "order_transition pending CANCELLED None 0 = Inr rcd"
      and h: "release_hold (ord_reservation x) db = Inr db1"
      and s: "save_order order (x\<lparr>ord_state := or_state rcd\<rparr>) db1 = Inr db2"
      and e: "paper_event P actor k0 k1 k2 k3 k4 k5 k6 k7 k8 k9 k10 k11 db2 = Inr (e, db')"
      unfolding cancel_def by (clarsimp simp: rbind_eq_Inr)
    have st: "CANCEL_PENDING \<in> set (transitions (ord_state x))" "or_state rcd = CANCELLED"
      using order_transition_Inr [OF t(1)] order_transition_Inr [OF t(2)] by (simp_all add: stored_record_def)
    have "x\<lparr>ord_state := or_state rcd\<rparr> = x\<lparr>ord_state := CANCELLED, ord_raw := ord_raw x\<rparr>" by (simp add: st)
    with s have "save_order order (x\<lparr>ord_state := CANCELLED, ord_raw := ord_raw x\<rparr>) db1 = Inr db2" by (simp only:)
    from closed_orderI [OF h this e] x st show ?thesis by blast
  qed
qed

lemma cancel_for_safety_latch_effect:
  assumes "cancel_for_safety_latch P actor latch env db (n, order, x) = Inr db'"
  shows "closed_order order x db db'"
proof -
  obtain db1 db2 k0 k1 k2 k3 k4 k5 k6 k7 k8 k9 k10 k11 e where
      h: "release_hold (ord_reservation x) db = Inr db1"
    and s: "save_order order (x\<lparr>ord_state := CANCELLED,
              ord_raw := jset ''cancel_reason'' (JStr ''EMERGENCY_STOP'')
                           (jset ''safety_latch_id'' (JStr latch) (ord_raw x))\<rparr>) db1 = Inr db2"
    and e: "paper_event P actor k0 k1 k2 k3 k4 k5 k6 k7 k8 k9 k10 k11 db2 = Inr (e, db')"
    using assms unfolding cancel_for_safety_latch_def by (clarsimp simp: rbind_eq_Inr)
  from closed_orderI [OF this] show ?thesis .
qed

definition stopped_run :: "'h pdb \<Rightarrow> 'h pdb \<Rightarrow> bool" where
  "stopped_run db db' \<longleftrightarrow> (\<exists>st row. st_artifacts st = st_artifacts (pd_store db) \<and>
     db' = db\<lparr>pd_store := st, pd_stops := pd_stops db @ [row]\<rparr>)"

lemma stop_run_effect:
  assumes "stop_run P actor run q key env db = Inr (k, db')"
  shows "db' = db \<or> stopped_run db db'"
proof -
  obtain row where row: "dict_get (pd_runs db) run = Some row"
    using assms by (auto simp: stop_run_def rbind_eq_Inr split: option.splits)
  with assms obtain prior where prior: "prior_operation db key [''PAPER_EMERGENCY_STOP''] run = Inr prior"
    by (auto simp: stop_run_def rbind_eq_Inr)
  show ?thesis
  proof (cases prior)
    case (Some e)
    with assms row prior show ?thesis by (auto simp: stop_run_def rbind_eq_Inr split: option.splits)
  next
    case None
    with assms row prior obtain k0 k1 k2 k3 k4 k5 k6 k7 k8 k9 k10 k11 e db1 stops r where
        e: "paper_event P actor k0 k1 k2 k3 k4 k5 k6 k7 k8 k9 k10 k11 db = Inr (e, db1)"
      and i: "insert_row (pe_id env) r (pd_stops db1) = Inr stops" and db': "db' = db1\<lparr>pd_stops := stops\<rparr>"
      unfolding stop_run_def by (clarsimp simp: rbind_eq_Inr)
    from paper_event_frame [OF e] i db' show ?thesis
      by (auto simp: stopped_run_def insert_row_def split: if_splits)
  qed
qed

definition released_latch :: "string \<Rightarrow> 'h pdb \<Rightarrow> 'h pdb \<Rightarrow> bool" where
  "released_latch i db db' \<longleftrightarrow> (\<exists>st l. st_artifacts st = st_artifacts (pd_store db) \<and>
     db' = db\<lparr>pd_store := st, pd_latches := dict_set i (l\<lparr>lt_active := False\<rparr>) (pd_latches db)\<rparr>)"

lemma release_latch_effect:
  assumes "release_latch P actor i reason key env db = Inr db'"
  shows "db' = db \<or> (id_role actor = ''owner'' \<and> released_latch i db db')"
proof -
  obtain l prior where l: "dict_get (pd_latches db) i = Some l" and owner: "id_role actor = ''owner''"
    and prior: "prior_operation db key [''PAPER_GLOBAL_EMERGENCY_STOP_RELEASED'']
        (latch_aggregate (lt_scope l) (lt_scope_id l)) = Inr prior"
    using assms by (auto simp: release_latch_def rbind_eq_Inr Let_def split: option.splits)
  show ?thesis
  proof (cases prior)
    case (Some e)
    with assms l prior show ?thesis by (auto simp: release_latch_def rbind_eq_Inr Let_def)
  next
    case None
    with assms l prior obtain k0 k1 k2 k3 k4 k5 k6 k7 k8 k9 k10 k11 e db1 where
        e: "paper_event P actor k0 k1 k2 k3 k4 k5 k6 k7 k8 k9 k10 k11 db = Inr (e, db1)"
      and db': "db' = db1\<lparr>pd_latches := dict_set i (l\<lparr>lt_active := False\<rparr>) (pd_latches db1)\<rparr>"
      unfolding release_latch_def by (clarsimp simp: rbind_eq_Inr Let_def)
    obtain st where "db1 = db\<lparr>pd_store := st\<rparr>" "st_artifacts st = st_artifacts (pd_store db)"
      using paper_event_frame [OF e] by blast
    with db' owner show ?thesis unfolding released_latch_def
      by (intro disjI2 conjI exI [of _ st] exI [of _ l]) simp_all
  qed
qed

definition latched :: "stop_request \<Rightarrow> 'h pdb \<Rightarrow> 'h pdb \<Rightarrow> bool" where
  "latched q db db' \<longleftrightarrow> (\<exists>st k l. st_artifacts st = st_artifacts (pd_store db) \<and>
     lt_scope l = sq_scope q \<and> lt_scope_id l = sq_scope_id q \<and>
     db' = db\<lparr>pd_store := st, pd_latches := pd_latches db @ [(k, l)]\<rparr>)"

lemma emergency_latch_effect:
  assumes "emergency_latch P actor q key env db = Inr (k, db')"
  shows "db' = db \<or> ((sq_scope q = Scope_Global \<or> sq_scope q = Scope_Venue) \<and>
    (\<exists>db1. latched q db db1 \<and> fence P actor q env db1 = Inr db'))"
proof -
  let ?i = "latch_aggregate (sq_scope q) (sq_scope_id q)"
  obtain prior where prior: "prior_operation db key [''PAPER_GLOBAL_EMERGENCY_STOP''] ?i = Inr prior"
    and scope: "sq_scope q = Scope_Global \<or> sq_scope q = Scope_Venue"
    using assms by (auto simp: emergency_latch_def rbind_eq_Inr Let_def)
  show ?thesis
  proof (cases prior)
    case (Some e)
    with assms prior show ?thesis by (auto simp: emergency_latch_def rbind_eq_Inr Let_def split: json.splits)
  next
    case None
    with assms prior obtain k0 k1 k2 k3 k4 k5 k6 k7 k8 k9 k10 k11 e db1 latches where
        e: "paper_event P actor k0 k1 k2 k3 k4 k5 k6 k7 k8 k9 k10 k11 db = Inr (e, db1)"
      and i: "insert_row (pe_id env) (latch_row_of q e) (pd_latches db1) = Inr latches"
      and f: "fence P actor q env (db1\<lparr>pd_latches := latches\<rparr>) = Inr db'"
      unfolding emergency_latch_def by (clarsimp simp: rbind_eq_Inr Let_def)
    obtain st where "db1 = db\<lparr>pd_store := st\<rparr>" "st_artifacts st = st_artifacts (pd_store db)"
      using paper_event_frame [OF e] by blast
    with i have "latched q db (db1\<lparr>pd_latches := latches\<rparr>)" unfolding latched_def
      by (intro exI [of _ st] exI [of _ "pe_id env"] exI [of _ "latch_row_of q e"])
        (auto simp: insert_row_def latch_row_of_def split: if_splits)
    with f scope show ?thesis by blast
  qed
qed

definition fenced_run :: "string \<Rightarrow> run_row \<Rightarrow> 'h pdb \<Rightarrow> 'h pdb \<Rightarrow> bool" where
  "fenced_run k row db db' \<longleftrightarrow> (\<exists>st. st_artifacts st = st_artifacts (pd_store db) \<and>
     db' = db\<lparr>pd_store := st, pd_runs := dict_set k (row\<lparr>run_status := Run_Reconcile_Only\<rparr>) (pd_runs db)\<rparr>)"

lemma fence_run_effect:
  assumes "fence_run P actor latch env db (n, k, row) = Inr db'"
  shows "fenced_run k row db db'"
proof -
  obtain k0 k1 k2 k3 k4 k5 k6 k7 k8 k9 k10 k11 e db1 where
      e: "paper_event P actor k0 k1 k2 k3 k4 k5 k6 k7 k8 k9 k10 k11 db = Inr (e, db1)"
    and db': "db' = save_run k (row\<lparr>run_status := Run_Reconcile_Only\<rparr>) db1"
    using assms unfolding fence_run_def by (clarsimp simp: rbind_eq_Inr)
  from paper_event_frame [OF e] db' show ?thesis by (auto simp: fenced_run_def save_run_def)
qed

section \<open>The fence\<close>

text \<open>A loop over rows fetched before it: every turn still finds its row as it was fetched.\<close>

lemma fetched_loop:
  assumes "rfold f db (List.enumerate n xs) = Inr db'" and "distinct (map fst xs)" and "I db"
    and "\<And>k x. (k, x) \<in> set xs \<Longrightarrow> dict_get (tab db) k = Some x"
    and "\<And>n k x db db'. (k, x) \<in> set xs \<Longrightarrow> dict_get (tab db) k = Some x \<Longrightarrow> I db \<Longrightarrow> f db (n, k, x) = Inr db' \<Longrightarrow>
      I db' \<and> (\<exists>x'. tab db' = dict_set k x' (tab db))"
  shows "I db'"
  using assms
proof (induction xs arbitrary: n db)
  case Nil
  then show ?case by simp
next
  case (Cons p xs)
  obtain k x where p: "p = (k, x)" by (cases p)
  with Cons.prems(1) obtain db1 where db1: "f db (n, k, x) = Inr db1" "rfold f db1 (List.enumerate (Suc n) xs) = Inr db'"
    by (auto simp: rbind_eq_Inr)
  from Cons.prems(5) [OF _ _ Cons.prems(3) db1(1)] Cons.prems(4) [of k x] p
  obtain x' where i: "I db1" and t: "tab db1 = dict_set k x' (tab db)" by auto
  show ?case
  proof (rule Cons.IH [OF db1(2) _ i])
    show "distinct (map fst xs)" using Cons.prems(2) by simp
    show "dict_get (tab db1) k2 = Some x2" if "(k2, x2) \<in> set xs" for k2 x2
    proof -
      have "k2 \<noteq> k" using that Cons.prems(2) p by force
      with that Cons.prems(4) t show ?thesis by (simp add: dict_get_set)
    qed
    show "I d' \<and> (\<exists>x'. tab d' = dict_set k2 x' (tab d))"
      if "(k2, x2) \<in> set xs" "dict_get (tab d) k2 = Some x2" "I d" "f d (m, k2, x2) = Inr d'" for m k2 x2 d d'
      using Cons.prems(5) [of k2 x2 d m d'] that by simp
  qed
qed

text \<open>Afterwards no row fetched is left as it was.\<close>

lemma fetched_loop_rows:
  assumes "rfold f db (List.enumerate n xs) = Inr db'" and "distinct (dict_keys (tab db))"
    and "\<And>n k x db db'. (k, x) \<in> set xs \<Longrightarrow> f db (n, k, x) = Inr db' \<Longrightarrow>
      (\<exists>x'. C x' \<and> tab db' = dict_set k x' (tab db))"
    and "(k, y) \<in> set (tab db')"
  shows "C y \<or> (k, y) \<in> set (tab db) \<and> k \<notin> set (map fst xs)"
  using assms
proof (induction xs arbitrary: n db)
  case Nil
  then show ?case by simp
next
  case (Cons p xs)
  obtain i x where p: "p = (i, x)" by (cases p)
  with Cons.prems(1) obtain db1 where db1: "f db (n, i, x) = Inr db1" "rfold f db1 (List.enumerate (Suc n) xs) = Inr db'"
    by (auto simp: rbind_eq_Inr)
  from Cons.prems(3) [OF _ db1(1)] p obtain x' where x': "C x'" "tab db1 = dict_set i x' (tab db)" by auto
  have "C y \<or> (k, y) \<in> set (tab db1) \<and> k \<notin> set (map fst xs)"
  proof (rule Cons.IH [OF db1(2)])
    show "distinct (dict_keys (tab db1))" using Cons.prems(2) x'(2) by (simp add: distinct_dict_set)
    show "\<exists>x'. C x' \<and> tab d' = dict_set k2 x' (tab d)"
      if "(k2, x2) \<in> set xs" "f d (m, k2, x2) = Inr d'" for m k2 x2 d d'
      using Cons.prems(3) [of k2 x2 d m d'] that by simp
  qed (use Cons.prems(4) in simp)
  then show ?case using x' Cons.prems(2) p by (auto simp: set_dict_set)
qed

section \<open>Orders and their reservations\<close>

text \<open>Order \<open>k\<close> with row \<open>x\<close> and the reservation \<open>r\<close> behind it.\<close>

definition booked :: "string \<Rightarrow> order_row \<Rightarrow> hold_row \<Rightarrow> bool" where
  "booked k x r \<longleftrightarrow> res_order r = Some k \<and> res_run r = ord_run x \<and> hold_ok r \<and> order_row_ok x \<and>
     ord_state x \<in> {ACKNOWLEDGED, UNKNOWN_RECONCILING, PARTIALLY_FILLED, FILLED, CANCELLED} \<and>
     dround (res_original r) = res_original r \<and>
     res_position r = dmul (res_original r) (dround (ord_filled x / ord_quantity x)) \<and>
     (ord_state x = CANCELLED \<longrightarrow> res_working r = 0) \<and>
     (ord_state x \<noteq> CANCELLED \<longrightarrow> res_released r = 0 \<and> res_state r \<noteq> Hold_Released) \<and>
     (ord_state x = FILLED \<longrightarrow> ord_filled x = ord_quantity x) \<and>
     (ord_state x = PARTIALLY_FILLED \<longrightarrow> 0 < ord_filled x \<and> ord_filled x < ord_quantity x) \<and>
     (ord_state x \<in> {ACKNOWLEDGED, UNKNOWN_RECONCILING} \<longrightarrow> ord_filled x = 0)"

definition paper_wf :: "'h pdb \<Rightarrow> bool" where
  "paper_wf db \<longleftrightarrow> distinct (dict_keys (pd_holds db)) \<and> distinct (dict_keys (pd_orders db)) \<and>
     distinct (dict_keys (pd_runs db)) \<and>
     (\<forall>k x. dict_get (pd_orders db) k = Some x \<longrightarrow> ord_run x \<in> set (dict_keys (pd_runs db)) \<and>
        (\<exists>r. dict_get (pd_holds db) (ord_reservation x) = Some r \<and> booked k x r)) \<and>
     (\<forall>i r. dict_get (pd_holds db) i = Some r \<longrightarrow>
        (\<exists>k x. dict_get (pd_orders db) k = Some x \<and> ord_reservation x = i \<and> res_order r = Some k))"

lemma paper_wf_booked:
  "paper_wf db \<Longrightarrow> dict_get (pd_orders db) k = Some x \<Longrightarrow> dict_get (pd_holds db) (ord_reservation x) = Some r \<Longrightarrow> booked k x r"
  by (fastforce simp: paper_wf_def)

lemma paper_wf_hold:
  "paper_wf db \<Longrightarrow> dict_get (pd_orders db) k = Some x \<Longrightarrow>
   \<exists>r. dict_get (pd_holds db) (ord_reservation x) = Some r \<and> booked k x r"
  by (auto simp: paper_wf_def)

lemma paper_wf_owner:
  "paper_wf db \<Longrightarrow> dict_get (pd_holds db) i = Some r \<Longrightarrow>
   \<exists>k x. dict_get (pd_orders db) k = Some x \<and> ord_reservation x = i \<and> res_order r = Some k"
  unfolding paper_wf_def by blast

lemma paper_wf_run:
  "paper_wf db \<Longrightarrow> dict_get (pd_orders db) k = Some x \<Longrightarrow> ord_run x \<in> set (dict_keys (pd_runs db))"
  unfolding paper_wf_def by blast

lemma dict_get_key: "dict_get d k = Some v \<Longrightarrow> k \<in> set (dict_keys d)"
  by (force dest: map_of_SomeD)

text \<open>Steps that leave orders and reservations alone, and steps on one order.\<close>

lemma paper_wf_frame:
  assumes "paper_wf db" and "pd_holds db' = pd_holds db" and "pd_orders db' = pd_orders db"
    and "distinct (dict_keys (pd_runs db'))" and "set (dict_keys (pd_runs db)) \<subseteq> set (dict_keys (pd_runs db'))"
  shows "paper_wf db'"
  using assms unfolding paper_wf_def by (auto simp: subset_iff)

lemma paper_wf_update:
  assumes wf: "paper_wf db" and x: "dict_get (pd_orders db) k = Some x"
    and r: "dict_get (pd_holds db) (ord_reservation x) = Some r"
    and b: "booked k x' r'" and same: "ord_reservation x' = ord_reservation x" "ord_run x' = ord_run x"
    and holds: "pd_holds db' = dict_set (ord_reservation x) r' (pd_holds db)"
    and orders: "pd_orders db' = dict_set k x' (pd_orders db)" and runs: "pd_runs db' = pd_runs db"
  shows "paper_wf db'"
proof -
  have own: "ord_reservation y \<noteq> ord_reservation x" if "dict_get (pd_orders db) j = Some y" "j \<noteq> k" for j y
  proof
    assume "ord_reservation y = ord_reservation x"
    with paper_wf_booked [OF wf that(1)] r have "booked j y r" by simp
    with paper_wf_booked [OF wf x r] that(2) show False by (simp add: booked_def)
  qed
  have 1: "ord_run y \<in> set (dict_keys (pd_runs db')) \<and> (\<exists>r. dict_get (pd_holds db') (ord_reservation y) = Some r \<and> booked j y r)"
    if y: "dict_get (pd_orders db') j = Some y" for j y
  proof (cases "j = k")
    case True
    with y have "y = x'" by (simp add: orders dict_get_set)
    with True same b paper_wf_run [OF wf x] show ?thesis by (simp add: holds runs dict_get_set)
  next
    case False
    with y have y': "dict_get (pd_orders db) j = Some y" by (simp add: orders dict_get_set)
    with own [OF y' False] paper_wf_hold [OF wf y'] paper_wf_run [OF wf y'] show ?thesis
      by (simp add: holds runs dict_get_set)
  qed
  have 2: "\<exists>j y. dict_get (pd_orders db') j = Some y \<and> ord_reservation y = i \<and> res_order s = Some j"
    if s: "dict_get (pd_holds db') i = Some s" for i s
  proof (cases "i = ord_reservation x")
    case True
    with s b have "s = r'" "res_order r' = Some k" by (simp_all add: holds dict_get_set booked_def)
    with True same show ?thesis by (intro exI [of _ k] exI [of _ x']) (simp add: orders dict_get_set)
  next
    case False
    with s have "dict_get (pd_holds db) i = Some s" by (simp add: holds dict_get_set)
    from paper_wf_owner [OF wf this] obtain j y
      where y: "dict_get (pd_orders db) j = Some y" "ord_reservation y = i" "res_order s = Some j" by blast
    with False x have "j \<noteq> k" by auto
    with y show ?thesis by (intro exI [of _ j] exI [of _ y]) (simp add: orders dict_get_set)
  qed
  from wf have "distinct (dict_keys (pd_holds db'))" "distinct (dict_keys (pd_orders db'))" "distinct (dict_keys (pd_runs db'))"
    by (simp_all add: paper_wf_def holds orders runs distinct_dict_set)
  with 1 2 show ?thesis unfolding paper_wf_def by blast
qed

lemma distinct_end: "distinct (dict_keys d) \<Longrightarrow> dict_get d k = None \<Longrightarrow> distinct (dict_keys (d @ [(k, v)]))"
  by (auto simp: map_of_eq_None_iff)

lemma pretrade_amount:
  assumes "pretrade_check i spec snap e p q now = Inr rv"
  shows "dround (rv_amount rv) = rv_amount rv" "dadd q (rv_amount rv) \<le> re_max_portfolio_notional e"
  using assms by (auto simp: pretrade_check_def rbind_eq_Inr Let_def not_less)

lemma booked_new:
  assumes "hold_ok (new_hold run pool rv)" and "order_row_ok (new_paper_order run i rv)"
    and "dround (rv_amount rv) = rv_amount rv"
  shows "booked k (new_paper_order run i rv) ((new_hold run pool rv)\<lparr>res_order := Some k\<rparr>)"
  using assms by (simp add: booked_def new_hold_def new_paper_order_def hold_ok_def)

lemma paper_wf_placed:
  assumes wf: "paper_wf db" and "placed_order P run i pool k db db'"
  shows "paper_wf db'"
proof -
  obtain row rv where row: "dict_get (pd_runs db) run = Some row" and amount: "dround (rv_amount rv) = rv_amount rv"
    and ok: "hold_ok (new_hold run pool rv)" "order_row_ok (new_paper_order run i rv)"
    and new: "dict_get (pd_holds db) (rv_reservation_id rv) = None" "dict_get (pd_orders db) k = None"
    and db': "pd_runs db' = pd_runs db"
      "pd_holds db' = pd_holds db @ [(rv_reservation_id rv, (new_hold run pool rv)\<lparr>res_order := Some k\<rparr>)]"
      "pd_orders db' = pd_orders db @ [(k, new_paper_order run i rv)]"
    using assms(2) by (auto simp: placed_order_def dest: pretrade_amount(1))
  let ?x = "new_paper_order run i rv" and ?r = "(new_hold run pool rv)\<lparr>res_order := Some k\<rparr>"
  have orders: "dict_get (pd_orders db') j = (if j = k then Some ?x else dict_get (pd_orders db) j)" for j
    unfolding db' using new(2) by (rule dict_get_snoc)
  have holds: "dict_get (pd_holds db') j = (if j = rv_reservation_id rv then Some ?r else dict_get (pd_holds db) j)" for j
    unfolding db' using new(1) by (rule dict_get_snoc)
  have x: "ord_reservation ?x = rv_reservation_id rv" "ord_run ?x = run" by (simp_all add: new_paper_order_def)
  have 1: "ord_run y \<in> set (dict_keys (pd_runs db')) \<and> (\<exists>r. dict_get (pd_holds db') (ord_reservation y) = Some r \<and> booked j y r)"
    if y: "dict_get (pd_orders db') j = Some y" for j y
  proof (cases "j = k")
    case True
    with y have "y = ?x" by (simp add: orders)
    with True x booked_new [OF ok amount] dict_get_key [OF row] show ?thesis by (simp add: holds db'(1))
  next
    case False
    with y have y': "dict_get (pd_orders db) j = Some y" by (simp add: orders)
    obtain r where r: "dict_get (pd_holds db) (ord_reservation y) = Some r" "booked j y r"
      using paper_wf_hold [OF wf y'] by blast
    with new(1) have "ord_reservation y \<noteq> rv_reservation_id rv" by auto
    with r paper_wf_run [OF wf y'] show ?thesis by (simp add: holds db'(1))
  qed
  have 2: "\<exists>j y. dict_get (pd_orders db') j = Some y \<and> ord_reservation y = n \<and> res_order s = Some j"
    if s: "dict_get (pd_holds db') n = Some s" for n s
  proof (cases "n = rv_reservation_id rv")
    case True
    with s x show ?thesis by (intro exI [of _ k] exI [of _ ?x]) (auto simp: holds orders)
  next
    case False
    with s have "dict_get (pd_holds db) n = Some s" by (simp add: holds)
    from paper_wf_owner [OF wf this] obtain j y
      where y: "dict_get (pd_orders db) j = Some y" "ord_reservation y = n" "res_order s = Some j" by blast
    with new(2) have "j \<noteq> k" by auto
    with y show ?thesis by (intro exI [of _ j] exI [of _ y]) (simp add: orders)
  qed
  from wf new have "distinct (dict_keys (pd_holds db'))" "distinct (dict_keys (pd_orders db'))" "distinct (dict_keys (pd_runs db'))"
    unfolding db' by (auto simp: paper_wf_def intro!: distinct_end)
  with 1 2 show ?thesis unfolding paper_wf_def by blast
qed

lemma filled_record_Inr:
  assumes "filled_record x q = Inr rcd"
  shows "or_filled_quantity rcd = dadd (ord_filled x) q" "ord_state x \<notin> {FILLED, CANCELLED}"
    "or_state rcd = FILLED \<and> or_filled_quantity rcd = ord_quantity x \<or>
     or_state rcd = PARTIALLY_FILLED \<and> 0 < or_filled_quantity rcd \<and> or_filled_quantity rcd < ord_quantity x"
proof -
  let ?target = "if dadd (ord_filled x) q = ord_quantity x then FILLED else PARTIALLY_FILLED"
  have t: "order_transition (stored_record x) ?target None q = Inr rcd" using assms unfolding filled_record_def .
  have rcd: "rcd = (stored_record x)\<lparr>or_state := ?target, or_filled_quantity := dadd (ord_filled x) q,
      or_raw_venue_status := or_raw_venue_status rcd\<rparr>"
    using order_transition_Inr(6) [OF t] by (simp add: stored_record_def)
  have state: "or_state rcd = ?target" and filled: "or_filled_quantity rcd = dadd (ord_filled x) q"
    by (subst rcd, simp)+
  have "?target \<in> set (transitions (ord_state x))" using order_transition_Inr(1) [OF t] by (simp add: stored_record_def)
  then show "ord_state x \<notin> {FILLED, CANCELLED}" by (cases "ord_state x") simp_all
  show "or_filled_quantity rcd = dadd (ord_filled x) q" by (rule filled)
  have "?target = PARTIALLY_FILLED \<Longrightarrow> 0 < dadd (ord_filled x) q \<and> dadd (ord_filled x) q < ord_quantity x"
    using order_transition_Inr(5) [OF t] by (simp add: stored_record_def stored_intent_def)
  with state filled show "or_state rcd = FILLED \<and> or_filled_quantity rcd = ord_quantity x \<or>
     or_state rcd = PARTIALLY_FILLED \<and> 0 < or_filled_quantity rcd \<and> or_filled_quantity rcd < ord_quantity x"
    by (simp split: if_splits)
qed

lemma booked_filled:
  assumes b: "booked k x r" and f: "filled_record x q = Inr rcd"
    and d: "ddiv (or_filled_quantity rcd) (ord_quantity x) = Inr fraction"
    and h: "hold_ok (converted_hold r (dmul (res_original r) fraction))"
    and x': "order_row_ok (x\<lparr>ord_state := or_state rcd, ord_filled := or_filled_quantity rcd\<rparr>)"
  shows "booked k (x\<lparr>ord_state := or_state rcd, ord_filled := or_filled_quantity rcd\<rparr>)
    (converted_hold r (dmul (res_original r) fraction))"
proof -
  have fraction: "fraction = dround (or_filled_quantity rcd / ord_quantity x)" using d by (simp add: ddiv_def split: if_splits)
  have "ord_state x \<noteq> CANCELLED" using filled_record_Inr(2) [OF f] by simp
  with b have r: "res_order r = Some k" "res_run r = ord_run x" "dround (res_original r) = res_original r" "res_released r = 0"
    by (simp_all add: booked_def)
  from filled_record_Inr(3) [OF f] show ?thesis
    by (elim disjE conjE) (use r fraction h x' in \<open>simp_all add: booked_def, simp_all add: converted_hold_def\<close>)
qed

lemma paper_wf_filled:
  assumes wf: "paper_wf db" and "applied_fill order f currency started db db'"
  shows "paper_wf db'"
  using assms(2)
proof (rule applied_fillE)
  fix x rcd r fraction
  assume x: "dict_get (pd_orders db) order = Some x" "filled_record x (pf_quantity f) = Inr rcd"
      "dict_get (pd_holds db) (ord_reservation x) = Some r"
      "ddiv (or_filled_quantity rcd) (ord_quantity x) = Inr fraction"
      "hold_ok (converted_hold r (dmul (res_original r) fraction))"
      "order_row_ok (x\<lparr>ord_state := or_state rcd, ord_filled := or_filled_quantity rcd\<rparr>)"
    and db': "pd_runs db' = pd_runs db"
      "pd_holds db' = dict_set (ord_reservation x) (converted_hold r (dmul (res_original r) fraction)) (pd_holds db)"
      "pd_orders db' = dict_set order (x\<lparr>ord_state := or_state rcd, ord_filled := or_filled_quantity rcd\<rparr>) (pd_orders db)"
  have "booked order x r" by (rule paper_wf_booked [OF wf x(1,3)])
  from paper_wf_update [OF wf x(1,3) booked_filled [OF this x(2,4,5,6)] _ _ db'(2,3,1)] show "paper_wf db'" by simp
qed

lemma paper_wf_closed:
  assumes wf: "paper_wf db" and x: "dict_get (pd_orders db) k = Some x" and "closed_order k x db db'"
    and open_order: "ord_state x \<noteq> CANCELLED"
  shows "paper_wf db'"
proof -
  obtain r raw where r: "dict_get (pd_holds db) (ord_reservation x) = Some r" "hold_ok (released_hold r)"
    and db': "pd_holds db' = dict_set (ord_reservation x) (released_hold r) (pd_holds db)"
      "pd_orders db' = dict_set k (x\<lparr>ord_state := CANCELLED, ord_raw := raw\<rparr>) (pd_orders db)"
      "pd_runs db' = pd_runs db"
    using assms(3) unfolding closed_order_def by force
  have "booked k x r" by (rule paper_wf_booked [OF wf x r(1)])
  with r(2) have "booked k (x\<lparr>ord_state := CANCELLED, ord_raw := raw\<rparr>) (released_hold r)"
    by (auto simp: booked_def released_hold_def order_row_ok_def)
  from paper_wf_update [OF wf x r(1) this _ _ db'] show ?thesis by simp
qed

lemma paper_wf_unknown:
  assumes wf: "paper_wf db" and "unknown_order k db db'"
  shows "paper_wf db'"
proof -
  obtain x raw where x: "dict_get (pd_orders db) k = Some x" "UNKNOWN_RECONCILING \<in> set (transitions (ord_state x))"
    and holds: "pd_holds db' = (case dict_get (pd_holds db) (ord_reservation x) of
        None \<Rightarrow> pd_holds db
      | Some r \<Rightarrow> dict_set (ord_reservation x) (r\<lparr>res_state := Hold_Unreconciled\<rparr>) (pd_holds db))"
    and db': "pd_orders db' = dict_set k (x\<lparr>ord_state := UNKNOWN_RECONCILING, ord_raw := raw\<rparr>) (pd_orders db)"
      "pd_runs db' = pd_runs db"
    using assms(2) unfolding unknown_order_def by force
  obtain r where r: "dict_get (pd_holds db) (ord_reservation x) = Some r" "booked k x r"
    using paper_wf_hold [OF wf x(1)] by blast
  from x(2) r(2) have "booked k (x\<lparr>ord_state := UNKNOWN_RECONCILING, ord_raw := raw\<rparr>) (r\<lparr>res_state := Hold_Unreconciled\<rparr>)"
    by (auto simp: booked_def order_row_ok_def hold_ok_def)
  from paper_wf_update [OF wf x(1) r(1) this _ _ _ db'] holds r(1) show ?thesis by simp
qed

lemma latched_orders_fetched:
  assumes "distinct (dict_keys orders)"
  shows "distinct (map fst (latched_orders q orders))"
    and "(k, x) \<in> set (latched_orders q orders) \<Longrightarrow> dict_get orders k = Some x \<and> ord_state x \<in> set working_states"
  using assms by (auto simp: latched_orders_def distinct_map_filter)

lemma closed_order_orders: "closed_order k x db db' \<Longrightarrow>
  \<exists>x'. ord_state x' = CANCELLED \<and> pd_orders db' = dict_set k x' (pd_orders db)"
  unfolding closed_order_def by force

lemma fenced_run_runs: "fenced_run k row db db' \<Longrightarrow>
  \<exists>row'. run_status row' \<noteq> Run_Active \<and> pd_runs db' = dict_set k row' (pd_runs db)"
  unfolding fenced_run_def by force

text \<open>An invariant of the tables that closing working orders and fencing runs keep survives a fence.\<close>

lemma fence_invariant:
  assumes f: "fence P actor q env db = Inr db'" and I: "I db"
    and d: "distinct (dict_keys (pd_orders db))" "\<And>db. I db \<Longrightarrow> distinct (dict_keys (pd_runs db))"
    and close: "\<And>k x db db'. I db \<Longrightarrow> dict_get (pd_orders db) k = Some x \<Longrightarrow> ord_state x \<in> set working_states \<Longrightarrow>
      closed_order k x db db' \<Longrightarrow> I db'"
    and fence: "\<And>k row db db'. I db \<Longrightarrow> dict_get (pd_runs db) k = Some row \<Longrightarrow> fenced_run k row db db' \<Longrightarrow> I db'"
  shows "I db'"
proof -
  let ?orders = "latched_orders q (pd_orders db)"
  obtain db1 where 1: "rfold (cancel_for_safety_latch P actor (pe_id env) env) db (List.enumerate 1 ?orders) = Inr db1"
    and 2: "sq_scope q = Scope_Global \<Longrightarrow> rfold (fence_run P actor (pe_id env) env) db1
              (List.enumerate (length ?orders + 1) (active_runs db1)) = Inr db'"
      "sq_scope q \<noteq> Scope_Global \<Longrightarrow> db' = db1"
    using f by (auto simp: fence_def Let_def rbind_eq_Inr split: if_splits)
  have i1: "I db1"
  proof (rule fetched_loop [where I = I and tab = pd_orders, OF 1 _ I])
    show "distinct (map fst ?orders)" by (rule latched_orders_fetched(1) [OF d(1)])
    show "dict_get (pd_orders db) k = Some x" if "(k, x) \<in> set ?orders" for k x
      using latched_orders_fetched(2) [OF d(1) that] by blast
    show "I d' \<and> (\<exists>x'. pd_orders d' = dict_set k x' (pd_orders d))"
      if "(k, x) \<in> set ?orders" "dict_get (pd_orders d) k = Some x" "I d"
        "cancel_for_safety_latch P actor (pe_id env) env d (n, k, x) = Inr d'" for n k x d d'
      using close [OF that(3,2) _ cancel_for_safety_latch_effect [OF that(4)]] latched_orders_fetched(2) [OF d(1) that(1)]
        closed_order_orders [OF cancel_for_safety_latch_effect [OF that(4)]] by blast
  qed
  show ?thesis
  proof (cases "sq_scope q = Scope_Global")
    case False
    with 2 i1 show ?thesis by simp
  next
    case True
    show ?thesis
    proof (rule fetched_loop [where I = I and tab = pd_runs, OF 2(1) [OF True] _ i1])
      show "distinct (map fst (active_runs db1))" using d(2) [OF i1] by (simp add: active_runs_def distinct_map_filter)
      show "dict_get (pd_runs db1) k = Some row" if "(k, row) \<in> set (active_runs db1)" for k row
        using that d(2) [OF i1] by (simp add: active_runs_def)
      show "I d' \<and> (\<exists>x'. pd_runs d' = dict_set k x' (pd_runs d))"
        if "(k, row) \<in> set (active_runs db1)" "dict_get (pd_runs d) k = Some row" "I d"
          "fence_run P actor (pe_id env) env d (n, k, row) = Inr d'" for n k row d d'
        using fence [OF that(3,2) fence_run_effect [OF that(4)]] fenced_run_runs [OF fence_run_effect [OF that(4)]] by blast
    qed
  qed
qed

lemma paper_wf_runs: "paper_wf db \<Longrightarrow> distinct (dict_keys (pd_runs db))"
  by (simp add: paper_wf_def)

lemma paper_wf_fenced:
  assumes wf: "paper_wf db" and row: "dict_get (pd_runs db) k = Some row" and "fenced_run k row db db'"
  shows "paper_wf db'"
proof -
  have "pd_holds db' = pd_holds db" "pd_orders db' = pd_orders db"
      "pd_runs db' = dict_set k (row\<lparr>run_status := Run_Reconcile_Only\<rparr>) (pd_runs db)"
    using assms(3) unfolding fenced_run_def by force+
  with row show ?thesis by (intro paper_wf_frame [OF wf]) (simp_all add: dict_keys_overwrite paper_wf_runs [OF wf])
qed

lemma paper_wf_latch:
  assumes wf: "paper_wf db" and "emergency_latch P actor q key env db = Inr (k, db')"
  shows "paper_wf db'"
proof (cases "db' = db")
  case True
  with wf show ?thesis by simp
next
  case False
  with emergency_latch_effect [OF assms(2)] obtain db1
    where l: "latched q db db1" and f: "fence P actor q env db1 = Inr db'" by blast
  have "pd_holds db1 = pd_holds db" "pd_orders db1 = pd_orders db" "pd_runs db1 = pd_runs db"
    using l unfolding latched_def by force+
  then have wf1: "paper_wf db1" by (intro paper_wf_frame [OF wf]) (simp_all add: paper_wf_runs [OF wf])
  then have d: "distinct (dict_keys (pd_orders db1))" by (simp add: paper_wf_def)
  show ?thesis
  proof (rule fence_invariant [where I = paper_wf, OF f wf1 d paper_wf_runs])
    show "paper_wf d'" if "paper_wf d" "dict_get (pd_orders d) j = Some x" "ord_state x \<in> set working_states"
        "closed_order j x d d'" for j x d d'
      using that(3) by (intro paper_wf_closed [OF that(1,2,4)]) (auto simp: working_states_def)
    show "paper_wf d'" if "paper_wf d" "dict_get (pd_runs d) j = Some row" "fenced_run j row d d'" for j row d d'
      using that by (rule paper_wf_fenced)
  qed
qed

lemma paper_wf_status:
  assumes wf: "paper_wf db" and "set_status run s db db'"
  shows "paper_wf db'"
proof -
  obtain row where row: "dict_get (pd_runs db) run = Some row"
    and db': "pd_holds db' = pd_holds db" "pd_orders db' = pd_orders db"
      "pd_runs db' = dict_set run (row\<lparr>run_status := s\<rparr>) (pd_runs db)"
    using assms(2) unfolding set_status_def by force
  then show ?thesis by (intro paper_wf_frame [OF wf]) (simp_all add: dict_keys_overwrite paper_wf_runs [OF wf])
qed

lemma paper_wf_step: "paper_step P db db' \<Longrightarrow> paper_wf db \<Longrightarrow> paper_wf db'"
proof (induction rule: paper_step.induct)
  case (run actor spec key env db i db')
  from start_run_effect [OF run(1)] show ?case
  proof (elim disjE exE conjE)
    fix st row xs
    assume n: "dict_get (pd_runs db) i = None" and "db' = db\<lparr>pd_store := st, pd_runs := pd_runs db @ [(i, row)]\<rparr>"
    then show ?thesis
      by (intro paper_wf_frame [OF run(2)]) (use distinct_end [OF paper_wf_runs [OF run(2)] n] in auto)
  qed (use run in simp)
next
  case (reconcile actor run key m env db s db')
  then show ?case using reconcile_run_effect [OF reconcile(1)] paper_wf_status by blast
next
  case (restart actor run key env db s db')
  then show ?case using restart_run_effect [OF restart(1)] paper_wf_status by blast
next
  case (submit actor run i spec snap e pool env db k db')
  then show ?case using submit_effect [OF submit(1)] paper_wf_placed by blast
next
  case (fill actor order f currency env db k db')
  then show ?case using record_fill_effect [OF fill(1)] paper_wf_filled by blast
next
  case (unknown actor order reason key env db db')
  then show ?case using mark_unknown_effect [OF unknown(1)] paper_wf_unknown by blast
next
  case (cancel actor order key env db db')
  from cancel_effect [OF cancel(1)] show ?case
  proof (elim disjE exE conjE)
    fix x assume x: "dict_get (pd_orders db) order = Some x" "CANCEL_PENDING \<in> set (transitions (ord_state x))"
      and c: "closed_order order x db db'"
    from x(2) have "ord_state x \<noteq> CANCELLED" by auto
    from paper_wf_closed [OF cancel(2) x(1) c this] show ?thesis .
  qed (use cancel in simp)
next
  case (stop actor run q key env db k db')
  from stop_run_effect [OF stop(1)] show ?case
    unfolding stopped_run_def using stop(2) by (auto intro: paper_wf_frame [OF stop(2)] simp: paper_wf_runs)
next
  case (latch actor q key env db k db')
  then show ?case using paper_wf_latch by blast
next
  case (release actor l reason key env db db')
  from release_latch_effect [OF release(1)] show ?case
    unfolding released_latch_def using release(2) by (auto intro: paper_wf_frame [OF release(2)] simp: paper_wf_runs)
next
  case (store db st)
  show ?case by (rule paper_wf_frame [OF store(2)]) (simp_all add: paper_wf_runs [OF store(2)])
qed

lemma paper_wf_empty: "paper_wf empty_pdb"
  by (simp add: paper_wf_def empty_pdb_def)

lemma paper_wf_history: "(paper_step P)\<^sup>*\<^sup>* empty_pdb db \<Longrightarrow> paper_wf db"
  by (induction rule: rtranclp_induct) (rule paper_wf_empty, rule paper_wf_step)

section \<open>Invariants of the service\<close>

text \<open>What an invariant has to show: it holds of the empty database, and every operation on a
  well-formed database keeps it. Then it holds in every history.\<close>

locale paper_invariant =
  fixes P :: "'h paper_params" and inv :: "'h pdb \<Rightarrow> bool"
  assumes inv_empty: "inv empty_pdb"
    and inv_step: "paper_step P db db' \<Longrightarrow> paper_wf db \<Longrightarrow> inv db \<Longrightarrow> inv db'"
begin

lemma paper_always: "(paper_step P)\<^sup>*\<^sup>* empty_pdb db \<Longrightarrow> inv db"
proof (induction rule: rtranclp_induct)
  case (step db db')
  from inv_step [OF step(2) paper_wf_history [OF step(1)] step(3)] show ?case .
qed (rule inv_empty)

lemma paper_always_after:
  assumes "(paper_step P)\<^sup>*\<^sup>* empty_pdb db" and "(paper_step P)\<^sup>*\<^sup>* db db'"
  shows "inv db'"
  using assms by (intro paper_always) simp

end

end
