(* ===== verification/PaperSafety.thy ===== *)
theory PaperSafety
  imports PaperProps
begin

text \<open>
  What the paper service guarantees in every history: the fence behind an active safety
  latch, the exposure of a risk pool, the running cash balance, and the columns of the
  order and fill tables that are never changed. Each is an interpretation of
  \<open>paper_invariant\<close>.
\<close>

section \<open>The fence of a latch\<close>

definition latch_over :: "'h pdb \<Rightarrow> string \<Rightarrow> bool" where
  "latch_over db venue \<longleftrightarrow> (\<exists>(i, l) \<in> set (pd_latches db). latch_covers venue l)"

definition global_active :: "'h pdb \<Rightarrow> bool" where
  "global_active db \<longleftrightarrow> (\<exists>(i, l) \<in> set (pd_latches db). lt_active l \<and> lt_scope l = Scope_Global)"

definition quiet :: "'h pdb \<Rightarrow> bool" where
  "quiet db \<longleftrightarrow> (global_active db \<longrightarrow> (\<forall>(j, r) \<in> set (pd_runs db). run_status r \<noteq> Run_Active)) \<and>
     (\<forall>(k, x) \<in> set (pd_orders db). latch_over db (ord_venue x) \<and> \<not> ord_reduce_only x \<longrightarrow>
        ord_state x \<notin> {ACKNOWLEDGED, AMENDED, CANCEL_PENDING})"

lemma set_dict_set_subset: "set (dict_set k v d) \<subseteq> insert (k, v) (set d)"
  by (induction d) auto

lemma quiet_frame:
  assumes "quiet db" and "pd_latches db' = pd_latches db"
    and "\<And>j r. (j, r) \<in> set (pd_runs db') \<Longrightarrow> (j, r) \<in> set (pd_runs db) \<or> run_status r \<noteq> Run_Active"
    and "\<And>k x. (k, x) \<in> set (pd_orders db') \<Longrightarrow> (k, x) \<in> set (pd_orders db) \<or>
      ord_state x \<notin> {ACKNOWLEDGED, AMENDED, CANCEL_PENDING}"
  shows "quiet db'"
  using assms(1,3,4) unfolding quiet_def latch_over_def global_active_def assms(2) by fastforce

lemma quiet_order:
  assumes "quiet db" and "pd_latches db' = pd_latches db" and "pd_runs db' = pd_runs db"
    and "pd_orders db' = dict_set k x (pd_orders db)" and "ord_state x \<notin> {ACKNOWLEDGED, AMENDED, CANCEL_PENDING}"
  shows "quiet db'"
  by (rule quiet_frame [OF assms(1,2)]) (use set_dict_set_subset [of k x "pd_orders db"] assms(3-5) in auto)

lemma global_latch_None: "global_latch db = None \<longleftrightarrow> \<not> global_active db"
  by (auto simp: global_latch_def global_active_def find_None_iff)

lemma ensure_not_stopped_latch: "ensure_not_stopped db run i = Inr () \<Longrightarrow> \<not> latch_over db (oi_venue i)"
  by (auto simp: ensure_not_stopped_def latch_over_def list_ex_iff)

lemma fence_frame:
  assumes "fence P actor q env db = Inr db'" and "paper_wf db"
  shows "pd_latches db' = pd_latches db"
proof -
  let ?I = "\<lambda>d. paper_wf d \<and> pd_latches d = pd_latches db"
  have d: "distinct (dict_keys (pd_orders db))" using assms(2) by (simp add: paper_wf_def)
  have "?I db'"
  proof (rule fence_invariant [where I = ?I, OF assms(1) _ d])
    show "?I d'" if "?I d" "dict_get (pd_orders d) j = Some x" "ord_state x \<in> set working_states"
        "closed_order j x d d'" for j x d d'
    proof -
      have "pd_latches d' = pd_latches d" using that(4) unfolding closed_order_def by force
      with that(1,3) show ?thesis
        by (auto intro!: paper_wf_closed [OF _ that(2,4)] simp: working_states_def)
    qed
    show "?I d'" if "?I d" "dict_get (pd_runs d) j = Some row" "fenced_run j row d d'" for j row d d'
    proof -
      have "pd_latches d' = pd_latches d" using that(3) unfolding fenced_run_def by force
      with that(1) show ?thesis by (auto intro: paper_wf_fenced [OF _ that(2,3)])
    qed
  qed (use assms(2) in \<open>auto simp: paper_wf_runs\<close>)
  then show ?thesis by simp
qed

text \<open>After a fence no order it covers works, and after a global one no run is active.\<close>

lemma closed_order_runs: "closed_order k x db db' \<Longrightarrow> pd_runs db' = pd_runs db"
  unfolding closed_order_def by force

lemma fenced_run_orders: "fenced_run k x db db' \<Longrightarrow> pd_orders db' = pd_orders db"
  unfolding fenced_run_def by force

lemma rfold_frame:
  assumes "rfold f db xs = Inr db'" and "\<And>x db db'. x \<in> set xs \<Longrightarrow> f db x = Inr db' \<Longrightarrow> g db' = g db"
  shows "g db' = g db"
  using rfold_invariant [of f db xs db' "\<lambda>d. g d = g db"] assms by simp

lemma fence_cleared:
  assumes f: "fence P actor q env db = Inr db'" and wf: "paper_wf db"
  shows "(k, y) \<in> set (pd_orders db') \<Longrightarrow>
      ord_state y = CANCELLED \<or> (k, y) \<in> set (pd_orders db) \<and> (k, y) \<notin> set (latched_orders q (pd_orders db))"
    and "(j, r) \<in> set (pd_runs db') \<Longrightarrow> run_status r \<noteq> Run_Active \<or> sq_scope q \<noteq> Scope_Global \<and> (j, r) \<in> set (pd_runs db)"
proof -
  let ?orders = "latched_orders q (pd_orders db)"
  obtain db1 where 1: "rfold (cancel_for_safety_latch P actor (pe_id env) env) db (List.enumerate 1 ?orders) = Inr db1"
    and 2: "if sq_scope q = Scope_Global then rfold (fence_run P actor (pe_id env) env) db1
              (List.enumerate (length ?orders + 1) (active_runs db1)) = Inr db' else db' = db1"
    using f by (auto simp: fence_def Let_def rbind_eq_Inr split: if_splits)
  have runs: "pd_runs db1 = pd_runs db"
    by (rule rfold_frame [where g = pd_runs, OF 1])
      (auto dest!: cancel_for_safety_latch_effect closed_order_runs)
  have orders: "pd_orders db' = pd_orders db1"
  proof (cases "sq_scope q = Scope_Global")
    case True
    with 2 have 2: "rfold (fence_run P actor (pe_id env) env) db1
              (List.enumerate (length ?orders + 1) (active_runs db1)) = Inr db'" by simp
    show ?thesis
      by (rule rfold_frame [where g = pd_orders, OF 2]) (auto dest!: fence_run_effect fenced_run_orders)
  qed (use 2 in simp)
  have d: "distinct (dict_keys (pd_orders db))" "distinct (dict_keys (pd_runs db1))"
    using wf by (simp_all add: paper_wf_def runs)
  show "ord_state y = CANCELLED \<or> (k, y) \<in> set (pd_orders db) \<and> (k, y) \<notin> set ?orders"
    if "(k, y) \<in> set (pd_orders db')"
  proof -
    have "ord_state y = CANCELLED \<or> (k, y) \<in> set (pd_orders db) \<and> k \<notin> set (map fst ?orders)"
    proof (rule fetched_loop_rows [where tab = pd_orders and C = "\<lambda>y. ord_state y = CANCELLED", OF 1 d(1)])
      show "\<exists>x'. ord_state x' = CANCELLED \<and> pd_orders d' = dict_set i x' (pd_orders d)"
        if "cancel_for_safety_latch P actor (pe_id env) env d (n, i, x) = Inr d'" for n i x d d'
        using closed_order_orders [OF cancel_for_safety_latch_effect [OF that]] .
    qed (use that orders in simp)
    then show ?thesis by force
  qed
  show "run_status r \<noteq> Run_Active \<or> sq_scope q \<noteq> Scope_Global \<and> (j, r) \<in> set (pd_runs db)"
    if r: "(j, r) \<in> set (pd_runs db')"
  proof (cases "sq_scope q = Scope_Global")
    case False
    with 2 r runs show ?thesis by simp
  next
    case True
    with 2 have 2: "rfold (fence_run P actor (pe_id env) env) db1
              (List.enumerate (length ?orders + 1) (active_runs db1)) = Inr db'" by simp
    have "run_status r \<noteq> Run_Active \<or> (j, r) \<in> set (pd_runs db1) \<and> j \<notin> set (map fst (active_runs db1))"
    proof (rule fetched_loop_rows [where tab = pd_runs and C = "\<lambda>r. run_status r \<noteq> Run_Active", OF 2 d(2)])
      show "\<exists>x'. run_status x' \<noteq> Run_Active \<and> pd_runs d' = dict_set i x' (pd_runs d)"
        if "fence_run P actor (pe_id env) env d (n, i, x) = Inr d'" for n i x d d'
        using fenced_run_runs [OF fence_run_effect [OF that]] .
    qed (use r in simp)
    then show ?thesis by (force simp: active_runs_def)
  qed
qed

lemma quiet_latched:
  assumes q: "quiet db" and wf: "paper_wf db" and "emergency_latch P actor q key env db = Inr (k, db')"
  shows "quiet db'"
proof (cases "db' = db")
  case False
  with emergency_latch_effect [OF assms(3)] obtain db1
    where scope: "sq_scope q = Scope_Global \<or> sq_scope q = Scope_Venue"
      and l: "latched q db db1" and f: "fence P actor q env db1 = Inr db'" by blast
  obtain i l where db1: "pd_holds db1 = pd_holds db" "pd_orders db1 = pd_orders db" "pd_runs db1 = pd_runs db"
      "pd_latches db1 = pd_latches db @ [(i, l)]" and l: "lt_scope l = sq_scope q" "lt_scope_id l = sq_scope_id q"
    using l unfolding latched_def by force
  have wf1: "paper_wf db1" by (rule paper_wf_frame [OF wf db1(1,2)]) (simp_all add: db1 paper_wf_runs [OF wf])
  have latches: "pd_latches db' = pd_latches db @ [(i, l)]" using fence_frame [OF f wf1] db1 by simp
  have runs: "run_status r \<noteq> Run_Active" if "global_active db'" "(j, r) \<in> set (pd_runs db')" for j r
    using fence_cleared(2) [OF f wf1 that(2)] that(1) q db1 l latches
    by (auto simp: quiet_def global_active_def)
  have orders: "ord_state y \<notin> {ACKNOWLEDGED, AMENDED, CANCEL_PENDING}"
    if y: "(j, y) \<in> set (pd_orders db')" "latch_over db' (ord_venue y)" "\<not> ord_reduce_only y" for j y
  proof (cases "ord_state y = CANCELLED")
    case False
    with fence_cleared(1) [OF f wf1 y(1)] db1
    have old: "(j, y) \<in> set (pd_orders db)" and other: "(j, y) \<notin> set (latched_orders q (pd_orders db))" by simp_all
    show ?thesis
    proof (cases "latch_covers (ord_venue y) l")
      case True
      with l scope have "sq_scope q = Scope_Global \<or> Some (ord_venue y) = sq_scope_id q" by (auto simp: latch_covers_def)
      with old other y(3) show ?thesis by (auto simp: latched_orders_def working_states_def)
    next
      case False
      with y(2) have "latch_over db (ord_venue y)" by (auto simp: latch_over_def latches)
      with q old y(3) show ?thesis by (auto simp: quiet_def)
    qed
  qed simp
  from runs orders show ?thesis by (auto simp: quiet_def)
qed (use q in simp)

lemma quiet_step: "paper_step P db db' \<Longrightarrow> paper_wf db \<Longrightarrow> quiet db \<Longrightarrow> quiet db'"
proof (induction rule: paper_step.induct)
  case (run actor spec key env db i db')
  from start_run_effect [OF run(1)] run(3) show ?case by (auto intro: quiet_frame)
next
  case (reconcile actor run key m env db s db')
  from reconcile_run_effect [OF reconcile(1)] show ?case
  proof
    assume "set_status run (reconciled_status m db run) db db'"
    then obtain row where d: "pd_latches db' = pd_latches db" "pd_orders db' = pd_orders db"
        "pd_runs db' = dict_set run (row\<lparr>run_status := reconciled_status m db run\<rparr>) (pd_runs db)"
      unfolding set_status_def by force
    show ?thesis
    proof (cases "global_active db")
      case True
      then have "reconciled_status m db run = Run_Reconcile_Only"
        by (simp add: reconciled_status_def global_latch_None)
      with set_dict_set_subset [of run _ "pd_runs db"] d show ?thesis
        by (intro quiet_frame [OF reconcile(3)]) fastforce+
    next
      case False
      then have "\<not> global_active db'" by (simp add: global_active_def d)
      with reconcile(3) show ?thesis by (simp add: quiet_def latch_over_def d)
    qed
  qed (use reconcile in simp)
next
  case (restart actor run key env db s db')
  from restart_run_effect [OF restart(1)] show ?case
  proof
    assume "set_status run Run_Reconcile_Only db db'"
    then obtain row where d: "pd_latches db' = pd_latches db" "pd_orders db' = pd_orders db"
        "pd_runs db' = dict_set run (row\<lparr>run_status := Run_Reconcile_Only\<rparr>) (pd_runs db)"
      unfolding set_status_def by force
    with set_dict_set_subset [of run _ "pd_runs db"] show ?thesis by (intro quiet_frame [OF restart(3)]) fastforce+
  qed (use restart in simp)
next
  case (submit actor run i spec snap e pool env db k db')
  from submit_effect [OF submit(1)] show ?case
  proof
    assume p: "placed_order P run i pool k db db'"
    then obtain rv where d: "pd_latches db' = pd_latches db" "pd_runs db' = pd_runs db"
        "pd_orders db' = pd_orders db @ [(k, new_paper_order run i rv)]" and n: "ensure_not_stopped db run i = Inr ()"
      unfolding placed_order_def by force
    have "\<not> latch_over db (ord_venue (new_paper_order run i rv))"
      using ensure_not_stopped_latch [OF n] by (simp add: new_paper_order_def)
    with submit(3) show ?thesis by (auto simp: quiet_def latch_over_def global_active_def d)
  qed (use submit in simp)
next
  case (fill actor order f currency env db k db')
  from record_fill_effect [OF fill(1)] show ?case
  proof
    assume "applied_fill order f currency (pe_started env) db db'"
    then obtain x rcd where d: "pd_latches db' = pd_latches db" "pd_runs db' = pd_runs db"
        "pd_orders db' = dict_set order (x\<lparr>ord_state := or_state rcd, ord_filled := or_filled_quantity rcd\<rparr>) (pd_orders db)"
      and s: "filled_record x (pf_quantity f) = Inr rcd"
      unfolding applied_fill_def by force
    from filled_record_Inr(3) [OF s] show ?thesis by (intro quiet_order [OF fill(3) d]) auto
  qed (use fill in simp)
next
  case (unknown actor order reason key env db db')
  from mark_unknown_effect [OF unknown(1)] show ?case
  proof
    assume "unknown_order order db db'"
    then obtain x where d: "pd_latches db' = pd_latches db" "pd_runs db' = pd_runs db"
        "pd_orders db' = dict_set order x (pd_orders db)" and s: "ord_state x = UNKNOWN_RECONCILING"
      unfolding unknown_order_def by force
    from s show ?thesis by (intro quiet_order [OF unknown(3) d]) simp
  qed (use unknown in simp)
next
  case (cancel actor order key env db db')
  from cancel_effect [OF cancel(1)] show ?case
  proof (elim disjE exE conjE)
    fix x assume c: "closed_order order x db db'"
    then have d: "pd_latches db' = pd_latches db" unfolding closed_order_def by force
    from closed_order_orders [OF c] obtain x' where x': "pd_orders db' = dict_set order x' (pd_orders db)" "ord_state x' = CANCELLED"
      by blast
    show ?thesis by (rule quiet_order [OF cancel(3) d closed_order_runs [OF c] x'(1)]) (simp add: x'(2))
  qed (use cancel in simp)
next
  case (stop actor run q key env db k db')
  from stop_run_effect [OF stop(1)] stop(3) show ?case unfolding stopped_run_def by (auto intro: quiet_frame)
next
  case (latch actor q key env db k db')
  then show ?case using quiet_latched by blast
next
  case (release actor l reason key env db db')
  from release_latch_effect [OF release(1)] show ?case
  proof (elim disjE conjE)
    assume "released_latch l db db'"
    then obtain row where d: "pd_runs db' = pd_runs db" "pd_orders db' = pd_orders db"
        "pd_latches db' = dict_set l (row\<lparr>lt_active := False\<rparr>) (pd_latches db)"
      unfolding released_latch_def by force
    have "set (pd_latches db') \<subseteq> insert (l, row\<lparr>lt_active := False\<rparr>) (set (pd_latches db))"
      unfolding d by (rule set_dict_set_subset)
    then have "latch_over db' v \<Longrightarrow> latch_over db v" "global_active db' \<Longrightarrow> global_active db" for v
      by (fastforce simp: latch_over_def global_active_def latch_covers_def)+
    with release(3) show ?thesis unfolding quiet_def d by blast
  qed (use release in simp)
next
  case (store db st)
  then show ?case by (auto intro: quiet_frame)
qed

interpretation latch_fence: paper_invariant P quiet for P
  by unfold_locales (simp add: quiet_def empty_pdb_def, rule quiet_step)

lemmas quiet_history = latch_fence.paper_always

section \<open>The exposure of a pool\<close>

text \<open>A reservation's share of a pool; a reservation elsewhere or released counts as zero.\<close>

definition pool_share :: "string \<Rightarrow> string \<Rightarrow> hold_row \<Rightarrow> rat" where
  "pool_share run pool r =
     (if res_run r = run \<and> res_pool r = pool \<and> res_state r \<noteq> Hold_Released then live_amount r else 0)"

lemma foldl_skip_zero:
  "dround a = a \<Longrightarrow> foldl dadd a (map f (List.filter p xs)) = foldl dadd a (map (\<lambda>x. if p x then f x else 0) xs)"
  by (induction xs arbitrary: a) simp_all

lemma pool_exposure_shares:
  "pool_exposure db run pool = Decimals.dsum (map (pool_share run pool) (map snd (pd_holds db)))"
proof -
  have p: "(\<lambda>r. res_run r = run \<and> res_pool r = pool \<and> res_state r \<in> {Hold_Held, Hold_Converted, Hold_Unreconciled})
      = (\<lambda>r. res_run r = run \<and> res_pool r = pool \<and> res_state r \<noteq> Hold_Released)"
  proof
    fix r show "(res_run r = run \<and> res_pool r = pool \<and> res_state r \<in> {Hold_Held, Hold_Converted, Hold_Unreconciled})
        = (res_run r = run \<and> res_pool r = pool \<and> res_state r \<noteq> Hold_Released)" by (cases "res_state r") auto
  qed
  show ?thesis
    unfolding pool_exposure_def pool_rows_def Decimals.dsum_def p
    by (subst foldl_skip_zero) (simp_all add: pool_share_def [abs_def])
qed

lemma dround_dsum: "dround (Decimals.dsum xs) = Decimals.dsum xs"
  by (cases xs rule: rev_cases) (simp_all add: Decimals.dsum_def)

lemma foldl_dadd_mono:
  "list_all2 (\<le>) xs ys \<Longrightarrow> a \<le> b \<Longrightarrow> foldl dadd a xs \<le> foldl dadd b ys"
proof (induction xs ys arbitrary: a b rule: list_all2_induct)
  case (Cons x xs y ys)
  from Cons.hyps(1) Cons.prems have "dadd a x \<le> dadd b y" unfolding dadd_def by (intro dround_mono) simp
  then show ?case by (simp add: Cons.IH)
qed simp

lemma list_all2_overwrite:
  "dict_get d k = Some r \<Longrightarrow> f r' \<le> f r \<Longrightarrow>
   list_all2 (\<le>) (map f (map snd (dict_set k r' d))) (map (f :: _ \<Rightarrow> rat) (map snd d))"
  by (induction d) (auto simp: list_all2_map1 list_all2_map2 list.rel_refl_strong split: if_splits)

lemma pool_exposure_overwrite:
  assumes "dict_get (pd_holds db) k = Some r" and "pd_holds db' = dict_set k r' (pd_holds db)"
    and "pool_share run pool r' \<le> pool_share run pool r"
  shows "pool_exposure db' run pool \<le> pool_exposure db run pool"
  unfolding pool_exposure_shares Decimals.dsum_def assms(2)
  by (rule foldl_dadd_mono [OF list_all2_overwrite [OF assms(1,3)]]) simp

lemma pool_share_nonneg: "hold_ok r \<Longrightarrow> 0 \<le> pool_share run pool r"
  by (simp add: pool_share_def live_amount_def hold_ok_def dadd_nonneg)

lemma pool_share_converted:
  assumes "hold_ok r" and "hold_ok (converted_hold r amount)" and "res_state r \<noteq> Hold_Released"
  shows "pool_share run pool (converted_hold r amount) = pool_share run pool r"
proof -
  have "res_working (converted_hold r amount) + res_position (converted_hold r amount) = res_working r + res_position r"
    using assms(1,2) by (simp add: hold_ok_def converted_hold_def)
  then have "live_amount (converted_hold r amount) = live_amount r" by (simp add: live_amount_def dadd_def)
  moreover have "res_run (converted_hold r amount) = res_run r" "res_pool (converted_hold r amount) = res_pool r"
      "res_state (converted_hold r amount) \<noteq> Hold_Released"
    by (simp_all add: converted_hold_def)
  ultimately show ?thesis using assms(3) by (simp add: pool_share_def)
qed

lemma pool_share_released:
  assumes "hold_ok r" and "res_state r \<noteq> Hold_Released"
  shows "pool_share run pool (released_hold r) \<le> pool_share run pool r"
proof (cases "0 < res_position r")
  case True
  have "dadd 0 (res_position r) \<le> dadd (res_working r) (res_position r)"
    unfolding dadd_def using assms(1) by (intro dround_mono) (simp add: hold_ok_def)
  with True assms(2) show ?thesis by (simp add: pool_share_def released_hold_def live_amount_def)
next
  case False
  then have "pool_share run pool (released_hold r) = 0" by (simp add: pool_share_def released_hold_def)
  with pool_share_nonneg [OF assms(1)] show ?thesis by simp
qed

lemma pool_share_unknown:
  assumes "res_state r \<noteq> Hold_Released"
  shows "pool_share run pool (r\<lparr>res_state := Hold_Unreconciled\<rparr>) = pool_share run pool r"
  using assms by (simp add: pool_share_def live_amount_def)

text \<open>Every step but an accepted order leaves a pool's exposure as it is or lowers it.\<close>

lemma exposure_closed:
  assumes wf: "paper_wf db" and x: "dict_get (pd_orders db) k = Some x" and s: "ord_state x \<noteq> CANCELLED"
    and "closed_order k x db db'"
  shows "pool_exposure db' run pool \<le> pool_exposure db run pool"
proof -
  obtain r where r: "dict_get (pd_holds db) (ord_reservation x) = Some r"
    and db': "pd_holds db' = dict_set (ord_reservation x) (released_hold r) (pd_holds db)"
    using assms(4) unfolding closed_order_def by force
  have "booked k x r" by (rule paper_wf_booked [OF wf x r])
  with s have "hold_ok r" "res_state r \<noteq> Hold_Released" by (simp_all add: booked_def)
  from pool_exposure_overwrite [OF r db' pool_share_released [OF this]] show ?thesis .
qed

lemma exposure_filled:
  assumes wf: "paper_wf db" and "applied_fill order f currency started db db'"
  shows "pool_exposure db' run pool \<le> pool_exposure db run pool"
proof -
  obtain x rcd r amount where x: "dict_get (pd_orders db) order = Some x" "filled_record x (pf_quantity f) = Inr rcd"
      and r: "dict_get (pd_holds db) (ord_reservation x) = Some r" "hold_ok (converted_hold r amount)"
      and db': "pd_holds db' = dict_set (ord_reservation x) (converted_hold r amount) (pd_holds db)"
    using assms(2) unfolding applied_fill_def by force
  have "booked order x r" by (rule paper_wf_booked [OF wf x(1) r(1)])
  with filled_record_Inr(2) [OF x(2)] have "hold_ok r" "res_state r \<noteq> Hold_Released" by (simp_all add: booked_def)
  then show ?thesis using pool_share_converted [OF _ r(2)]
    by (intro pool_exposure_overwrite [OF r(1) db']) simp
qed

lemma exposure_unknown:
  assumes wf: "paper_wf db" and "unknown_order k db db'"
  shows "pool_exposure db' run pool \<le> pool_exposure db run pool"
proof -
  obtain x where x: "dict_get (pd_orders db) k = Some x" "UNKNOWN_RECONCILING \<in> set (transitions (ord_state x))"
    and holds: "pd_holds db' = (case dict_get (pd_holds db) (ord_reservation x) of
        None \<Rightarrow> pd_holds db
      | Some r \<Rightarrow> dict_set (ord_reservation x) (r\<lparr>res_state := Hold_Unreconciled\<rparr>) (pd_holds db))"
    using assms(2) unfolding unknown_order_def by force
  obtain r where r: "dict_get (pd_holds db) (ord_reservation x) = Some r" "booked k x r"
    using paper_wf_hold [OF wf x(1)] by blast
  have "ord_state x \<noteq> CANCELLED" using x(2) by auto
  with r(2) have "res_state r \<noteq> Hold_Released" by (simp add: booked_def)
  with holds r(1) show ?thesis
    by (intro pool_exposure_overwrite [OF r(1), where r' = "r\<lparr>res_state := Hold_Unreconciled\<rparr>"])
      (simp_all add: pool_share_unknown)
qed

lemma exposure_fence:
  assumes f: "fence P actor q env db = Inr db'" and wf: "paper_wf db"
  shows "pool_exposure db' run pool \<le> pool_exposure db run pool"
proof -
  let ?I = "\<lambda>d. paper_wf d \<and> pool_exposure d run pool \<le> pool_exposure db run pool"
  have d: "distinct (dict_keys (pd_orders db))" using wf by (simp add: paper_wf_def)
  have "?I db'"
  proof (rule fence_invariant [where I = ?I, OF f _ d])
    show "?I d'" if i: "?I d" and x: "dict_get (pd_orders d) j = Some x" "ord_state x \<in> set working_states"
        "closed_order j x d d'" for j x d d'
    proof -
      have "ord_state x \<noteq> CANCELLED" using x(2) by (auto simp: working_states_def)
      with i x paper_wf_closed [of d j x d'] exposure_closed [of d j x d' run pool] show ?thesis by auto
    qed
    show "?I d'" if i: "?I d" and "dict_get (pd_runs d) j = Some row" "fenced_run j row d d'" for j row d d'
    proof -
      have "pd_holds d' = pd_holds d" using that(3) unfolding fenced_run_def by force
      with i paper_wf_fenced [OF _ that(2,3)] show ?thesis by (simp add: pool_exposure_shares)
    qed
  qed (use wf in \<open>auto simp: paper_wf_runs\<close>)
  then show ?thesis by simp
qed

text \<open>The limit of a run is the one of the envelope pinned when it was started.\<close>

definition pinned_envelope :: "'h paper_params \<Rightarrow> 'h pdb \<Rightarrow> string \<Rightarrow> risk_envelope \<Rightarrow> bool" where
  "pinned_envelope P db run e \<longleftrightarrow> (\<exists>row. dict_get (pd_runs db) run = Some row \<and>
     artifact_content db (run_risk_artifact row) = Some (pk_risk_json P e))"

definition within_limits :: "'h paper_params \<Rightarrow> 'h pdb \<Rightarrow> bool" where
  "within_limits P db \<longleftrightarrow>
     (\<forall>run row. dict_get (pd_runs db) run = Some row \<longrightarrow>
        run_risk_artifact row \<in> art_id ` set (st_artifacts (pd_store db))) \<and>
     (\<forall>run e pool. pinned_envelope P db run e \<and> mk_risk_envelope e = Inr e \<longrightarrow>
        pool_exposure db run pool \<le> re_max_portfolio_notional e)"

lemma artifact_content_append:
  assumes "st_artifacts (pd_store db') = st_artifacts (pd_store db) @ xs" and "i \<in> art_id ` set (st_artifacts (pd_store db))"
  shows "artifact_content db' i = artifact_content db i"
proof -
  obtain a where "List.find (\<lambda>a. art_id a = i) (st_artifacts (pd_store db)) = Some a"
    using assms(2) by (cases "List.find (\<lambda>a. art_id a = i) (st_artifacts (pd_store db))") (auto simp: find_None_iff)
  with find_append_Some [OF this] show ?thesis by (simp add: artifact_content_def assms(1))
qed

text \<open>Steps that keep each run's envelope and raise no exposure.\<close>

lemma within_limits_keep:
  assumes w: "within_limits P db" and xs: "st_artifacts (pd_store db') = st_artifacts (pd_store db) @ xs"
    and runs: "\<And>run row'. dict_get (pd_runs db') run = Some row' \<Longrightarrow>
      \<exists>row. dict_get (pd_runs db) run = Some row \<and> run_risk_artifact row = run_risk_artifact row'"
    and less: "\<And>run pool. pool_exposure db' run pool \<le> pool_exposure db run pool"
  shows "within_limits P db'"
proof -
  have known: "run_risk_artifact row' \<in> art_id ` set (st_artifacts (pd_store db)) \<and> (\<exists>row. dict_get (pd_runs db) run = Some row \<and>
      run_risk_artifact row = run_risk_artifact row')" if "dict_get (pd_runs db') run = Some row'" for run row'
    using runs [OF that] w unfolding within_limits_def by metis
  have "pinned_envelope P db run e" if "pinned_envelope P db' run e" for run e
  proof -
    from that obtain row' where row': "dict_get (pd_runs db') run = Some row'"
        "artifact_content db' (run_risk_artifact row') = Some (pk_risk_json P e)"
      unfolding pinned_envelope_def by blast
    from known [OF row'(1)] row'(2) artifact_content_append [OF xs] show ?thesis
      unfolding pinned_envelope_def by fastforce
  qed
  then have "pool_exposure db' run pool \<le> re_max_portfolio_notional e"
    if "pinned_envelope P db' run e" "mk_risk_envelope e = Inr e" for run e pool
    using that w order_trans [OF less] unfolding within_limits_def by blast
  moreover have "run_risk_artifact row \<in> art_id ` set (st_artifacts (pd_store db'))"
    if "dict_get (pd_runs db') run = Some row" for run row
    using known [OF that] by (auto simp: xs)
  ultimately show ?thesis unfolding within_limits_def by blast
qed

lemma within_limits_frame:
  assumes "within_limits P db" and "st_artifacts (pd_store db') = st_artifacts (pd_store db) @ xs"
    and "pd_runs db' = pd_runs db" and "\<And>run pool. pool_exposure db' run pool \<le> pool_exposure db run pool"
  shows "within_limits P db'"
  by (rule within_limits_keep [OF assms(1,2) _ assms(4)]) (simp add: assms(3))

lemma within_limits_run:
  assumes "within_limits P db" and "st_artifacts (pd_store db') = st_artifacts (pd_store db)"
    and "dict_get (pd_runs db) run = Some row" and "pd_runs db' = dict_set run (row\<lparr>run_status := s\<rparr>) (pd_runs db)"
    and "pd_holds db' = pd_holds db"
  shows "within_limits P db'"
proof (rule within_limits_keep [OF assms(1), where xs = "[]"])
  show "\<exists>old. dict_get (pd_runs db) j = Some old \<and> run_risk_artifact old = run_risk_artifact row'"
    if "dict_get (pd_runs db') j = Some row'" for j row'
    using that assms(3) by (auto simp: assms(4) dict_get_set split: if_splits)
qed (simp_all add: assms(2,5) pool_exposure_shares)

lemma within_limits_status:
  assumes "within_limits P db" and "set_status run s db db'"
  shows "within_limits P db'"
proof -
  obtain row where "st_artifacts (pd_store db') = st_artifacts (pd_store db)" "dict_get (pd_runs db) run = Some row"
      "pd_runs db' = dict_set run (row\<lparr>run_status := s\<rparr>) (pd_runs db)" "pd_holds db' = pd_holds db"
    using assms(2) unfolding set_status_def by force
  from within_limits_run [OF assms(1) this] show ?thesis .
qed

lemma pool_exposure_unused:
  assumes "paper_wf db" and "run \<notin> set (dict_keys (pd_runs db))"
  shows "pool_exposure db run pool = 0"
proof -
  have "res_run r \<noteq> run" if "(i, r) \<in> set (pd_holds db)" for i r
  proof -
    have g: "dict_get (pd_holds db) i = Some r" using that assms(1) by (simp add: paper_wf_def)
    from paper_wf_owner [OF assms(1) g] obtain k x
      where x: "dict_get (pd_orders db) k = Some x" "ord_reservation x = i" by blast
    with paper_wf_booked [OF assms(1) x(1)] g have "res_run r = ord_run x" by (simp add: booked_def)
    with paper_wf_run [OF assms(1) x(1)] assms(2) show ?thesis by auto
  qed
  then have "pool_rows db run pool = []" by (force simp: pool_rows_def filter_empty_conv)
  then show ?thesis by (simp add: pool_exposure_def Decimals.dsum_def)
qed

lemma within_limits_placed:
  assumes w: "within_limits P db" and wf: "paper_wf db" and inj: "inj (pk_risk_json P)"
    and "placed_order P run i pool k db db'"
  shows "within_limits P db'"
proof -
  obtain row envelope spec snap now rv where row: "dict_get (pd_runs db) run = Some row"
    and pinned: "artifact_content db (run_risk_artifact row) = Some (pk_risk_json P envelope)"
    and check: "pretrade_check i spec snap envelope (position_of db run (oi_venue i) (oi_instrument_id i))
       (pool_exposure db run pool) now = Inr rv"
    and arts: "st_artifacts (pd_store db') = st_artifacts (pd_store db)" and runs: "pd_runs db' = pd_runs db"
    and holds: "pd_holds db' = pd_holds db @ [(rv_reservation_id rv, (new_hold run pool rv)\<lparr>res_order := Some k\<rparr>)]"
    using assms(4) unfolding placed_order_def by force
  note amount = pretrade_amount [OF check]
  have new: "pool_exposure db' j p = (if j = run \<and> p = pool then dadd (pool_exposure db run pool) (rv_amount rv)
      else pool_exposure db j p)" for j p
  proof -
    have "pool_share j p ((new_hold run pool rv)\<lparr>res_order := Some k\<rparr>) = (if j = run \<and> p = pool then rv_amount rv else 0)"
      using amount(1) by (auto simp: pool_share_def new_hold_def live_amount_def)
    moreover have "dround (pool_exposure db j p) = pool_exposure db j p"
      by (simp add: pool_exposure_def dround_dsum)
    ultimately show ?thesis by (simp add: pool_exposure_shares holds Decimals.dsum_def)
  qed
  have env: "e = envelope" if "pinned_envelope P db' run e" for e
  proof -
    have "artifact_content db' (run_risk_artifact row) = Some (pk_risk_json P e)"
      using that row unfolding pinned_envelope_def runs by simp
    moreover have "artifact_content db' = artifact_content db" by (simp add: artifact_content_def [abs_def] arts)
    ultimately show ?thesis using pinned inj by (simp add: inj_eq)
  qed
  have "pinned_envelope P db' = pinned_envelope P db"
    by (simp add: fun_eq_iff pinned_envelope_def runs artifact_content_def arts)
  then show ?thesis using w amount(2) env unfolding within_limits_def runs arts new by fastforce
qed

lemma within_limits_step:
  assumes "paper_step P db db'" and inj: "inj (pk_risk_json P)"
  shows "paper_wf db \<Longrightarrow> within_limits P db \<Longrightarrow> within_limits P db'"
  using assms(1)
proof (induction rule: paper_step.induct)
  case (run actor spec key env db i db')
  note wf = run(2) and w = run(3)
  show ?case
  proof (cases "db' = db")
    case False
    with start_run_effect [OF run(1)] obtain st row xs where n: "dict_get (pd_runs db) i = None"
      and st: "st_artifacts st = st_artifacts (pd_store db) @ xs" "run_risk_artifact row \<in> art_id ` set (st_artifacts st)"
      and db': "db' = db\<lparr>pd_store := st, pd_runs := pd_runs db @ [(i, row)]\<rparr>" by blast
    have runs: "pd_runs db' = pd_runs db @ [(i, row)]" by (simp add: db')
    have get: "dict_get (pd_runs db') j = (if j = i then Some row else dict_get (pd_runs db) j)" for j
      unfolding runs using n by (rule dict_get_snoc)
    have arts: "st_artifacts (pd_store db') = st_artifacts (pd_store db) @ xs" by (simp add: db' st)
    have i: "i \<notin> set (dict_keys (pd_runs db))" using n by (simp add: map_of_eq_None_iff)
    have same: "pool_exposure db' j p = pool_exposure db j p" for j p by (simp add: pool_exposure_shares db')
    have "run_risk_artifact r \<in> art_id ` set (st_artifacts (pd_store db'))" if "dict_get (pd_runs db') j = Some r" for j r
    proof (cases "j = i")
      case True
      with that get [of j] have "r = row" by simp
      with st(2) show ?thesis by (simp add: db')
    next
      case False
      with that have "dict_get (pd_runs db) j = Some r" by (simp add: get)
      then have "run_risk_artifact r \<in> art_id ` set (st_artifacts (pd_store db))" using w unfolding within_limits_def by blast
      then show ?thesis by (auto simp: arts)
    qed
    moreover have "pool_exposure db' j p \<le> re_max_portfolio_notional e"
      if p: "pinned_envelope P db' j e" "mk_risk_envelope e = Inr e" for j e p
    proof (cases "j = i")
      case True
      with pool_exposure_unused [OF wf i] p(2) same show ?thesis by (simp add: mk_risk_envelope_def rbind_eq_Inr)
    next
      case False
      from p(1) obtain r where r: "dict_get (pd_runs db') j = Some r"
          "artifact_content db' (run_risk_artifact r) = Some (pk_risk_json P e)"
        unfolding pinned_envelope_def by blast
      with False have old: "dict_get (pd_runs db) j = Some r" by (simp add: get)
      then have "run_risk_artifact r \<in> art_id ` set (st_artifacts (pd_store db))" using w unfolding within_limits_def by blast
      with r(2) artifact_content_append [OF arts] old have "pinned_envelope P db j e"
        unfolding pinned_envelope_def by force
      with p(2) w same show ?thesis unfolding within_limits_def by simp
    qed
    ultimately show ?thesis unfolding within_limits_def by blast
  qed (use w in simp)
next
  case (reconcile actor run key m env db s db')
  from reconcile_run_effect [OF reconcile(1)] within_limits_status [OF reconcile(3)] reconcile(3) show ?case by blast
next
  case (restart actor run key env db s db')
  from restart_run_effect [OF restart(1)] within_limits_status [OF restart(3)] restart(3) show ?case by blast
next
  case (submit actor run i spec snap e pool env db k db')
  from submit_effect [OF submit(1)] within_limits_placed [OF submit(3,2) inj] submit(3) show ?case by blast
next
  case (fill actor order f currency env db k db')
  from record_fill_effect [OF fill(1)] show ?case
  proof
    assume a: "applied_fill order f currency (pe_started env) db db'"
    then have "st_artifacts (pd_store db') = st_artifacts (pd_store db) @ []" "pd_runs db' = pd_runs db"
      unfolding applied_fill_def by force+
    from within_limits_frame [OF fill(3) this exposure_filled [OF fill(2) a]] show ?thesis .
  qed (use fill in simp)
next
  case (unknown actor order reason key env db db')
  from mark_unknown_effect [OF unknown(1)] show ?case
  proof
    assume a: "unknown_order order db db'"
    then have "st_artifacts (pd_store db') = st_artifacts (pd_store db) @ []" "pd_runs db' = pd_runs db"
      unfolding unknown_order_def by force+
    from within_limits_frame [OF unknown(3) this exposure_unknown [OF unknown(2) a]] show ?thesis .
  qed (use unknown in simp)
next
  case (cancel actor order key env db db')
  from cancel_effect [OF cancel(1)] show ?case
  proof (elim disjE exE conjE)
    fix x assume x: "dict_get (pd_orders db) order = Some x" "CANCEL_PENDING \<in> set (transitions (ord_state x))"
      and a: "closed_order order x db db'"
    from x(2) have s: "ord_state x \<noteq> CANCELLED" by auto
    have "st_artifacts (pd_store db') = st_artifacts (pd_store db) @ []" using a unfolding closed_order_def by force
    from within_limits_frame [OF cancel(3) this closed_order_runs [OF a] exposure_closed [OF cancel(2) x(1) s a]]
    show ?thesis .
  qed (use cancel in simp)
next
  case (stop actor run q key env db k db')
  from stop_run_effect [OF stop(1)] show ?case
  proof
    assume "stopped_run db db'"
    then have "st_artifacts (pd_store db') = st_artifacts (pd_store db) @ []" "pd_runs db' = pd_runs db"
        "pd_holds db' = pd_holds db"
      unfolding stopped_run_def by force+
    from within_limits_frame [OF stop(3) this(1,2)] this(3) show ?thesis by (simp add: pool_exposure_shares)
  qed (use stop in simp)
next
  case (latch actor q key env db k db')
  show ?case
  proof (cases "db' = db")
    case False
    with emergency_latch_effect [OF latch(1)] obtain db1
      where l: "latched q db db1" and f: "fence P actor q env db1 = Inr db'" by blast
    have db1: "pd_holds db1 = pd_holds db" "pd_orders db1 = pd_orders db" "pd_runs db1 = pd_runs db"
        "st_artifacts (pd_store db1) = st_artifacts (pd_store db) @ []"
      using l unfolding latched_def by force+
    have wf1: "paper_wf db1" by (rule paper_wf_frame [OF latch(2) db1(1,2)]) (simp_all add: db1 paper_wf_runs [OF latch(2)])
    have w1: "within_limits P db1" by (rule within_limits_frame [OF latch(3) db1(4,3)]) (simp add: pool_exposure_shares db1)
    let ?I = "\<lambda>d. paper_wf d \<and> within_limits P d"
    have d: "distinct (dict_keys (pd_orders db1))" using wf1 by (simp add: paper_wf_def)
    have "?I db'"
    proof (rule fence_invariant [where I = ?I, OF f _ d])
      show "?I d'" if i: "?I d" and x: "dict_get (pd_orders d) j = Some x" "ord_state x \<in> set working_states"
          "closed_order j x d d'" for j x d d'
      proof -
        have s: "ord_state x \<noteq> CANCELLED" using x(2) by (auto simp: working_states_def)
        have "st_artifacts (pd_store d') = st_artifacts (pd_store d) @ []" using x(3) unfolding closed_order_def by force
        with i within_limits_frame [OF _ this closed_order_runs [OF x(3)] exposure_closed [OF _ x(1) s x(3)]]
          paper_wf_closed [OF _ x(1,3) s] show ?thesis by blast
      qed
      show "?I d'" if i: "?I d" and row: "dict_get (pd_runs d) j = Some row" and e: "fenced_run j row d d'" for j row d d'
      proof -
        have "st_artifacts (pd_store d') = st_artifacts (pd_store d)" "pd_holds d' = pd_holds d"
            "pd_runs d' = dict_set j (row\<lparr>run_status := Run_Reconcile_Only\<rparr>) (pd_runs d)"
          using e unfolding fenced_run_def by force+
        with i paper_wf_fenced [OF _ row e] within_limits_run [OF _ _ row] show ?thesis by blast
      qed
    qed (use wf1 w1 in \<open>auto simp: paper_wf_runs\<close>)
    then show ?thesis by simp
  qed (use latch in simp)
next
  case (release actor l reason key env db db')
  from release_latch_effect [OF release(1)] show ?case
  proof (elim disjE conjE)
    assume "released_latch l db db'"
    then have "st_artifacts (pd_store db') = st_artifacts (pd_store db) @ []" "pd_runs db' = pd_runs db"
        "pd_holds db' = pd_holds db"
      unfolding released_latch_def by force+
    from within_limits_frame [OF release(3) this(1,2)] this(3) show ?thesis by (simp add: pool_exposure_shares)
  qed (use release in simp)
next
  case (store db st)
  obtain xs where "st_artifacts st = st_artifacts (pd_store db) @ xs" using store_step_appends [OF store(1)] by blast
  then show ?case by (intro within_limits_frame [OF store(3)]) (simp_all add: pool_exposure_shares)
qed

interpretation exposure: paper_invariant P "\<lambda>db. inj (pk_risk_json P) \<longrightarrow> within_limits P db" for P
proof
  fix db db' :: "'a pdb"
  assume "paper_step P db db'" and "paper_wf db" and "inj (pk_risk_json P) \<longrightarrow> within_limits P db"
  then show "inj (pk_risk_json P) \<longrightarrow> within_limits P db'" using within_limits_step by blast
qed (simp add: within_limits_def pinned_envelope_def empty_pdb_def)

lemma within_limits_history: "inj (pk_risk_json P) \<Longrightarrow> (paper_step P)\<^sup>*\<^sup>* empty_pdb db \<Longrightarrow> within_limits P db"
  using exposure.paper_always by blast

section \<open>The cash balance\<close>

definition cash_summed :: "cash_row list \<Rightarrow> bool" where
  "cash_summed rows \<longleftrightarrow> (\<forall>run currency. sorted (map ch_created (cash_entries rows run currency)) \<longrightarrow>
     cash_balance rows run currency = Decimals.dsum (map ch_delta (cash_entries rows run currency)))"

lemma cash_entries_post:
  "cash_entries (post_cash i run fid currency delta started rows) r c = cash_entries rows r c @
     (if r = run \<and> c = currency
      then [\<lparr>ch_id = i, ch_run = run, ch_fill = fid, ch_currency = currency, ch_delta = delta,
             ch_balance = dadd (cash_balance rows run currency) delta, ch_created = started\<rparr>] else [])"
  by (simp add: post_cash_def cash_entries_def)

lemma sort_key_sorted: "sorted (map f xs) \<Longrightarrow> sort_key f xs = xs"
  by (metis sort_key_id_if_sorted)

lemma cash_summed_post:
  assumes "cash_summed rows"
  shows "cash_summed (post_cash i run fid currency delta started rows)"
  unfolding cash_summed_def
proof (intro allI impI)
  fix r c
  let ?rows = "post_cash i run fid currency delta started rows"
  assume s: "sorted (map ch_created (cash_entries ?rows r c))"
  show "cash_balance ?rows r c = Decimals.dsum (map ch_delta (cash_entries ?rows r c))"
  proof (cases "r = run \<and> c = currency")
    case True
    from s have "sorted (map ch_created (cash_entries rows r c))" by (simp add: cash_entries_post sorted_append)
    with assms have "cash_balance rows r c = Decimals.dsum (map ch_delta (cash_entries rows r c))"
      by (simp add: cash_summed_def)
    with True s show ?thesis
      by (simp add: cash_balance_def [of ?rows] sort_key_sorted) (simp add: cash_entries_post Decimals.dsum_def)
  next
    case False
    with s assms show ?thesis by (auto simp: cash_entries_post cash_summed_def cash_balance_def)
  qed
qed

text \<open>An entry of a transaction that started before the latest one changes no later balance.\<close>

lemma last_filter: "xs \<noteq> [] \<Longrightarrow> p (last xs) \<Longrightarrow> last (List.filter p xs) = last xs"
  by (cases xs rule: rev_cases) simp_all

lemma last_sort_key:
  assumes "xs \<noteq> []"
  shows "last (sort_key f xs) = last (List.filter (\<lambda>x. f x = Max (f ` set xs)) xs)"
proof -
  let ?ys = "sort_key f xs"
  have ne: "?ys \<noteq> []" using assms by (metis length_sort length_0_conv)
  have "f x \<le> f (last ?ys)" if "x \<in> set ?ys" for x
  proof -
    obtain zs z where z: "?ys = zs @ [z]" using ne by (cases ?ys rule: rev_cases) auto
    have "sorted (map f ?ys)" by simp
    with that show ?thesis unfolding z by (auto simp: sorted_append)
  qed
  then have "f (last ?ys) = Max (f ` set xs)" using last_in_set [OF ne] by (intro Max_eqI [symmetric]) auto
  then show ?thesis using last_filter [OF ne, of "\<lambda>x. f x = Max (f ` set xs)"] by (simp add: sort_key_stable)
qed

lemma cash_balance_late:
  assumes e: "e \<in> set (cash_entries rows run currency)" and "started < ch_created e"
  shows "cash_balance (post_cash i run fid currency delta started rows) run currency = cash_balance rows run currency"
proof -
  let ?xs = "cash_entries rows run currency"
  let ?y = "\<lparr>ch_id = i, ch_run = run, ch_fill = fid, ch_currency = currency, ch_delta = delta,
      ch_balance = dadd (cash_balance rows run currency) delta, ch_created = started\<rparr>"
  define y where "y = ?y"
  have y: "ch_created y = started" "cash_entries (post_cash i run fid currency delta started rows) run currency = ?xs @ [y]"
    by (simp_all add: y_def cash_entries_post)
  have ne: "?xs \<noteq> []" using e by auto
  have "started < Max (ch_created ` set ?xs)" using e assms(2) by (subst Max_gr_iff) auto
  then have m: "Max (ch_created ` set (?xs @ [y])) = Max (ch_created ` set ?xs)" "ch_created y \<noteq> Max (ch_created ` set ?xs)"
    using ne by (simp_all add: y(1) max_def)
  have "last (sort_key ch_created (?xs @ [y])) = last (sort_key ch_created ?xs)"
    using last_sort_key [of "?xs @ [y]" ch_created] last_sort_key [OF ne, of ch_created] m by simp
  moreover have "sort_key ch_created (?xs @ [y]) \<noteq> []" "sort_key ch_created ?xs \<noteq> []"
    using ne by (metis length_sort length_0_conv snoc_eq_iff_butlast)+
  ultimately show ?thesis by (simp add: cash_balance_def y(2) Let_def)
qed

section \<open>What never changes\<close>

text \<open>The columns of an order that no operation updates.\<close>

definition fixed_columns :: "order_row \<Rightarrow> order_row" where
  "fixed_columns x = x\<lparr>ord_state := INTENT, ord_filled := 0, ord_raw := []\<rparr>"

definition fixed_orders :: "'h pdb \<Rightarrow> (string \<times> order_row) list" where
  "fixed_orders db = map (\<lambda>(k, x). (k, fixed_columns x)) (pd_orders db)"

definition kept :: "'h pdb \<Rightarrow> 'h pdb \<Rightarrow> bool" where
  "kept db db' \<longleftrightarrow> (\<exists>xs. fixed_orders db' = fixed_orders db @ xs) \<and> (\<exists>ys. pd_fills db' = pd_fills db @ ys)"

lemma kept_refl: "kept db db"
  by (simp add: kept_def)

lemma kept_trans: "kept a b \<Longrightarrow> kept b c \<Longrightarrow> kept a c"
  unfolding kept_def by (metis append_assoc)

lemma fixed_overwrite:
  "dict_get d k = Some x \<Longrightarrow> h x' = h x \<Longrightarrow> map (\<lambda>(k, x). (k, h x)) (dict_set k x' d) = map (\<lambda>(k, x). (k, h x)) d"
  by (induction d) (auto split: if_splits)

lemma kept_overwrite:
  assumes "dict_get (pd_orders db) k = Some x" and "pd_orders db' = dict_set k x' (pd_orders db)"
    and "fixed_columns x' = fixed_columns x" and "pd_fills db' = pd_fills db @ ys"
  shows "kept db db'"
  using fixed_overwrite [OF assms(1), of fixed_columns x'] assms(2-4) by (simp add: kept_def fixed_orders_def)

lemma kept_frame: "pd_orders db' = pd_orders db \<Longrightarrow> pd_fills db' = pd_fills db \<Longrightarrow> kept db db'"
  by (simp add: kept_def fixed_orders_def)

lemma closed_order_kept:
  assumes "dict_get (pd_orders db) k = Some x" and "closed_order k x db db'"
  shows "kept db db'" "pd_cash db' = pd_cash db" "pd_fills db' = pd_fills db"
proof -
  obtain raw where o: "pd_orders db' = dict_set k (x\<lparr>ord_state := CANCELLED, ord_raw := raw\<rparr>) (pd_orders db)"
    and f: "pd_fills db' = pd_fills db" "pd_cash db' = pd_cash db"
    using assms(2) unfolding closed_order_def by force
  show "kept db db'" by (rule kept_overwrite [OF assms(1) o, where ys = "[]"]) (simp_all add: fixed_columns_def f)
  show "pd_cash db' = pd_cash db" "pd_fills db' = pd_fills db" by (simp_all add: f)
qed

lemma fence_kept:
  assumes f: "fence P actor q env db = Inr db'" and wf: "paper_wf db"
  shows "kept db db' \<and> pd_cash db' = pd_cash db \<and> pd_fills db' = pd_fills db"
proof -
  let ?I = "\<lambda>d. paper_wf d \<and> kept db d \<and> pd_cash d = pd_cash db \<and> pd_fills d = pd_fills db"
  have d: "distinct (dict_keys (pd_orders db))" using wf by (simp add: paper_wf_def)
  have "?I db'"
  proof (rule fence_invariant [where I = ?I, OF f _ d])
    show "?I d'" if i: "?I d" and x: "dict_get (pd_orders d) j = Some x" "ord_state x \<in> set working_states"
        "closed_order j x d d'" for j x d d'
    proof -
      have s: "ord_state x \<noteq> CANCELLED" using x(2) by (auto simp: working_states_def)
      with i closed_order_kept [OF x(1,3)] paper_wf_closed [OF _ x(1,3) s] kept_trans show ?thesis by metis
    qed
    show "?I d'" if i: "?I d" and row: "dict_get (pd_runs d) j = Some row" and e: "fenced_run j row d d'" for j row d d'
    proof -
      have "pd_orders d' = pd_orders d" "pd_fills d' = pd_fills d" "pd_cash d' = pd_cash d"
        using e unfolding fenced_run_def by force+
      with i paper_wf_fenced [OF _ row e] kept_trans [OF _ kept_frame, of db d d'] show ?thesis by simp
    qed
  qed (use wf in \<open>auto simp: paper_wf_runs kept_refl\<close>)
  then show ?thesis by simp
qed

text \<open>The entries of the cash table answer the fills one by one; no external key is booked twice.\<close>

definition fill_entry :: "'h pdb \<Rightarrow> cash_row \<Rightarrow> string \<times> fill_row \<Rightarrow> bool" where
  "fill_entry db c p \<longleftrightarrow> ch_fill c = fst p \<and> ch_currency c = fw_asset (snd p) \<and>
     (\<exists>x. (fw_order (snd p), fixed_columns x) \<in> set (fixed_orders db) \<and> ch_run c = ord_run x \<and>
          ch_delta c = cash_delta x (fw_fill (snd p)))"

definition fill_keys :: "'h pdb \<Rightarrow> string list" where
  "fill_keys db = map (\<lambda>(_, w). pf_external_fill_key (fw_fill w)) (pd_fills db)"

definition cash_matches :: "'h pdb \<Rightarrow> bool" where
  "cash_matches db \<longleftrightarrow> distinct (fill_keys db) \<and> list_all2 (fill_entry db) (pd_cash db) (pd_fills db)"

lemma fill_entry_kept:
  assumes "fill_entry db c p" and "kept db db'"
  shows "fill_entry db' c p"
proof -
  have "set (fixed_orders db) \<subseteq> set (fixed_orders db')" using assms(2) unfolding kept_def by force
  with assms(1) show ?thesis unfolding fill_entry_def by blast
qed

lemma cash_matches_frame:
  assumes "cash_matches db" and k: "kept db db'" and "pd_cash db' = pd_cash db" and "pd_fills db' = pd_fills db"
  shows "cash_matches db'"
proof -
  have "list_all2 (fill_entry db) (pd_cash db) (pd_fills db)" using assms(1) by (simp add: cash_matches_def)
  then have "list_all2 (fill_entry db') (pd_cash db') (pd_fills db')"
    unfolding assms(3,4) by (rule list_all2_mono [OF _ fill_entry_kept [OF _ k]])
  with assms(1,4) show ?thesis by (simp add: cash_matches_def fill_keys_def)
qed

lemma applied_fill_kept:
  assumes "applied_fill order f currency started db db'"
  shows "kept db db'"
  using assms
proof (rule applied_fillE)
  fix x rcd row
  assume x: "dict_get (pd_orders db) order = Some x" and f: "pd_fills db' = pd_fills db @ [row]" and o: "pd_orders db' =
      dict_set order (x\<lparr>ord_state := or_state rcd, ord_filled := or_filled_quantity rcd\<rparr>) (pd_orders db)"
  show "kept db db'" by (rule kept_overwrite [OF x o _ f]) (simp add: fixed_columns_def)
qed

lemma cash_matches_filled:
  assumes m: "cash_matches db" and a: "applied_fill order f currency started db db'"
    and n: "List.find (\<lambda>(_, e). pf_external_fill_key (fw_fill e) = pf_external_fill_key f) (pd_fills db) = None"
  shows "cash_matches db'"
proof -
  from a obtain x row i where x: "dict_get (pd_orders db) order = Some x"
    and row: "fw_order (snd row) = order" "fw_fill (snd row) = f" "fw_asset (snd row) = currency"
    and db': "pd_fills db' = pd_fills db @ [row]"
      "pd_cash db' = post_cash i (ord_run x) (fst row) currency (cash_delta x f) started (pd_cash db)"
    by (rule applied_fillE) blast
  note k = applied_fill_kept [OF a]
  have "(order, fixed_columns x) \<in> set (fixed_orders db)" using x by (force simp: fixed_orders_def dest: map_of_SomeD)
  moreover have "set (fixed_orders db) \<subseteq> set (fixed_orders db')" using k unfolding kept_def by force
  ultimately have "(order, fixed_columns x) \<in> set (fixed_orders db')" by blast
  then have e: "fill_entry db' c row" if "ch_fill c = fst row" "ch_currency c = currency" "ch_run c = ord_run x"
      "ch_delta c = cash_delta x f" for c
    using that row unfolding fill_entry_def by auto
  have "list_all2 (fill_entry db) (pd_cash db) (pd_fills db)" using m by (simp add: cash_matches_def)
  then have "list_all2 (fill_entry db') (pd_cash db) (pd_fills db)"
    by (rule list_all2_mono [OF _ fill_entry_kept [OF _ k]])
  then have "list_all2 (fill_entry db') (pd_cash db') (pd_fills db')"
    unfolding db' post_cash_def by (rule list_all2_appendI) (simp add: e)
  moreover have "pf_external_fill_key f \<notin> set (fill_keys db)"
    using n by (force simp: fill_keys_def find_None_iff)
  then have "distinct (fill_keys db')"
    using m row(2) by (simp add: cash_matches_def fill_keys_def db' split_beta)
  ultimately show ?thesis by (simp add: cash_matches_def)
qed

definition cash_ok :: "'h pdb \<Rightarrow> bool" where
  "cash_ok db \<longleftrightarrow> cash_summed (pd_cash db) \<and> cash_matches db"

lemma cash_ok_frame:
  "cash_ok db \<Longrightarrow> kept db db' \<Longrightarrow> pd_cash db' = pd_cash db \<Longrightarrow> pd_fills db' = pd_fills db \<Longrightarrow> kept db db' \<and> cash_ok db'"
  by (auto simp: cash_ok_def intro: cash_matches_frame)

lemma cash_step:
  "paper_step P db db' \<Longrightarrow> paper_wf db \<Longrightarrow> cash_ok db \<Longrightarrow> kept db db' \<and> cash_ok db'"
proof (induction rule: paper_step.induct)
  case (run actor spec key env db i db')
  show ?case
  proof (cases "db' = db")
    case False
    with start_run_effect [OF run(1)] have "pd_orders db' = pd_orders db" "pd_fills db' = pd_fills db" "pd_cash db' = pd_cash db"
      by force+
    then show ?thesis by (intro cash_ok_frame [OF run(3)] kept_frame)
  qed (use run in \<open>simp add: kept_refl\<close>)
next
  case (reconcile actor run key m env db s db')
  from reconcile_run_effect [OF reconcile(1)] show ?case
  proof
    assume "set_status run (reconciled_status m db run) db db'"
    then have "pd_orders db' = pd_orders db" "pd_fills db' = pd_fills db" "pd_cash db' = pd_cash db"
      unfolding set_status_def by force+
    then show ?thesis by (intro cash_ok_frame [OF reconcile(3)] kept_frame)
  qed (use reconcile in \<open>simp add: kept_refl\<close>)
next
  case (restart actor run key env db s db')
  from restart_run_effect [OF restart(1)] show ?case
  proof
    assume "set_status run Run_Reconcile_Only db db'"
    then have "pd_orders db' = pd_orders db" "pd_fills db' = pd_fills db" "pd_cash db' = pd_cash db"
      unfolding set_status_def by force+
    then show ?thesis by (intro cash_ok_frame [OF restart(3)] kept_frame)
  qed (use restart in \<open>simp add: kept_refl\<close>)
next
  case (submit actor run i spec snap e pool env db k db')
  from submit_effect [OF submit(1)] show ?case
  proof
    assume "placed_order P run i pool k db db'"
    then obtain x where x: "pd_orders db' = pd_orders db @ [x]" "pd_fills db' = pd_fills db" "pd_cash db' = pd_cash db"
      unfolding placed_order_def by force
    then have "kept db db'" by (simp add: kept_def fixed_orders_def)
    with x show ?thesis by (intro cash_ok_frame [OF submit(3)])
  qed (use submit in \<open>simp add: kept_refl\<close>)
next
  case (fill actor order f currency env db k db')
  show ?case
  proof (cases "List.find (\<lambda>(_, e). pf_external_fill_key (fw_fill e) = pf_external_fill_key f) (pd_fills db)")
    case None
    note a = record_fill_new [OF None fill(1)]
    then obtain x fid i where "pd_cash db' = post_cash i (ord_run x) fid currency (cash_delta x f) (pe_started env) (pd_cash db)"
      by (rule applied_fillE) blast
    then have "cash_summed (pd_cash db')" using fill(3) by (simp add: cash_ok_def cash_summed_post)
    moreover have "cash_matches db'" by (rule cash_matches_filled [OF _ a None]) (use fill(3) in \<open>simp add: cash_ok_def\<close>)
    ultimately show ?thesis using applied_fill_kept [OF a] by (simp add: cash_ok_def)
  next
    case (Some p)
    with record_fill_replay [OF _ fill(1)] fill(3) show ?thesis by (cases p) (auto simp: kept_refl)
  qed
next
  case (unknown actor order reason key env db db')
  from mark_unknown_effect [OF unknown(1)] show ?case
  proof
    assume "unknown_order order db db'"
    then obtain x raw where x: "dict_get (pd_orders db) order = Some x"
        "pd_orders db' = dict_set order (x\<lparr>ord_state := UNKNOWN_RECONCILING, ord_raw := raw\<rparr>) (pd_orders db)"
      and f: "pd_fills db' = pd_fills db" "pd_cash db' = pd_cash db"
      unfolding unknown_order_def by force
    have "kept db db'" by (rule kept_overwrite [OF x, where ys = "[]"]) (simp_all add: fixed_columns_def f)
    with f show ?thesis by (intro cash_ok_frame [OF unknown(3)])
  qed (use unknown in \<open>simp add: kept_refl\<close>)
next
  case (cancel actor order key env db db')
  from cancel_effect [OF cancel(1)] show ?case
  proof (elim disjE exE conjE)
    fix x assume "dict_get (pd_orders db) order = Some x" "closed_order order x db db'"
    from closed_order_kept [OF this] show ?thesis by (rule cash_ok_frame [OF cancel(3)])
  qed (use cancel in \<open>simp add: kept_refl\<close>)
next
  case (stop actor run q key env db k db')
  from stop_run_effect [OF stop(1)] show ?case
  proof
    assume "stopped_run db db'"
    then have "pd_orders db' = pd_orders db" "pd_fills db' = pd_fills db" "pd_cash db' = pd_cash db"
      unfolding stopped_run_def by force+
    then show ?thesis by (intro cash_ok_frame [OF stop(3)] kept_frame)
  qed (use stop in \<open>simp add: kept_refl\<close>)
next
  case (latch actor q key env db k db')
  show ?case
  proof (cases "db' = db")
    case False
    with emergency_latch_effect [OF latch(1)] obtain db1
      where l: "latched q db db1" and f: "fence P actor q env db1 = Inr db'" by blast
    have db1: "pd_holds db1 = pd_holds db" "pd_orders db1 = pd_orders db" "pd_runs db1 = pd_runs db"
        "pd_fills db1 = pd_fills db" "pd_cash db1 = pd_cash db"
      using l unfolding latched_def by force+
    have wf1: "paper_wf db1" by (rule paper_wf_frame [OF latch(2) db1(1,2)]) (simp_all add: db1 paper_wf_runs [OF latch(2)])
    from fence_kept [OF f wf1] kept_trans [OF kept_frame [OF db1(2,4)]] db1 show ?thesis
      by (intro cash_ok_frame [OF latch(3)]) simp_all
  qed (use latch in \<open>simp add: kept_refl\<close>)
next
  case (release actor l reason key env db db')
  from release_latch_effect [OF release(1)] show ?case
  proof (elim disjE conjE)
    assume "released_latch l db db'"
    then have "pd_orders db' = pd_orders db" "pd_fills db' = pd_fills db" "pd_cash db' = pd_cash db"
      unfolding released_latch_def by force+
    then show ?thesis by (intro cash_ok_frame [OF release(3)] kept_frame)
  qed (use release in \<open>simp add: kept_refl\<close>)
next
  case (store db st)
  then show ?case by (intro cash_ok_frame kept_frame) simp_all
qed

interpretation cash: paper_invariant P cash_ok for P
proof
  show "cash_ok empty_pdb"
    by (simp add: cash_ok_def cash_summed_def cash_matches_def fill_keys_def cash_balance_def cash_entries_def empty_pdb_def
        Decimals.dsum_def)
qed (use cash_step in blast)

lemmas cash_ok_history = cash.paper_always

lemma kept_later:
  assumes "(paper_step P)\<^sup>*\<^sup>* db db'" and "(paper_step P)\<^sup>*\<^sup>* empty_pdb db"
  shows "kept db db'"
  using assms(1)
proof (induction rule: rtranclp_induct)
  case (step y z)
  have "(paper_step P)\<^sup>*\<^sup>* empty_pdb y" using assms(2) step(1) by simp
  from cash_step [OF step(2) paper_wf_history [OF this] cash_ok_history [OF this]] step(3) kept_trans show ?case by blast
qed (rule kept_refl)

end
