(* ===== verification/PaperClaims.thy ===== *)
theory PaperClaims
  imports PaperSafety
begin

text \<open>
  The properties of the paper service, on the invariants of \<open>PaperProps\<close> and
  \<open>PaperSafety\<close>, with a sample history: a run that is started and reconciled, one accepted
  order, a fill of half of it, and a global emergency stop; then a fill the reservation
  constraint refuses, and what a retried submission returns.
\<close>

section \<open>A sample history\<close>

definition sample_risk_json :: "risk_envelope \<Rightarrow> jobj" where
  "sample_risk_json e =
     [(''max_order_notional'', JNum (re_max_order_notional e)),
      (''max_portfolio_notional'', JNum (re_max_portfolio_notional e)),
      (''max_position_notional'', JNum (re_max_position_notional e)),
      (''mode'', JBool (re_mode e = PAPER)), (''stale_after_seconds'', JNum (of_nat (re_stale_after_seconds e))),
      (''version'', JStr (re_version e))]"

lemma sample_risk_json_inj: "inj sample_risk_json"
proof (rule injI)
  fix d e assume "sample_risk_json d = sample_risk_json e"
  moreover have "(re_mode d = PAPER) = (re_mode e = PAPER) \<Longrightarrow> re_mode d = re_mode e"
    by (cases "re_mode d"; cases "re_mode e") auto
  ultimately show "d = e" by (simp add: sample_risk_json_def)
qed

definition sample_paper :: "nat paper_params" where
  "sample_paper = \<lparr>pk_hashing = sample_hashing, pk_decimal = (\<lambda>_. ''0''), pk_isoformat = (\<lambda>_. ''t''),
     pk_risk_json = sample_risk_json, pk_execution_json = (\<lambda>_. []), pk_parse_model = (\<lambda>_. Some (sample_model 1)),
     pk_parse_instruments = (\<lambda>_. Some [sample_spec]), pk_parse_fees = (\<lambda>_. Some ([sample_fee], ''T''))\<rparr>"

definition sample_worker :: identity where
  "sample_worker = sample_actor ''paper''"

lemma worker_can:
  "role_can (id_role sample_worker) ''paper''" "role_can (id_role sample_worker) ''stop''"
  "role_can (id_role sample_worker) ''artifact''"
  by (simp_all add: sample_worker_def role_can_def capabilities_def)

lemma worker_allowed: "require_capability sample_worker ''paper'' = Inr ()"
  by (simp add: require_capability_def worker_can)

lemma worker_id: "id_principal sample_worker = ''p1''" "id_role sample_worker = ''paper''"
  by (simp_all add: sample_worker_def)

definition free_key :: "string \<Rightarrow> 'h pdb \<Rightarrow> bool" where
  "free_key key db \<longleftrightarrow> find_operation (pd_store db) key = None"

text \<open>An event with a free key against the current version is written and becomes the projection.\<close>

lemma paper_event_written:
  assumes "free_key key db" and "role_can (id_role sample_worker) cap"
    and "kind \<noteq> []" "i \<noteq> []" "key \<noteq> []" "task \<noteq> []" "policy \<noteq> []"
    and "v = current_version (pd_store db) kind i"
    and "set artifacts \<subseteq> set (map art_id (st_artifacts (pd_store db)))"
  shows "\<exists>e st. paper_event P sample_worker cap kind i v state event key task policy artifacts topic fr db
      = Inr (e, db\<lparr>pd_store := st\<rparr>) \<and> st_artifacts st = st_artifacts (pd_store db) \<and>
    st_aggregates st = dict_set (kind, i) (v + 1, state) (st_aggregates (pd_store db)) \<and>
    (\<forall>key'. key' \<noteq> key \<longrightarrow> free_key key' db \<longrightarrow> free_key key' (db\<lparr>pd_store := st\<rparr>))"
proof -
  let ?rq = "\<lparr>rq_kind = kind, rq_id = i, rq_expected_version = v, rq_state = state, rq_event_type = event,
     rq_actor = id_principal sample_worker, rq_task_id = task, rq_policy_version = policy, rq_evidence = [],
     rq_artifacts = artifacts, rq_metadata = []\<rparr>"
  let ?out = "append_event (pk_hashing P) ?rq (Some topic) fr
    (make_envelope (pk_hashing P) sample_worker ?rq key fr (pd_store db)) (pd_store db)"
  have "transition (pk_hashing P) sample_worker cap ?rq key (Some topic) fr (pd_store db) = Inr ?out"
    using assms by (simp add: transition_def require_capability_def free_key_def subset_iff Let_def)
  then have "paper_event P sample_worker cap kind i v state event key task policy artifacts topic fr db
      = Inr (fst ?out, db\<lparr>pd_store := snd ?out\<rparr>)"
    by (simp add: paper_event_def split_beta)
  moreover have "free_key key' (db\<lparr>pd_store := snd ?out\<rparr>)" if "key' \<noteq> key" "free_key key' db" for key'
    using that by (auto simp: free_key_def append_event_def find_operation_def Let_def find_None_iff)
  moreover have "st_artifacts (snd ?out) = st_artifacts (pd_store db)"
      "st_aggregates (snd ?out) = dict_set (kind, i) (v + 1, state) (st_aggregates (pd_store db))"
    using assms(8) by (simp_all add: append_event_def Let_def)
  ultimately show ?thesis by blast
qed

definition sample_fresh_ids :: "nat \<Rightarrow> fresh" where
  "sample_fresh_ids n = \<lparr>fr_event_id = ''e'' @ show_nat n, fr_outbox_id = ''x'' @ show_nat n,
     fr_artifact_id = (if n = 0 then ''a'' else ''b''), fr_now = Aware 0 0, fr_environment = ''env''\<rparr>"

definition sample_env :: "string \<Rightarrow> paper_env" where
  "sample_env i = \<lparr>pe_started = 0, pe_now = Aware 10 0, pe_id = i, pe_cash_id = ''c'', pe_fresh = sample_fresh_ids\<rparr>"

definition sample_run_spec :: run_spec where
  "sample_run_spec = \<lparr>rn_run_id = ''run'', rn_policy_version = ''p'', rn_reporting_currency = ''USD'',
     rn_envelope = sample_envelope,
     rn_execution = \<lparr>xc_fill_model = sample_model 1, xc_instruments = [sample_spec], xc_fee_schedules = [sample_fee],
       xc_fee_account_tier = ''T''\<rparr>\<rparr>"

definition sample_run_row :: "run_status \<Rightarrow> run_row" where
  "sample_run_row s = \<lparr>run_status = s, run_policy = ''p'', run_risk_artifact = ''a'', run_execution_artifact = ''b'',
     run_currency = ''USD''\<rparr>"

text \<open>What the next steps need to know of the database: the run, its two artifacts, its projection.\<close>

definition sample_ready :: "run_status \<Rightarrow> nat pdb \<Rightarrow> bool" where
  "sample_ready s db \<longleftrightarrow> (paper_step sample_paper)\<^sup>*\<^sup>* empty_pdb db \<and> pd_runs db = [(''run'', sample_run_row s)] \<and>
     pd_latches db = [] \<and> pd_stops db = [] \<and> pd_cash db = [] \<and> pd_fills db = [] \<and> pd_positions db = [] \<and>
     artifact_content db ''a'' = Some (sample_risk_json sample_envelope) \<and> artifact_content db ''b'' = Some [] \<and>
     (\<exists>v state. aggregate_of db ''paper_run'' ''run'' = Inr (v, state) \<and>
        v = current_version (pd_store db) ''paper_run'' ''run'')"

definition sample_clean :: "string set \<Rightarrow> nat pdb \<Rightarrow> bool" where
  "sample_clean used db \<longleftrightarrow> pd_orders db = [] \<and> pd_holds db = [] \<and>
     (\<forall>key. key \<notin> used \<longrightarrow> free_key key db) \<and>
     (\<forall>kind i. (kind, i) \<noteq> (''paper_run'', ''run'') \<longrightarrow> dict_get (st_aggregates (pd_store db)) (kind, i) = None)"

lemma sample_run_started: "\<exists>db. sample_ready Run_Reconcile_Only db \<and> sample_clean {''start''} db"
proof -
  let ?P = sample_paper
  let ?risk = "\<lparr>art_id = ''a'', art_content_hash = to_nat (sample_risk_json sample_envelope),
     art_schema_name = ''paper/risk-envelope-v1'', art_classification = ''INTERNAL'', art_producer_id = ''p1'',
     art_environment = ''env'', art_policy_version = ''p'', art_content = sample_risk_json sample_envelope\<rparr>"
  let ?exec = "\<lparr>art_id = ''b'', art_content_hash = to_nat ([] :: jobj),
     art_schema_name = ''paper/execution-config-v1'', art_classification = ''INTERNAL'', art_producer_id = ''p1'',
     art_environment = ''env'', art_policy_version = ''p'', art_content = []\<rparr>"
  define st1 :: "nat store" where "st1 = empty_store\<lparr>st_artifacts := [?risk]\<rparr>"
  define st2 :: "nat store" where "st2 = empty_store\<lparr>st_artifacts := [?risk, ?exec]\<rparr>"
  have a1: "put_artifact (pk_hashing ?P) sample_worker (sample_risk_json sample_envelope) ''paper/risk-envelope-v1''
      ''INTERNAL'' ''p'' (sample_fresh_ids 0) empty_store = Inr (''a'', st1)"
    by (simp add: put_artifact_def require_capability_def worker_can empty_store_def st1_def sample_paper_def
        sample_hashing_def sample_fresh_ids_def worker_id(1) del: One_nat_def)
  have a2: "put_artifact (pk_hashing ?P) sample_worker [] ''paper/execution-config-v1''
      ''INTERNAL'' ''p'' (sample_fresh_ids 1) st1 = Inr (''b'', st2)"
    by (simp add: put_artifact_def require_capability_def worker_can empty_store_def st1_def st2_def sample_paper_def
        sample_hashing_def sample_fresh_ids_def worker_id(1))
  let ?db = "empty_pdb\<lparr>pd_store := st2\<rparr>" and ?row = "sample_run_row Run_Reconcile_Only"
  have free: "free_key key ?db" for key by (simp add: free_key_def find_operation_def st2_def empty_store_def)
  obtain e st where ev: "paper_event ?P sample_worker ''paper'' ''paper_run'' ''run'' 0 (run_state_json ''run'' ?row)
      ''PAPER_RUN_STARTED_RECONCILE_ONLY'' ''start'' ''run'' ''p'' [''a'', ''b''] ''paper.run'' (sample_fresh_ids 2) ?db
      = Inr (e, ?db\<lparr>pd_store := st\<rparr>)"
    and st: "st_artifacts st = st_artifacts st2"
      "st_aggregates st = [((''paper_run'', ''run''), (1, run_state_json ''run'' ?row))]"
      "\<forall>key. key \<noteq> ''start'' \<longrightarrow> free_key key (?db\<lparr>pd_store := st\<rparr>)"
    using paper_event_written [OF free [of "''start''"] worker_can(1), of "''paper_run''" "''run''" "''run''" "''p''" 0
        "[''a'', ''b'']" ?P "run_state_json ''run'' ?row" "''PAPER_RUN_STARTED_RECONCILE_ONLY''" "''paper.run''"
        "sample_fresh_ids 2"] free
    by (auto simp: st2_def empty_store_def current_version_def)
  let ?db1 = "empty_pdb\<lparr>pd_store := st, pd_runs := [(''run'', ?row)]\<rparr>"
  have supported: "contract_supported sample_run_spec sample_spec"
    by (simp add: contract_supported_def sample_run_spec_def) (simp add: sample_spec_def)
  have start: "start_run ?P sample_worker sample_run_spec ''start'' (sample_env ''x'') empty_pdb = Inr (''run'', ?db1)"
    using a1 a2 ev supported
    by (simp add: start_run_def worker_allowed empty_pdb_def sample_paper_def sample_run_spec_def
        sample_env_def sample_run_row_def)
  have "sample_ready Run_Reconcile_Only ?db1"
    using paper_step.run [OF start] st(1,2)
    by (simp add: sample_ready_def empty_pdb_def artifact_content_def aggregate_of_def current_version_def st2_def
        empty_store_def r_into_rtranclp)
  moreover have "sample_clean {''start''} ?db1"
    using st by (auto simp: sample_clean_def empty_pdb_def free_key_def)
  ultimately show ?thesis by blast
qed

lemma sample_run_active: "\<exists>db. sample_ready Run_Active db \<and> sample_clean {''start'', ''ready''} db"
proof -
  obtain db where r: "sample_ready Run_Reconcile_Only db" and c: "sample_clean {''start''} db"
    using sample_run_started by blast
  from c have empty: "pd_orders db = []" "pd_holds db = []" and free: "\<And>key. key \<noteq> ''start'' \<Longrightarrow> free_key key db"
    and other: "\<And>kind i. (kind, i) \<noteq> (''paper_run'', ''run'') \<Longrightarrow> dict_get (st_aggregates (pd_store db)) (kind, i) = None"
    by (simp_all add: sample_clean_def)
  have path: "(paper_step sample_paper)\<^sup>*\<^sup>* empty_pdb db" and runs: "pd_runs db = [(''run'', sample_run_row Run_Reconcile_Only)]"
    and l: "pd_latches db = []"
    using r by (simp_all add: sample_ready_def)
  obtain v state where a: "aggregate_of db ''paper_run'' ''run'' = Inr (v, state)"
      "v = current_version (pd_store db) ''paper_run'' ''run''"
    using r by (auto simp: sample_ready_def)
  define state' where "state' = jset ''status'' (JStr (run_status_name Run_Active))
    (jset ''market_data_valid'' (JBool True) (jset ''unresolved_orders'' (JBool False)
      (jset ''global_safety_latch_id'' (json_option None) state)))"
  have key: "free_key ''ready'' db" by (rule free) simp
  obtain e st where ev: "paper_event sample_paper sample_worker ''paper'' ''paper_run'' ''run'' v state'
      ''PAPER_RECONCILIATION_COMPLETE'' ''ready'' ''run'' ''p'' [] ''paper.reconcile'' (sample_fresh_ids 0) db
      = Inr (e, db\<lparr>pd_store := st\<rparr>)"
    and st: "st_artifacts st = st_artifacts (pd_store db)"
      "st_aggregates st = dict_set (''paper_run'', ''run'') (v + 1, state') (st_aggregates (pd_store db))"
      "\<And>k. k \<noteq> ''ready'' \<Longrightarrow> free_key k db \<Longrightarrow> free_key k (db\<lparr>pd_store := st\<rparr>)"
    using paper_event_written [OF key worker_can(1), of "''paper_run''" "''run''" "''run''" "''p''" v "[]" sample_paper state'
        "''PAPER_RECONCILIATION_COMPLETE''" "''paper.reconcile''" "sample_fresh_ids 0"] a(2)
    by auto
  define db' where "db' = save_run ''run'' ((sample_run_row Run_Reconcile_Only)\<lparr>run_status := Run_Active\<rparr>) (db\<lparr>pd_store := st\<rparr>)"
  have status: "reconciled_status True db ''run'' = Run_Active" "unresolved_orders db ''run'' = False" "global_latch db = None"
    by (simp_all add: reconciled_status_def unresolved_orders_def global_latch_def empty l)
  have prior: "prior_operation db ''ready'' types ''run'' = Inr None" for types
    using key by (simp add: prior_operation_def free_key_def)
  have policy: "run_policy (sample_run_row s) = ''p''" for s by (simp add: sample_run_row_def)
  have step: "reconcile_run sample_paper sample_worker ''run'' ''ready'' True (sample_env ''x'') db = Inr (Run_Active, db')"
    using ev status prior a(1) runs
    by (simp add: db'_def reconcile_run_def worker_allowed policy sample_env_def state'_def)
  then have "paper_step sample_paper db db'" by (rule paper_step.reconcile)
  with path have "(paper_step sample_paper)\<^sup>*\<^sup>* empty_pdb db'" by (rule rtranclp.rtrancl_into_rtrancl)
  then have "sample_ready Run_Active db'"
    using r st(1,2) unfolding db'_def
    by (simp add: sample_ready_def save_run_def sample_run_row_def artifact_content_def aggregate_of_def current_version_def
        dict_get_set)
  moreover have "free_key k db'" if "k \<noteq> ''start''" "k \<noteq> ''ready''" for k
    using st(3) [OF that(2) free [OF that(1)]] by (simp add: free_key_def save_run_def db'_def)
  moreover have "dict_get (st_aggregates (pd_store db')) (kind, i) = None" if "(kind, i) \<noteq> (''paper_run'', ''run'')" for kind i
    using other [OF that] that by (simp add: save_run_def db'_def st(2) dict_get_set del: Pair_inject)
  ultimately have "sample_clean {''start'', ''ready''} db'" "sample_ready Run_Active db'"
    by (simp_all add: sample_clean_def) (simp_all add: save_run_def db'_def empty)
  then show ?thesis by blast
qed

definition sample_reservation :: reservation where
  "sample_reservation = \<lparr>rv_reservation_id = ''o1'', rv_client_order_id = ''o1'', rv_amount = 200,
     rv_normalized_quantity = 2, rv_normalized_limit_price = Some 101, rv_expires_at = dt_plus (Aware 10 0) (seconds 300),
     rv_envelope_version = ''r1'', rv_state = HELD\<rparr>"

lemma sample_paper_pretrade:
  "pretrade_check sample_intent sample_spec sample_snapshot sample_envelope 0 0 (Aware 10 0) = Inr sample_reservation"
proof -
  have e: "dmul (dmul 2 100) 1 = 200" "dabs (dadd 0 (dmul 1 2)) = 2" "dadd 0 200 = 200" "dround 200 = 200"
    by (simp_all add: decimal_eval)
  have "vo_quantity (intent_venue_order sample_intent) = 2" "vo_limit_price (intent_venue_order sample_intent) = Some 101"
    by (simp_all add: intent_venue_order_def)
  then show ?thesis
    by (simp add: pretrade_check_def sample_intent_rounded side_sign_def Let_def e sample_reservation_def del: dadd_0)
qed

definition sample_order_row :: order_row where
  "sample_order_row = new_paper_order ''run'' sample_intent sample_reservation"

definition sample_hold :: hold_row where
  "sample_hold = (new_hold ''run'' ''pool'' sample_reservation)\<lparr>res_order := Some ''k''\<rparr>"

lemma sample_order_facts:
  "ord_venue sample_order_row = ''V''" "ord_instrument sample_order_row = ''BTC-USD''" "ord_run sample_order_row = ''run''"
  "ord_quantity sample_order_row = 2" "ord_filled sample_order_row = 0" "ord_state sample_order_row = ACKNOWLEDGED"
  "ord_reservation sample_order_row = ''o1''" "ord_side sample_order_row = BUY" "ord_client_id sample_order_row = ''o1''"
  "ord_intent sample_order_row = sample_intent" "ord_price sample_order_row = Some 101" "ord_reduce_only sample_order_row = False"
  "order_row_ok sample_order_row"
  by (simp_all add: sample_order_row_def new_paper_order_def sample_reservation_def order_row_ok_def)
    (simp_all add: sample_intent_def)

lemma sample_hold_facts:
  "hold_ok sample_hold" "res_original sample_hold = 200" "res_working sample_hold = 200" "res_position sample_hold = 0"
  "res_released sample_hold = 0"
  by (simp_all add: sample_hold_def new_hold_def sample_reservation_def hold_ok_def)

definition sample_key :: "string \<Rightarrow> bool" where
  "sample_key key \<longleftrightarrow> key \<in> {''start'', ''ready'', ''paper-order:o1''}"

definition sample_accepted :: "nat pdb \<Rightarrow> bool" where
  "sample_accepted db \<longleftrightarrow> sample_ready Run_Active db \<and> pd_orders db = [(''k'', sample_order_row)] \<and>
     pd_holds db = [(''o1'', sample_hold)] \<and> (\<forall>key. \<not> sample_key key \<longrightarrow> free_key key db) \<and>
     (\<exists>v state. aggregate_of db ''paper_order'' ''k'' = Inr (v, state) \<and>
        v = current_version (pd_store db) ''paper_order'' ''k'') \<and>
     current_version (pd_store db) ''paper_safety_latch'' ''GLOBAL'' = 0"

lemma sample_instrument:
  assumes "spec_instrument_id sample_spec = ''BTC-USD''" "spec_venue sample_spec = ''V''"
  shows "0 \<le> instant when \<Longrightarrow> is_aware when \<Longrightarrow>
    configured_instrument sample_paper [] ''V'' ''BTC-USD'' when = Inr sample_spec"
proof -
  assume "0 \<le> instant when" "is_aware when"
  then obtain a b where w: "when = Aware a b" by (cases "when") simp_all
  have "spec_effective_from sample_spec = Aware 0 0" "spec_effective_to sample_spec = None" by (simp_all add: sample_spec_def)
  with assms w \<open>0 \<le> instant when\<close> show ?thesis
    by (simp add: configured_instrument_def configured_def parsed_def spec_effective_at_def effective_at_def covers_def
        comparable_def sample_paper_def Let_def)
qed

lemma sample_submitted:
  "\<exists>db db'. sample_ready Run_Active db \<and>
     submit sample_paper sample_worker ''run'' sample_intent sample_spec sample_snapshot sample_envelope ''pool''
       (sample_env ''k'') db = Inr (''k'', db') \<and> sample_accepted db'"
proof -
  obtain db where r: "sample_ready Run_Active db" and c: "sample_clean {''start'', ''ready''} db"
    using sample_run_active by blast
  from c have empty: "pd_orders db = []" "pd_holds db = []"
    and free: "\<And>key. key \<noteq> ''start'' \<Longrightarrow> key \<noteq> ''ready'' \<Longrightarrow> free_key key db"
    and other: "\<And>kind i. (kind, i) \<noteq> (''paper_run'', ''run'') \<Longrightarrow> dict_get (st_aggregates (pd_store db)) (kind, i) = None"
    by (simp_all add: sample_clean_def)
  have path: "(paper_step sample_paper)\<^sup>*\<^sup>* empty_pdb db" and runs: "pd_runs db = [(''run'', sample_run_row Run_Active)]"
    and l: "pd_latches db = []" "pd_stops db = []" "pd_positions db = []"
    and arts: "artifact_content db ''a'' = Some (sample_risk_json sample_envelope)" "artifact_content db ''b'' = Some []"
    using r by (simp_all add: sample_ready_def)
  define state where "state = [(''client_order_id'', JStr ''o1''), (''normalized_quantity'', JStr ''0''),
    (''paper_order_id'', JStr ''k''), (''paper_run_id'', JStr ''run''), (''reservation_id'', JStr ''o1''),
    (''state'', JStr ''ACKNOWLEDGED'')]"
  define db1 where "db1 = db\<lparr>pd_holds := [(''o1'', sample_hold)], pd_orders := [(''k'', sample_order_row)]\<rparr>"
  have key: "free_key ''paper-order:o1'' db1" using free [of "''paper-order:o1''"] by (simp add: free_key_def db1_def)
  have none: "dict_get (st_aggregates (pd_store db1)) (''paper_order'', ''k'') = None"
      "dict_get (st_aggregates (pd_store db1)) (''paper_safety_latch'', ''GLOBAL'') = None"
    using other by (simp_all add: db1_def)
  obtain e st where ev: "paper_event sample_paper sample_worker ''paper'' ''paper_order'' ''k'' 0 state
      ''PAPER_ORDER_ACKNOWLEDGED'' ''paper-order:o1'' ''run'' ''p'' [] ''paper.order'' (sample_fresh_ids 0) db1
      = Inr (e, db1\<lparr>pd_store := st\<rparr>)"
    and st: "st_artifacts st = st_artifacts (pd_store db1)"
      "st_aggregates st = dict_set (''paper_order'', ''k'') (0 + 1, state) (st_aggregates (pd_store db1))"
      "\<And>k. k \<noteq> ''paper-order:o1'' \<Longrightarrow> free_key k db1 \<Longrightarrow> free_key k (db1\<lparr>pd_store := st\<rparr>)"
    using paper_event_written [OF key worker_can(1), of "''paper_order''" "''k''" "''run''" "''p''" 0 "[]" sample_paper state
        "''PAPER_ORDER_ACKNOWLEDGED''" "''paper.order''" "sample_fresh_ids 0"] none(1)
    by (auto simp: current_version_def)
  define db' where "db' = db1\<lparr>pd_store := st\<rparr>"
  have run: "configured_run db ''run'' = Some (sample_run_row Run_Active, [])" "run_status (sample_run_row s) = s"
      "run_risk_artifact (sample_run_row s) = ''a''" "run_policy (sample_run_row s) = ''p''" for s
    by (simp_all add: configured_run_def runs arts sample_run_row_def)
  have intent: "oi_venue sample_intent = ''V''" "oi_instrument_id sample_intent = ''BTC-USD''" by (simp_all add: sample_intent_def)
  have pinned: "configured_instrument sample_paper [] ''V'' ''BTC-USD'' (Aware 2 0) = Inr sample_spec"
    by (rule sample_instrument) (simp_all add: sample_spec_def)
  have rv: "rv_reservation_id sample_reservation = ''o1''" "rv_normalized_quantity sample_reservation = 2"
    by (simp_all add: sample_reservation_def)
  have new: "new_paper_order ''run'' sample_intent sample_reservation = sample_order_row"
      "(new_hold ''run'' ''pool'' sample_reservation)\<lparr>res_order := Some ''k''\<rparr> = sample_hold"
      "hold_ok (new_hold ''run'' ''pool'' sample_reservation)"
    using sample_hold_facts(1) by (simp_all add: sample_order_row_def sample_hold_def hold_ok_def)
  have book: "book_order sample_paper sample_worker ''run'' (sample_run_row Run_Active) sample_intent ''pool''
      sample_reservation (sample_env ''k'') db = Inr (''k'', db')"
    using ev by (simp add: book_order_def insert_row_def empty rv new sample_order_facts(13) run sample_env_def
        db1_def db'_def state_def sample_paper_def Let_def)
  have step: "submit sample_paper sample_worker ''run'' sample_intent sample_spec sample_snapshot sample_envelope ''pool''
       (sample_env ''k'') db = Inr (''k'', db')"
    using book pinned sample_paper_pretrade
    by (simp add: submit_def worker_allowed empty run ensure_not_stopped_def l arts intent position_of_def
        pool_exposure_def pool_rows_def Decimals.dsum_def checked_reservation_def)
      (simp add: sample_paper_def sample_env_def)
  then have "paper_step sample_paper db db'" by (rule paper_step.submit)
  with path have "(paper_step sample_paper)\<^sup>*\<^sup>* empty_pdb db'" by (rule rtranclp.rtrancl_into_rtrancl)
  then have "sample_ready Run_Active db'"
    using r st(1,2) unfolding db'_def db1_def
    by (simp add: sample_ready_def artifact_content_def aggregate_of_def current_version_def dict_get_set)
  moreover have "free_key k db'" if "\<not> sample_key k" for k
  proof -
    have "free_key k db1" using free [of k] that by (simp add: sample_key_def free_key_def db1_def)
    with st(3) [of k] that show ?thesis by (simp add: sample_key_def db'_def)
  qed
  moreover have "aggregate_of db' ''paper_order'' ''k'' = Inr (1, state)"
      "current_version (pd_store db') ''paper_order'' ''k'' = 1"
      "current_version (pd_store db') ''paper_safety_latch'' ''GLOBAL'' = 0"
    using none(2) by (simp_all add: aggregate_of_def current_version_def db'_def st(2) dict_get_set)
  ultimately have "sample_accepted db'" by (simp add: sample_accepted_def) (simp add: db'_def db1_def)
  with r step show ?thesis by blast
qed

definition sample_paper_fill :: paper_fill where
  "sample_paper_fill = \<lparr>pf_external_fill_key = ''f1'', pf_fill_time = Aware 5 0, pf_price = 100, pf_quantity = 1,
     pf_fee_amount = 1 / 10, pf_liquidity_role = TAKER, pf_model_version = ''v1''\<rparr>"

lemma sample_paper_fill_simps [simp]:
  "pf_external_fill_key sample_paper_fill = ''f1''" "pf_fill_time sample_paper_fill = Aware 5 0"
  "pf_price sample_paper_fill = 100" "pf_quantity sample_paper_fill = 1" "pf_fee_amount sample_paper_fill = 1 / 10"
  "pf_liquidity_role sample_paper_fill = TAKER" "pf_model_version sample_paper_fill = ''v1''"
  by (simp_all add: sample_paper_fill_def)

lemma sample_decimals:
  "dmul (dmul (dmul 1 100) 1) (1 / 1000) = 1 / 10" "dround (1 / 10) = 1 / 10" "dround 1 = 1" "dround 100 = 100"
  "dround (1001 / 10) = 1001 / 10" "dround (1 / 2) = 1 / 2" "dmul 200 (1 / 2) = 100" "dsub 200 100 = 100"
  by (simp_all add: decimal_eval)

lemma sample_fill_checked:
  assumes x: "ord_venue x = ''V''" "ord_instrument x = ''BTC-USD''"
  shows "check_fill sample_paper [] x sample_paper_fill ''USD'' = Inr ()"
proof -
  have spec: "configured_instrument sample_paper [] ''V'' ''BTC-USD'' (Aware 5 0) = Inr sample_spec"
      "spec_quote_currency sample_spec = ''USD''"
    by (rule sample_instrument) (simp_all add: sample_spec_def)
  have model: "configured_model sample_paper [] = Inr (sample_model 1)" "fm_version (sample_model 1) = ''v1''"
    by (simp_all add: configured_model_def configured_def parsed_def sample_paper_def sample_model_def)
  have fee: "configured_fee sample_paper [] x sample_paper_fill = Inr sample_fee"
    using sample_fee_selected
    by (simp add: configured_fee_def configured_def parsed_def sample_paper_def x)
  have grid: "off_increment 1 (1 / 100) = Inr False" "off_increment 100 (1 / 10) = Inr False"
    by (simp_all add: off_increment_def to_integral_down_def)
  have "fs_rate sample_fee = 1 / 1000" by (simp add: sample_fee_def)
  then have charged: "fill_fee sample_paper_fill sample_spec sample_fee = pf_fee_amount sample_paper_fill"
    by (simp only: fill_fee_def sample_paper_fill_simps sample_simps sample_decimals)
  show ?thesis
    using spec model fee grid charged by (simp add: check_fill_def x)
qed

lemma sample_fill_ledger:
  assumes "pd_fills db = []" and x: "ord_client_id x = ''o1''" "ord_side x = BUY"
  shows "\<exists>l. book_ledger db x sample_paper_fill = Inr l"
proof -
  have "book_fills db run venue instrument = []" for run venue instrument
    by (simp add: book_fills_def assms List.map_filter_def)
  then show ?thesis
    by (simp add: book_ledger_def incoming_fill_def mk_fill_def x ledger_apply_def ledger_init_def
        additive_costs_def settle_def side_sign_def direction_def independently_reconcile_def fifo_step_def
        fifo_costs_def equity_def decimal_eval Let_def)
qed

definition sample_filled_row :: order_row where
  "sample_filled_row = sample_order_row\<lparr>ord_state := PARTIALLY_FILLED, ord_filled := 1\<rparr>"

definition sample_filled_hold :: hold_row where
  "sample_filled_hold = converted_hold sample_hold 100"

lemma sample_fill_recorded:
  assumes acc: "sample_accepted db"
  shows "\<exists>db'. record_fill sample_paper sample_worker ''k'' sample_paper_fill ''USD'' (sample_env ''f'') db = Inr (''f'', db') \<and>
    (paper_step sample_paper)\<^sup>*\<^sup>* empty_pdb db' \<and> pd_orders db' = [(''k'', sample_filled_row)] \<and>
    pd_holds db' = [(''o1'', sample_filled_hold)] \<and>
    cash_entries (pd_cash db') ''run'' ''USD'' = pd_cash db' \<and> map ch_delta (pd_cash db') = [- 1001 / 10] \<and>
    map ch_created (pd_cash db') = [0]"
proof -
  from acc have r: "sample_ready Run_Active db" and orders: "pd_orders db = [(''k'', sample_order_row)]"
    and holds: "pd_holds db = [(''o1'', sample_hold)]"
    and free: "free_key ''paper-fill:f1'' db"
    by (simp_all add: sample_accepted_def sample_key_def)
  obtain v state where a: "aggregate_of db ''paper_order'' ''k'' = Inr (v, state)"
      "v = current_version (pd_store db) ''paper_order'' ''k''"
    using acc by (auto simp: sample_accepted_def)
  have path: "(paper_step sample_paper)\<^sup>*\<^sup>* empty_pdb db" and runs: "pd_runs db = [(''run'', sample_run_row Run_Active)]"
    and l: "pd_cash db = []" "pd_fills db = []" "pd_positions db = []"
    and arts: "artifact_content db ''b'' = Some []"
    using r by (simp_all add: sample_ready_def)
  have run: "configured_run db ''run'' = Some (sample_run_row Run_Active, [])" "run_policy (sample_run_row Run_Active) = ''p''"
    by (simp_all add: configured_run_def runs arts sample_run_row_def)
  obtain ledger where ledger: "book_ledger db sample_order_row sample_paper_fill = Inr ledger"
    using sample_fill_ledger [OF l(2) sample_order_facts(9,8)] by blast
  have causal: "fill_causal db sample_order_row sample_paper_fill = Inr ()"
    by (simp add: fill_causal_def book_fills_def l List.map_filter_def sample_order_facts)
  define rcd where "rcd = (stored_record sample_order_row)\<lparr>or_state := PARTIALLY_FILLED, or_filled_quantity := 1\<rparr>"
  have filled: "filled_record sample_order_row 1 = Inr rcd"
    by (simp add: filled_record_def order_transition_def stored_record_def stored_intent_def sample_order_facts
        sample_decimals truthy_def rcd_def Let_def)
  have rcd: "or_state rcd = PARTIALLY_FILLED" "or_filled_quantity rcd = 1" by (simp_all add: rcd_def)
  define db1 where "db1 = db\<lparr>pd_fills := [(''f'', \<lparr>fw_order = ''k'', fw_sequence = 1, fw_fill = sample_paper_fill, fw_asset = ''USD''\<rparr>)],
     pd_positions := [((''run'', ''V'', ''BTC-USD''), \<lparr>pn_quantity = position ledger, pn_currency = ''USD'',
       pn_realized = realized_pnl ledger\<rparr>)],
     pd_cash := post_cash ''c'' ''run'' ''f'' ''USD'' (cash_delta sample_order_row sample_paper_fill) 0 []\<rparr>"
  have w: "write_fill ''k'' sample_order_row sample_paper_fill ''USD'' ledger (sample_env ''f'') db = Inr db1"
    by (simp add: write_fill_def insert_row_def l sample_env_def sample_order_facts db1_def)
  define db2 where "db2 = db1\<lparr>pd_holds := [(''o1'', sample_filled_hold)]\<rparr>"
  have "hold_ok sample_filled_hold"
    by (simp add: sample_filled_hold_def converted_hold_def hold_ok_def sample_hold_facts sample_decimals)
  then have c: "convert_hold sample_order_row rcd db1 = Inr db2"
    by (simp add: convert_hold_def sample_order_facts db1_def holds rcd ddiv_def sample_decimals sample_hold_facts
        save_hold_def sample_filled_hold_def db2_def)
  define db3 where "db3 = db2\<lparr>pd_orders := [(''k'', sample_filled_row)]\<rparr>"
  have s: "save_order ''k'' (sample_order_row\<lparr>ord_state := or_state rcd, ord_filled := or_filled_quantity rcd\<rparr>) db2 = Inr db3"
    using sample_order_facts(13)
    by (simp add: save_order_def db3_def db2_def db1_def orders rcd sample_filled_row_def order_row_ok_def sample_order_facts)
  define state' where "state' = jset ''state'' (JStr ''PARTIALLY_FILLED'')
    (jset ''filled_quantity'' (JStr ''0'') (jset ''accounting_check'' (JStr ''PASS'') state))"
  have store: "pd_store db3 = pd_store db" by (simp add: db3_def db2_def db1_def)
  have key: "free_key ''paper-fill:f1'' db3" using free by (simp add: free_key_def store)
  obtain e st where ev: "paper_event sample_paper sample_worker ''paper'' ''paper_order'' ''k'' v state'
      ''PAPER_FILL_RECORDED'' ''paper-fill:f1'' ''run'' ''p'' [] ''paper.fill'' (sample_fresh_ids 0) db3
      = Inr (e, db3\<lparr>pd_store := st\<rparr>)"
    using paper_event_written [OF key worker_can(1), of "''paper_order''" "''k''" "''run''" "''p''" v "[]" sample_paper state'
        "''PAPER_FILL_RECORDED''" "''paper.fill''" "sample_fresh_ids 0"] a(2)
    by (auto simp: store)
  have event: "fill_event sample_paper sample_worker ''k'' sample_order_row (sample_run_row Run_Active) rcd
      sample_paper_fill (sample_env ''f'') db3 = Inr (e, db3\<lparr>pd_store := st\<rparr>)"
    using ev a(1) by (simp add: fill_event_def aggregate_of_def store rcd run sample_order_facts sample_env_def state'_def
        sample_paper_def)
  define db' where "db' = db3\<lparr>pd_store := st\<rparr>"
  have step: "record_fill sample_paper sample_worker ''k'' sample_paper_fill ''USD'' (sample_env ''f'') db = Inr (''f'', db')"
    using sample_fill_checked [OF sample_order_facts(1,2)] causal filled ledger w c s event
    by (simp add: record_fill_def worker_allowed l orders sample_order_facts run db'_def) (simp add: sample_env_def)
  then have "paper_step sample_paper db db'" by (rule paper_step.fill)
  with path have "(paper_step sample_paper)\<^sup>*\<^sup>* empty_pdb db'" by (rule rtranclp.rtrancl_into_rtrancl)
  moreover have "cash_delta sample_order_row sample_paper_fill = - 1001 / 10"
    by (simp add: cash_delta_def sample_order_facts side_sign_def decimal_eval)
  moreover have "pd_orders db' = [(''k'', sample_filled_row)]" "pd_holds db' = [(''o1'', sample_filled_hold)]"
      "pd_cash db' = post_cash ''c'' ''run'' ''f'' ''USD'' (cash_delta sample_order_row sample_paper_fill) 0 []"
    by (simp_all add: db'_def db3_def db2_def db1_def)
  ultimately show ?thesis using step
    by (intro exI [of _ db']) (simp add: post_cash_def cash_entries_def)
qed

definition sample_stop :: stop_request where
  "sample_stop = \<lparr>sq_scope = Scope_Global, sq_scope_id = None, sq_reason_code = ''drill'', sq_automatic = True,
     sq_policy_version = ''p''\<rparr>"

lemma sample_stop_simps [simp]:
  "sq_scope sample_stop = Scope_Global" "sq_scope_id sample_stop = None" "sq_automatic sample_stop"
  "sq_policy_version sample_stop = ''p''"
  by (simp_all add: sample_stop_def)



section \<open>Properties\<close>

text \<open>C8 In every history each paper order has exactly one reservation of its own run, whose
  working, position and released amounts are never negative and add up to the amount held at
  submission. The position amount is the filled share of it. An open order has released
  nothing, a filled one has no working amount left, a cancelled one has released all that no
  fill used.\<close>

theorem orders_backed:
  assumes "(paper_step P)\<^sup>*\<^sup>* empty_pdb db" and "dict_get (pd_orders db) k = Some x"
  shows "\<exists>r. dict_get (pd_holds db) (ord_reservation x) = Some r \<and> res_order r = Some k \<and> res_run r = ord_run x \<and>
    0 < res_original r \<and> 0 \<le> res_working r \<and> 0 \<le> res_position r \<and> 0 \<le> res_released r \<and>
    res_working r + res_position r + res_released r = res_original r \<and>
    res_position r = dmul (res_original r) (dround (ord_filled x / ord_quantity x)) \<and>
    (\<forall>j y. dict_get (pd_orders db) j = Some y \<and> ord_reservation y = ord_reservation x \<longrightarrow> j = k) \<and>
    (ord_state x \<in> {ACKNOWLEDGED, UNKNOWN_RECONCILING, PARTIALLY_FILLED} \<and> res_released r = 0 \<and>
       0 \<le> ord_filled x \<and> ord_filled x < ord_quantity x \<or>
     ord_state x = FILLED \<and> res_released r = 0 \<and> res_working r = 0 \<and> ord_filled x = ord_quantity x \<or>
     ord_state x = CANCELLED \<and> res_working r = 0 \<and> ord_filled x \<le> ord_quantity x)"
proof -
  have wf: "paper_wf db" by (rule paper_wf_history [OF assms(1)])
  obtain r where r: "dict_get (pd_holds db) (ord_reservation x) = Some r" and b: "booked k x r"
    using paper_wf_hold [OF wf assms(2)] by blast
  have one: "j = k" if "dict_get (pd_orders db) j = Some y" "ord_reservation y = ord_reservation x" for j y
    using paper_wf_booked [OF wf that(1)] that(2) r b by (simp add: booked_def)
  from b have "hold_ok r" "order_row_ok x" by (simp_all add: booked_def)
  then have h: "0 < res_original r \<and> 0 \<le> res_working r \<and> 0 \<le> res_position r \<and> 0 \<le> res_released r \<and>
      res_working r + res_position r + res_released r = res_original r"
      "0 < ord_quantity x \<and> 0 \<le> ord_filled x \<and> ord_filled x \<le> ord_quantity x"
    by (simp_all add: hold_ok_def order_row_ok_def)
  have "dround 1 = 1" by (simp add: dround_exact12)
  then have "res_position r = res_original r" if "ord_state x = FILLED"
    using b h(2) that by (simp add: booked_def dmul_def)
  with h(1) have full: "res_working r = 0" if "ord_state x = FILLED" using that by simp
  show ?thesis
    by (intro exI [of _ r]) (use r b h one full in \<open>auto simp: booked_def\<close>)
qed

theorem orders_backed_witness:
  "\<exists>(db :: nat pdb) r. dict_get (pd_orders db) ''k'' = Some sample_filled_row \<and> ord_filled sample_filled_row = 1 \<and>
     dict_get (pd_holds db) ''o1'' = Some r \<and> res_position r = 100 \<and> res_released r = 0 \<and>
     res_working r + res_position r + res_released r = res_original r"
proof -
  obtain db0 where "sample_accepted db0" using sample_submitted by blast
  from sample_fill_recorded [OF this] obtain db where path: "(paper_step sample_paper)\<^sup>*\<^sup>* empty_pdb db"
    and o: "dict_get (pd_orders db) ''k'' = Some sample_filled_row" and h: "dict_get (pd_holds db) ''o1'' = Some sample_filled_hold"
    by auto
  have x: "ord_reservation sample_filled_row = ''o1''" "ord_filled sample_filled_row = 1"
      "ord_state sample_filled_row = PARTIALLY_FILLED"
    by (simp_all add: sample_filled_row_def sample_order_facts)
  have "res_position sample_filled_hold = 100" by (simp add: sample_filled_hold_def converted_hold_def)
  with orders_backed [OF path o] x h o show ?thesis
    by (intro exI [of _ db] exI [of _ sample_filled_hold]) auto
qed



text \<open>C10 The live reservations of a pool of a run, added up as the service adds them, never exceed
  the portfolio limit of the envelope pinned when the run was started.\<close>

theorem pool_exposure_bounded:
  assumes "inj (pk_risk_json P)" and "(paper_step P)\<^sup>*\<^sup>* empty_pdb db"
    and "pinned_envelope P db run e" and "mk_risk_envelope e = Inr e"
  shows "pool_exposure db run pool \<le> re_max_portfolio_notional e"
  using within_limits_history [OF assms(1,2)] assms(3,4) unfolding within_limits_def by blast

theorem pool_exposure_bounded_witness:
  "\<exists>(db :: nat pdb). pool_exposure db ''run'' ''pool'' = 200 \<and> pool_exposure db ''run'' ''pool'' \<le> re_max_portfolio_notional sample_envelope"
proof -
  obtain db where acc: "sample_accepted db" using sample_submitted by blast
  then have r: "sample_ready Run_Active db" and h: "pd_holds db = [(''o1'', sample_hold)]" by (simp_all add: sample_accepted_def)
  have inj: "inj (pk_risk_json sample_paper)" using sample_risk_json_inj by (simp add: sample_paper_def)
  have path: "(paper_step sample_paper)\<^sup>*\<^sup>* empty_pdb db" using r by (simp add: sample_ready_def)
  have pinned: "pinned_envelope sample_paper db ''run'' sample_envelope"
    using r by (simp add: sample_ready_def pinned_envelope_def sample_run_row_def sample_paper_def)
  have "pool_exposure db ''run'' ''pool'' = 200"
    by (simp add: pool_exposure_def pool_rows_def h sample_hold_def new_hold_def sample_reservation_def live_amount_def
        Decimals.dsum_def decimal_eval)
  with pool_exposure_bounded [OF inj path pinned, of "''pool''"] show ?thesis
    by (intro exI [of _ db]) (simp add: mk_risk_envelope_def)
qed



text \<open>The premise on the start of the transactions is needed: \<open>now()\<close> is the start of a transaction,
  and a worker may start before another and get the lock after it. Then the fill is booked but
  the balance the next one continues from does not move.\<close>

theorem late_start_loses_cash:
  assumes "List.find (\<lambda>(_, e). pf_external_fill_key (fw_fill e) = pf_external_fill_key f) (pd_fills db) = None"
    and "record_fill P actor order f currency env db = Inr (k, db')" and "dict_get (pd_orders db) order = Some x"
    and "c \<in> set (cash_entries (pd_cash db) (ord_run x) currency)" and "pe_started env < ch_created c"
  shows "length (pd_cash db') = length (pd_cash db) + 1 \<and>
    cash_balance (pd_cash db') (ord_run x) currency = cash_balance (pd_cash db) (ord_run x) currency"
  using record_fill_new [OF assms(1,2)]
proof (rule applied_fillE)
  fix y i and row :: "string \<times> fill_row"
  assume y: "dict_get (pd_orders db) order = Some y"
    and c: "pd_cash db' = post_cash i (ord_run y) (fst row) currency (cash_delta y f) (pe_started env) (pd_cash db)"
  with assms(3) have "y = x" by simp
  with c have p: "pd_cash db' = post_cash i (ord_run x) (fst row) currency (cash_delta x f) (pe_started env) (pd_cash db)"
    by simp
  have "length (pd_cash db') = length (pd_cash db) + 1" unfolding p by (simp add: post_cash_def)
  moreover have "cash_balance (pd_cash db') (ord_run x) currency = cash_balance (pd_cash db) (ord_run x) currency"
    unfolding p by (rule cash_balance_late [OF assms(4,5)])
  ultimately show ?thesis by simp
qed
section \<open>The fill of a third\<close>





section \<open>Retries\<close>

lemma find_later: "List.find p xs = Some y \<Longrightarrow> List.find p (xs @ ys) = Some y"
  by (induction xs) (auto split: if_splits)

lemma find_new: "List.find p xs = None \<Longrightarrow> p y \<Longrightarrow> List.find p (xs @ [y]) = Some y"
  by (induction xs) (auto split: if_splits)

lemma find_client_fixed:
  "List.find (\<lambda>(_, x). ord_client_id x = c) (fixed_orders db) =
     map_option (\<lambda>(k, x). (k, fixed_columns x)) (List.find (\<lambda>(_, x). ord_client_id x = c) (pd_orders db))"
proof -
  have "List.find (\<lambda>(_, x). ord_client_id x = c) (map (\<lambda>(k, x). (k, fixed_columns x)) d) =
     map_option (\<lambda>(k, x). (k, fixed_columns x)) (List.find (\<lambda>(_, x). ord_client_id x = c) d)" for d :: "(string \<times> order_row) list"
    by (induction d) (auto simp: fixed_columns_def)
  then show ?thesis by (simp add: fixed_orders_def)
qed

lemma submitted_found:
  assumes "submit P actor run i spec snap e pool env db = Inr (k, db')"
  shows "\<exists>x. List.find (\<lambda>(_, x). ord_client_id x = oi_client_order_id i) (pd_orders db') = Some (k, x) \<and> ord_intent x = i"
proof (cases "List.find (\<lambda>(_, x). ord_client_id x = oi_client_order_id i) (pd_orders db)")
  case (Some p)
  with submit_replay [OF _ assms] show ?thesis by (cases p) auto
next
  case None
  from submit_new [OF None assms] obtain rv where o: "pd_orders db' = pd_orders db @ [(k, new_paper_order run i rv)]"
    unfolding placed_order_def by auto
  have "ord_client_id (new_paper_order run i rv) = oi_client_order_id i" "ord_intent (new_paper_order run i rv) = i"
    by (simp_all add: new_paper_order_def)
  with find_new [OF None, of "(k, new_paper_order run i rv)"] o show ?thesis by simp
qed

lemma find_client_kept:
  assumes "kept db db'" and "List.find (\<lambda>(_, x). ord_client_id x = c) (pd_orders db) = Some (k, x)"
  shows "\<exists>y. List.find (\<lambda>(_, x). ord_client_id x = c) (pd_orders db') = Some (k, y) \<and> ord_intent y = ord_intent x"
proof -
  obtain xs where "fixed_orders db' = fixed_orders db @ xs" using assms(1) unfolding kept_def by blast
  moreover have "List.find (\<lambda>(_, x). ord_client_id x = c) (fixed_orders db) = Some (k, fixed_columns x)"
    using assms(2) by (simp add: find_client_fixed)
  ultimately have "List.find (\<lambda>(_, x). ord_client_id x = c) (fixed_orders db') = Some (k, fixed_columns x)"
    by (simp add: find_later)
  then obtain y where "List.find (\<lambda>(_, x). ord_client_id x = c) (pd_orders db') = Some (k, y)" "fixed_columns y = fixed_columns x"
    by (auto simp: find_client_fixed)
  moreover have "ord_intent z = ord_intent (fixed_columns z)" for z by (simp add: fixed_columns_def)
  ultimately show ?thesis by metis
qed

text \<open>C20 A submission is idempotent for the whole history: whatever was done since, the same intent
  returns the order it was given first and changes nothing, whatever the run is asked for and
  whatever the arguments are; another intent under the same client order id is refused.\<close>

theorem retried_submit:
  assumes "(paper_step P)\<^sup>*\<^sup>* empty_pdb db" and "submit P actor run i spec snap e pool env db = Inr (k, db1)"
    and "(paper_step P)\<^sup>*\<^sup>* db1 db2"
    and "require_capability actor' ''paper'' = Inr ()" and "oi_client_order_id i' = oi_client_order_id i"
  shows "submit P actor' run' i' spec' snap' e' pool' env' db2 =
    (if i' = i then Inr (k, db2) else Inl (DomainError ''IDEMPOTENCY_CONFLICT''))"
proof -
  have "(paper_step P)\<^sup>*\<^sup>* empty_pdb db1" using assms(1) paper_step.submit [OF assms(2)] by simp
  with assms(3) have "kept db1 db2" by (rule kept_later)
  from submitted_found [OF assms(2)] find_client_kept [OF this] obtain y where
    "List.find (\<lambda>(_, x). ord_client_id x = oi_client_order_id i) (pd_orders db2) = Some (k, y)" "ord_intent y = i" by metis
  then show ?thesis using assms(4,5) by (simp add: submit_def)
qed

theorem retried_submit_witness:
  "\<exists>(db :: nat pdb). pd_orders db = [(''k'', sample_filled_row)] \<and>
     submit sample_paper sample_worker ''run'' sample_intent sample_spec sample_snapshot sample_envelope ''pool''
       (sample_env ''z'') db = Inr (''k'', db)"
proof -
  obtain db db1 where r: "sample_ready Run_Active db" and s: "submit sample_paper sample_worker ''run'' sample_intent
      sample_spec sample_snapshot sample_envelope ''pool'' (sample_env ''k'') db = Inr (''k'', db1)"
    and "sample_accepted db1" using sample_submitted by blast
  from sample_fill_recorded [OF this(3)] obtain db2 where f: "record_fill sample_paper sample_worker ''k'' sample_paper_fill ''USD''
      (sample_env ''f'') db1 = Inr (''f'', db2)" and o2: "pd_orders db2 = [(''k'', sample_filled_row)]" by blast
  have path: "(paper_step sample_paper)\<^sup>*\<^sup>* empty_pdb db" "(paper_step sample_paper)\<^sup>*\<^sup>* db1 db2"
    using r paper_step.fill [OF f] by (simp_all add: sample_ready_def)
  from retried_submit [OF path(1) s path(2) worker_allowed refl] o2 show ?thesis
    by (intro exI [of _ db2]) simp
qed

end
